(* ===== verification/Ssc_Prelude.thy ===== *)
theory Ssc_Prelude
  imports Main "HOL-Library.Word"
begin

text \<open>
  Shared vocabulary of the development.

  \<^item> \<open>crash\<close> and \<open>'a res\<close>: what a C statement can do besides returning a value. A dereference of
    \<open>NULL\<close>, an access to freed memory, a second \<open>free\<close>, a failed \<open>assert\<close>, a read of an
    uninitialized variable and a loop that never ends are values, so that "does not crash" is a statement about the model and not an assumption.
  \<^item> \<open>andthen\<close> sequences such statements; \<open>ok m Q\<close> says that \<open>m\<close> returns and its value satisfies
    \<open>Q\<close>, \<open>if_returns m Q\<close> that its value satisfies \<open>Q\<close> if it returns. The rules for both compute
    weakest preconditions by simplification.
  \<^item> the C string functions the sources use (\<open>strcasecmp\<close>, \<open>strchr\<close>, \<open>strstr\<close>, \<open>strncpy\<close>) on
    strings without NUL, and the \<open>printf\<close> conversions \<open>%d\<close>, \<open>%03d\<close> and \<open>%s\<close>.
\<close>

section \<open>Results of C statements\<close>

datatype crash = Null_deref | Use_after_free | Double_free | Out_of_bounds | Assert_failed | No_return | Uninit_read
  | Wrong_member

type_synonym 'a res = "crash + 'a"

definition andthen :: "'e + 'a \<Rightarrow> ('a \<Rightarrow> 'e + 'b) \<Rightarrow> 'e + 'b" where
  "andthen m f = (case m of Inl e \<Rightarrow> Inl e | Inr x \<Rightarrow> f x)"

definition ok :: "'e + 'a \<Rightarrow> ('a \<Rightarrow> bool) \<Rightarrow> bool" where
  "ok m Q \<longleftrightarrow> (case m of Inl _ \<Rightarrow> False | Inr x \<Rightarrow> Q x)"

text \<open>A loop over a linked structure is a \<open>partial_function (option)\<close>; \<open>None\<close> is "never returns".\<close>

definition returns :: "'a res option \<Rightarrow> 'a res" where
  "returns r = (case r of None \<Rightarrow> Inl No_return | Some m \<Rightarrow> m)"

lemma andthen_simps [simp]:
  "andthen (Inl e) f = Inl e"
  "andthen (Inr x) f = f x"
  by (simp_all add: andthen_def)

lemma returns_simps [simp]:
  "returns None = Inl No_return"
  "returns (Some m) = m"
  by (simp_all add: returns_def)

lemma andthen_assoc: "andthen (andthen m f) g = andthen m (\<lambda>x. andthen (f x) g)"
  by (cases m) simp_all

lemma andthen_eq_Inr: "andthen m f = Inr y \<longleftrightarrow> (\<exists>x. m = Inr x \<and> f x = Inr y)"
  by (cases m) simp_all

lemma ok_simps [simp]:
  "ok (Inl e) Q = False"
  "ok (Inr x) Q = Q x"
  "ok (andthen m f) Q = ok m (\<lambda>x. ok (f x) Q)"
  by (simp_all add: ok_def andthen_def split: sum.split)

lemma ok_if [simp]: "ok (if b then m else n) Q = (if b then ok m Q else ok n Q)"
  by simp

lemma ok_case_prod [simp]: "ok (case p of (a, b) \<Rightarrow> f a b) Q = (case p of (a, b) \<Rightarrow> ok (f a b) Q)"
  by (simp split: prod.split)

lemma ok_case_option [simp]:
  "ok (case x of None \<Rightarrow> m | Some y \<Rightarrow> f y) Q = (case x of None \<Rightarrow> ok m Q | Some y \<Rightarrow> ok (f y) Q)"
  by (simp split: option.split)

lemma ok_iff: "ok m Q \<longleftrightarrow> (\<exists>x. m = Inr x \<and> Q x)"
  by (cases m) simp_all

lemma ok_mono: "ok m P \<Longrightarrow> (\<And>x. P x \<Longrightarrow> Q x) \<Longrightarrow> ok m Q"
  by (cases m) simp_all

lemma ok_conj: "ok m P \<Longrightarrow> ok m Q \<Longrightarrow> ok m (\<lambda>x. P x \<and> Q x)"
  by (cases m) simp_all

lemma ok_andthenI: "ok m P \<Longrightarrow> (\<And>x. P x \<Longrightarrow> ok (f x) Q) \<Longrightarrow> ok (andthen m f) Q"
  by (cases m) simp_all

lemma ok_returns: "ok (returns r) Q \<longleftrightarrow> (\<exists>x. r = Some (Inr x) \<and> Q x)"
  by (cases r) (auto simp: ok_iff)

text \<open>Partial correctness: what holds of the result if there is one.\<close>

definition if_returns :: "'e + 'a \<Rightarrow> ('a \<Rightarrow> bool) \<Rightarrow> bool" where
  "if_returns m Q \<longleftrightarrow> (\<forall>x. m = Inr x \<longrightarrow> Q x)"

lemma if_returns_simps [simp]:
  "if_returns (Inl e) Q" "if_returns (Inr x) Q = Q x"
  "if_returns (andthen m f) Q = if_returns m (\<lambda>x. if_returns (f x) Q)"
  by (auto simp: if_returns_def andthen_eq_Inr)

lemma if_returns_split [simp]:
  "if_returns (if b then m else n) Q = (if b then if_returns m Q else if_returns n Q)"
  "if_returns (case x of None \<Rightarrow> m | Some y \<Rightarrow> f y) Q
     = (case x of None \<Rightarrow> if_returns m Q | Some y \<Rightarrow> if_returns (f y) Q)"
  "if_returns (case p of (a, b) \<Rightarrow> g a b) Q = (case p of (a, b) \<Rightarrow> if_returns (g a b) Q)"
  by (simp_all split: option.split prod.split)

lemma ok_if_returns: "ok m Q \<Longrightarrow> if_returns m Q"
  by (auto simp: if_returns_def ok_iff)

lemma if_returns_all: "(\<And>x. Q x) \<Longrightarrow> if_returns m Q"
  by (simp add: if_returns_def)

lemma if_returns_mono: "if_returns m P \<Longrightarrow> (\<And>x. P x \<Longrightarrow> Q x) \<Longrightarrow> if_returns m Q"
  by (auto simp: if_returns_def)

lemma if_returns_andthenI:
  "if_returns m P \<Longrightarrow> (\<And>x. P x \<Longrightarrow> if_returns (f x) Q) \<Longrightarrow> if_returns (andthen m f) Q"
  by (auto simp: if_returns_def andthen_eq_Inr)

lemma if_returns_bindI: "(\<And>x. m = Inr x \<Longrightarrow> if_returns (f x) Q) \<Longrightarrow> if_returns (andthen m f) Q"
  by (auto simp: if_returns_def andthen_eq_Inr)

lemma andthen_cong [fundef_cong]:
  "m = m' \<Longrightarrow> (\<And>x. m' = Inr x \<Longrightarrow> f x = g x) \<Longrightarrow> andthen m f = andthen m' g"
  by (cases m') simp_all

section \<open>C strings\<close>

text \<open>A C string is the list of its characters before the terminating NUL.\<close>

definition c_tolower :: "char \<Rightarrow> char" where
  "c_tolower c = (let n = of_char c :: nat in if 65 \<le> n \<and> n \<le> 90 then char_of (n + 32) else c)"

definition strcasecmp_eq :: "string \<Rightarrow> string \<Rightarrow> bool" where
  "strcasecmp_eq a b \<longleftrightarrow> map c_tolower a = map c_tolower b"

definition strncasecmp_eq :: "string \<Rightarrow> string \<Rightarrow> nat \<Rightarrow> bool" where
  "strncasecmp_eq a b n \<longleftrightarrow> strcasecmp_eq (take n a) (take n b)"

text \<open>\<open>strstr\<close> and \<open>strchr\<close> as a split: the text before the first occurrence, and from it on.\<close>

fun strstr_split :: "string \<Rightarrow> string \<Rightarrow> (string \<times> string) option" where
  "strstr_split pat [] = (if pat = [] then Some ([], []) else None)"
| "strstr_split pat (c # cs) =
     (if take (length pat) (c # cs) = pat then Some ([], c # cs)
      else map_option (\<lambda>(a, b). (c # a, b)) (strstr_split pat cs))"

definition strchr_split :: "char \<Rightarrow> string \<Rightarrow> (string \<times> string) option" where
  "strchr_split c s = (if c \<in> set s then Some (takeWhile (\<lambda>x. x \<noteq> c) s, dropWhile (\<lambda>x. x \<noteq> c) s)
                       else None)"

lemma strstr_split_Some:
  "strstr_split pat s = Some (a, b) \<Longrightarrow> s = a @ b \<and> take (length pat) b = pat"
  by (induction s arbitrary: a) (auto split: if_splits)

lemma takeWhile_neq: "x \<notin> set xs \<Longrightarrow> takeWhile (\<lambda>y. y \<noteq> x) xs = xs"
  by (induction xs) auto

lemma strchr_split_Some:
  "strchr_split c s = Some (a, b) \<Longrightarrow> s = a @ b \<and> c \<notin> set a \<and> (\<exists>b'. b = c # b')"
  by (auto simp: strchr_split_def split: if_splits dest: set_takeWhileD
           simp flip: takeWhile_dropWhile_id)
     (metis (mono_tags, lifting) dropWhile_eq_Nil_conv hd_dropWhile list.collapse)

section \<open>Output conversions\<close>

text \<open>\<open>%s\<close> of a null pointer prints \<open>(null)\<close>, as glibc does.\<close>

definition pstr :: "string option \<Rightarrow> string" where
  "pstr s = (case s of None \<Rightarrow> ''(null)'' | Some t \<Rightarrow> t)"

lemma pstr_Some [simp]: "pstr (Some t) = t"
  by (simp add: pstr_def)

text \<open>A formatted message as the list of its pieces: literal text and converted arguments in order.\<close>

definition fmt :: "string list \<Rightarrow> string" where
  "fmt ps = concat ps"

definition nl :: string where
  "nl = [CHR 0x0A]"

definition crnl :: string where
  "crnl = [CHR 0x0D, CHR 0x0A]"

definition tab :: string where
  "tab = [CHR 0x09]"

fun dec :: "nat \<Rightarrow> string" where
  "dec n = (if n < 10 then [char_of (48 + n)] else dec (n div 10) @ [char_of (48 + n mod 10)])"

declare dec.simps [simp del]

definition fmt_d :: "int \<Rightarrow> string" where
  "fmt_d i = (if i < 0 then ''-'' @ dec (nat (- i)) else dec (nat i))"

definition fmt_03d :: "int \<Rightarrow> string" where
  "fmt_03d i = (let d = dec (nat \<bar>i\<bar>); w = (if i < 0 then 2 else 3)
                in (if i < 0 then ''-'' else []) @ replicate (w - length d) (CHR ''0'') @ d)"

lemma length_fmt_03d: "3 \<le> length (fmt_03d i)"
  by (auto simp: fmt_03d_def Let_def)

end
