(* ===== verification/Sip_Escape.thy ===== *)
theory Sip_Escape
  imports Ssc_Prelude
begin

text \<open>
  The escaping layer of the SIP stack's URL module (\<open>url/url.c\<close>): the bit masks that say which
  characters must be escaped, \<open>url_reserved_p\<close>, \<open>url_esclen\<close>, \<open>url_escape\<close>,
  \<open>url_unescape_to\<close>, \<open>url_unescape\<close> and the three variants of the canonization of a URL component.

  A byte is a \<open>char\<close>, a C string is the list of its characters before NUL, and the three masks of the
  source are \<open>32 word\<close>s. A canonization that the source does in place works here from the text it reads
  to the text it leaves; \<open>None\<close> is its error return.
\<close>

unbundle bit_operations_syntax

section \<open>Excluded characters\<close>

type_synonym masks = "32 word \<times> 32 word \<times> 32 word"

definition RESERVED_MASK :: masks where
  "RESERVED_MASK = (0xbe19003f, 0x8000001e, 0x8000001d)"

definition URIC_MASK :: masks where
  "URIC_MASK = (0xb400000a, 0x0000001e, 0x8000001d)"

definition is_excluded :: "masks \<Rightarrow> char \<Rightarrow> bool" where
  "is_excluded m c =
     (let u = of_char c :: nat; (m32, m64, m96) = m in
      u \<le> 32 \<or> u \<ge> 127
      \<or> (if u < 64 then bit m32 (63 - u)
         else if u < 96 then bit m64 (95 - u)
         else bit m96 (127 - u)))"

definition reserve :: "char \<Rightarrow> masks \<Rightarrow> masks" where
  "reserve c m =
     (let r = of_char c :: nat; (m32, m64, m96) = m in
      if r < 32 then m
      else if r < 64 then (m32 OR push_bit (63 - r) 1, m64, m96)
      else if r < 96 then (m32, m64 OR push_bit (95 - r) 1, m96)
      else if r < 128 then (m32, m64, m96 OR push_bit (127 - r) 1)
      else m)"

definition allow :: "char \<Rightarrow> masks \<Rightarrow> masks" where
  "allow c m =
     (let a = of_char c :: nat; (m32, m64, m96) = m in
      if a < 32 then m
      else if a < 64 then (m32 AND NOT (push_bit (63 - a) 1), m64, m96)
      else if a < 96 then (m32, m64 AND NOT (push_bit (95 - a) 1), m96)
      else if a < 128 then (m32, m64, m96 AND NOT (push_bit (127 - a) 1))
      else m)"

definition masks_with_reserved :: "string option \<Rightarrow> masks" where
  "masks_with_reserved reserved =
     (case reserved of None \<Rightarrow> RESERVED_MASK | Some r \<Rightarrow> fold reserve r URIC_MASK)"

definition masks_with_allowed :: "string \<Rightarrow> masks" where
  "masks_with_allowed allowed = fold allow allowed RESERVED_MASK"

definition url_reserved_p :: "string option \<Rightarrow> bool" where
  "url_reserved_p s = (case s of None \<Rightarrow> False | Some t \<Rightarrow> list_ex (is_excluded RESERVED_MASK) t)"

section \<open>Escaping and unescaping\<close>

fun esclen_loop :: "masks \<Rightarrow> string \<Rightarrow> nat" where
  "esclen_loop m [] = 0"
| "esclen_loop m (u # s) = Suc (esclen_loop m s) + (if is_excluded m u then 2 else 0)"

definition url_esclen :: "string option \<Rightarrow> string option \<Rightarrow> nat" where
  "url_esclen s reserved =
     (case s of None \<Rightarrow> 0 | Some t \<Rightarrow> esclen_loop (masks_with_reserved reserved) t)"

definition url_hexify :: "nat \<Rightarrow> char" where
  "url_hexify u = char_of (u + 48 + (if u \<ge> 10 then 7 else 0))"

fun escape_loop :: "masks \<Rightarrow> string \<Rightarrow> string" where
  "escape_loop m [] = []"
| "escape_loop m (u # s) =
     (let n = of_char u :: nat in
      if is_excluded m u then CHR ''%'' # url_hexify (n div 16) # url_hexify (n mod 16) # escape_loop m s
      else u # escape_loop m s)"

definition url_escape :: "string option \<Rightarrow> string option \<Rightarrow> string" where
  "url_escape s reserved =
     (case s of None \<Rightarrow> [] | Some t \<Rightarrow> escape_loop (masks_with_reserved reserved) t)"

definition IS_HEX :: "char \<Rightarrow> bool" where
  "IS_HEX c = (let n = of_char c :: nat in
     (48 \<le> n \<and> n \<le> 57) \<or> (65 \<le> n \<and> n \<le> 70) \<or> (97 \<le> n \<and> n \<le> 102))"

definition UNHEX :: "char \<Rightarrow> nat" where
  "UNHEX c = (let n = of_char c :: nat in n - (if n \<ge> 97 then 87 else if n \<ge> 65 then 55 else 48))"

definition unhex2 :: "char \<Rightarrow> char \<Rightarrow> char" where
  "unhex2 h1 h2 = char_of (UNHEX h1 * 16 + UNHEX h2)"

fun unescape_loop :: "string \<Rightarrow> string" where
  "unescape_loop [] = []"
| "unescape_loop (c # s) =
     (case s of
        h1 # h2 # t \<Rightarrow>
          if c = CHR ''%'' \<and> IS_HEX h1 \<and> IS_HEX h2 then unhex2 h1 h2 # unescape_loop t
          else c # unescape_loop s
      | _ \<Rightarrow> c # unescape_loop s)"

text \<open>\<open>url_unescape_to\<close> reads at most \<open>n\<close> characters; the text before the first \<open>%\<close> is moved at once.\<close>

definition url_unescape_to :: "string option \<Rightarrow> nat \<Rightarrow> string" where
  "url_unescape_to s n =
     (case s of
        None \<Rightarrow> []
      | Some t \<Rightarrow>
          (let t = take n t; i = length (takeWhile (\<lambda>c. c \<noteq> CHR ''%'') t) in
           take i t @ unescape_loop (drop i t)))"

definition url_unescape :: "string \<Rightarrow> string" where
  "url_unescape s = url_unescape_to (Some s) (length s)"

section \<open>Canonization of a component\<close>

text \<open>
  The bit a character has in the \<open>syn33\<close> mask. The source shifts by \<open>c - 33\<close>, and C defines that shift
  only from 0 to 31; what the target machine gives for the other characters is the parameter \<open>shl\<close>.
\<close>

definition SYN33 :: "(int \<Rightarrow> 32 word) \<Rightarrow> char \<Rightarrow> 32 word" where
  "SYN33 shl c =
     (let k = int (of_char c) - 33 in if 0 \<le> k \<and> k < 32 then push_bit (nat k) 1 else shl k)"

definition is_syn33 :: "(int \<Rightarrow> 32 word) \<Rightarrow> 32 word \<Rightarrow> char \<Rightarrow> bool" where
  "is_syn33 shl syn33 c \<longleftrightarrow> syn33 AND SYN33 shl c \<noteq> 0"

text \<open>Hexadecimal digits are turned into upper case.\<close>

definition hex_upper :: "char \<Rightarrow> char" where
  "hex_upper h = (let n = of_char h :: nat in if n \<ge> 97 then char_of (n - 32) else h)"

fun canonize_loop :: "(char \<Rightarrow> bool) \<Rightarrow> masks \<Rightarrow> string \<Rightarrow> string option" where
  "canonize_loop syn m [] = Some []"
| "canonize_loop syn m (c # s) =
     (if c \<noteq> CHR ''%'' then
        if \<not> syn c \<and> is_excluded m c then None else map_option ((#) c) (canonize_loop syn m s)
      else
        (case s of
           h1 # h2 # t \<Rightarrow>
             if \<not> IS_HEX h1 \<or> \<not> IS_HEX h2 then None
             else if \<not> is_excluded m (unhex2 h1 h2) then map_option ((#) (unhex2 h1 h2)) (canonize_loop syn m t)
             else map_option (\<lambda>d. CHR ''%'' # hex_upper h1 # hex_upper h2 # d) (canonize_loop syn m t)
         | _ \<Rightarrow> None))"

text \<open>
  \<open>url_canonize2\<close> on a whole string: when it works in place (\<open>same\<close>: its destination is its source), the
  text before the first \<open>%\<close> is skipped. \<open>url_canonize3\<close> differs in not flagging excluded characters.
\<close>

definition url_canonize2 :: "(int \<Rightarrow> 32 word) \<Rightarrow> bool \<Rightarrow> string \<Rightarrow> 32 word \<Rightarrow> masks \<Rightarrow> string option" where
  "url_canonize2 shl same s syn33 m =
     (let i = (if same then length (takeWhile (\<lambda>c. c \<noteq> CHR ''%'') s) else 0) in
      map_option ((@) (take i s)) (canonize_loop (is_syn33 shl syn33) m (drop i s)))"

definition url_canonize :: "(int \<Rightarrow> 32 word) \<Rightarrow> bool \<Rightarrow> string \<Rightarrow> 32 word \<Rightarrow> string \<Rightarrow> string option" where
  "url_canonize shl same s syn33 allowed = url_canonize2 shl same s syn33 (masks_with_allowed allowed)"

definition url_canonize3 :: "bool \<Rightarrow> string \<Rightarrow> masks \<Rightarrow> string option" where
  "url_canonize3 same s m =
     (let i = (if same then length (takeWhile (\<lambda>c. c \<noteq> CHR ''%'') s) else 0) in
      map_option ((@) (take i s)) (canonize_loop (\<lambda>c. True) m (drop i s)))"

section \<open>What the masks say\<close>

text \<open>The characters a URL may hold unescaped: letters, digits and marks (the table of \<open>bnf/bnf.c\<close>).\<close>

definition IS_UNRESERVED :: "char \<Rightarrow> bool" where
  "IS_UNRESERVED c =
     (let n = of_char c :: nat in
      (48 \<le> n \<and> n \<le> 57) \<or> (65 \<le> n \<and> n \<le> 90) \<or> (97 \<le> n \<and> n \<le> 122)
      \<or> c \<in> set [CHR 0x21, CHR 0x27, CHR 0x28, CHR 0x29, CHR 0x2A, CHR 0x2D, CHR 0x2E, CHR 0x5F, CHR 0x7E])"

lemma below_32:
  assumes "k < 32"
    and "P 0" "P 1" "P 2" "P 3" "P 4" "P 5" "P 6" "P 7" "P 8" "P 9" "P 10" "P 11" "P 12" "P 13" "P 14" "P 15"
      "P 16" "P 17" "P 18" "P 19" "P 20" "P 21" "P 22" "P 23" "P 24" "P 25" "P 26" "P 27" "P 28" "P 29" "P 30" "P 31"
  shows "P (k::nat)"
proof -
  have "k \<in> {0,1,2,3,4,5,6,7,8,9,10,11,12,13,14,15,16,17,18,19,20,21,22,23,24,25,26,27,28,29,30,31}"
    using assms(1) by (simp; arith)
  then show ?thesis using assms by auto
qed

lemma mask_bits:
  "k < 32 \<Longrightarrow> bit (0xbe19003f :: 32 word) k = (k < 6 \<or> k \<in> {16, 19, 20, 25, 26, 27, 28, 29, 31})"
  "k < 32 \<Longrightarrow> bit (0x8000001e :: 32 word) k = (k \<in> {1, 2, 3, 4, 31})"
  "k < 32 \<Longrightarrow> bit (0x8000001d :: 32 word) k = (k \<in> {0, 2, 3, 4, 31})"
  "k < 32 \<Longrightarrow> bit (0xb400000a :: 32 word) k = (k \<in> {1, 3, 26, 28, 29, 31})"
  "k < 32 \<Longrightarrow> bit (0x0000001e :: 32 word) k = (k \<in> {1, 2, 3, 4})"
  by (erule below_32; simp add: bit_numeral_rec)+

lemma char_eq_code: "c = d \<longleftrightarrow> of_char c = (of_char d :: nat)"
  by simp

lemma mask_cases:
  "is_excluded (m32, m64, m96) c =
     (of_char c \<le> (32::nat) \<or> of_char c \<ge> (127::nat)
      \<or> (of_char c < (64::nat) \<and> bit m32 (63 - of_char c))
      \<or> ((64::nat) \<le> of_char c \<and> of_char c < (96::nat) \<and> bit m64 (95 - of_char c))
      \<or> ((96::nat) \<le> of_char c \<and> of_char c < (127::nat) \<and> bit m96 (127 - of_char c)))"
  by (auto simp: is_excluded_def Let_def)

lemma excluded_reserved: "is_excluded RESERVED_MASK c = (\<not> IS_UNRESERVED c)"
  unfolding is_excluded_def RESERVED_MASK_def IS_UNRESERVED_def Let_def prod.case set_simps insert_iff empty_iff
    char_eq_code [of c]
  apply (cases "(of_char c::nat) < 64"; cases "(of_char c::nat) < 96"; cases "(of_char c::nat) \<le> 32"; cases "(of_char c::nat) \<ge> 127")
  apply (simp_all add: mask_bits del: bit_numeral_word_iff)
  apply presburger+
  done

lemma excluded_uric:
  "is_excluded URIC_MASK c = (\<not> IS_UNRESERVED c \<and> c \<notin> set '';/?:@&=+$,'')"
  unfolding is_excluded_def URIC_MASK_def IS_UNRESERVED_def Let_def prod.case set_simps insert_iff empty_iff
    char_eq_code [of c]
  apply (cases "(of_char c::nat) < 64"; cases "(of_char c::nat) < 96"; cases "(of_char c::nat) \<le> 32"; cases "(of_char c::nat) \<ge> 127")
  apply (simp_all add: mask_bits del: bit_numeral_word_iff)
  apply presburger+
  done

lemma bit_set_clear:
  "j < 32 \<Longrightarrow> bit (m OR push_bit k 1 :: 32 word) j \<longleftrightarrow> bit m j \<or> j = k"
  "j < 32 \<Longrightarrow> bit (m AND NOT (push_bit k 1) :: 32 word) j \<longleftrightarrow> bit m j \<and> j \<noteq> k"
  by (auto simp: bit_or_iff bit_and_iff bit_not_iff bit_push_bit_iff bit_1_iff bit_exp_iff)

lemma bit_mirror:
  fixes m :: "32 word"
  assumes "u \<le> k" "r \<le> k" "k < u + 32"
  shows "bit (m OR push_bit (k - r) 1) (k - u) \<longleftrightarrow> bit m (k - u) \<or> u = r"
    "bit (m AND NOT (push_bit (k - r) 1)) (k - u) \<longleftrightarrow> bit m (k - u) \<and> u \<noteq> r"
  by (subst bit_set_clear; use assms in force)+

lemma is_excluded_reserve: "is_excluded (reserve r m) c \<longleftrightarrow> is_excluded m c \<or> c = r \<and> of_char c \<ge> (32::nat)"
proof -
  obtain a b d where m: "m = (a, b, d)" by (cases m)
  have e: "c = r \<longleftrightarrow> of_char c = (of_char r :: nat)" by simp
  obtain u where u: "of_char c = (u::nat)" by simp
  obtain v where v: "of_char r = (v::nat)" by simp
  have w: "u \<le> 32 \<or> 32 < u \<and> u < 64 \<or> 64 \<le> u \<and> u < 96 \<or> 96 \<le> u \<and> u < 127 \<or> 127 \<le> u" by linarith
  consider "v < 32" | "32 \<le> v" "v < 64" | "64 \<le> v" "v < 96" | "96 \<le> v" "v < 128" | "128 \<le> v" by linarith
  then show ?thesis unfolding e m is_excluded_def reserve_def Let_def prod.case u v
    by cases (use w in \<open>auto simp: bit_mirror simp del: push_bit_of_1\<close>)
qed

lemma clear_bit_0: "j < 32 \<Longrightarrow> bit (m AND - 2 :: 32 word) j \<longleftrightarrow> bit m j \<and> j \<noteq> 0"
  using bit_set_clear(2) [of j m 0] by simp

lemma is_excluded_allow:
  "is_excluded (allow r m) c \<longleftrightarrow> is_excluded m c \<and> (c = r \<longrightarrow> of_char c \<le> (32::nat) \<or> of_char c \<ge> (127::nat))"
proof -
  obtain a b d where m: "m = (a, b, d)" by (cases m)
  have e: "c = r \<longleftrightarrow> of_char c = (of_char r :: nat)" by simp
  obtain u where u: "of_char c = (u::nat)" by simp
  obtain v where v: "of_char r = (v::nat)" by simp
  have w: "u \<le> 32 \<or> 32 < u \<and> u < 64 \<or> 64 \<le> u \<and> u < 96 \<or> 96 \<le> u \<and> u < 127 \<or> 127 \<le> u" by linarith
  consider "v < 32" | "32 \<le> v" "v < 64" | "64 \<le> v" "v < 96" | "96 \<le> v" "v < 128" | "128 \<le> v" by linarith
  then show ?thesis unfolding e m is_excluded_def allow_def Let_def prod.case u v
    by cases (use w in \<open>auto simp: bit_mirror bit_set_clear clear_bit_0 simp del: push_bit_of_1\<close>)
qed

lemma excluded_ctl: "\<not> is_excluded m c \<Longrightarrow> (32::nat) \<le> of_char c"
  by (cases m) (simp add: is_excluded_def Let_def)

lemma excluded_masks_reserved:
  "is_excluded (masks_with_reserved (Some r)) c \<longleftrightarrow> is_excluded URIC_MASK c \<or> c \<in> set r"
proof -
  have "is_excluded (fold reserve r m) c \<longleftrightarrow> is_excluded m c \<or> c \<in> set r" for m
  proof (induction r arbitrary: m)
    case (Cons a r)
    then show ?case using excluded_ctl [of m a] by (auto simp: is_excluded_reserve)
  qed simp
  then show ?thesis by (simp add: masks_with_reserved_def)
qed

lemma excluded_masks_allowed:
  "is_excluded (masks_with_allowed a) c
     \<longleftrightarrow> is_excluded RESERVED_MASK c \<and> (c \<in> set a \<longrightarrow> of_char c \<le> (32::nat) \<or> of_char c \<ge> (127::nat))"
proof -
  have "is_excluded (fold allow r m) c
     \<longleftrightarrow> is_excluded m c \<and> (c \<in> set r \<longrightarrow> of_char c \<le> (32::nat) \<or> of_char c \<ge> (127::nat))" for r m
    by (induction r arbitrary: m) (auto simp: is_excluded_allow)
  then show ?thesis by (simp add: masks_with_allowed_def)
qed

lemma percent_excluded:
  "is_excluded (masks_with_reserved r) (CHR ''%'')" "is_excluded RESERVED_MASK (CHR ''%'')"
  "is_excluded URIC_MASK (CHR ''%'')" "CHR ''%'' \<notin> set a \<Longrightarrow> is_excluded (masks_with_allowed a) (CHR ''%'')"
proof -
  show "is_excluded RESERVED_MASK (CHR ''%'')" "is_excluded URIC_MASK (CHR ''%'')"
    by (simp_all add: excluded_reserved excluded_uric IS_UNRESERVED_def)
  then show "is_excluded (masks_with_reserved r) (CHR ''%'')"
    by (cases r) (simp_all add: excluded_masks_reserved, simp add: masks_with_reserved_def)
  show "CHR ''%'' \<notin> set a \<Longrightarrow> is_excluded (masks_with_allowed a) (CHR ''%'')"
    by (simp add: excluded_masks_allowed \<open>is_excluded RESERVED_MASK _\<close>)
qed

section \<open>Escaping\<close>

lemma hexify_code: "u < 16 \<Longrightarrow> of_char (url_hexify u) = (u + 48 + (if u \<ge> 10 then 7 else 0) :: nat)"
  by (simp add: url_hexify_def)

lemma hexify_hex: "u < 16 \<Longrightarrow> IS_HEX (url_hexify u)" "u < 16 \<Longrightarrow> UNHEX (url_hexify u) = u"
  "u < 16 \<Longrightarrow> IS_UNRESERVED (url_hexify u)"
  by (auto simp: IS_HEX_def UNHEX_def IS_UNRESERVED_def Let_def hexify_code)

lemma nibble [simp]: "of_char (c::char) div 16 < (16::nat)"
proof -
  have "of_char c < (256::nat)" by simp
  then show ?thesis by linarith
qed

lemma unhex2_hexify: "unhex2 (url_hexify (of_char c div 16)) (url_hexify (of_char c mod 16)) = c"
proof -
  have "of_char c div 16 * 16 + of_char c mod 16 = (of_char c :: nat)" by simp
  then show ?thesis by (simp add: unhex2_def hexify_hex)
qed

lemma unescape_plain: "c \<noteq> CHR ''%'' \<Longrightarrow> unescape_loop (c # s) = c # unescape_loop s"
  by (simp split: list.split)

lemma unescape_escape: "is_excluded m (CHR ''%'') \<Longrightarrow> unescape_loop (escape_loop m s) = s"
proof (induction s)
  case (Cons c s)
  show ?case
  proof (cases "is_excluded m c")
    case True
    then show ?thesis using Cons by (simp add: Let_def hexify_hex unhex2_hexify)
  next
    case False
    then have "c \<noteq> CHR ''%''" using Cons.prems by blast
    then show ?thesis using Cons False by (simp add: unescape_plain del: unescape_loop.simps(2))
  qed
qed simp

lemma unescape_prefix:
  "take (length (takeWhile (\<lambda>c. c \<noteq> CHR ''%'') t)) t
     @ unescape_loop (drop (length (takeWhile (\<lambda>c. c \<noteq> CHR ''%'') t)) t) = unescape_loop t"
  by (induction t) (auto simp: unescape_plain simp del: unescape_loop.simps(2))

lemma url_unescape_loop: "url_unescape s = unescape_loop s"
  unfolding url_unescape_def url_unescape_to_def Let_def option.case take_all [OF order_refl] unescape_prefix ..

lemma unescape_of_escape: "url_unescape (url_escape (Some s) reserved) = s"
  by (simp add: url_unescape_loop url_escape_def unescape_escape percent_excluded)

text \<open>
  Unescaping undoes escaping (C12). Whatever bytes the text holds and whatever characters the caller reserves,
  \<open>url_unescape\<close> gives back the text that \<open>url_escape\<close> was given.
\<close>

theorem unescape_escapes: "url_unescape (url_escape (Some s) reserved) = s"
  by (rule unescape_of_escape)

lemma escape_plain: "list_all (\<lambda>c. \<not> is_excluded m c) s \<Longrightarrow> escape_loop m s = s"
  by (induction s) (auto simp: Let_def)

lemma escape_length: "length (escape_loop m s) = esclen_loop m s"
  by (induction s) (auto simp: Let_def)

lemma escape_chars: "c \<in> set (escape_loop m s) \<Longrightarrow> c = CHR ''%'' \<or> IS_UNRESERVED c \<or> \<not> is_excluded m c"
  by (induction s) (auto simp: Let_def hexify_hex split: if_splits)

theorem escape_is_safe:
  "length (url_escape s reserved) = url_esclen s reserved"
  "list_all (\<lambda>c. c = CHR ''%'' \<or> IS_UNRESERVED c) (url_escape s None)"
  "\<not> url_reserved_p s \<Longrightarrow> url_escape s None = (case s of None \<Rightarrow> [] | Some t \<Rightarrow> t)"
proof -
  show "length (url_escape s reserved) = url_esclen s reserved"
    by (cases s) (simp_all add: url_escape_def url_esclen_def escape_length)
  show "list_all (\<lambda>c. c = CHR ''%'' \<or> IS_UNRESERVED c) (url_escape s None)"
    by (cases s) (auto simp: url_escape_def list_all_iff masks_with_reserved_def excluded_reserved dest!: escape_chars)
  show "\<not> url_reserved_p s \<Longrightarrow> url_escape s None = (case s of None \<Rightarrow> [] | Some t \<Rightarrow> t)"
    by (cases s) (auto simp: url_escape_def url_reserved_p_def masks_with_reserved_def list_ex_iff list_all_iff intro!: escape_plain)
qed

section \<open>Canonization\<close>

lemma hex_upper_code:
  "IS_HEX h \<Longrightarrow> of_char (hex_upper h) = (let n = of_char h in if n \<ge> 97 then n - 32 else n :: nat)"
proof -
  assume h: "IS_HEX h"
  obtain n where n: "of_char h = (n::nat)" by simp
  have "n \<le> 102" using h unfolding IS_HEX_def Let_def n by auto
  then have "(n - 32) mod 256 = n - 32" by simp
  then show ?thesis unfolding hex_upper_def Let_def n by (simp add: n)
qed

lemma hex_upper_hex:
  assumes "IS_HEX h"
  shows "IS_HEX (hex_upper h)" "UNHEX (hex_upper h) = UNHEX h" "hex_upper (hex_upper h) = hex_upper h"
    "IS_UNRESERVED (hex_upper h)"
proof -
  obtain n where n: "of_char h = (n::nat)" by simp
  have r: "(48 \<le> n \<and> n \<le> 57) \<or> (65 \<le> n \<and> n \<le> 70) \<or> (97 \<le> n \<and> n \<le> 102)"
    using assms by (simp add: IS_HEX_def n Let_def)
  have u: "of_char (hex_upper h) = (if n \<ge> 97 then n - 32 else n)"
    by (simp add: hex_upper_code [OF assms] n Let_def)
  show "IS_HEX (hex_upper h)" "IS_UNRESERVED (hex_upper h)"
    unfolding IS_HEX_def IS_UNRESERVED_def Let_def u using r by auto
  show "UNHEX (hex_upper h) = UNHEX h"
    unfolding UNHEX_def Let_def u n using r by auto
  show "hex_upper (hex_upper h) = hex_upper h"
    unfolding hex_upper_def [of "hex_upper h"] Let_def u using r by auto
qed

lemma canonize_cases:
  assumes "canonize_loop syn m s = Some d"
  obtains "s = []" "d = []"
  | c t e where "s = c # t" "c \<noteq> CHR ''%''" "syn c \<or> \<not> is_excluded m c" "canonize_loop syn m t = Some e" "d = c # e"
  | h1 h2 t e where "s = CHR ''%'' # h1 # h2 # t" "IS_HEX h1" "IS_HEX h2" "\<not> is_excluded m (unhex2 h1 h2)"
      "canonize_loop syn m t = Some e" "d = unhex2 h1 h2 # e"
  | h1 h2 t e where "s = CHR ''%'' # h1 # h2 # t" "IS_HEX h1" "IS_HEX h2" "is_excluded m (unhex2 h1 h2)"
      "canonize_loop syn m t = Some e" "d = CHR ''%'' # hex_upper h1 # hex_upper h2 # e"
  using assms by (cases s) (auto split: if_splits list.splits)

lemma canonize_plain: "c \<noteq> CHR ''%'' \<Longrightarrow> syn c \<or> \<not> is_excluded m c \<Longrightarrow>
    canonize_loop syn m (c # s) = map_option ((#) c) (canonize_loop syn m s)"
  by auto

lemma canonize_idem:
  "canonize_loop syn m s = Some d \<Longrightarrow> is_excluded m (CHR ''%'') \<Longrightarrow> canonize_loop syn m d = Some d"
proof (induction "length s" arbitrary: s d rule: less_induct)
  case less
  from less.prems(1) show ?case
  proof (cases rule: canonize_cases)
    case (2 c t e)
    then have "canonize_loop syn m e = Some e" using less.hyps [of t e] less.prems(2) by simp
    then show ?thesis using 2 by simp
  next
    case (3 h1 h2 t e)
    then have "unhex2 h1 h2 \<noteq> CHR ''%''" using less.prems(2) by metis
    moreover have "canonize_loop syn m e = Some e" using 3 less.hyps [of t e] less.prems(2) by simp
    ultimately show ?thesis using 3 by simp
  next
    case (4 h1 h2 t e)
    then have "canonize_loop syn m e = Some e" using less.hyps [of t e] less.prems(2) by simp
    moreover have "unhex2 (hex_upper h1) (hex_upper h2) = unhex2 h1 h2"
      by (simp add: unhex2_def hex_upper_hex 4)
    ultimately show ?thesis using 4 by (simp add: hex_upper_hex)
  qed simp
qed

lemma canonize_chars:
  "canonize_loop syn m s = Some d \<Longrightarrow> (\<And>h. IS_UNRESERVED h \<Longrightarrow> \<not> is_excluded m h) \<Longrightarrow>
     set d \<subseteq> set s \<union> {c. \<not> is_excluded m c}"
proof (induction "length s" arbitrary: s d rule: less_induct)
  case less
  from less.prems(1) show ?case
  proof (cases rule: canonize_cases)
    case (2 c t e)
    then have "set e \<subseteq> set t \<union> {c. \<not> is_excluded m c}" using less.hyps [of t e] less.prems(2) by simp
    then show ?thesis using 2 by auto
  next
    case (3 h1 h2 t e)
    then have "set e \<subseteq> set t \<union> {c. \<not> is_excluded m c}" using less.hyps [of t e] less.prems(2) by simp
    then show ?thesis using 3 by auto
  next
    case (4 h1 h2 t e)
    then have "set e \<subseteq> set t \<union> {c. \<not> is_excluded m c}" using less.hyps [of t e] less.prems(2) by simp
    moreover have "\<not> is_excluded m (hex_upper h1)" "\<not> is_excluded m (hex_upper h2)"
      using less.prems(2) 4 hex_upper_hex(4) by blast+
    ultimately show ?thesis using 4 by auto
  qed simp
qed

lemma canonize_skip:
  "CHR ''%'' \<notin> set q \<Longrightarrow> canonize_loop syn m (q @ r) = Some (q @ d) \<Longrightarrow> canonize_loop syn m r = Some d"
  by (induction q) (auto split: if_splits)

text \<open>What an in-place canonization does: \<open>canonize_loop\<close> from the first \<open>%\<close> on.\<close>

definition in_place :: "(char \<Rightarrow> bool) \<Rightarrow> masks \<Rightarrow> string \<Rightarrow> string option" where
  "in_place syn m s =
     map_option ((@) (takeWhile (\<lambda>c. c \<noteq> CHR ''%'') s)) (canonize_loop syn m (dropWhile (\<lambda>c. c \<noteq> CHR ''%'') s))"

lemma in_place_eqs:
  "url_canonize2 shl True s syn m = in_place (is_syn33 shl syn) m s"
  "url_canonize shl True s syn a = in_place (is_syn33 shl syn) (masks_with_allowed a) s"
  "url_canonize3 True s m = in_place (\<lambda>_. True) m s"
  by (simp_all add: url_canonize2_def url_canonize_def url_canonize3_def in_place_def
      flip: takeWhile_eq_take dropWhile_eq_drop)

lemma in_place_unchecked: "CHR ''%'' \<notin> set s \<Longrightarrow> in_place syn m s = Some s"
proof -
  assume "CHR ''%'' \<notin> set s"
  then have "takeWhile (\<lambda>c. c \<noteq> CHR ''%'') s = s" "dropWhile (\<lambda>c. c \<noteq> CHR ''%'') s = []"
    by (auto simp: takeWhile_eq_all_conv dropWhile_eq_Nil_conv)
  then show ?thesis unfolding in_place_def by (simp only: canonize_loop.simps option.map append_Nil2)
qed

lemma in_place_idem:
  assumes "in_place syn m s = Some d" "is_excluded m (CHR ''%'')"
  shows "in_place syn m d = Some d"
proof -
  let ?q = "\<lambda>c. c \<noteq> CHR ''%''"
  obtain e where e: "canonize_loop syn m (dropWhile ?q s) = Some e" "d = takeWhile ?q s @ e"
    using assms(1) by (auto simp: in_place_def)
  have "canonize_loop syn m (takeWhile ?q e @ dropWhile ?q e) = Some (takeWhile ?q e @ dropWhile ?q e)"
    using canonize_idem [OF e(1) assms(2)] by simp
  then have "canonize_loop syn m (dropWhile ?q e) = Some (dropWhile ?q e)"
    by (rule canonize_skip [rotated]) (auto dest: set_takeWhileD)
  moreover have "takeWhile ?q d = takeWhile ?q s @ takeWhile ?q e" "dropWhile ?q d = dropWhile ?q e"
    unfolding e(2) by (auto simp: takeWhile_append dropWhile_append dest: set_takeWhileD)
  ultimately show ?thesis using e(2) by (simp add: in_place_def)
qed

lemma in_place_chars:
  assumes "in_place syn m s = Some d" "\<And>h. IS_UNRESERVED h \<Longrightarrow> \<not> is_excluded m h"
  shows "set d \<subseteq> set s \<union> {c. \<not> is_excluded m c}"
proof -
  let ?q = "\<lambda>c. c \<noteq> CHR ''%''"
  obtain e where e: "canonize_loop syn m (dropWhile ?q s) = Some e" "d = takeWhile ?q s @ e"
    using assms(1) by (auto simp: in_place_def)
  have "set s = set (takeWhile ?q s) \<union> set (dropWhile ?q s)"
    by (metis set_append takeWhile_dropWhile_id)
  then show ?thesis using canonize_chars [OF e(1) assms(2)] e(2) by auto
qed

lemma in_place_hd:
  assumes "in_place syn m s = Some d"
  shows "(d = []) = (s = [])" "s \<noteq> [] \<Longrightarrow> hd d = hd s \<or> hd d = CHR ''%'' \<or> \<not> is_excluded m (hd d)"
proof -
  obtain e where e: "canonize_loop syn m (dropWhile (\<lambda>c. c \<noteq> CHR ''%'') s) = Some e"
      "d = takeWhile (\<lambda>c. c \<noteq> CHR ''%'') s @ e"
    using assms by (auto simp: in_place_def)
  show "(d = []) = (s = [])" "s \<noteq> [] \<Longrightarrow> hd d = hd s \<or> hd d = CHR ''%'' \<or> \<not> is_excluded m (hd d)"
    using e by (cases s; auto elim: canonize_cases)+
qed

text \<open>The character sets of the canonizations: what each leaves escaped.\<close>

lemma unreserved_allowed: "IS_UNRESERVED h \<Longrightarrow> \<not> is_excluded (masks_with_allowed a) h"
  "IS_UNRESERVED h \<Longrightarrow> \<not> is_excluded RESERVED_MASK h" "IS_UNRESERVED h \<Longrightarrow> \<not> is_excluded URIC_MASK h"
  by (simp_all add: excluded_masks_allowed excluded_reserved excluded_uric)

lemma url_canonize_idem:
  "url_canonize shl True s syn a = Some d \<Longrightarrow> CHR ''%'' \<notin> set a \<Longrightarrow> url_canonize shl True d syn a = Some d"
  "url_canonize2 shl True s syn RESERVED_MASK = Some d \<Longrightarrow> url_canonize2 shl True d syn RESERVED_MASK = Some d"
  "url_canonize3 True s RESERVED_MASK = Some d \<Longrightarrow> url_canonize3 True d RESERVED_MASK = Some d"
  "url_canonize2 shl True s syn URIC_MASK = Some d \<Longrightarrow> url_canonize2 shl True d syn URIC_MASK = Some d"
  by (auto simp: in_place_eqs percent_excluded intro!: in_place_idem)

end
