(* ===== verification/Sip_Url.thy ===== *)
theory Sip_Url
  imports Sip_Escape
begin

text \<open>
  URLs of the SIP stack (\<open>url/url.c\<close>, \<open>url.h\<close>): the structure \<open>url_t\<close>, the scheme table, parsing
  (\<open>_url_d\<close>, \<open>url_d\<close>), printing (\<open>url_e\<close>, \<open>url_len\<close>, \<open>URL_PRINT_ARGS\<close>) and \<open>url_sanitize\<close>.

  \<open>_url_d\<close> cuts its input in place: every field of the result is a piece of the input that ends where a
  NUL has been written over a delimiter. The pieces are disjoint, so the model keeps them as texts. Parsing
  returns \<open>None\<close> where the source returns -1.
\<close>

section \<open>The structure and its schemes\<close>

datatype url_type_e =
    url_invalid | url_unknown | url_any | url_sip | url_sips | url_tel | url_fax | url_modem | url_http
  | url_https | url_ftp | url_file | url_rtsp | url_rtspu | url_mailto | url_im | url_pres | url_cid
  | url_msrp | url_msrps | url_wv

text \<open>The value of the enumerator, which the source compares with \<open><=\<close> and \<open>>\<close>.\<close>

definition url_type_code :: "url_type_e \<Rightarrow> int" where
  "url_type_code ty =
     (case ty of url_invalid \<Rightarrow> -2 | url_unknown \<Rightarrow> -1 | url_any \<Rightarrow> 0 | url_sip \<Rightarrow> 1 | url_sips \<Rightarrow> 2
      | url_tel \<Rightarrow> 3 | url_fax \<Rightarrow> 4 | url_modem \<Rightarrow> 5 | url_http \<Rightarrow> 6 | url_https \<Rightarrow> 7 | url_ftp \<Rightarrow> 8
      | url_file \<Rightarrow> 9 | url_rtsp \<Rightarrow> 10 | url_rtspu \<Rightarrow> 11 | url_mailto \<Rightarrow> 12 | url_im \<Rightarrow> 13 | url_pres \<Rightarrow> 14
      | url_cid \<Rightarrow> 15 | url_msrp \<Rightarrow> 16 | url_msrps \<Rightarrow> 17 | url_wv \<Rightarrow> 18)"

record url_t =
  url_type :: url_type_e
  url_root :: bool
  url_scheme :: "string option"
  url_user :: "string option"
  url_password :: "string option"
  url_host :: "string option"
  url_port :: "string option"
  url_path :: "string option"
  url_params :: "string option"
  url_headers :: "string option"
  url_fragment :: "string option"

definition zero_url :: url_t where
  "zero_url = \<lparr>url_type = url_any, url_root = False, url_scheme = None, url_user = None, url_password = None,
     url_host = None, url_port = None, url_path = None, url_params = None, url_headers = None,
     url_fragment = None\<rparr>"

definition url_scheme_of :: "url_type_e \<Rightarrow> string option" where
  "url_scheme_of ty =
     (case ty of url_any \<Rightarrow> Some ''*'' | url_sip \<Rightarrow> Some ''sip'' | url_sips \<Rightarrow> Some ''sips''
      | url_tel \<Rightarrow> Some ''tel'' | url_fax \<Rightarrow> Some ''fax'' | url_modem \<Rightarrow> Some ''modem''
      | url_http \<Rightarrow> Some ''http'' | url_https \<Rightarrow> Some ''https'' | url_ftp \<Rightarrow> Some ''ftp''
      | url_file \<Rightarrow> Some ''file'' | url_rtsp \<Rightarrow> Some ''rtsp'' | url_rtspu \<Rightarrow> Some ''rtspu''
      | url_mailto \<Rightarrow> Some ''mailto'' | url_im \<Rightarrow> Some ''im'' | url_pres \<Rightarrow> Some ''pres''
      | url_cid \<Rightarrow> Some ''cid'' | url_msrp \<Rightarrow> Some ''msrp'' | url_msrps \<Rightarrow> Some ''msrps''
      | url_wv \<Rightarrow> Some ''wv'' | url_unknown \<Rightarrow> None | url_invalid \<Rightarrow> None)"

definition url_type_is_opaque :: "url_type_e \<Rightarrow> bool" where
  "url_type_is_opaque ty \<longleftrightarrow> ty \<in> {url_invalid, url_tel, url_modem, url_fax, url_cid}"

text \<open>\<open>url_init\<close>: a cleared structure of a given type, with the scheme of a known type.\<close>

definition url_init :: "url_type_e \<Rightarrow> url_t" where
  "url_init ty =
     (let u = zero_url\<lparr>url_type := ty\<rparr> in
      if url_type_code ty > url_type_code url_unknown then
        (case url_scheme_of ty of None \<Rightarrow> u | Some sch \<Rightarrow> u\<lparr>url_scheme := Some sch\<rparr>)
      else u)"

definition span_unreserved :: "string \<Rightarrow> nat" where
  "span_unreserved s = length (takeWhile IS_UNRESERVED s)"

text \<open>The schemes in the order of the tests; each test compares the length and then the letters.\<close>

definition test_schemes :: "(string \<times> url_type_e) list" where
  "test_schemes =
     [(''cid'', url_cid), (''ftp'', url_ftp), (''file'', url_file), (''fax'', url_fax), (''http'', url_http),
      (''https'', url_https), (''im'', url_im), (''mailto'', url_mailto), (''modem'', url_modem),
      (''msrp'', url_msrp), (''msrps'', url_msrps), (''pres'', url_pres), (''rtsp'', url_rtsp),
      (''rtspu'', url_rtspu), (''sip'', url_sip), (''sips'', url_sips), (''tel'', url_tel), (''wv'', url_wv)]"

definition url_get_type :: "string \<Rightarrow> url_type_e" where
  "url_get_type scheme =
     (if scheme = ''*'' then url_any
      else
        (case List.find (\<lambda>(t, _). length scheme = length t \<and> strncasecmp_eq scheme t (length scheme)) test_schemes of
           Some (_, ty) \<Rightarrow> ty
         | None \<Rightarrow> if length scheme \<noteq> span_unreserved scheme then url_invalid else url_unknown))"

section \<open>Parsing\<close>

definition strcspn :: "string \<Rightarrow> string \<Rightarrow> nat" where
  "strcspn s reject = length (takeWhile (\<lambda>c. c \<notin> set reject) s)"

text \<open>The character at a position of a C string; NUL at its end.\<close>

definition char_at :: "string \<Rightarrow> nat \<Rightarrow> char" where
  "char_at s n = (if n < length s then s ! n else CHR 0x00)"

text \<open>Where the user part and the host part are, and how many characters of \<open>s\<close> they take.\<close>

definition sip_authority :: "string \<Rightarrow> string option \<times> string option \<times> nat" where
  "sip_authority s =
     (let n = strcspn s ''@/;?#''; p = strcspn (drop n s) ''@'' in
      if char_at s (n + p) = CHR ''@'' then
        (let n = n + p; m = n + strcspn (drop n s) ''/;?#'' in (Some (take n s), Some (drop (n + 1) (take m s)), m))
      else
        (let m = n + strcspn (drop n s) ''/;?#'' in (None, Some (take m s), m)))"

definition wv_authority :: "string \<Rightarrow> string option \<times> string option \<times> nat" where
  "wv_authority s =
     (let n = strcspn s ''@#?;'' in
      if char_at s n = CHR ''@'' then
        (let m = n + strcspn (drop n s) '';?#'' in (Some (take n s), Some (drop (n + 1) (take m s)), m))
      else (None, Some (take n s), n))"

definition common_authority :: "string \<Rightarrow> string \<Rightarrow> string option \<times> string option \<times> nat" where
  "common_authority reject s =
     (let n = strcspn s reject; m = n + strcspn (drop n s) '';/?#'' in
      if char_at s n = CHR ''@'' then (Some (take n s), Some (drop (n + 1) (take m s)), m)
      else (None, Some (take m s), m))"

definition split_authority ::
  "url_type_e \<Rightarrow> string \<Rightarrow> bool \<times> string option \<times> string option \<times> string \<times> nat" where
  "split_authority ty s =
     (if ty = url_sip \<or> ty = url_sips then
        (let (user, host, n) = sip_authority s in (False, user, host, s, n))
      else if \<not> url_type_is_opaque ty then
        (if ty = url_wv then (let (user, host, n) = wv_authority s in (False, user, host, s, n))
         else if char_at s 0 = CHR ''/'' \<and> char_at s 1 \<noteq> CHR ''/'' then (True, None, None, s, 0)
         else if char_at s 0 = CHR ''/'' \<and> char_at s 1 = CHR ''/'' then
           (let s = drop 2 s; (user, host, n) = common_authority ''/?#@[]'' s in (True, user, host, s, n))
         else (let (user, host, n) = common_authority ''@;/?#'' s in (False, user, host, s, n)))
      else
        (let n = (if ty \<noteq> url_invalid then strcspn s ''/;?#'' else strcspn s ''#'') in
         (False, Some (take n s), None, s, n)))"

definition split_user :: "url_type_e \<Rightarrow> string option \<Rightarrow> url_t \<Rightarrow> url_t" where
  "split_user ty user url =
     (case user of
        None \<Rightarrow> url
      | Some t \<Rightarrow>
          if ty \<noteq> url_unknown then
            (let n = strcspn t '':'' in
             if n < length t then url\<lparr>url_user := Some (take n t), url_password := Some (drop (n + 1) t)\<rparr>
             else url\<lparr>url_user := Some t\<rparr>)
          else url\<lparr>url_user := Some t\<rparr>)"

definition checks_port :: "url_type_e \<Rightarrow> bool" where
  "checks_port ty \<longleftrightarrow> ty \<in> {url_any, url_sip, url_sips, url_http, url_https, url_ftp, url_file, url_rtsp, url_rtspu}"

definition is_digit_char :: "char \<Rightarrow> bool" where
  "is_digit_char c = (let n = of_char c :: nat in 48 \<le> n \<and> n \<le> 57)"

definition port_ok :: "string \<Rightarrow> bool" where
  "port_ok port = (let p = dropWhile is_digit_char port in
     if length p \<noteq> length port then p = [] else p = [] \<or> p = ''*'')"

definition split_host :: "(int \<Rightarrow> 32 word) \<Rightarrow> url_type_e \<Rightarrow> string option \<Rightarrow> url_t \<Rightarrow> url_t option" where
  "split_host shl ty host url =
     (case host of
        None \<Rightarrow> Some url
      | Some h \<Rightarrow>
          (let n = (if char_at h 0 = CHR ''['' then
                      (let k = strcspn h '']'' in
                       if k < length h \<and> (char_at h (k + 1) = CHR 0x00 \<or> char_at h (k + 1) = CHR '':'') then k + 1 else 0)
                    else strcspn h '':'') in
           if n = 0 \<and> ty \<in> {url_sip, url_sips, url_im, url_pres} then None
           else if char_at h n = CHR '':'' then
             (let url = url\<lparr>url_host := Some (take n h)\<rparr>; port = drop (n + 1) h in
              if checks_port ty then
                (case url_canonize2 shl True port 0 RESERVED_MASK of
                   None \<Rightarrow> None
                 | Some p \<Rightarrow> if port_ok p then Some (url\<lparr>url_port := Some p\<rparr>) else None)
              else Some (url\<lparr>url_port := Some port\<rparr>))
           else Some (url\<lparr>url_host := Some h\<rparr>)))"

text \<open>The rest of the URL from a delimiter on: path, parameters, headers and fragment.\<close>

definition split_at :: "string \<Rightarrow> string \<Rightarrow> string \<times> string" where
  "split_at reject s = (let n = strcspn s reject in (take n s, drop n s))"

definition split_rest :: "string \<Rightarrow> url_t \<Rightarrow> url_t option" where
  "split_rest r url =
     (let (url, r) = (if char_at r 0 = CHR ''/'' then
                        (let (a, r) = split_at ''?#'' (tl r) in (url\<lparr>url_path := Some a\<rparr>, r)) else (url, r));
          (url, r) = (if char_at r 0 = CHR '';'' then
                        (let (a, r) = split_at ''?#'' (tl r) in (url\<lparr>url_params := Some a\<rparr>, r)) else (url, r));
          (url, r) = (if char_at r 0 = CHR ''?'' then
                        (let (a, r) = split_at ''#'' (tl r) in (url\<lparr>url_headers := Some a\<rparr>, r)) else (url, r));
          (url, r) = (if char_at r 0 = CHR ''#'' then (url\<lparr>url_fragment := Some (tl r)\<rparr>, []) else (url, r)) in
      if r \<noteq> [] then None else Some url)"

definition split_scheme :: "(int \<Rightarrow> 32 word) \<Rightarrow> string \<Rightarrow> (url_t \<times> string) option" where
  "split_scheme shl s =
     (let n = strcspn s '':/?#'' in
      if n \<noteq> 0 \<and> char_at s n = CHR '':'' then
        map_option (\<lambda>scheme. (zero_url\<lparr>url_scheme := Some scheme, url_type := url_get_type scheme\<rparr>, drop (n + 1) s))
          (url_canonize shl True (take n s) 0 ''+'')
      else Some (zero_url\<lparr>url_type := url_unknown\<rparr>, s))"

definition url_d0 :: "(int \<Rightarrow> 32 word) \<Rightarrow> string \<Rightarrow> url_t option" where
  "url_d0 shl s =
     (if s = ''*'' then Some (zero_url\<lparr>url_type := url_any, url_scheme := Some ''*''\<rparr>)
      else
        Option.bind (split_scheme shl s) (\<lambda>(url, s).
        let ty = url_type url; (root, user, host, s, n) = split_authority ty s in
        Option.bind (split_host shl ty host (split_user ty user (url\<lparr>url_root := root\<rparr>))) (\<lambda>url.
        split_rest (drop n s) url)))"

text \<open>\<open>url_d\<close>: parse, then canonize every part but the scheme and the port, which are canonized already.\<close>

definition canon :: "(string \<Rightarrow> string option) \<Rightarrow> string option \<Rightarrow> string option option" where
  "canon f x = (case x of None \<Rightarrow> Some None | Some t \<Rightarrow> map_option Some (f t))"

definition SIP_USER_UNRESERVED :: string where "SIP_USER_UNRESERVED = ''&=+$,;?/''"
definition SIP_PASS_UNRESERVED :: string where "SIP_PASS_UNRESERVED = ''&=+$,''"
definition USER_UNRESERVED :: string where "USER_UNRESERVED = ''&=+$,;''"
definition PASS_UNRESERVED :: string where "PASS_UNRESERVED = ''&=+$,;:''"

definition syn_mask :: "string \<Rightarrow> 32 word" where
  "syn_mask cs = foldr (\<lambda>c w. push_bit (of_char c - 33) 1 OR w) cs 0"

definition canonize_user :: "(int \<Rightarrow> 32 word) \<Rightarrow> url_type_e \<Rightarrow> string \<Rightarrow> string option" where
  "canonize_user shl ty s =
     url_canonize shl True s 0 (if ty = url_sip \<or> ty = url_sips then SIP_USER_UNRESERVED else USER_UNRESERVED)"

definition canonize_password :: "(int \<Rightarrow> 32 word) \<Rightarrow> url_type_e \<Rightarrow> string \<Rightarrow> string option" where
  "canonize_password shl ty s =
     url_canonize shl True s 0 (if ty = url_sip \<or> ty = url_sips then SIP_PASS_UNRESERVED else PASS_UNRESERVED)"

definition url_d :: "(int \<Rightarrow> 32 word) \<Rightarrow> string \<Rightarrow> url_t option" where
  "url_d shl s =
     Option.bind (url_d0 shl s) (\<lambda>url.
     let ty = url_type url in
     Option.bind (canon (canonize_user shl ty) (url_user url)) (\<lambda>user.
     Option.bind (canon (canonize_password shl ty) (url_password url)) (\<lambda>password.
     Option.bind (canon (\<lambda>t. url_canonize2 shl True t 0 RESERVED_MASK) (url_host url)) (\<lambda>host.
     Option.bind (canon (\<lambda>t. url_canonize shl True t (syn_mask ''/;=@,'') '':&+$'') (url_path url)) (\<lambda>path.
     Option.bind (canon (\<lambda>t. url_canonize shl True t (syn_mask '';=@,'') ''/:&+$'') (url_params url)) (\<lambda>params.
     Option.bind (canon (\<lambda>t. url_canonize3 True t RESERVED_MASK) (url_headers url)) (\<lambda>headers.
     Option.bind (canon (\<lambda>t. url_canonize2 shl True t 0 URIC_MASK) (url_fragment url)) (\<lambda>fragment.
     Some (url\<lparr>url_user := user, url_password := password, url_host := host, url_path := path,
               url_params := params, url_headers := headers, url_fragment := fragment\<rparr>)))))))))"

section \<open>Printing\<close>

text \<open>
  The pieces \<open>url_e\<close> copies, in its order; a piece is copied if it fits into what is left of the buffer, and
  the path (flag set) only if something is left after it.
\<close>

definition opt_piece :: "string option \<Rightarrow> (string \<Rightarrow> 'a list) \<Rightarrow> 'a list" where
  "opt_piece x f = (case x of None \<Rightarrow> [] | Some t \<Rightarrow> f t)"

definition url_pieces :: "url_t \<Rightarrow> (bool \<times> string) list" where
  "url_pieces u =
     opt_piece (url_scheme u) (\<lambda>sch. if sch = [] then [] else [(False, sch @ '':'')])
     @ (if url_root u \<and> (url_host u \<noteq> None \<or> url_user u \<noteq> None) then [(False, ''//'')] else [])
     @ opt_piece (url_user u) (\<lambda>user.
         [(False, user)]
         @ opt_piece (url_password u) (\<lambda>p. [(False, '':''), (False, p)])
         @ (if url_host u \<noteq> None then [(False, ''@'')] else []))
     @ opt_piece (url_host u) (\<lambda>h.
         [(False, h)] @ opt_piece (url_port u) (\<lambda>p. [(False, '':'' @ p)]))
     @ opt_piece (url_path u) (\<lambda>p. (if url_root u then [(False, ''/'')] else []) @ [(True, p)])
     @ opt_piece (url_params u) (\<lambda>p. [(False, '';'' @ p)])
     @ opt_piece (url_headers u) (\<lambda>p. [(False, ''?'' @ p)])
     @ opt_piece (url_fragment u) (\<lambda>p. [(False, ''#'' @ p)])"

text \<open>The state of the copying: the buffer, the position \<open>b\<close>, what is left (\<open>n\<close>), and \<open>do_copy\<close>.\<close>

definition memcpy :: "string \<Rightarrow> nat \<Rightarrow> string \<Rightarrow> string" where
  "memcpy buf b t = take b buf @ t @ drop (b + length t) buf"

definition put_piece :: "bool \<times> string \<Rightarrow> string \<times> nat \<times> int \<times> bool \<Rightarrow> string \<times> nat \<times> int \<times> bool" where
  "put_piece = (\<lambda>(strict, t) (buf, b, n, do_copy).
     let i = int (length t);
         do_copy = (do_copy \<and> (if strict then i < n else i \<le> n)) in
     (if do_copy then memcpy buf b t else buf, b + length t, n - i, do_copy))"

text \<open>A \<open>url_string_t\<close> is a text or a structure. The buffer is \<open>None\<close> when it is null, with \<open>n\<close> 0; otherwise \<open>n\<close> is
  its size. A null buffer with a positive \<open>n\<close> is not modelled: for a structure the code would copy to it. For a text
  that does not fit, \<open>n - 2\<close> bytes are copied, which for \<open>n\<close> less than 2 is out of bounds.\<close>

datatype url_string_t = Us_str string | Us_url url_t

definition url_e :: "string option \<Rightarrow> url_string_t option \<Rightarrow> (string option \<times> int) res" where
  "url_e buffer url =
     (let n = (case buffer of None \<Rightarrow> 0 | Some buf \<Rightarrow> length buf) in
      case url of
        None \<Rightarrow> Inr (buffer, -1)
      | Some (Us_str u) \<Rightarrow>
          (let i = length u in
           case buffer of
             None \<Rightarrow> Inr (None, int i)
           | Some buf \<Rightarrow>
               if i \<ge> n then
                 (if n < 2 then Inl Out_of_bounds
                  else Inr (Some ((memcpy buf 0 (take (n - 2) u))[n - 1 := CHR 0x00]), int i))
               else Inr (Some (memcpy buf 0 (u @ [CHR 0x00])), int i))
      | Some (Us_url u) \<Rightarrow>
          if url_type u = url_any then
            Inr (map_option (\<lambda>buf. if n > 1 then memcpy buf 0 [CHR ''*'', CHR 0x00]
                                   else if n > 0 then buf[0 := CHR 0x00] else buf) buffer, 1)
          else
            (case buffer of
               None \<Rightarrow> Inr (None, int (length (concat (map snd (url_pieces u)))))
             | Some buf \<Rightarrow>
                 (let (buf', b, left, do_copy) = fold put_piece (url_pieces u) (buf, 0, int n, n > 0) in
                  Inr (Some (if do_copy \<and> 1 \<le> left then buf'[b := CHR 0x00]
                             else if n > 0 then buf'[n - 1 := CHR 0x00] else buf'), int b))))"

definition url_as_string :: "url_string_t \<Rightarrow> string res" where
  "url_as_string url =
     andthen (url_e None (Some url)) (\<lambda>(_, len).
     andthen (url_e (Some (replicate (nat len + 1) (CHR 0x00))) (Some url)) (\<lambda>(b, _).
     case b of None \<Rightarrow> Inl Null_deref | Some buf \<Rightarrow> Inr (takeWhile (\<lambda>c. c \<noteq> CHR 0x00) buf)))"

definition url_len :: "url_t \<Rightarrow> nat" where
  "url_len u =
     (let len = (\<lambda>x k. case x of None \<Rightarrow> 0 | Some t \<Rightarrow> length t + k) in
      len (url_scheme u) 1
      + (case url_user u of
           None \<Rightarrow> 0
         | Some t \<Rightarrow> length t + len (url_password u) 1 + (if url_host u \<noteq> None then 1 else 0))
      + len (url_host u) 0 + len (url_port u) 1 + len (url_path u) 1 + len (url_params u) 1
      + len (url_headers u) 1 + len (url_fragment u) 1)"

text \<open>What \<open>printf\<close> prints for \<open>URL_PRINT_FORMAT\<close> and \<open>URL_PRINT_ARGS\<close>.\<close>

definition URL_PRINT :: "url_t \<Rightarrow> string" where
  "URL_PRINT u =
     (let str = (\<lambda>x. case x of None \<Rightarrow> [] | Some t \<Rightarrow> t) in
      fmt [str (url_scheme u),
           if url_type u \<noteq> url_any \<and> str (url_scheme u) \<noteq> [] then '':'' else [],
           if url_root u \<and> (url_host u \<noteq> None \<or> url_user u \<noteq> None) then ''//'' else [],
           str (url_user u),
           if url_user u \<noteq> None \<and> url_password u \<noteq> None then '':'' @ str (url_password u) else [],
           if url_user u \<noteq> None \<and> url_host u \<noteq> None then ''@'' else [],
           str (url_host u),
           if url_host u \<noteq> None \<and> url_port u \<noteq> None then '':'' @ str (url_port u) else [],
           if url_root u \<and> url_path u \<noteq> None then ''/'' else [],
           str (url_path u),
           if url_params u \<noteq> None then '';'' @ str (url_params u) else [],
           if url_headers u \<noteq> None then ''?'' @ str (url_headers u) else [],
           if url_fragment u \<noteq> None then ''#'' @ str (url_fragment u) else []])"

section \<open>Adding a scheme\<close>

definition url_sanitize :: "url_t \<Rightarrow> url_t option" where
  "url_sanitize u =
     (if url_scheme u \<noteq> None then Some u
      else
        (case url_host u of
           None \<Rightarrow> None
         | Some h \<Rightarrow>
             if strncasecmp_eq h ''ftp.'' 4 then
               Some (u\<lparr>url_type := url_ftp, url_scheme := Some ''ftp'', url_root := True\<rparr>)
             else if strncasecmp_eq h ''www.'' 4 \<or> url_path u \<noteq> None then
               Some (u\<lparr>url_type := url_http, url_scheme := Some ''http'', url_root := True\<rparr>)
             else Some (u\<lparr>url_type := url_sip, url_scheme := Some ''sip''\<rparr>)))"

section \<open>Searching for delimiters\<close>

lemma strcspn_append:
  "\<forall>c\<in>set a. c \<notin> set r \<Longrightarrow> strcspn (a @ s) r = length a + strcspn s r"
  by (induction a) (auto simp: strcspn_def)

lemma strcspn_simps [simp]: "strcspn [] r = 0" "strcspn (c # s) r = (if c \<in> set r then 0 else Suc (strcspn s r))"
  by (simp_all add: strcspn_def)

lemma strcspn_le: "strcspn s r \<le> length s"
  by (simp add: strcspn_def length_takeWhile_le)

lemma strcspn_take: "take (strcspn s r) s = takeWhile (\<lambda>c. c \<notin> set r) s"
  by (simp add: strcspn_def flip: takeWhile_eq_take)

lemma strcspn_drop: "drop (strcspn s r) s = dropWhile (\<lambda>c. c \<notin> set r) s"
  by (simp add: strcspn_def flip: dropWhile_eq_drop)

lemma char_at_Nil [simp]: "char_at [] n = CHR 0x00" by (simp add: char_at_def)
lemma char_at_append [simp]: "char_at (a @ s) (length a) = char_at s 0" "char_at (a @ s) (length a + n) = char_at s n"
  by (simp_all add: char_at_def nth_append)
lemma char_at_Cons [simp]: "char_at (c # s) 0 = c" "char_at (c # s) (Suc n) = char_at s n"
  by (simp_all add: char_at_def)

end
