(* ===== verification/Ssc_Media.thy ===== *)
theory Ssc_Media
  imports Sip_Url
begin

text \<open>
  The media subsystem: \<open>ssc_media.c\<close> (class \<open>SscMedia\<close>, the "dummy" implementation every other one
  extends) and \<open>sdp_utils.c\<close>.

  \<^item> The GObject is the record \<open>SscMedia\<close>; \<open>sm_handlers\<close> is the list of closures connected to its
    \<open>state-changed\<close> signal, each given by its data pointer (the only callback the program connects
    is \<open>priv_media_state_cb\<close> of \<open>ssc_sip.c\<close>). The record extends \<open>io\<close>, the text and calls the
    program has produced so far; \<open>ssc_t\<close> extends it in turn, since an \<open>ssc_t\<close> owns one media object
    for its whole life.
  \<^item> \<open>sdp_parse\<close> and \<open>sdp_print\<close> are parameters of the model, fields of \<open>sofia_env\<close>.
  \<^item> Text owned by the object is a \<open>cstr\<close>, which can also be dangling.
  \<^item> Logging through \<open>g_message\<close>, \<open>g_debug\<close>, \<open>g_warning\<close> and to \<open>stderr\<close> is left out.
\<close>

section \<open>Data\<close>

type_synonym ptr = nat
type_synonym handle = nat

text \<open>SDP descriptions (\<open>sdp.h\<close>), to the depth the client looks into them.\<close>

record sdp_connection =
  c_nettype :: nat
  c_addrtype :: nat
  c_address :: "string option"

record sdp_media =
  m_port :: nat
  m_connections :: "sdp_connection option"
  m_rest :: string

record sdp_session =
  sdp_media :: "sdp_media list"
  sdp_connection :: "sdp_connection option"
  sdp_rest :: string

datatype sdp_parser = Parsed sdp_session | Parse_error string

definition sdp_session_of :: "sdp_parser option \<Rightarrow> sdp_session option" where
  "sdp_session_of p = (case p of Some (Parsed ses) \<Rightarrow> Some ses | _ \<Rightarrow> None)"

definition sdp_parsing_error :: "sdp_parser \<Rightarrow> string option" where
  "sdp_parsing_error p = (case p of Parse_error e \<Rightarrow> Some e | Parsed _ \<Rightarrow> None)"

text \<open>SIP addresses: a display name and a URL.\<close>

record sip_addr =
  a_display :: "string option"
  a_url :: url_t

text \<open>What the program computes with the library: SDP parsing and printing (\<open>None\<close>: a printing
  error), making a \<open>To\<close> header, and printing a header.\<close>

record sofia_env =
  e_sdp_parse :: "string \<Rightarrow> sdp_parser"
  e_sdp_print :: "sdp_session \<Rightarrow> string option"
  e_sip_to_make :: "string \<Rightarrow> sip_addr option"
  e_addr_as_string :: "sip_addr \<Rightarrow> string option"

datatype sm_state_t = sm_init | sm_local_ready | sm_active | sm_error | sm_disabled

definition sm_code :: "sm_state_t \<Rightarrow> nat" where
  "sm_code st = (case st of sm_init \<Rightarrow> 0 | sm_local_ready \<Rightarrow> 1 | sm_active \<Rightarrow> 2 | sm_error \<Rightarrow> 3
                 | sm_disabled \<Rightarrow> 4)"

text \<open>A \<open>gchar *\<close> field that owns its text: null, valid, or left dangling by a \<open>g_free\<close>.\<close>

datatype cstr = CNull | CLive string | CFreed

definition g_free :: "cstr \<Rightarrow> unit res" where
  "g_free c = (case c of CFreed \<Rightarrow> Inl Double_free | _ \<Rightarrow> Inr ())"

definition cstr_get :: "cstr \<Rightarrow> string option res" where
  "cstr_get c = (case c of CNull \<Rightarrow> Inr None | CLive t \<Rightarrow> Inr (Some t) | CFreed \<Rightarrow> Inl Use_after_free)"

text \<open>Everything the program emits: text on standard output, requests to the SIP stack with their
  tags, and calls of the callbacks the application has installed.\<close>

datatype tag =
    NUTAG_URL url_t
  | SIPTAG_TO sip_addr
  | NUTAG_NOTIFY_REFER handle
  | SOATAG_USER_SDP_STR string
  | SOATAG_RTP_SORT nat
  | SOATAG_RTP_SELECT nat
  | SOATAG_AF nat
  | SIPTAG_CONTENT_TYPE_STR string
  | SIPTAG_PAYLOAD_STR string
  | SIPTAG_REFER_TO_STR string
  | SIPTAG_EXPIRES_STR string
  | SIPTAG_ACCEPT_STR string
  | SIPTAG_SUPPORTED_STR "string option"
  | SIPTAG_EVENT_STR string
  | SIPTAG_CONTACT_STR string
  | SIPTAG_FROM_STR string
  | NUTAG_REGISTRAR string
  | NUTAG_PROXY string
  | NUTAG_CONTACT_URL string
  | NUTAG_MEDIA_ADDRESS string
  | NUTAG_CERTIFICATE_DIR string
  | NUTAG_M_FEATURES string
  | NUTAG_AUTH string
  | NUTAG_FLAG string nat
  | TAG_PARAM string string

datatype request = nua_invite | nua_bye | nua_cancel | nua_options | nua_message | nua_info
  | nua_refer | nua_subscribe | nua_unsubscribe | nua_register | nua_unregister | nua_publish
  | nua_authenticate

datatype out =
    Print string
  | Nua_create "tag list"
  | Nua_handle "handle option" "tag list"
  | Nua_request request "handle option" "tag list"
  | Nua_respond "handle option" int string "tag list"
  | Nua_handle_bind handle ptr
  | Nua_handle_ref "handle option"
  | Nua_handle_unref "handle option"
  | Nua_handle_destroy handle
  | Nua_set_params "tag list"
  | Nua_get_params "tag list"
  | Nua_shutdown
  | Call_exit_cb
  | Call_event_cb int
  | Call_registration_cb int
  | Call_auth_req_cb "string option"
  | Call_call_state_cb "ptr option" int
  | Call_media_state_cb "ptr option" nat

record io =
  io_out :: "out list"

definition emit :: "out \<Rightarrow> 'a io_scheme \<Rightarrow> 'a io_scheme" where
  "emit x s = s\<lparr>io_out := io_out s @ [x]\<rparr>"

abbreviation printf :: "string \<Rightarrow> 'a io_scheme \<Rightarrow> 'a io_scheme" where
  "printf t \<equiv> emit (Print t)"

record SscMedia = io +
  sm_state :: sm_state_t
  sm_sdp_local :: "sdp_parser option"
  sm_sdp_remote :: "sdp_parser option"
  sm_sdp_local_str :: cstr
  sm_sdp_remote_str :: cstr
  sm_handlers :: "ptr list"

lemma emit_frame [simp]:
  "io_out (emit x s) = io_out s @ [x]"
  "sm_state (emit x m) = sm_state m"
  "sm_sdp_local (emit x m) = sm_sdp_local m"
  "sm_sdp_remote (emit x m) = sm_sdp_remote m"
  "sm_sdp_local_str (emit x m) = sm_sdp_local_str m"
  "sm_sdp_remote_str (emit x m) = sm_sdp_remote_str m"
  "sm_handlers (emit x m) = sm_handlers m"
  by (simp_all add: emit_def)

section \<open>SDP utilities (sdp_utils.c)\<close>

definition sdp_print_to_text :: "sofia_env \<Rightarrow> sdp_parser option \<Rightarrow> int \<times> cstr" where
  "sdp_print_to_text E parser =
     (case sdp_session_of parser of
        None \<Rightarrow> (-1, CNull)
      | Some sdp \<Rightarrow>
          (case e_sdp_print E sdp of
             None \<Rightarrow> (-1, CNull)
           | Some t \<Rightarrow> (0, CLive t)))"

definition sdp_media_connections :: "sdp_session \<Rightarrow> sdp_media \<Rightarrow> sdp_connection option" where
  "sdp_media_connections ses m =
     (case m_connections m of Some c \<Rightarrow> Some c | None \<Rightarrow> sdp_connection ses)"

text \<open>The c-line of \<open>media\<close>, a media of \<open>ses\<close>, is cloned from the session where it has none of its
  own, and allocated afresh where the session has none either.\<close>

definition sdp_set_contact ::
  "sdp_session \<Rightarrow> sdp_media \<Rightarrow> nat \<Rightarrow> nat \<Rightarrow> string option \<Rightarrow> int \<times> sdp_media" where
  "sdp_set_contact ses media ntype atype c_addr =
     (let con = m_connections media;
          con = (case con of None \<Rightarrow> sdp_media_connections ses media | Some c \<Rightarrow> Some c);
          con = (case con of None \<Rightarrow> \<lparr>c_nettype = 0, c_addrtype = 0, c_address = None\<rparr> | Some c \<Rightarrow> c)
      in (0, media\<lparr>m_connections := Some (con\<lparr>c_nettype := ntype, c_addrtype := atype,
                                              c_address := c_addr\<rparr>)\<rparr>))"

section \<open>Operations of the class\<close>

definition SSC_MEDIA_RTP_PORT_RANGE_START :: nat where
  "SSC_MEDIA_RTP_PORT_RANGE_START = 16384"

text \<open>\<open>ssc_media_init\<close> runs on zeroed memory: no description, no text, and state 0, \<open>sm_init\<close>.\<close>

definition ssc_media_init :: SscMedia where
  "ssc_media_init = \<lparr>io_out = [], sm_state = sm_init, sm_sdp_local = None, sm_sdp_remote = None,
                     sm_sdp_local_str = CNull, sm_sdp_remote_str = CNull, sm_handlers = []\<rparr>"

definition ssc_media_is_active :: "'a SscMedia_scheme \<Rightarrow> bool" where
  "ssc_media_is_active m \<longleftrightarrow> sm_state m = sm_active"

definition ssc_media_is_initialized :: "'a SscMedia_scheme \<Rightarrow> bool" where
  "ssc_media_is_initialized m \<longleftrightarrow> sm_state m \<noteq> sm_disabled"

definition ssc_media_state :: "'a SscMedia_scheme \<Rightarrow> nat" where
  "ssc_media_state m = sm_code (sm_state m)"

definition priv_refresh_base :: "'a SscMedia_scheme \<Rightarrow> int \<times> 'a SscMedia_scheme" where
  "priv_refresh_base m = (0, m)"

definition priv_deactivate_base :: "'a SscMedia_scheme \<Rightarrow> int \<times> 'a SscMedia_scheme" where
  "priv_deactivate_base m = (0, m\<lparr>sm_state := sm_disabled\<rparr>)"

definition priv_static_capabilities_base :: string where
  "priv_static_capabilities_base =
     ''v=0'' @ nl @ ''m=audio 0 RTP/AVP 0'' @ nl @ ''a=rtpmap:0 PCMU/8000''"

definition priv_set_local_sdp ::
  "sofia_env \<Rightarrow> string option \<Rightarrow> 'a SscMedia_scheme \<Rightarrow> (int \<times> 'a SscMedia_scheme) res" where
  "priv_set_local_sdp E str m =
     (case str of
        None \<Rightarrow> Inl Null_deref
      | Some t \<Rightarrow>
          (let p = e_sdp_parse E t; m1 = m\<lparr>sm_sdp_local := Some p\<rparr> in
           if sdp_parsing_error p \<noteq> None then Inr (-1, m1)
           else if sm_sdp_local_str m1 \<noteq> CNull
             then andthen (g_free (sm_sdp_local_str m1)) (\<lambda>_. Inr (0, m1\<lparr>sm_sdp_local_str := CNull\<rparr>))
             else Inr (0, m1)))"

text \<open>The remote side frees the cached text without clearing the pointer.\<close>

definition priv_set_remote_sdp ::
  "sofia_env \<Rightarrow> string option \<Rightarrow> 'a SscMedia_scheme \<Rightarrow> (int \<times> 'a SscMedia_scheme) res" where
  "priv_set_remote_sdp E str m =
     (case str of
        None \<Rightarrow> Inl Null_deref
      | Some t \<Rightarrow>
          (let p = e_sdp_parse E t; m1 = m\<lparr>sm_sdp_remote := Some p\<rparr> in
           if sdp_parsing_error p \<noteq> None then Inr (-1, m1)
           else if sm_sdp_remote_str m1 \<noteq> CNull
             then andthen (g_free (sm_sdp_remote_str m1)) (\<lambda>_. Inr (0, m1\<lparr>sm_sdp_remote_str := CFreed\<rparr>))
             else Inr (0, m1)))"

text \<open>
  The virtual methods that the operations of the base class call, as the class of the object has them: the dummy
  implementation has the methods of the base class.
\<close>

record 'm media_class =
  class_refresh :: "'m \<Rightarrow> (int \<times> 'm) res"
  class_static_capabilities :: "'m \<Rightarrow> string \<times> 'm"

definition ssc_media_deactivate :: "'a SscMedia_scheme \<Rightarrow> 'a SscMedia_scheme" where
  "ssc_media_deactivate m = snd (priv_deactivate_base m)"

definition ssc_media_static_capabilities :: string where
  "ssc_media_static_capabilities = priv_static_capabilities_base"

definition base_class :: "'a SscMedia_scheme media_class" where
  "base_class = \<lparr>class_refresh = (\<lambda>m. Inr (priv_refresh_base m)),
     class_static_capabilities = (\<lambda>m. (ssc_media_static_capabilities, m))\<rparr>"

lemma base_class_simps [simp]:
  "class_refresh base_class m = Inr (priv_refresh_base m)"
  "class_static_capabilities base_class m = (ssc_media_static_capabilities, m)"
  by (simp_all add: base_class_def)

definition ssc_media_refresh ::
  "'a SscMedia_scheme media_class \<Rightarrow> 'a SscMedia_scheme \<Rightarrow> (int \<times> 'a SscMedia_scheme) res" where
  "ssc_media_refresh K m = class_refresh K m"

datatype media_prop = PROP_LOCAL_SDP | PROP_REMOTE_SDP | PROP_OTHER nat

definition class_set_property ::
  "'a SscMedia_scheme media_class \<Rightarrow> sofia_env \<Rightarrow> media_prop \<Rightarrow> string option \<Rightarrow> 'a SscMedia_scheme
     \<Rightarrow> 'a SscMedia_scheme res" where
  "class_set_property K E prop value m =
     (case prop of
        PROP_LOCAL_SDP \<Rightarrow>
          andthen (priv_set_local_sdp E value m) (\<lambda>(r, m1).
            if r = 0 \<and> ssc_media_is_initialized m1 then andthen (ssc_media_refresh K m1) (\<lambda>(_, m2). Inr m2) else Inr m1)
      | PROP_REMOTE_SDP \<Rightarrow>
          andthen (priv_set_remote_sdp E value m) (\<lambda>(r, m1).
            if r = 0 \<and> ssc_media_is_initialized m1 then andthen (ssc_media_refresh K m1) (\<lambda>(_, m2). Inr m2) else Inr m1)
      | PROP_OTHER _ \<Rightarrow> Inr m)"

abbreviation ssc_media_set_property ::
  "sofia_env \<Rightarrow> media_prop \<Rightarrow> string option \<Rightarrow> 'a SscMedia_scheme \<Rightarrow> 'a SscMedia_scheme res" where
  "ssc_media_set_property \<equiv> class_set_property base_class"

definition ssc_media_get_property ::
  "sofia_env \<Rightarrow> media_prop \<Rightarrow> 'a SscMedia_scheme \<Rightarrow> (string option \<times> 'a SscMedia_scheme) res" where
  "ssc_media_get_property E prop m =
     (case prop of
        PROP_LOCAL_SDP \<Rightarrow>
          (let m1 = (if sm_sdp_local_str m = CNull
                     then m\<lparr>sm_sdp_local_str := snd (sdp_print_to_text E (sm_sdp_local m))\<rparr> else m)
           in andthen (cstr_get (sm_sdp_local_str m1)) (\<lambda>v. Inr (v, m1)))
      | PROP_REMOTE_SDP \<Rightarrow>
          (let m1 = (if sm_sdp_remote_str m = CNull
                     then m\<lparr>sm_sdp_remote_str := snd (sdp_print_to_text E (sm_sdp_remote m))\<rparr> else m)
           in andthen (cstr_get (sm_sdp_remote_str m1)) (\<lambda>v. Inr (v, m1)))
      | PROP_OTHER _ \<Rightarrow> Inr (None, m))"

definition class_set_local_to_caps ::
  "'a SscMedia_scheme media_class \<Rightarrow> sofia_env \<Rightarrow> 'a SscMedia_scheme \<Rightarrow> 'a SscMedia_scheme res" where
  "class_set_local_to_caps K E m =
     (let (tmp_str, m) = class_static_capabilities K m;
          m = printf (fmt [''Set local SDP based on capabilities: '', tmp_str, nl]) m
      in class_set_property K E PROP_LOCAL_SDP (Some tmp_str) m)"

abbreviation ssc_media_set_local_to_caps :: "sofia_env \<Rightarrow> 'a SscMedia_scheme \<Rightarrow> 'a SscMedia_scheme res" where
  "ssc_media_set_local_to_caps \<equiv> class_set_local_to_caps base_class"

definition zero_ports :: "sdp_session \<Rightarrow> sdp_session" where
  "zero_ports ses = ses\<lparr>sdp_media := map (\<lambda>md. md\<lparr>m_port := 0\<rparr>) (sdp_media ses)\<rparr>"

definition class_set_remote_to_local ::
  "'a SscMedia_scheme media_class \<Rightarrow> sofia_env \<Rightarrow> 'a SscMedia_scheme \<Rightarrow> 'a SscMedia_scheme res" where
  "class_set_remote_to_local K E m =
     andthen (ssc_media_get_property E PROP_LOCAL_SDP m) (\<lambda>(tmp_str, m).
       let m = printf (fmt [''Set remote SDP based on capabilities: '', pstr tmp_str, nl]) m in
       andthen (if tmp_str \<noteq> None then class_set_property K E PROP_REMOTE_SDP tmp_str m else Inr m)
         (\<lambda>m. Inr (case sdp_session_of (sm_sdp_remote m) of
                     None \<Rightarrow> m
                   | Some ses \<Rightarrow> m\<lparr>sm_sdp_remote := Some (Parsed (zero_ports ses))\<rparr>)))"

abbreviation ssc_media_set_remote_to_local :: "sofia_env \<Rightarrow> 'a SscMedia_scheme \<Rightarrow> 'a SscMedia_scheme res" where
  "ssc_media_set_remote_to_local \<equiv> class_set_remote_to_local base_class"

text \<open>The flag says whether the signal \<open>state-changed\<close> is emitted; its closures run next.\<close>

definition ssc_media_signal_state_change ::
  "sm_state_t \<Rightarrow> 'a SscMedia_scheme \<Rightarrow> bool \<times> 'a SscMedia_scheme" where
  "ssc_media_signal_state_change state m =
     (if sm_state m \<noteq> state
      then (True, (printf (fmt [''Signaling media subsystem change from '', dec (sm_code (sm_state m)),
                     '' to '', dec (sm_code state), ''.'', nl]) m)\<lparr>sm_state := state\<rparr>)
      else (False, m))"

definition set_first_port :: "nat \<Rightarrow> sdp_session \<Rightarrow> sdp_session" where
  "set_first_port n ses =
     (case sdp_media ses of [] \<Rightarrow> ses | md # mds \<Rightarrow> ses\<lparr>sdp_media := md\<lparr>m_port := n\<rparr> # mds\<rparr>)"

text \<open>Activation sets up the two descriptions and ends by signalling \<open>sm_active\<close>; the value is the
  return code and whether the signal goes out.\<close>

definition activate_local :: "sofia_env \<Rightarrow> 'a SscMedia_scheme \<Rightarrow> 'a SscMedia_scheme res" where
  "activate_local E m =
     (if sm_sdp_local m = None
      then andthen (ssc_media_set_local_to_caps E m) (\<lambda>m.
        case sdp_session_of (sm_sdp_local m) of
          Some l_sdp \<Rightarrow>
            if sdp_media l_sdp \<noteq> [] then
              let m = m\<lparr>sm_sdp_local :=
                         Some (Parsed (set_first_port SSC_MEDIA_RTP_PORT_RANGE_START l_sdp))\<rparr> in
              if sm_sdp_local_str m \<noteq> CNull
              then andthen (g_free (sm_sdp_local_str m)) (\<lambda>_. Inr (m\<lparr>sm_sdp_local_str := CNull\<rparr>))
              else Inr m
            else Inr m
        | None \<Rightarrow> Inr m)
      else Inr m)"

definition priv_activate_base ::
  "sofia_env \<Rightarrow> 'a SscMedia_scheme \<Rightarrow> (int \<times> bool \<times> 'a SscMedia_scheme) res" where
  "priv_activate_base E m =
     andthen (activate_local E m) (\<lambda>m.
     andthen (if sm_sdp_remote m = None then ssc_media_set_remote_to_local E m else Inr m) (\<lambda>m.
       let (sig, m) = ssc_media_signal_state_change sm_active m in Inr (0, sig, m)))"

definition ssc_media_activate ::
  "sofia_env \<Rightarrow> 'a SscMedia_scheme \<Rightarrow> (int \<times> bool \<times> 'a SscMedia_scheme) res" where
  "ssc_media_activate E m = priv_activate_base E m"

section \<open>What the operations keep\<close>

text \<open>
  \<open>media_ok\<close>: no text the object owns is dangling and the remote text is not cached, which is how
  the client uses the object (it never reads \<open>remotesdp\<close>). \<open>media_frame\<close>: an operation prints, but
  neither sends requests nor touches the closures or the owner's fields.
\<close>

definition media_ok :: "'a SscMedia_scheme \<Rightarrow> bool" where
  "media_ok m \<longleftrightarrow> sm_sdp_local_str m \<noteq> CFreed \<and> sm_sdp_remote_str m = CNull"

definition media_frame :: "'a SscMedia_scheme \<Rightarrow> 'a SscMedia_scheme \<Rightarrow> bool" where
  "media_frame m m' \<longleftrightarrow> sm_handlers m' = sm_handlers m \<and> SscMedia.more m' = SscMedia.more m
     \<and> (\<exists>ts. io_out m' = io_out m @ map Print ts)"

lemma media_frame_refl [simp]: "media_frame m m"
  by (auto simp: media_frame_def intro: exI [of _ "[]"])

lemma media_frame_trans [trans]: "media_frame a b \<Longrightarrow> media_frame b c \<Longrightarrow> media_frame a c"
  by (auto simp: media_frame_def) (metis map_append append_assoc)

lemma media_frame_printf [simp]: "media_frame m (printf t m)"
  by (auto simp: media_frame_def emit_def intro: exI [of _ "[t]"])

definition media_keep :: "'a SscMedia_scheme \<Rightarrow> 'a SscMedia_scheme \<Rightarrow> bool" where
  "media_keep m m' \<longleftrightarrow> media_ok m' \<and> media_frame m m' \<and> sm_state m' = sm_state m"

lemma media_ok_emit [simp]: "media_ok (emit x m) = media_ok m"
  by (simp add: media_ok_def)

lemma media_keep_refl: "media_ok m \<Longrightarrow> media_keep m m"
  by (simp add: media_keep_def)

lemma media_keep_printf: "media_keep (printf t m) m' \<Longrightarrow> media_keep m m'"
  by (auto simp: media_keep_def intro: media_frame_trans [OF media_frame_printf])

lemma media_keep_printf_self: "media_ok m \<Longrightarrow> media_keep m (printf t m)"
  by (simp add: media_keep_def)

lemma media_keep_trans: "media_keep a b \<Longrightarrow> media_keep b c \<Longrightarrow> media_keep a c"
  by (auto simp: media_keep_def intro: media_frame_trans)

lemma media_keep_ok: "media_keep m m' \<Longrightarrow> media_ok m'"
  by (simp add: media_keep_def)

text \<open>One fact per operation that stores a description, in the same shape.\<close>

lemma set_property_local_ok:
  assumes "media_ok m"
  shows "ok (ssc_media_set_property E PROP_LOCAL_SDP (Some t) m)
           (\<lambda>m'. media_keep m m' \<and> sm_sdp_local m' = Some (e_sdp_parse E t)
                 \<and> sm_sdp_remote m' = sm_sdp_remote m)"
  using assms
  by (auto simp: class_set_property_def priv_set_local_sdp_def media_ok_def media_frame_def
      media_keep_def ssc_media_refresh_def priv_refresh_base_def g_free_def Let_def split: cstr.split)

lemma set_property_remote_ok:
  assumes "media_ok m"
  shows "ok (ssc_media_set_property E PROP_REMOTE_SDP (Some t) m)
           (\<lambda>m'. media_keep m m' \<and> sm_sdp_local m' = sm_sdp_local m
                 \<and> sm_sdp_remote m' = Some (e_sdp_parse E t))"
  using assms
  by (auto simp: class_set_property_def priv_set_remote_sdp_def media_ok_def media_frame_def
      media_keep_def ssc_media_refresh_def priv_refresh_base_def Let_def)

lemma get_property_local_ok:
  assumes "media_ok m"
  shows "ok (ssc_media_get_property E PROP_LOCAL_SDP m)
           (\<lambda>(v, m'). media_keep m m' \<and> sm_sdp_local m' = sm_sdp_local m
                 \<and> sm_sdp_remote m' = sm_sdp_remote m)"
  using assms
  by (auto simp: ssc_media_get_property_def media_ok_def media_frame_def media_keep_def cstr_get_def
      sdp_print_to_text_def Let_def split: cstr.split option.split)

lemma set_local_to_caps_ok:
  assumes "media_ok m"
  shows "ok (ssc_media_set_local_to_caps E m)
           (\<lambda>m'. media_keep m m' \<and> sm_sdp_remote m' = sm_sdp_remote m
                 \<and> sm_sdp_local m' = Some (e_sdp_parse E ssc_media_static_capabilities))"
  unfolding class_set_local_to_caps_def Let_def base_class_simps prod.case
  by (rule ok_mono [OF set_property_local_ok]) (auto simp: assms dest: media_keep_printf)

lemma activate_local_ok:
  assumes "media_ok m"
  shows "ok (activate_local E m)
           (\<lambda>m'. media_keep m m' \<and> sm_sdp_local m' \<noteq> None \<and> sm_sdp_remote m' = sm_sdp_remote m)"
proof (cases "sm_sdp_local m")
  case None
  then show ?thesis
    using set_local_to_caps_ok [OF assms, of E]
    by (auto simp: activate_local_def media_keep_def media_ok_def media_frame_def g_free_def Let_def
        elim!: ok_mono split: option.split cstr.split)
next
  case Some
  with assms show ?thesis by (simp add: activate_local_def media_keep_refl)
qed

lemma zero_remote_keep:
  "media_keep m m1 \<Longrightarrow> media_keep m (m1\<lparr>sm_sdp_remote := p\<rparr>)"
  by (simp add: media_keep_def media_ok_def media_frame_def)

lemma set_remote_to_local_ok:
  assumes "media_ok m"
  shows "ok (ssc_media_set_remote_to_local E m)
           (\<lambda>m'. media_keep m m' \<and> sm_sdp_local m' = sm_sdp_local m)"
proof -
  have set: "ok (if v \<noteq> None then ssc_media_set_property E PROP_REMOTE_SDP v (printf t m1)
                 else Inr (printf t m1))
               (\<lambda>m'. media_keep m1 m' \<and> sm_sdp_local m' = sm_sdp_local m1)"
    if "media_ok m1" for v t and m1 :: "'a SscMedia_scheme"
  proof (cases v)
    case None
    then show ?thesis using that by (simp add: media_keep_printf_self)
  next
    case (Some y)
    with that show ?thesis
      by (auto intro!: ok_mono [OF set_property_remote_ok] dest: media_keep_printf)
  qed
  show ?thesis
    unfolding class_set_remote_to_local_def Let_def
    by (rule ok_andthenI [OF get_property_local_ok [OF assms]], simp only: split_paired_all prod.case,
        rule ok_andthenI [OF set])
       (auto simp: media_keep_ok zero_remote_keep media_keep_trans split: option.split)
qed

lemma activate_ok:
  assumes "media_ok m"
  shows "ok (ssc_media_activate E m)
           (\<lambda>(r, sig, m'). r = 0 \<and> sig = (sm_state m \<noteq> sm_active) \<and> sm_state m' = sm_active
              \<and> media_ok m' \<and> media_frame m m' \<and> sm_sdp_local m' \<noteq> None)"
  unfolding ssc_media_activate_def priv_activate_base_def
proof (rule ok_andthenI [OF activate_local_ok [OF assms]], elim conjE)
  fix m1 :: "'a SscMedia_scheme"
  assume m1: "media_keep m m1" "sm_sdp_local m1 \<noteq> None"
  have "ok (if sm_sdp_remote m1 = None then ssc_media_set_remote_to_local E m1 else Inr m1)
          (\<lambda>m2. media_keep m m2 \<and> sm_sdp_local m2 \<noteq> None)"
    using m1
    by (auto intro!: ok_mono [OF set_remote_to_local_ok [OF media_keep_ok [OF m1(1)], of E]]
        elim: media_keep_trans)
  then show "ok (andthen (if sm_sdp_remote m1 = None then ssc_media_set_remote_to_local E m1
                          else Inr m1)
                   (\<lambda>m. let (sig, m) = ssc_media_signal_state_change sm_active m in Inr (0, sig, m)))
               (\<lambda>(r, sig, m'). r = 0 \<and> sig = (sm_state m \<noteq> sm_active) \<and> sm_state m' = sm_active
                  \<and> media_ok m' \<and> media_frame m m' \<and> sm_sdp_local m' \<noteq> None)"
    by (rule ok_andthenI)
       (auto simp: ssc_media_signal_state_change_def media_keep_def media_ok_def Let_def media_frame_def
         emit_def intro: exI [of _ "_ @ [_]"])
qed

section \<open>The local description as text\<close>

text \<open>What reading \<open>localsdp\<close> gives, and when activation makes sure that it gives something: the library
  parses the capabilities and prints every description, and the description the object has, if any,
  is a parsed one or has its text cached.\<close>

definition local_text :: "sofia_env \<Rightarrow> 'a SscMedia_scheme \<Rightarrow> string option" where
  "local_text E m =
     (case sm_sdp_local_str m of
        CLive t \<Rightarrow> Some t
      | CNull \<Rightarrow> (case sdp_session_of (sm_sdp_local m) of None \<Rightarrow> None | Some ses \<Rightarrow> e_sdp_print E ses)
      | CFreed \<Rightarrow> None)"

definition sdp_env_ok :: "sofia_env \<Rightarrow> bool" where
  "sdp_env_ok E \<longleftrightarrow> sdp_parsing_error (e_sdp_parse E ssc_media_static_capabilities) = None
     \<and> (\<forall>ses. e_sdp_print E ses \<noteq> None)"

definition local_ok :: "'a SscMedia_scheme \<Rightarrow> bool" where
  "local_ok m \<longleftrightarrow> sm_sdp_local m = None \<or> sdp_session_of (sm_sdp_local m) \<noteq> None \<or> (\<exists>t. sm_sdp_local_str m = CLive t)"

lemma local_text_frame [simp]:
  "local_text E (emit x m) = local_text E m"
  "local_text E (m\<lparr>sm_state := st\<rparr>) = local_text E m"
  "local_text E (m\<lparr>sm_sdp_remote := p\<rparr>) = local_text E m"
  "local_text E (m\<lparr>sm_sdp_remote_str := c\<rparr>) = local_text E m"
  "local_text E (m\<lparr>sm_handlers := hs\<rparr>) = local_text E m"
  by (simp_all add: local_text_def split: cstr.split)

lemma get_local_text:
  assumes "media_ok m"
  shows "ok (ssc_media_get_property E PROP_LOCAL_SDP m)
           (\<lambda>(v, m'). v = local_text E m \<and> media_keep m m' \<and> local_text E m' = local_text E m
              \<and> sm_sdp_local m' = sm_sdp_local m)"
  using assms
  by (auto simp: ssc_media_get_property_def media_ok_def media_frame_def media_keep_def cstr_get_def
      sdp_print_to_text_def local_text_def Let_def split: cstr.split option.split)

lemma activate_local_text:
  assumes "media_ok m" "sdp_env_ok E" "local_ok m"
  shows "ok (activate_local E m) (\<lambda>m'. local_text E m' \<noteq> None)"
proof (cases "sm_sdp_local m")
  case None
  with assms show ?thesis
    by (auto simp: activate_local_def class_set_local_to_caps_def class_set_property_def
        priv_set_local_sdp_def ssc_media_refresh_def priv_refresh_base_def media_ok_def g_free_def local_text_def
        sdp_env_ok_def sdp_parsing_error_def sdp_session_of_def Let_def
        split: cstr.split option.split sdp_parser.splits)
next
  case Some
  with assms show ?thesis
    by (auto simp: activate_local_def media_ok_def local_text_def local_ok_def sdp_env_ok_def
        split: cstr.split option.split)
qed

lemma set_remote_text:
  assumes "media_ok m"
  shows "ok (ssc_media_set_remote_to_local E m) (\<lambda>m'. local_text E m' = local_text E m)"
  unfolding class_set_remote_to_local_def Let_def
proof (rule ok_andthenI [OF get_local_text [OF assms]], clarify, goal_cases)
  case (1 v m1)
  then show ?case
    by (cases "local_text E m")
       (auto simp: class_set_property_def priv_set_remote_sdp_def media_keep_def media_ok_def
         ssc_media_refresh_def priv_refresh_base_def Let_def split: option.split)
qed

lemma activate_text:
  assumes "media_ok m" "sdp_env_ok E" "local_ok m"
  shows "ok (ssc_media_activate E m) (\<lambda>(r, sig, m'). local_text E m' \<noteq> None)"
  unfolding ssc_media_activate_def priv_activate_base_def
proof (rule ok_andthenI [OF ok_conj [OF activate_local_ok [OF assms(1)] activate_local_text [OF assms]]],
    elim conjE)
  fix m1 :: "'a SscMedia_scheme"
  assume m1: "media_keep m m1" "local_text E m1 \<noteq> None"
  have "ok (if sm_sdp_remote m1 = None then ssc_media_set_remote_to_local E m1 else Inr m1)
          (\<lambda>m2. local_text E m2 \<noteq> None)"
    using m1 by (auto intro!: ok_mono [OF set_remote_text [OF media_keep_ok [OF m1(1)]]])
  then show "ok (andthen (if sm_sdp_remote m1 = None then ssc_media_set_remote_to_local E m1 else Inr m1)
      (\<lambda>m. let (sig, m) = ssc_media_signal_state_change sm_active m in Inr (0, sig, m)))
      (\<lambda>(r, sig, m'). local_text E m' \<noteq> None)"
    by (rule ok_andthenI) (auto simp: ssc_media_signal_state_change_def Let_def)
qed
section \<open>The interface the signalling code relies on\<close>

text \<open>
  \<open>ssc_sip.c\<close> starts and stops the media subsystem and reacts to its signal. What it relies on is
  this contract; the class modelled here fulfils it.
\<close>

locale media_subsystem =
  fixes activate :: "'m \<Rightarrow> (int \<times> bool \<times> 'm) res"
    and deactivate :: "'m \<Rightarrow> 'm"
    and initialized :: "'m \<Rightarrow> bool"
    and active :: "'m \<Rightarrow> bool"
    and invar :: "'m \<Rightarrow> bool"
  assumes activate_returns:
      "invar m \<Longrightarrow> ok (activate m) (\<lambda>(r, sig, m'). r = 0 \<and> sig = (\<not> active m) \<and> active m' \<and> invar m')"
    and deactivate_off: "\<not> initialized (deactivate m)"
    and deactivate_invar: "invar m \<Longrightarrow> invar (deactivate m)"
    and active_initialized: "active m \<Longrightarrow> initialized m"
begin

lemma restart_signals:
  assumes "invar m"
  shows "ok (activate (deactivate m)) (\<lambda>(r, sig, m'). r = 0 \<and> sig \<and> active m' \<and> invar m')"
  by (rule ok_mono [OF activate_returns [OF deactivate_invar [OF assms]]])
     (use deactivate_off active_initialized in auto)

lemma second_activate_silent:
  assumes "invar m"
  shows "ok (andthen (activate m) (\<lambda>(r, sig, m'). activate m')) (\<lambda>(r, sig, m'). r = 0 \<and> \<not> sig \<and> active m')"
  by (rule ok_andthenI [OF activate_returns [OF assms]]) (auto intro!: ok_mono [OF activate_returns])

end

interpretation dummy: media_subsystem "ssc_media_activate E" ssc_media_deactivate
  ssc_media_is_initialized ssc_media_is_active media_ok for E
proof (unfold_locales, goal_cases)
  case (1 m)
  then show ?case
    by (auto intro!: ok_mono [OF activate_ok] simp: ssc_media_is_active_def)
qed (simp_all add: ssc_media_deactivate_def priv_deactivate_base_def ssc_media_is_initialized_def
      ssc_media_is_active_def media_ok_def)

section \<open>A concrete library for examples\<close>

text \<open>An instance of \<open>sofia_env\<close> on which properties are evaluated: every non-empty text is a
  description or an address, and printing gives it back in a fixed form.\<close>

definition demo_session :: sdp_session where
  "demo_session = \<lparr>sdp_media = [\<lparr>m_port = 0, m_connections = None, m_rest = ''audio''\<rparr>],
                   sdp_connection = None, sdp_rest = ''v=0''\<rparr>"

definition demo_addr :: "string \<Rightarrow> sip_addr" where
  "demo_addr t = \<lparr>a_display = None,
     a_url = zero_url\<lparr>url_type := url_sip, url_scheme := Some ''sip'', url_host := Some (drop 4 t)\<rparr>\<rparr>"

definition demo_env :: sofia_env where
  "demo_env =
     \<lparr>e_sdp_parse = (\<lambda>t. if t = [] then Parse_error ''empty'' else Parsed demo_session),
      e_sdp_print = (\<lambda>ses. Some ''v=0 audio''),
      e_sip_to_make = (\<lambda>t. if t = [] then None else Some (demo_addr t)),
      e_addr_as_string = (\<lambda>a. Some (URL_PRINT (a_url a)))\<rparr>"

lemma demo_sanitize [simp]: "url_sanitize (a_url (demo_addr t)) = Some (a_url (demo_addr t))"
  by (simp add: demo_addr_def url_sanitize_def)

lemma demo_addr_url [simp]: "(demo_addr t)\<lparr>a_url := a_url (demo_addr t)\<rparr> = demo_addr t"
  by simp

section \<open>Properties\<close>

text \<open>
  Activating the freshly created subsystem. The local description becomes the capabilities with
  the RTP port of the first media set to 16384, its text is cached, the remote description becomes
  the parsed local text with every port zeroed, the state becomes \<open>sm_active\<close>, the signal goes out,
  and the call returns 0.
\<close>

theorem activate_fresh:
  assumes caps: "e_sdp_parse E ssc_media_static_capabilities = Parsed ses" "sdp_media ses \<noteq> []"
    and print: "e_sdp_print E (set_first_port 16384 ses) = Some t" "e_sdp_parse E t = Parsed rs"
  shows "ok (ssc_media_activate E ssc_media_init)
           (\<lambda>(r, sig, m). r = 0 \<and> sig \<and> sm_state m = sm_active
              \<and> sm_sdp_local m = Some (Parsed (set_first_port 16384 ses))
              \<and> sm_sdp_local_str m = CLive t \<and> m_port (hd (sdp_media (set_first_port 16384 ses))) = 16384
              \<and> sm_sdp_remote m = Some (Parsed (zero_ports rs))
              \<and> (\<forall>md \<in> set (sdp_media (zero_ports rs)). m_port md = 0))"
  using assms
  by (simp add: ssc_media_activate_def priv_activate_base_def activate_local_def ssc_media_init_def
      class_set_local_to_caps_def class_set_remote_to_local_def class_set_property_def
      ssc_media_get_property_def priv_set_local_sdp_def priv_set_remote_sdp_def sdp_parsing_error_def
      sdp_session_of_def sdp_print_to_text_def cstr_get_def ssc_media_signal_state_change_def
      ssc_media_refresh_def priv_refresh_base_def SSC_MEDIA_RTP_PORT_RANGE_START_def set_first_port_def
      zero_ports_def Let_def emit_def split: list.split)

theorem activate_fresh_witness:
  "e_sdp_parse demo_env ssc_media_static_capabilities = Parsed demo_session
   \<and> sdp_media demo_session \<noteq> []
   \<and> ok (ssc_media_activate demo_env ssc_media_init)
       (\<lambda>(r, sig, m). r = 0 \<and> sig \<and> sm_state m = sm_active
          \<and> sm_sdp_local m = Some (Parsed (set_first_port 16384 demo_session))
          \<and> sm_sdp_remote m = Some (Parsed (zero_ports demo_session)))"
proof -
  have h: "e_sdp_parse demo_env ssc_media_static_capabilities = Parsed demo_session"
      "sdp_media demo_session \<noteq> []"
      "e_sdp_print demo_env (set_first_port 16384 demo_session) = Some ''v=0 audio''"
      "e_sdp_parse demo_env ''v=0 audio'' = Parsed demo_session"
    by (simp_all add: demo_env_def demo_session_def ssc_media_static_capabilities_def
        priv_static_capabilities_base_def set_first_port_def)
  show ?thesis
    using ok_mono [OF activate_fresh [OF h]] h by auto
qed

text \<open>
  Reading \<open>localsdp\<close> after writing it. A text that parses is read back as its printed form; a
  text that does not parse is reported, the parsed description is lost, and the old cached text is
  still returned.
\<close>

theorem local_sdp_set_get:
  assumes "media_ok m"
  shows "ok (andthen (ssc_media_set_property E PROP_LOCAL_SDP (Some t) m)
               (ssc_media_get_property E PROP_LOCAL_SDP))
           (\<lambda>(v, m'). v = (case e_sdp_parse E t of
                             Parsed ses \<Rightarrow> e_sdp_print E ses
                           | Parse_error _ \<Rightarrow>
                               (case sm_sdp_local_str m of CLive u \<Rightarrow> Some u | _ \<Rightarrow> None))
              \<and> sm_sdp_local m' = Some (e_sdp_parse E t) \<and> sm_state m' = sm_state m)"
  using assms
  by (auto simp: class_set_property_def ssc_media_get_property_def priv_set_local_sdp_def
      sdp_parsing_error_def sdp_session_of_def sdp_print_to_text_def cstr_get_def g_free_def
      ssc_media_refresh_def priv_refresh_base_def media_ok_def Let_def
      split: cstr.split sdp_parser.split option.split)

theorem local_sdp_set_get_witness:
  "media_ok ssc_media_init
   \<and> ok (andthen (ssc_media_set_property demo_env PROP_LOCAL_SDP (Some ''x'') ssc_media_init)
           (ssc_media_get_property demo_env PROP_LOCAL_SDP))
       (\<lambda>(v, m'). v = Some ''v=0 audio'')"
proof -
  have h: "media_ok ssc_media_init" by (simp add: media_ok_def ssc_media_init_def)
  show ?thesis
    using h ok_mono [OF local_sdp_set_get [OF h, of demo_env "''x''"]]
    by (auto simp: demo_env_def demo_session_def)
qed

text \<open>
  The cached remote text. Reading \<open>remotesdp\<close> caches its text; the next successful write frees
  the text but keeps the pointer, so that one more write frees it a second time and one more read
  returns freed memory.
\<close>

theorem remote_sdp_cache_dangles:
  assumes "sm_sdp_remote_str m = CNull" "sm_sdp_remote m = Some (Parsed ses)"
    and "e_sdp_print E ses = Some u"
    and "e_sdp_parse E t1 = Parsed ses1" "e_sdp_parse E t2 = Parsed ses2"
  shows "andthen (andthen (ssc_media_get_property E PROP_REMOTE_SDP m) (\<lambda>(v, m1).
           ssc_media_set_property E PROP_REMOTE_SDP (Some t1) m1))
           (ssc_media_set_property E PROP_REMOTE_SDP (Some t2)) = Inl Double_free
       \<and> andthen (andthen (ssc_media_get_property E PROP_REMOTE_SDP m) (\<lambda>(v, m1).
           ssc_media_set_property E PROP_REMOTE_SDP (Some t1) m1))
           (ssc_media_get_property E PROP_REMOTE_SDP) = Inl Use_after_free"
  using assms
  by (simp add: class_set_property_def ssc_media_get_property_def priv_set_remote_sdp_def
      sdp_parsing_error_def sdp_session_of_def sdp_print_to_text_def cstr_get_def g_free_def
      ssc_media_refresh_def priv_refresh_base_def Let_def)

theorem remote_sdp_cache_dangles_witness:
  "andthen (andthen (ssc_media_get_property demo_env PROP_REMOTE_SDP
       (ssc_media_init\<lparr>sm_sdp_remote := Some (Parsed demo_session)\<rparr>)) (\<lambda>(v, m1).
     ssc_media_set_property demo_env PROP_REMOTE_SDP (Some ''a'') m1))
     (ssc_media_set_property demo_env PROP_REMOTE_SDP (Some ''b'')) = Inl Double_free"
  using remote_sdp_cache_dangles [of "ssc_media_init\<lparr>sm_sdp_remote := Some (Parsed demo_session)\<rparr>"
      demo_session demo_env "''v=0 audio''" "''a''" demo_session "''b''" demo_session]
  by (simp add: demo_env_def demo_session_def ssc_media_init_def)

text \<open>
  Setting the contact of a media line: the media gets a c-line of its own with exactly the given
  network type, address type and address; nothing else of it changes, and the call reports success.
\<close>

theorem sdp_set_contact_sets:
  "\<exists>c. sdp_set_contact ses md n a addr = (0, md\<lparr>m_connections := Some c\<rparr>)
       \<and> c_nettype c = n \<and> c_addrtype c = a \<and> c_address c = addr
       \<and> sdp_media_connections ses (snd (sdp_set_contact ses md n a addr)) = Some c"
  by (simp add: sdp_set_contact_def sdp_media_connections_def Let_def)

end
