(* ===== verification/Ssc_Oper.thy ===== *)
theory Ssc_Oper
  imports Ssc_Media
begin

unbundle bit_operations_syntax

text \<open>
  Active operations: \<open>ssc_oper.c\<close>, with the data of \<open>ssc_oper.h\<close> and \<open>ssc_sip.h\<close>.

  An operation is a heap cell \<open>ssc_oper\<close>; the operations of an \<open>ssc\<close> form the linked list that starts
  at \<open>ssc_operations\<close> and follows \<open>op_next\<close>. The heap is explicit (\<open>ssc_heap\<close>), so that a pointer kept
  elsewhere can dangle and the source's pointer walks are modelled as they are, including one that
  follows the wrong link. Each walk is a \<open>partial_function (option)\<close>.

  \<open>su_zalloc\<close> takes its outcomes from \<open>ssc_allocs\<close>: at each call the address it would return, or
  \<open>NULL\<close>. An address may come back after it was freed, as with a real allocator. \<open>nua_handle\<close> takes
  its outcomes from \<open>ssc_handles\<close> in the same way.

  The lemmas relate the heap to the list of its cells (\<open>opers s ps\<close>): each search is \<open>find\<close> on that
  list, creation and destruction are insertion and removal.
\<close>

section \<open>Data\<close>

datatype sip_method =
    sip_method_invalid | sip_method_unknown | sip_method_invite | sip_method_ack
  | sip_method_cancel | sip_method_bye | sip_method_options | sip_method_register
  | sip_method_info | sip_method_prack | sip_method_update | sip_method_message
  | sip_method_subscribe | sip_method_notify | sip_method_refer | sip_method_publish

type_synonym callstate = "32 word"

definition opc_none :: callstate where "opc_none = 0"
definition opc_sent :: callstate where "opc_sent = 1"
definition opc_recv :: callstate where "opc_recv = 2"
definition opc_complete :: callstate where "opc_complete = 3"
definition opc_active :: callstate where "opc_active = 4"
definition opc_sent_hold :: callstate where "opc_sent_hold = 8"
definition opc_pending :: callstate where "opc_pending = 16"

lemmas opc_defs = opc_none_def opc_sent_def opc_recv_def opc_complete_def opc_active_def
  opc_sent_hold_def opc_pending_def

text \<open>\<open>op_ssc\<close> tells whether the backpointer to the owner has been set.\<close>

record ssc_oper =
  op_next :: "ptr option"
  op_ident :: "string option"
  op_handle :: "handle option"
  op_ssc :: bool
  op_method :: sip_method
  op_method_name :: "string option"
  op_callstate :: callstate
  op_prev_state :: int
  op_persistent :: bool

definition zero_oper :: ssc_oper where
  "zero_oper = \<lparr>op_next = None, op_ident = None, op_handle = None, op_ssc = False,
                op_method = sip_method_unknown, op_method_name = None, op_callstate = 0,
                op_prev_state = 0, op_persistent = False\<rparr>"

record ssc_auth_item =
  ssc_scheme :: "string option"
  ssc_realm :: "string option"
  ssc_username :: "string option"
  ssc_op :: "ptr option"

text \<open>\<open>ssc_t\<close>. The callback fields tell whether a callback is installed; \<open>ssc_heap\<close>, \<open>ssc_allocs\<close> and
  \<open>ssc_handles\<close> stand for the memory and the stack the C code runs on.\<close>

type_synonym oheap = "ptr \<rightharpoonup> ssc_oper"

record ssc = SscMedia +
  ssc_name :: string
  ssc_heap :: oheap
  ssc_operations :: "ptr option"
  ssc_address :: "string option"
  ssc_autoanswer :: bool
  ssc_auth_pend :: "ssc_auth_item list"
  ssc_ans_status :: int
  ssc_ans_phrase :: string
  ssc_exit_cb :: bool
  ssc_event_cb :: bool
  ssc_registration_cb :: bool
  ssc_call_state_cb :: bool
  ssc_media_state_cb :: bool
  ssc_auth_req_cb :: bool
  ssc_allocs :: "ptr option list"
  ssc_handles :: "handle option list"

section \<open>Memory\<close>

definition deref :: "oheap \<Rightarrow> ptr option \<Rightarrow> ssc_oper res" where
  "deref h p = (case p of None \<Rightarrow> Inl Null_deref
                | Some a \<Rightarrow> (case h a of None \<Rightarrow> Inl Use_after_free | Some r \<Rightarrow> Inr r))"

definition store :: "ptr option \<Rightarrow> (ssc_oper \<Rightarrow> ssc_oper) \<Rightarrow> ssc \<Rightarrow> ssc res" where
  "store p f s = andthen (deref (ssc_heap s) p) (\<lambda>r. Inr (s\<lparr>ssc_heap := (ssc_heap s)(the p \<mapsto> f r)\<rparr>))"

definition su_zalloc :: "ssc \<Rightarrow> ptr option \<times> ssc" where
  "su_zalloc s =
     (case ssc_allocs s of
        [] \<Rightarrow> (None, s)
      | None # as \<Rightarrow> (None, s\<lparr>ssc_allocs := as\<rparr>)
      | Some p # as \<Rightarrow>
          (if ssc_heap s p = None
           then (Some p, s\<lparr>ssc_allocs := as, ssc_heap := (ssc_heap s)(p \<mapsto> zero_oper)\<rparr>)
           else (None, s\<lparr>ssc_allocs := as\<rparr>)))"

definition su_free_oper :: "ptr \<Rightarrow> ssc \<Rightarrow> ssc res" where
  "su_free_oper p s =
     (if ssc_heap s p = None then Inl Double_free
      else Inr (s\<lparr>ssc_heap := (ssc_heap s)(p := None)\<rparr>))"

definition nua_handle :: "tag list \<Rightarrow> ssc \<Rightarrow> handle option \<times> ssc" where
  "nua_handle tags s =
     (let nh = (case ssc_handles s of [] \<Rightarrow> None | x # _ \<Rightarrow> x)
      in (nh, emit (Nua_handle nh tags) (s\<lparr>ssc_handles := tl (ssc_handles s)\<rparr>)))"

section \<open>Searches\<close>

text \<open>\<open>for (op = ssc->ssc_operations; op; op = op->op_next) if (P op) break;\<close>\<close>

partial_function (option) find_from ::
  "(ssc_oper \<Rightarrow> bool) \<Rightarrow> oheap \<Rightarrow> ptr option \<Rightarrow> ptr option res option" where
  "find_from P h op =
     (case op of
        None \<Rightarrow> Some (Inr None)
      | Some a \<Rightarrow>
          (case h a of
             None \<Rightarrow> Some (Inl Use_after_free)
           | Some r \<Rightarrow> if P r then Some (Inr op) else find_from P h (op_next r)))"

definition find_oper :: "(ssc_oper \<Rightarrow> bool) \<Rightarrow> ssc \<Rightarrow> ptr option res" where
  "find_oper P s = returns (find_from P (ssc_heap s) (ssc_operations s))"

definition ssc_oper_find_call :: "ssc \<Rightarrow> ptr option res" where
  "ssc_oper_find_call s = find_oper (\<lambda>op. op_callstate op \<noteq> 0) s"

definition ssc_oper_find_call_in_progress :: "ssc \<Rightarrow> ptr option res" where
  "ssc_oper_find_call_in_progress s = find_oper (\<lambda>op. op_callstate op AND opc_sent \<noteq> 0) s"

definition ssc_oper_find_call_embryonic :: "ssc \<Rightarrow> ptr option res" where
  "ssc_oper_find_call_embryonic s =
     find_oper (\<lambda>op. op_callstate op = 0 \<and> op_method op = sip_method_invite) s"

definition ssc_oper_find_unanswered :: "ssc \<Rightarrow> ptr option res" where
  "ssc_oper_find_unanswered s = find_oper (\<lambda>op. op_callstate op = opc_recv) s"

definition ssc_oper_find_by_handle :: "ssc \<Rightarrow> handle option \<Rightarrow> ptr option res" where
  "ssc_oper_find_by_handle s nh = find_oper (\<lambda>op. op_handle op = nh) s"

definition ssc_oper_find_by_method :: "ssc \<Rightarrow> sip_method \<Rightarrow> ptr option res" where
  "ssc_oper_find_by_method s m = find_oper (\<lambda>op. op_method op = m \<and> op_persistent op) s"

definition ssc_oper_find_by_callstate :: "ssc \<Rightarrow> callstate \<Rightarrow> ptr option res" where
  "ssc_oper_find_by_callstate s c = find_oper (\<lambda>op. op_callstate op AND c \<noteq> 0) s"

definition ssc_oper_find_register :: "ssc \<Rightarrow> ptr option res" where
  "ssc_oper_find_register s = find_oper (\<lambda>op. op_method op = sip_method_register \<and> op_persistent op) s"

text \<open>\<open>ssc_oper_check\<close> advances with \<open>tmp = op->op_next\<close>, from the operation it was given and not
  from the one it looks at.\<close>

partial_function (option) check_from ::
  "oheap \<Rightarrow> ptr option \<Rightarrow> ptr option \<Rightarrow> ptr option res option" where
  "check_from h op tmp =
     (if tmp = None then Some (Inr None)
      else if tmp = op then Some (Inr op)
      else (case deref h op of Inl e \<Rightarrow> Some (Inl e) | Inr r \<Rightarrow> check_from h op (op_next r)))"

definition ssc_oper_check :: "ssc \<Rightarrow> ptr option \<Rightarrow> ptr option res" where
  "ssc_oper_check s op = returns (check_from (ssc_heap s) op (ssc_operations s))"

section \<open>Creation and destruction\<close>

definition ssc_oper_assign :: "ptr option \<Rightarrow> sip_method \<Rightarrow> string option \<Rightarrow> ssc \<Rightarrow> ssc res" where
  "ssc_oper_assign op method name s =
     (if op = None then Inr s
      else store op (\<lambda>r. r\<lparr>op_method := method, op_method_name := name,
             op_persistent := (method = sip_method_subscribe \<or> method = sip_method_register
                               \<or> method = sip_method_publish)\<rparr>) s)"

text \<open>The location \<open>prev\<close> points to: the list head or the \<open>op_next\<close> field of a cell.\<close>

datatype link = Head | Next_of ptr

partial_function (option) seek ::
  "oheap \<Rightarrow> ptr \<Rightarrow> link \<Rightarrow> ptr option \<Rightarrow> (link \<times> ptr option) res option" where
  "seek h op prev cur =
     (case cur of
        None \<Rightarrow> Some (Inr (prev, None))
      | Some c \<Rightarrow>
          if c = op then Some (Inr (prev, cur))
          else (case h c of
                  None \<Rightarrow> Some (Inl Use_after_free)
                | Some r \<Rightarrow> seek h op (Next_of c) (op_next r)))"

definition set_link :: "link \<Rightarrow> ptr option \<Rightarrow> ssc \<Rightarrow> ssc res" where
  "set_link l v s =
     (case l of Head \<Rightarrow> Inr (s\<lparr>ssc_operations := v\<rparr>)
      | Next_of q \<Rightarrow> store (Some q) (\<lambda>r. r\<lparr>op_next := v\<rparr>) s)"

definition oper_unlink :: "ptr \<Rightarrow> ssc \<Rightarrow> ssc res" where
  "oper_unlink op s =
     andthen (returns (seek (ssc_heap s) op Head (ssc_operations s))) (\<lambda>(prev, cur).
       if cur = None then Inr s
       else andthen (deref (ssc_heap s) (Some op)) (\<lambda>r.
            andthen (set_link prev (op_next r) s) (store (Some op) (\<lambda>r. r\<lparr>op_next := None\<rparr>))))"

partial_function (option) count_invites :: "oheap \<Rightarrow> ptr option \<Rightarrow> nat \<Rightarrow> nat res option" where
  "count_invites h cur n =
     (case cur of
        None \<Rightarrow> Some (Inr n)
      | Some c \<Rightarrow>
          (case h c of
             None \<Rightarrow> Some (Inl Use_after_free)
           | Some r \<Rightarrow> count_invites h (op_next r) (if op_method r = sip_method_invite then Suc n else n)))"

definition ssc_oper_destroy :: "ptr option \<Rightarrow> ssc \<Rightarrow> ssc res" where
  "ssc_oper_destroy op s =
     (case op of
        None \<Rightarrow> Inr s
      | Some p \<Rightarrow>
          andthen (oper_unlink p s) (\<lambda>s.
          andthen (deref (ssc_heap s) op) (\<lambda>r.
          andthen (case op_handle r of
                     None \<Rightarrow> Inr s
                   | Some nh \<Rightarrow> store op (\<lambda>r. r\<lparr>op_handle := None\<rparr>) (emit (Nua_handle_destroy nh) s)) (\<lambda>s.
          andthen (returns (count_invites (ssc_heap s) (ssc_operations s) 0)) (\<lambda>active_invites.
            su_free_oper p
              (if active_invites = 0 \<and> ssc_media_is_initialized s then ssc_media_deactivate s
               else s))))))"

text \<open>Destroying the idle handles that are older than a new operation.\<close>

partial_function (option) clean_old :: "ssc \<Rightarrow> ptr option \<Rightarrow> ssc res option" where
  "clean_old s old =
     (case old of
        None \<Rightarrow> Some (Inr s)
      | Some a \<Rightarrow>
          (case ssc_heap s a of
             None \<Rightarrow> Some (Inl Use_after_free)
           | Some r \<Rightarrow>
               if \<not> op_persistent r \<and> op_callstate r = 0
               then (case ssc_oper_destroy (Some a) s of
                       Inl e \<Rightarrow> Some (Inl e)
                     | Inr s1 \<Rightarrow> clean_old s1 (op_next r))
               else clean_old s (op_next r)))"

text \<open>The branch of \<open>ssc_oper_create\<close> with a usable destination \<open>to\<close>.\<close>

definition oper_create_to ::
  "sofia_env \<Rightarrow> sip_method \<Rightarrow> string option \<Rightarrow> sip_addr \<Rightarrow> tag list \<Rightarrow> ptr option \<Rightarrow> ssc
     \<Rightarrow> (ptr option \<times> ssc) res" where
  "oper_create_to E method name to ta old s =
     (case su_zalloc s of
        (None, s) \<Rightarrow>
          Inr (None, printf (fmt [ssc_name s, '': '', pstr name, '': cannot create handle'', nl]) s)
      | (Some op, s) \<Rightarrow>
          andthen (store (Some op) (\<lambda>r. r\<lparr>op_next := ssc_operations s, op_prev_state := -1,
                                         op_ssc := True\<rparr>) s) (\<lambda>s.
          let s = s\<lparr>ssc_operations := Some op\<rparr>;
              have_url = (method \<noteq> sip_method_register);
              (nh, s) = nua_handle ((if have_url then [NUTAG_URL (a_url to)] else [])
                                    @ [SIPTAG_TO to] @ ta) s in
          andthen (store (Some op) (\<lambda>r. r\<lparr>op_handle := nh\<rparr>) s) (\<lambda>s.
          andthen (store (Some op) (\<lambda>r. r\<lparr>op_ident := e_addr_as_string E to\<rparr>) s) (\<lambda>s.
          andthen (ssc_oper_assign (Some op) method name s) (\<lambda>s.
          andthen (deref (ssc_heap s) (Some op)) (\<lambda>r.
          andthen (if \<not> op_persistent r then returns (clean_old s old) else Inr s) (\<lambda>s.
          Inr (Some op, s))))))))"

definition ssc_oper_create ::
  "sofia_env \<Rightarrow> sip_method \<Rightarrow> string option \<Rightarrow> string option \<Rightarrow> tag list \<Rightarrow> ssc
     \<Rightarrow> (ptr option \<times> ssc) res" where
  "ssc_oper_create E method name address ta s =
     andthen (find_oper (\<lambda>op. \<not> op_persistent op) s) (\<lambda>old.
     case address of
       Some addr \<Rightarrow>
         (case e_sip_to_make E addr of
            None \<Rightarrow>
              Inr (None, printf (fmt [ssc_name s, '': '', pstr name, '': invalid address: '', addr, nl]) s)
          | Some to \<Rightarrow>
              (case url_sanitize (a_url to) of
                 None \<Rightarrow>
                   Inr (None, printf (fmt [ssc_name s, '': '', pstr name, '': invalid address'', nl]) s)
               | Some u \<Rightarrow> oper_create_to E method name (to\<lparr>a_url := u\<rparr>) ta old s))
     | None \<Rightarrow>
         if method \<noteq> sip_method_unknown \<or> name \<noteq> None
         then andthen (ssc_oper_assign old method name s) (\<lambda>s.
              if old = None
              then Inr (None, printf (fmt [ssc_name s, '': '', pstr name, '': no destination'', nl]) s)
              else Inr (old, s))
         else Inr (old, s))"

definition ssc_oper_create_with_handle ::
  "sofia_env \<Rightarrow> sip_method \<Rightarrow> string option \<Rightarrow> handle \<Rightarrow> sip_addr \<Rightarrow> ssc \<Rightarrow> (ptr option \<times> ssc) res" where
  "ssc_oper_create_with_handle E method name nh from s =
     (case su_zalloc s of
        (None, s) \<Rightarrow>
          Inr (None, printf (fmt [ssc_name s, '': cannot create operation object for '', pstr name, nl]) s)
      | (Some op, s) \<Rightarrow>
          andthen (store (Some op) (\<lambda>r. r\<lparr>op_next := ssc_operations s\<rparr>) s) (\<lambda>s.
          let s = s\<lparr>ssc_operations := Some op\<rparr> in
          andthen (ssc_oper_assign (Some op) method name s) (\<lambda>s.
          andthen (store (Some op) (\<lambda>r. r\<lparr>op_handle := Some nh\<rparr>) s) (\<lambda>s.
          let s = emit (Nua_handle_bind nh op) s in
          andthen (store (Some op) (\<lambda>r. r\<lparr>op_ident := e_addr_as_string E from\<rparr>) s) (\<lambda>s.
          andthen (store (Some op) (\<lambda>r. r\<lparr>op_ssc := True\<rparr>) s) (\<lambda>s.
          Inr (Some op, s)))))))"

section \<open>Lists in the heap\<close>

primrec chain :: "oheap \<Rightarrow> ptr option \<Rightarrow> ptr list \<Rightarrow> bool" where
  "chain h p [] \<longleftrightarrow> p = None"
| "chain h p (a # as) \<longleftrightarrow> p = Some a \<and> (case h a of None \<Rightarrow> False | Some r \<Rightarrow> chain h (op_next r) as)"

definition opers :: "ssc \<Rightarrow> ptr list \<Rightarrow> bool" where
  "opers s ps \<longleftrightarrow> chain (ssc_heap s) (ssc_operations s) ps \<and> dom (ssc_heap s) = set ps"

text \<open>What an operation says, without its place in the list.\<close>

definition info :: "oheap \<Rightarrow> ptr \<Rightarrow> ssc_oper" where
  "info h p = (the (h p))\<lparr>op_next := None\<rparr>"

lemma chain_Cons_iff:
  "chain h p (a # as) \<longleftrightarrow> p = Some a \<and> (\<exists>r. h a = Some r \<and> chain h (op_next r) as)"
  by (auto split: option.splits)

declare chain.simps(2) [simp del] chain_Cons_iff [simp]

lemma chain_None [simp]: "chain h None ps \<longleftrightarrow> ps = []"
  by (cases ps) auto

lemma chain_dom: "chain h p ps \<Longrightarrow> set ps \<subseteq> dom h"
  by (induction ps arbitrary: p) auto

lemma chain_unique: "chain h p as \<Longrightarrow> chain h p bs \<Longrightarrow> as = bs"
proof (induction as arbitrary: p bs)
  case (Cons a as)
  then show ?case by (cases bs) auto
qed simp

lemma chain_tail: "chain h p (as @ bs) \<Longrightarrow> \<exists>q. chain h q bs"
  by (induction as arbitrary: p) auto

lemma chain_distinct: "chain h p ps \<Longrightarrow> distinct ps"
proof (induction ps arbitrary: p)
  case (Cons a as)
  then obtain r where r: "h a = Some r" "chain h (op_next r) as" by auto
  have "a \<notin> set as"
  proof
    assume "a \<in> set as"
    then obtain xs ys where as: "as = xs @ a # ys" by (meson split_list)
    with r(2) obtain q where "chain h q (a # ys)" by (metis chain_tail)
    with r(1) have "chain h (op_next r) ys" by simp
    with r(2) have "as = ys" by (rule chain_unique)
    then have "length as = length ys" by (rule arg_cong)
    moreover have "length as = length (xs @ a # ys)" using as by (rule arg_cong)
    ultimately show False by simp
  qed
  with r Cons.IH show ?case by simp
qed simp

lemma chain_upd_notin [simp]: "q \<notin> set ps \<Longrightarrow> chain (h(q := x)) p ps = chain h p ps"
  by (induction ps arbitrary: p) auto

lemma chain_upd_data:
  "h q = Some r \<Longrightarrow> op_next r' = op_next r \<Longrightarrow> chain (h(q \<mapsto> r')) p ps = chain h p ps"
  by (induction ps arbitrary: p) auto

lemma chain_unlink:
  assumes "chain h p (as @ a # bs)" "h a = Some r" "as \<noteq> []" "h (last as) = Some l"
  shows "chain (h(last as \<mapsto> l\<lparr>op_next := op_next r\<rparr>)) p (as @ bs)"
  using assms
proof (induction as arbitrary: p)
  case (Cons x xs)
  then obtain rx where rx: "p = Some x" "h x = Some rx" "chain h (op_next rx) (xs @ a # bs)" by auto
  have "x \<notin> set (xs @ a # bs)" using chain_distinct [OF Cons.prems(1)] by simp
  moreover from this have "xs \<noteq> [] \<Longrightarrow> x \<noteq> last xs" by (metis UnCI last_in_set set_append)
  ultimately show ?case
    using Cons rx
    by (cases "xs = []") (simp_all del: fun_upd_apply add: fun_upd_same fun_upd_other)
qed simp

section \<open>The walks\<close>

lemmas walk_simps = find_from.simps seek.simps count_invites.simps

lemma find_from_chain: "chain h p ps \<Longrightarrow> find_from P h p = Some (Inr (find (\<lambda>a. P (the (h a))) ps))"
  by (induction ps arbitrary: p) (auto simp: find_from.simps)

lemma seek_chain:
  "chain h p ps \<Longrightarrow> a \<notin> set ps \<Longrightarrow> \<exists>l. seek h a l0 p = Some (Inr (l, None))"
  by (induction ps arbitrary: p l0) (auto simp: seek.simps)

lemma seek_chain_found:
  "chain h p (as @ a # bs) \<Longrightarrow> a \<notin> set as \<Longrightarrow>
   seek h a l0 p = Some (Inr (if as = [] then l0 else Next_of (last as), Some a))"
  by (induction as arbitrary: p l0) (auto simp: seek.simps)

lemma count_invites_chain:
  "chain h p ps \<Longrightarrow>
   count_invites h p n = Some (Inr (n + length (filter (\<lambda>a. op_method (the (h a)) = sip_method_invite) ps)))"
  by (induction ps arbitrary: p n) (auto simp: count_invites.simps)

lemma find_oper_opers: "opers s ps \<Longrightarrow> find_oper P s = Inr (find (\<lambda>a. P (the (ssc_heap s a))) ps)"
  by (auto simp: opers_def find_oper_def find_from_chain [of _ _ ps])

section \<open>Removal\<close>

lemma deref_simps [simp]:
  "deref h None = Inl Null_deref"
  "h a = None \<Longrightarrow> deref h (Some a) = Inl Use_after_free"
  "h a = Some r \<Longrightarrow> deref h (Some a) = Inr r"
  by (simp_all add: deref_def)

lemma store_live: "ssc_heap s a = Some r \<Longrightarrow>
    store (Some a) f s = Inr (s\<lparr>ssc_heap := (ssc_heap s)(a \<mapsto> f r)\<rparr>)"
  by (simp add: store_def)

lemma opersD:
  assumes "opers s ps"
  shows opers_chain: "chain (ssc_heap s) (ssc_operations s) ps"
    and opers_dom: "dom (ssc_heap s) = set ps"
    and opers_distinct: "distinct ps"
  using assms chain_distinct by (auto simp: opers_def)

lemma opers_live: "opers s ps \<Longrightarrow> p \<in> set ps \<Longrightarrow> \<exists>r. ssc_heap s p = Some r"
  by (auto dest: opers_dom)

lemma info_upd_next: "h q = Some r \<Longrightarrow> info (h(q \<mapsto> r\<lparr>op_next := n\<rparr>)) = info h"
  by (auto simp: info_def)

lemma oper_unlink_ok:
  assumes "opers s ps" "p \<in> set ps"
  shows "ok (oper_unlink p s) (\<lambda>s'. s' = s\<lparr>ssc_heap := ssc_heap s', ssc_operations := ssc_operations s'\<rparr>
           \<and> chain (ssc_heap s') (ssc_operations s') (remove1 p ps) \<and> dom (ssc_heap s') = set ps
           \<and> info (ssc_heap s') = info (ssc_heap s))"
proof -
  let ?h = "ssc_heap s"
  from assms(2) obtain as bs where ps: "ps = as @ p # bs" and na: "p \<notin> set as"
    by (meson split_list_first)
  have d: "distinct ps" and ch: "chain ?h (ssc_operations s) (as @ p # bs)"
    using opersD [OF assms(1)] ps by auto
  have rem: "remove1 p ps = as @ bs" using na by (simp add: ps remove1_append)
  obtain r where r: "?h p = Some r" using opers_live [OF assms] by auto
  show ?thesis
  proof (cases "as = []")
    case True
    with ch r have "ssc_operations s = Some p" "chain ?h (op_next r) bs" by auto
    moreover have "p \<notin> set bs" using d ps by auto
    moreover have "dom (?h(p \<mapsto> r\<lparr>op_next := None\<rparr>)) = set ps"
      using opers_dom [OF assms(1)] ps by auto
    ultimately show ?thesis
      using True r seek_chain_found [OF ch na, of Head] rem
      by (simp add: oper_unlink_def set_link_def store_live info_upd_next)
  next
    case False
    then have la: "last as \<in> set as" by simp
    then obtain l where l: "?h (last as) = Some l" "last as \<noteq> p" "last as \<in> set ps"
      using opers_live [OF assms(1), of "last as"] na ps by auto
    let ?h1 = "?h(last as \<mapsto> l\<lparr>op_next := op_next r\<rparr>)"
    have "chain ?h1 (ssc_operations s) (as @ bs)"
      using chain_unlink [OF ch r False l(1)] .
    moreover have "p \<notin> set (as @ bs)" using d ps by auto
    ultimately have "chain (?h1(p \<mapsto> r\<lparr>op_next := None\<rparr>)) (ssc_operations s) (as @ bs)" by simp
    moreover have "dom (?h1(p \<mapsto> r\<lparr>op_next := None\<rparr>)) = set ps"
      using opers_dom [OF assms(1)] l ps by auto
    moreover have "info (?h1(p \<mapsto> r\<lparr>op_next := None\<rparr>)) = info ?h"
      using l r by (auto simp: info_def fun_eq_iff)
    ultimately show ?thesis
      using False r l seek_chain_found [OF ch na, of Head] rem
      by (simp add: oper_unlink_def set_link_def store_live)
  qed
qed

text \<open>The effect of \<open>ssc_oper_destroy\<close> on a listed operation: its handle is destroyed, it leaves the
  list and the heap, the others keep what they say, and the media subsystem is disabled exactly when
  no INVITE operation is left.\<close>

definition closing :: "oheap \<Rightarrow> ptr \<Rightarrow> out list" where
  "closing h p = (case op_handle (info h p) of None \<Rightarrow> [] | Some nh \<Rightarrow> [Nua_handle_destroy nh])"

definition is_invite :: "oheap \<Rightarrow> ptr \<Rightarrow> bool" where
  "is_invite h p \<longleftrightarrow> op_method (info h p) = sip_method_invite"

text \<open>All the fields that creating and destroying operations leave alone.\<close>

definition oper_rest :: "ssc \<Rightarrow> ssc" where
  "oper_rest s = s\<lparr>io_out := [], sm_state := sm_init, ssc_heap := Map.empty, ssc_operations := None,
                   ssc_allocs := [], ssc_handles := []\<rparr>"

lemma oper_rest_sel:
  "sm_sdp_local (oper_rest s) = sm_sdp_local s" "sm_sdp_remote (oper_rest s) = sm_sdp_remote s"
  "sm_sdp_local_str (oper_rest s) = sm_sdp_local_str s"
  "sm_sdp_remote_str (oper_rest s) = sm_sdp_remote_str s" "sm_handlers (oper_rest s) = sm_handlers s"
  "ssc_name (oper_rest s) = ssc_name s" "ssc_address (oper_rest s) = ssc_address s"
  "ssc_autoanswer (oper_rest s) = ssc_autoanswer s" "ssc_auth_pend (oper_rest s) = ssc_auth_pend s"
  "ssc_ans_status (oper_rest s) = ssc_ans_status s" "ssc_ans_phrase (oper_rest s) = ssc_ans_phrase s"
  by (simp_all add: oper_rest_def)

lemma oper_restD:
  assumes "oper_rest s' = oper_rest s"
  shows "sm_sdp_local s' = sm_sdp_local s" "sm_sdp_remote s' = sm_sdp_remote s"
    "sm_sdp_local_str s' = sm_sdp_local_str s" "sm_sdp_remote_str s' = sm_sdp_remote_str s"
    "sm_handlers s' = sm_handlers s" "ssc_name s' = ssc_name s" "ssc_address s' = ssc_address s"
    "ssc_autoanswer s' = ssc_autoanswer s" "ssc_auth_pend s' = ssc_auth_pend s"
    "ssc_ans_status s' = ssc_ans_status s" "ssc_ans_phrase s' = ssc_ans_phrase s"
  using assms by (metis oper_rest_sel)+

definition destroyed :: "ptr \<Rightarrow> ptr list \<Rightarrow> ssc \<Rightarrow> ssc \<Rightarrow> bool" where
  "destroyed p ps s s' \<longleftrightarrow>
     opers s' (remove1 p ps) \<and> (\<forall>q \<in> set ps - {p}. info (ssc_heap s') q = info (ssc_heap s) q)
     \<and> io_out s' = io_out s @ closing (ssc_heap s) p
     \<and> sm_state s' = (if \<exists>q \<in> set ps - {p}. is_invite (ssc_heap s) q then sm_state s else sm_disabled)
     \<and> oper_rest s' = oper_rest s"

lemma info_sel:
  "op_ident (info h q) = op_ident (the (h q))"
  "op_handle (info h q) = op_handle (the (h q))"
  "op_ssc (info h q) = op_ssc (the (h q))"
  "op_method (info h q) = op_method (the (h q))"
  "op_method_name (info h q) = op_method_name (the (h q))"
  "op_callstate (info h q) = op_callstate (the (h q))"
  "op_prev_state (info h q) = op_prev_state (the (h q))"
  "op_persistent (info h q) = op_persistent (the (h q))"
  by (simp_all add: info_def)

lemma count_invites_info:
  assumes "chain h p qs" "\<And>q. q \<in> set qs \<Longrightarrow> info h q = info h0 q"
  shows "count_invites h p 0 = Some (Inr (length (filter (is_invite h0) qs)))"
proof -
  have "filter (\<lambda>a. op_method (the (h a)) = sip_method_invite) qs = filter (is_invite h0) qs"
    by (rule filter_cong) (simp_all add: is_invite_def flip: info_sel add: assms(2))
  with count_invites_chain [OF assms(1), of 0] show ?thesis by simp
qed

lemma deactivate_if:
  "(if n = (0::nat) \<and> ssc_media_is_initialized u then ssc_media_deactivate u else u)
   = u\<lparr>sm_state := if n = 0 then sm_disabled else sm_state u\<rparr>" for u :: ssc
  by (cases u) (auto simp: ssc_media_is_initialized_def ssc_media_deactivate_def priv_deactivate_base_def)

lemma destroyed_final:
  assumes "opers s ps" "chain h t (remove1 p ps)" "dom h = set ps" "info h = info (ssc_heap s)"
    and "st = (if \<exists>q \<in> set ps - {p}. is_invite (ssc_heap s) q then sm_state s else sm_disabled)"
  shows "destroyed p ps s
      (s\<lparr>io_out := io_out s @ closing (ssc_heap s) p, sm_state := st, ssc_heap := (h(p := x))(p := None),
         ssc_operations := t\<rparr>)"
proof -
  have "p \<notin> set (remove1 p ps)" "set (remove1 p ps) = set ps - {p}"
    using opers_distinct [OF assms(1)] by (simp_all add: set_remove1_eq)
  with assms show ?thesis
    by (auto simp: destroyed_def opers_def oper_rest_def info_def fun_eq_iff)
qed

text \<open>The end of a destruction, on a state \<open>u\<close> in which the operation is out of the list and has lost its
  handle: the INVITEs that are left are counted, and the cell is freed.\<close>

lemma destroy_finish:
  assumes o: "opers s ps" and ch: "chain h t (remove1 p ps)" and dm: "dom h = set ps"
    and inf: "info h = info (ssc_heap s)"
    and u: "u = s\<lparr>io_out := io_out s @ closing (ssc_heap s) p, ssc_heap := h(p \<mapsto> x), ssc_operations := t\<rparr>"
  shows "ok (andthen (returns (count_invites (ssc_heap u) (ssc_operations u) 0)) (\<lambda>active_invites.
      su_free_oper p
        (if active_invites = 0 \<and> ssc_media_is_initialized u then ssc_media_deactivate u else u)))
      (destroyed p ps s)"
proof -
  let ?n = "length (filter (is_invite (ssc_heap s)) (remove1 p ps))"
  have ps': "p \<notin> set (remove1 p ps)" "set (remove1 p ps) = set ps - {p}"
    using opers_distinct [OF o] by (simp_all add: set_remove1_eq)
  have "count_invites (h(p \<mapsto> x)) t 0 = Some (Inr ?n)"
  proof (rule count_invites_info)
    show "chain (h(p \<mapsto> x)) t (remove1 p ps)" using ch ps' by simp
    show "info (h(p \<mapsto> x)) q = info (ssc_heap s) q" if "q \<in> set (remove1 p ps)" for q
      using that ps' by (auto simp flip: inf simp: info_def)
  qed
  then have c: "count_invites (ssc_heap u) (ssc_operations u) 0 = Some (Inr ?n)" using u by simp
  have z: "(if ?n = 0 then sm_disabled else sm_state s) =
      (if \<exists>q \<in> set ps - {p}. is_invite (ssc_heap s) q then sm_state s else sm_disabled)"
    using ps'(2) by (auto simp: filter_empty_conv)
  have "su_free_oper p (u\<lparr>sm_state := if ?n = 0 then sm_disabled else sm_state u\<rparr>) =
      Inr (s\<lparr>io_out := io_out s @ closing (ssc_heap s) p, sm_state := if ?n = 0 then sm_disabled else sm_state s,
             ssc_heap := (h(p \<mapsto> x))(p := None), ssc_operations := t\<rparr>)"
    using u by (simp add: su_free_oper_def)
  then show ?thesis
    using destroyed_final [OF o ch dm inf z, of "Some x"]
    by (simp only: c returns_simps andthen_simps deactivate_if ok_simps)
qed

lemma ssc_oper_destroy_ok:
  assumes "opers s ps" "p \<in> set ps"
  shows "ok (ssc_oper_destroy (Some p) s) (destroyed p ps s)"
  unfolding ssc_oper_destroy_def option.case
proof (rule ok_andthenI [OF oper_unlink_ok [OF assms]], elim conjE, goal_cases)
  case (1 s1)
  obtain h t where h: "h = ssc_heap s1" and t: "t = ssc_operations s1" by blast
  have s1': "s1 = s\<lparr>ssc_heap := h, ssc_operations := t\<rparr>" using 1(1) h t by simp
  obtain r where r: "h p = Some r" using 1(3) assms(2) h by auto
  have rh: "closing (ssc_heap s) p = (case op_handle r of None \<Rightarrow> [] | Some nh \<Rightarrow> [Nua_handle_destroy nh])"
    using r by (simp add: closing_def h info_sel flip: 1(4))
  note fin = destroy_finish [OF assms(1) 1(2-4), folded h t]
  show ?case
  proof (cases "op_handle r")
    case None
    have "s1 = s\<lparr>io_out := io_out s @ closing (ssc_heap s) p, ssc_heap := h(p \<mapsto> r), ssc_operations := t\<rparr>"
      using None r by (simp add: s1' rh map_upd_triv)
    from fin [OF this] show ?thesis
      using r None by (simp only: h [symmetric] deref_simps andthen_simps option.case)
  next
    case (Some nh)
    have "store (Some p) (\<lambda>r. r\<lparr>op_handle := None\<rparr>) (emit (Nua_handle_destroy nh) s1) =
        Inr (s\<lparr>io_out := io_out s @ closing (ssc_heap s) p, ssc_heap := h(p \<mapsto> r\<lparr>op_handle := None\<rparr>),
               ssc_operations := t\<rparr>)"
      using Some r by (simp add: s1' store_live emit_def rh)
    then show ?thesis
      using fin [OF refl] r Some by (simp only: h [symmetric] deref_simps andthen_simps option.case)
  qed
qed

section \<open>Cleaning idle operations\<close>

definition keep :: "oheap \<Rightarrow> ptr \<Rightarrow> bool" where
  "keep h p \<longleftrightarrow> op_persistent (info h p) \<or> op_callstate (info h p) \<noteq> 0"

primrec first :: "ptr list \<Rightarrow> ptr option" where
  "first [] = None"
| "first (p # ps) = Some p"

lemma chain_first: "chain h p ps \<Longrightarrow> p = first ps"
  by (cases ps) auto

lemma chain_suffix: "chain h p (as @ bs) \<Longrightarrow> chain h (first bs) bs"
  using chain_tail chain_first by metis

definition cleaned :: "ptr list \<Rightarrow> ptr list \<Rightarrow> ssc \<Rightarrow> ssc \<Rightarrow> bool" where
  "cleaned as qs s s' \<longleftrightarrow>
     (let h = ssc_heap s; ps' = as @ filter (keep h) qs in
      opers s' ps' \<and> (\<forall>q \<in> set ps'. info (ssc_heap s') q = info h q)
      \<and> io_out s' = io_out s @ concat (map (closing h) (filter (\<lambda>q. \<not> keep h q) qs))
      \<and> sm_state s' = (if (\<forall>q \<in> set qs. keep h q) \<or> (\<exists>q \<in> set ps'. is_invite h q) then sm_state s
                      else sm_disabled)
      \<and> oper_rest s' = oper_rest s)"

lemma info_cong:
  assumes "info h q = info h' q"
  shows keep_cong: "keep h q = keep h' q" and closing_cong: "closing h q = closing h' q"
    and is_invite_cong: "is_invite h q = is_invite h' q"
  using assms by (simp_all add: keep_def closing_def is_invite_def)

lemma cleaned_destroyed:
  assumes d: "destroyed q (as @ q # qs) s s1" and c: "cleaned as qs s1 s'"
    and nk: "\<not> keep (ssc_heap s) q" and nq: "q \<notin> set as" "q \<notin> set qs"
  shows "cleaned as (q # qs) s s'"
proof -
  let ?h = "ssc_heap s" and ?h1 = "ssc_heap s1"
  have inf: "info ?h1 p = info ?h p" if "p \<in> set as \<union> set qs" for p
    using d nq that by (auto simp: destroyed_def)
  have f: "filter (keep ?h1) qs = filter (keep ?h) qs"
      "filter (\<lambda>q. \<not> keep ?h1 q) qs = filter (\<lambda>q. \<not> keep ?h q) qs"
      "map (closing ?h1) (filter (\<lambda>q. \<not> keep ?h q) qs) = map (closing ?h) (filter (\<lambda>q. \<not> keep ?h q) qs)"
    by (auto intro!: filter_cong map_cong keep_cong closing_cong simp: keep_cong [OF inf] inf)
  have i: "(\<exists>p \<in> set (as @ filter (keep ?h) qs). is_invite ?h1 p) =
           (\<exists>p \<in> set (as @ filter (keep ?h) qs). is_invite ?h p)"
    using inf by (intro bex_cong is_invite_cong) auto
  have k: "(\<forall>p \<in> set qs. keep ?h1 p) = (\<forall>p \<in> set qs. keep ?h p)"
    using inf by (intro ball_cong keep_cong) auto
  show ?thesis
    using d c [unfolded cleaned_def Let_def f i k] nk nq inf
    by (auto simp: destroyed_def cleaned_def Let_def)
qed

lemma clean_old_ok:
  "opers s (as @ qs) \<Longrightarrow> ok (returns (clean_old s (first qs))) (cleaned as qs s)"
proof (induction qs arbitrary: s as)
  case Nil
  then show ?case by (simp add: clean_old.simps cleaned_def opers_def)
next
  case (Cons q qs)
  let ?h = "ssc_heap s"
  have ch: "chain ?h (first (q # qs)) (q # qs)" and dist: "distinct (as @ q # qs)"
    using opersD [OF Cons.prems] chain_suffix by blast+
  then obtain r where r: "?h q = Some r" "op_next r = first qs" using chain_first by auto
  have k: "keep ?h q \<longleftrightarrow> op_persistent r \<or> op_callstate r \<noteq> 0"
    using r by (simp add: keep_def info_sel)
  show ?case
  proof (cases "keep ?h q")
    case True
    have "ok (returns (clean_old s (first qs))) (cleaned (as @ [q]) qs s)"
      using Cons.prems by (intro Cons.IH) simp
    then have "ok (returns (clean_old s (first qs))) (cleaned as (q # qs) s)"
      by (rule ok_mono) (use True in \<open>simp add: cleaned_def Let_def\<close>)
    then show ?thesis
      using True r k by (auto simp: clean_old.simps [of s "Some q"])
  next
    case False
    obtain s1 where s1: "ssc_oper_destroy (Some q) s = Inr s1" "destroyed q (as @ q # qs) s s1"
      using ssc_oper_destroy_ok [OF Cons.prems, of q] by (auto simp: ok_iff)
    have "opers s1 (as @ qs)"
      using s1(2) dist by (simp add: destroyed_def remove1_append)
    then have "ok (returns (clean_old s1 (first qs))) (cleaned as qs s1)" by (rule Cons.IH)
    then have "ok (returns (clean_old s1 (first qs))) (cleaned as (q # qs) s)"
      by (rule ok_mono) (use cleaned_destroyed [OF s1(2)] False dist in auto)
    then show ?thesis
      using False r k s1(1) by (simp add: clean_old.simps [of s "Some q"])
  qed
qed

section \<open>Creation\<close>

definition persistent_method :: "sip_method \<Rightarrow> bool" where
  "persistent_method m \<longleftrightarrow> m = sip_method_subscribe \<or> m = sip_method_register \<or> m = sip_method_publish"

definition next_handle :: "ssc \<Rightarrow> handle option" where
  "next_handle s = (case ssc_handles s of [] \<Rightarrow> None | x # _ \<Rightarrow> x)"

definition create_tags :: "sip_method \<Rightarrow> sip_addr \<Rightarrow> tag list \<Rightarrow> tag list" where
  "create_tags m to ta = (if m \<noteq> sip_method_register then [NUTAG_URL (a_url to)] else []) @ [SIPTAG_TO to] @ ta"

definition new_info :: "sip_method \<Rightarrow> string option \<Rightarrow> handle option \<Rightarrow> string option \<Rightarrow> int \<Rightarrow> ssc_oper" where
  "new_info m name nh ident prev =
     zero_oper\<lparr>op_ident := ident, op_handle := nh, op_ssc := True, op_method := m, op_method_name := name,
              op_prev_state := prev, op_persistent := persistent_method m\<rparr>"

text \<open>The operations a creation removes: a new operation of a transient method evicts the idle ones.\<close>

definition evicted :: "sip_method \<Rightarrow> oheap \<Rightarrow> ptr list \<Rightarrow> ptr list" where
  "evicted m h ps = (if persistent_method m then [] else filter (\<lambda>q. \<not> keep h q) ps)"

definition created ::
  "sip_method \<Rightarrow> ssc_oper \<Rightarrow> out \<Rightarrow> ptr \<Rightarrow> ptr list \<Rightarrow> ptr list \<Rightarrow> ssc \<Rightarrow> ssc \<Rightarrow> bool" where
  "created m new call p ps ev s s' \<longleftrightarrow>
     (let h = ssc_heap s; L = filter (\<lambda>q. q \<notin> set ev) ps in
      p \<notin> set ps \<and> opers s' (p # L) \<and> info (ssc_heap s') p = new
      \<and> (\<forall>q \<in> set L. info (ssc_heap s') q = info h q)
      \<and> io_out s' = io_out s @ [call] @ concat (map (closing h) ev)
      \<and> sm_state s' = (if ev = [] \<or> m = sip_method_invite \<or> (\<exists>q \<in> set L. is_invite h q) then sm_state s
                      else sm_disabled)
      \<and> oper_rest s' = oper_rest s)"

lemma su_zalloc_cases:
  obtains (fail) "su_zalloc s = (None, s\<lparr>ssc_allocs := tl (ssc_allocs s)\<rparr>)"
  | (alloc) p where "ssc_heap s p = None"
      "su_zalloc s = (Some p, s\<lparr>ssc_allocs := tl (ssc_allocs s), ssc_heap := (ssc_heap s)(p \<mapsto> zero_oper)\<rparr>)"
proof (cases "ssc_allocs s")
  case Nil
  then show ?thesis by (intro fail) (simp add: su_zalloc_def)
next
  case (Cons a as)
  show ?thesis
  proof (cases "\<exists>p. a = Some p \<and> ssc_heap s p = None")
    case True
    with Cons show ?thesis by (auto simp: su_zalloc_def intro: alloc)
  next
    case False
    with Cons show ?thesis by (intro fail) (auto simp: su_zalloc_def split: option.split)
  qed
qed

lemma find_first: "find P ps = first (dropWhile (\<lambda>p. \<not> P p) ps)"
  by (induction ps) auto

lemma opers_insert:
  assumes "opers s ps" "ssc_heap s p = None" "op_next r = ssc_operations s"
    and "ssc_heap s' = (ssc_heap s)(p \<mapsto> r)" "ssc_operations s' = Some p"
  shows "opers s' (p # ps)" "p \<notin> set ps"
proof -
  show p: "p \<notin> set ps" using assms(2) opers_dom [OF assms(1)] by blast
  show "opers s' (p # ps)" using assms opersD [OF assms(1)] p by (simp add: opers_def)
qed

lemma cleaned_created:
  assumes c: "cleaned (p # as) qs s2 s'" and ps: "ps = as @ qs"
    and kept: "\<forall>q \<in> set as. keep (ssc_heap s) q" and p: "p \<notin> set ps" and d: "distinct ps"
    and s2: "\<And>q. q \<in> set ps \<Longrightarrow> info (ssc_heap s2) q = info (ssc_heap s) q" "info (ssc_heap s2) p = new"
      "io_out s2 = io_out s @ [call]" "sm_state s2 = sm_state s" "oper_rest s2 = oper_rest s"
    and m: "op_method new = m"
  shows "created m new call p ps (filter (\<lambda>q. \<not> keep (ssc_heap s) q) ps) s s'"
proof -
  let ?h = "ssc_heap s" and ?h2 = "ssc_heap s2"
  have f: "filter (keep ?h2) qs = filter (keep ?h) qs"
      "filter (\<lambda>q. \<not> keep ?h2 q) qs = filter (\<lambda>q. \<not> keep ?h q) qs"
      "map (closing ?h2) (filter (\<lambda>q. \<not> keep ?h q) qs) = map (closing ?h) (filter (\<lambda>q. \<not> keep ?h q) qs)"
    using s2(1) ps by (auto intro!: filter_cong map_cong closing_cong simp: keep_cong [OF s2(1)])
  have k: "(\<forall>q \<in> set qs. keep ?h2 q) = (\<forall>q \<in> set qs. keep ?h q)"
    using s2(1) ps by (intro ball_cong keep_cong) auto
  have i: "(\<exists>q \<in> set ((p # as) @ filter (keep ?h) qs). is_invite ?h2 q) =
      (m = sip_method_invite \<or> (\<exists>q \<in> set (as @ filter (keep ?h) qs). is_invite ?h q))"
  proof -
    have "(\<exists>q \<in> set (as @ filter (keep ?h) qs). is_invite ?h2 q) =
        (\<exists>q \<in> set (as @ filter (keep ?h) qs). is_invite ?h q)"
      using s2(1) ps by (intro bex_cong is_invite_cong) auto
    moreover have "is_invite ?h2 p = (m = sip_method_invite)" by (simp add: is_invite_def s2(2) m)
    ultimately show ?thesis by auto
  qed
  have as: "filter (keep ?h) as = as" "filter (\<lambda>q. \<not> keep ?h q) as = []"
    using kept by (auto simp: filter_empty_conv filter_id_conv)
  have L: "filter (\<lambda>q. q \<notin> set (filter (\<lambda>q. \<not> keep ?h q) ps)) ps = as @ filter (keep ?h) qs"
    using as(1) by (auto simp: ps intro!: arg_cong2 [where f = "(@)"] filter_cong)
                   (metis (mono_tags, lifting) as(1) filter_cong kept)
  show ?thesis
    using c [unfolded cleaned_def Let_def f k i] s2 p ps as
    unfolding created_def Let_def L by (auto simp: filter_empty_conv)
qed

definition linked :: "ssc_oper \<Rightarrow> out \<Rightarrow> ptr \<Rightarrow> ssc \<Rightarrow> ssc" where
  "linked new call p s =
     s\<lparr>io_out := io_out s @ [call], ssc_heap := (ssc_heap s)(p \<mapsto> new\<lparr>op_next := ssc_operations s\<rparr>),
       ssc_operations := Some p, ssc_allocs := tl (ssc_allocs s)\<rparr>"

lemma linked_sel [simp]:
  "io_out (linked new call p s) = io_out s @ [call]"
  "sm_state (linked new call p s) = sm_state s"
  "ssc_heap (linked new call p s) = (ssc_heap s)(p \<mapsto> new\<lparr>op_next := ssc_operations s\<rparr>)"
  "ssc_operations (linked new call p s) = Some p"
  "oper_rest (linked new call p s) = oper_rest s"
  by (simp_all add: linked_def oper_rest_def)

lemma linked_created:
  assumes "opers s ps" "ssc_heap s p = None" "new\<lparr>op_next := None\<rparr> = new"
    and s': "opers s' (p # ps)" "ssc_heap s' = ssc_heap (linked new call p s)" "sm_state s' = sm_state s"
      "io_out s' = io_out s @ [call]" "oper_rest s' = oper_rest s"
  shows "created m new call p ps [] s s'"
proof -
  have "p \<notin> set ps" using assms(2) opers_dom [OF assms(1)] by blast
  with assms show ?thesis
    by (auto simp: created_def Let_def info_def)
qed

lemma oper_create_to_eq:
  assumes "ssc_heap s p = None"
    and "su_zalloc s = (Some p, s\<lparr>ssc_allocs := tl (ssc_allocs s), ssc_heap := (ssc_heap s)(p \<mapsto> zero_oper)\<rparr>)"
  shows "oper_create_to E m name to ta old s =
     (let s2 = (linked (new_info m name (next_handle s) (e_addr_as_string E to) (-1))
                   (Nua_handle (next_handle s) (create_tags m to ta)) p s)\<lparr>ssc_handles := tl (ssc_handles s)\<rparr>
      in andthen (if \<not> persistent_method m then returns (clean_old s2 old) else Inr s2) (\<lambda>s. Inr (Some p, s)))"
  using assms
  by (cases s) (simp add: oper_create_to_def store_live nua_handle_def ssc_oper_assign_def linked_def new_info_def
      next_handle_def create_tags_def persistent_method_def zero_oper_def emit_def Let_def)

lemma oper_create_to_ok:
  assumes o: "opers s ps" and old: "old = find (\<lambda>q. \<not> op_persistent (the (ssc_heap s q))) ps"
  shows "ok (oper_create_to E m name to ta old s) (\<lambda>(r, s'). r = fst (su_zalloc s) \<and>
     (case r of
       None \<Rightarrow> s' = printf (fmt [ssc_name s, '': '', pstr name, '': cannot create handle'', nl])
                       (s\<lparr>ssc_allocs := tl (ssc_allocs s)\<rparr>)
     | Some p \<Rightarrow>
         created m (new_info m name (next_handle s) (e_addr_as_string E to) (-1))
           (Nua_handle (next_handle s) (create_tags m to ta)) p ps (evicted m (ssc_heap s) ps) s s'))"
proof (cases s rule: su_zalloc_cases)
  case fail
  then show ?thesis by (simp add: oper_create_to_def)
next
  case (alloc p)
  let ?new = "new_info m name (next_handle s) (e_addr_as_string E to) (-1)"
  let ?call = "Nua_handle (next_handle s) (create_tags m to ta)"
  let ?s2 = "(linked ?new ?call p s)\<lparr>ssc_handles := tl (ssc_handles s)\<rparr>"
  let ?per = "\<lambda>q. op_persistent (the (ssc_heap s q))"
  have n: "?new\<lparr>op_next := None\<rparr> = ?new" by (simp add: new_info_def zero_oper_def)
  have rest: "oper_rest ?s2 = oper_rest s" by (simp add: oper_rest_def linked_def)
  have o2: "opers ?s2 (p # ps)" by (rule opers_insert [OF o alloc(1)]; simp)
  have p: "p \<notin> set ps" using alloc(1) opers_dom [OF o] by blast
  show ?thesis
  proof (cases "persistent_method m")
    case True
    then show ?thesis
      using linked_created [OF o alloc(1) n o2 _ _ _ rest]
      by (simp add: oper_create_to_eq [OF alloc] evicted_def alloc(2))
  next
    case False
    have split: "ps = takeWhile ?per ps @ dropWhile ?per ps" by simp
    have "ok (returns (clean_old ?s2 (first (dropWhile ?per ps))))
            (cleaned (p # takeWhile ?per ps) (dropWhile ?per ps) ?s2)"
      using o2 by (intro clean_old_ok) simp
    then have "ok (returns (clean_old ?s2 old))
        (created m ?new ?call p ps (evicted m (ssc_heap s) ps) s)"
      unfolding old find_first not_not
    proof (rule ok_mono)
      fix s' assume "cleaned (p # takeWhile ?per ps) (dropWhile ?per ps) ?s2 s'"
      then have "created m ?new ?call p ps (filter (\<lambda>q. \<not> keep (ssc_heap s) q) ps) s s'"
      proof (rule cleaned_created [OF _ split _ p opers_distinct [OF o]])
        show "\<forall>q\<in>set (takeWhile ?per ps). keep (ssc_heap s) q"
          by (auto simp: keep_def info_sel dest: set_takeWhileD)
      qed (use p rest n in \<open>auto simp: info_def new_info_def\<close>)
      then show "created m ?new ?call p ps (evicted m (ssc_heap s) ps) s s'"
        using False by (simp add: evicted_def)
    qed
    then show ?thesis
      using False by (simp add: oper_create_to_eq [OF alloc] Let_def alloc(2))
  qed
qed

lemma ssc_oper_create_with_handle_ok:
  assumes o: "opers s ps"
  shows "ok (ssc_oper_create_with_handle E m name nh from s) (\<lambda>(r, s'). r = fst (su_zalloc s) \<and>
     (case r of
       None \<Rightarrow> s' = printf (fmt [ssc_name s, '': cannot create operation object for '', pstr name, nl])
                       (s\<lparr>ssc_allocs := tl (ssc_allocs s)\<rparr>)
     | Some p \<Rightarrow>
         created m (new_info m name (Some nh) (e_addr_as_string E from) 0)
           (Nua_handle_bind nh p) p ps [] s s'))"
proof (cases s rule: su_zalloc_cases)
  case fail
  then show ?thesis by (simp add: ssc_oper_create_with_handle_def)
next
  case (alloc p)
  let ?new = "new_info m name (Some nh) (e_addr_as_string E from) 0"
  have "ssc_oper_create_with_handle E m name nh from s = Inr (Some p, linked ?new (Nua_handle_bind nh p) p s)"
    using alloc
    by (cases s) (simp add: ssc_oper_create_with_handle_def store_live ssc_oper_assign_def linked_def
        new_info_def persistent_method_def zero_oper_def emit_def Let_def)
  moreover have "?new\<lparr>op_next := None\<rparr> = ?new" by (simp add: new_info_def zero_oper_def)
  moreover have "opers (linked ?new (Nua_handle_bind nh p) p s) (p # ps)"
    by (rule opers_insert [OF o alloc(1)]; simp)
  ultimately show ?thesis
    by (auto intro!: linked_created [OF o alloc(1)] simp: alloc(2))
qed

section \<open>Well-formed states\<close>

text \<open>
  \<open>wf_ssc\<close>, the invariant of the program: the operations form a finite list in the heap, no cell is
  outside the list (nothing leaks), every operation knows its owner and is persistent only for the
  methods that keep state, and the media object owns no dangling text.
\<close>

definition oper_ok :: "ssc_oper \<Rightarrow> bool" where
  "oper_ok r \<longleftrightarrow> op_ssc r \<and> (op_persistent r \<longrightarrow> persistent_method (op_method r))"

definition wf_ssc :: "ssc \<Rightarrow> bool" where
  "wf_ssc s \<longleftrightarrow> (\<exists>ps. opers s ps) \<and> (\<forall>p r. ssc_heap s p = Some r \<longrightarrow> oper_ok r) \<and> media_ok s"

lemma oper_ok_info: "oper_ok (info h p) = oper_ok (the (h p))"
  by (simp add: oper_ok_def info_sel)

lemma wfE:
  assumes "wf_ssc s"
  obtains ps where "opers s ps" "\<And>p r. ssc_heap s p = Some r \<Longrightarrow> oper_ok r" "media_ok s"
  using assms by (auto simp: wf_ssc_def)

lemma wf_cong:
  assumes "ssc_heap s' = ssc_heap s" "ssc_operations s' = ssc_operations s"
    "sm_sdp_local_str s' = sm_sdp_local_str s" "sm_sdp_remote_str s' = sm_sdp_remote_str s"
  shows "wf_ssc s' = wf_ssc s"
  using assms by (simp add: wf_ssc_def opers_def media_ok_def)

lemma emit_ssc_sel [simp]:
  "ssc_name (emit x s) = ssc_name s" "ssc_heap (emit x s) = ssc_heap s"
  "ssc_operations (emit x s) = ssc_operations s" "ssc_address (emit x s) = ssc_address s"
  "ssc_autoanswer (emit x s) = ssc_autoanswer s" "ssc_auth_pend (emit x s) = ssc_auth_pend s"
  "ssc_ans_status (emit x s) = ssc_ans_status s" "ssc_ans_phrase (emit x s) = ssc_ans_phrase s"
  "ssc_exit_cb (emit x s) = ssc_exit_cb s" "ssc_event_cb (emit x s) = ssc_event_cb s"
  "ssc_registration_cb (emit x s) = ssc_registration_cb s"
  "ssc_call_state_cb (emit x s) = ssc_call_state_cb s"
  "ssc_media_state_cb (emit x s) = ssc_media_state_cb s" "ssc_auth_req_cb (emit x s) = ssc_auth_req_cb s"
  "ssc_allocs (emit x s) = ssc_allocs s" "ssc_handles (emit x s) = ssc_handles s"
  by (simp_all add: emit_def)

lemma wf_frame [simp]:
  "wf_ssc (emit x s) = wf_ssc s"
  "wf_ssc (s\<lparr>sm_state := st\<rparr>) = wf_ssc s"
  "wf_ssc (s\<lparr>sm_handlers := hs\<rparr>) = wf_ssc s"
  "wf_ssc (s\<lparr>ssc_address := a\<rparr>) = wf_ssc s"
  "wf_ssc (s\<lparr>ssc_auth_pend := l\<rparr>) = wf_ssc s"
  "wf_ssc (s\<lparr>ssc_ans_status := i\<rparr>) = wf_ssc s"
  "wf_ssc (s\<lparr>ssc_ans_phrase := t\<rparr>) = wf_ssc s"
  "wf_ssc (s\<lparr>ssc_allocs := as\<rparr>) = wf_ssc s"
  "wf_ssc (s\<lparr>ssc_handles := hs'\<rparr>) = wf_ssc s"
  by (rule wf_cong; simp)+

lemma opers_upd_data:
  assumes "ssc_heap s p = Some r" "op_next r' = op_next r"
  shows "opers (s\<lparr>ssc_heap := (ssc_heap s)(p \<mapsto> r')\<rparr>) ps = opers s ps"
  using assms by (auto simp: opers_def chain_upd_data)

lemma wf_store:
  assumes "wf_ssc s" "ssc_heap s p = Some r" "op_next (f r) = op_next r" "oper_ok r \<Longrightarrow> oper_ok (f r)"
  shows "ok (store (Some p) f s) (\<lambda>s'. s' = s\<lparr>ssc_heap := (ssc_heap s)(p \<mapsto> f r)\<rparr> \<and> wf_ssc s')"
  using assms by (auto simp: store_live wf_ssc_def opers_upd_data media_ok_def)

lemma wf_destroyed:
  assumes "wf_ssc s" "opers s ps" "destroyed p ps s s'"
  shows "wf_ssc s'"
proof -
  have "oper_ok r" if r: "ssc_heap s' q = Some r" for q r
  proof -
    have q: "q \<in> set ps - {p}"
    proof -
      have "opers s' (remove1 p ps)" using assms(3) by (simp add: destroyed_def)
      from opers_dom [OF this] r have "q \<in> set (remove1 p ps)" by blast
      then show ?thesis using opers_distinct [OF assms(2)] by (simp add: set_remove1_eq)
    qed
    then obtain r0 where "ssc_heap s q = Some r0" using opers_live [OF assms(2)] by auto
    moreover have "info (ssc_heap s') q = info (ssc_heap s) q" using q assms(3) by (simp add: destroyed_def)
    ultimately show ?thesis
      using assms(1) r by (metis oper_ok_info option.sel wf_ssc_def)
  qed
  moreover have "media_ok s'"
    using assms(1,3) oper_restD(3,4) [of s' s] by (simp add: wf_ssc_def destroyed_def media_ok_def)
  ultimately show ?thesis
    using assms(3) by (auto simp: wf_ssc_def destroyed_def)
qed

lemma wf_created:
  assumes "wf_ssc s" "opers s ps" "created m new call p ps ev s s'" "oper_ok new"
  shows "wf_ssc s'"
proof -
  have "oper_ok r" if r: "ssc_heap s' q = Some r" for q r
  proof (cases "q = p")
    case True
    then have "oper_ok (info (ssc_heap s') q)" using assms(3,4) by (simp add: created_def Let_def)
    with r show ?thesis by (simp add: oper_ok_info)
  next
    case False
    then have q: "q \<in> set (filter (\<lambda>q. q \<notin> set ev) ps)"
      using r assms(3) by (auto simp: created_def Let_def dest!: opersD(2))
    then obtain r0 where "ssc_heap s q = Some r0" using opers_live [OF assms(2)] by auto
    moreover have "info (ssc_heap s') q = info (ssc_heap s) q"
      using q assms(3) by (auto simp: created_def Let_def)
    ultimately show ?thesis
      using assms(1) r by (metis oper_ok_info option.sel wf_ssc_def)
  qed
  moreover have "media_ok s'"
    using assms(1,3) oper_restD(3,4) [of s' s] by (simp add: wf_ssc_def created_def Let_def media_ok_def)
  ultimately show ?thesis
    using assms(3) unfolding wf_ssc_def created_def Let_def by blast
qed

lemma find_SomeD: "find P xs = Some x \<Longrightarrow> x \<in> set xs \<and> P x"
  by (auto simp: find_Some_iff)

lemma wf_ssc_destroy:
  assumes "wf_ssc s" "p \<in> dom (ssc_heap s)"
  shows "ok (ssc_oper_destroy (Some p) s) (\<lambda>s'. wf_ssc s' \<and> dom (ssc_heap s') = dom (ssc_heap s) - {p}
     \<and> (\<forall>q \<in> dom (ssc_heap s'). info (ssc_heap s') q = info (ssc_heap s) q) \<and> oper_rest s' = oper_rest s)"
proof -
  from assms obtain ps where o: "opers s ps" and p: "p \<in> set ps" by (auto elim!: wfE dest: opers_dom)
  show ?thesis
  proof (rule ok_mono [OF ssc_oper_destroy_ok [OF o p]])
    fix s' assume d: "destroyed p ps s s'"
    then have "dom (ssc_heap s') = set ps - {p}"
      using set_remove1_eq [OF opers_distinct [OF o]] opers_dom [of s' "remove1 p ps"]
      by (simp add: destroyed_def)
    with d wf_destroyed [OF assms(1) o d] opers_dom [OF o]
    show "wf_ssc s' \<and> dom (ssc_heap s') = dom (ssc_heap s) - {p}
     \<and> (\<forall>q \<in> dom (ssc_heap s'). info (ssc_heap s') q = info (ssc_heap s) q) \<and> oper_rest s' = oper_rest s"
      by (simp add: destroyed_def)
  qed
qed

text \<open>What a creation leaves: an operation that is kept (persistent or in a call) survives unchanged.\<close>

definition oper_step :: "ptr option \<Rightarrow> ssc \<Rightarrow> ssc \<Rightarrow> bool" where
  "oper_step r s s' \<longleftrightarrow> wf_ssc s' \<and> oper_rest s' = oper_rest s
     \<and> (\<forall>p. r = Some p \<longrightarrow> p \<in> dom (ssc_heap s'))
     \<and> (\<forall>q \<in> dom (ssc_heap s). keep (ssc_heap s) q \<longrightarrow>
          q \<in> dom (ssc_heap s') \<and> keep (ssc_heap s') q)"

lemma oper_rest_printf [simp]:
  "oper_rest (emit x s) = oper_rest s"
  "oper_rest (s\<lparr>ssc_allocs := as\<rparr>) = oper_rest s"
  "oper_rest (s\<lparr>ssc_heap := h\<rparr>) = oper_rest s"
  by (simp_all add: oper_rest_def emit_def)

lemma createdD:
  assumes "created m new call p ps ev s s'"
  shows "p \<notin> set ps" "opers s' (p # filter (\<lambda>q. q \<notin> set ev) ps)" "info (ssc_heap s') p = new"
    "q \<in> set ps \<Longrightarrow> q \<notin> set ev \<Longrightarrow> info (ssc_heap s') q = info (ssc_heap s) q"
    "oper_rest s' = oper_rest s"
  using assms unfolding created_def Let_def by auto

lemma oper_step_created:
  assumes "wf_ssc s" "opers s ps" "created m new call p ps ev s s'" "oper_ok new"
    and ev: "\<And>q. q \<in> set ev \<Longrightarrow> \<not> keep (ssc_heap s) q"
  shows "oper_step (Some p) s s'"
proof -
  note c = createdD [OF assms(3)]
  have d: "dom (ssc_heap s') = insert p (set ps - set ev)"
    using opers_dom [OF c(2)] by auto
  have "q \<in> dom (ssc_heap s') \<and> keep (ssc_heap s') q" if "q \<in> dom (ssc_heap s)" "keep (ssc_heap s) q" for q
    using that ev d opers_dom [OF assms(2)] keep_cong [OF c(4) [of q]] by blast
  with d c(5) wf_created [OF assms(1-4)] show ?thesis by (simp add: oper_step_def)
qed

lemma wf_ssc_assign:
  assumes "wf_ssc s" "op \<in> {None} \<union> Some ` dom (ssc_heap s)"
  shows "ok (ssc_oper_assign op m name s) (\<lambda>s'. wf_ssc s' \<and> oper_rest s' = oper_rest s
     \<and> dom (ssc_heap s') = dom (ssc_heap s)
     \<and> (\<forall>q. Some q \<noteq> op \<longrightarrow> ssc_heap s' q = ssc_heap s q)
     \<and> (\<forall>q \<in> dom (ssc_heap s). op_callstate (info (ssc_heap s') q) = op_callstate (info (ssc_heap s) q)))"
proof (cases op)
  case None
  with assms show ?thesis by (simp add: ssc_oper_assign_def)
next
  case (Some p)
  with assms obtain r where r: "ssc_heap s p = Some r" by auto
  then show ?thesis
    using Some wf_store [OF assms(1) r, of "\<lambda>r. r\<lparr>op_method := m, op_method_name := name,
        op_persistent := (m = sip_method_subscribe \<or> m = sip_method_register \<or> m = sip_method_publish)\<rparr>"]
    by (auto simp: ssc_oper_assign_def store_live info_sel oper_ok_def persistent_method_def)
qed

lemma evicted_not_keep: "q \<in> set (evicted m h ps) \<Longrightarrow> \<not> keep h q"
  by (auto simp: evicted_def split: if_splits)

lemma oper_ok_new: "oper_ok (new_info m name nh ident prev)"
  by (simp add: oper_ok_def new_info_def)

lemma oper_step_fail:
  assumes "wf_ssc s"
  shows "oper_step None s (printf t s)" "oper_step None s (printf t (s\<lparr>ssc_allocs := as\<rparr>))"
  using assms by (simp_all add: oper_step_def)

lemma wf_ssc_create_with_handle:
  assumes "wf_ssc s"
  shows "ok (ssc_oper_create_with_handle E m name nh frm s) (\<lambda>(r, s'). oper_step r s s')"
proof -
  from assms obtain ps where o: "opers s ps" by (rule wfE)
  show ?thesis
    by (rule ok_mono [OF ssc_oper_create_with_handle_ok [OF o]], clarify, case_tac "fst (su_zalloc s)")
       (auto intro!: oper_step_fail [OF assms] oper_step_created [OF assms o _ oper_ok_new])
qed

lemma oper_step_reassign:
  assumes "wf_ssc s'" "oper_rest s' = oper_rest s" "dom (ssc_heap s') = dom (ssc_heap s)"
    and "\<forall>q. Some q \<noteq> op \<longrightarrow> ssc_heap s' q = ssc_heap s q"
    and cs: "\<forall>q \<in> dom (ssc_heap s). op_callstate (info (ssc_heap s') q) = op_callstate (info (ssc_heap s) q)"
    and op: "\<And>p. op = Some p \<Longrightarrow> p \<in> dom (ssc_heap s) \<and> \<not> op_persistent (info (ssc_heap s) p)"
  shows "oper_step op s s'"
proof -
  have "keep (ssc_heap s') q" if q: "q \<in> dom (ssc_heap s)" "keep (ssc_heap s) q" for q
  proof (cases "Some q = op")
    case True
    with op have "\<not> op_persistent (info (ssc_heap s) q)" by blast
    then show ?thesis using q cs by (auto simp: keep_def)
  qed (use q assms(4) in \<open>auto simp: keep_def info_sel\<close>)
  with assms show ?thesis by (auto simp: oper_step_def)
qed

lemma wf_ssc_create:
  assumes "wf_ssc s"
  shows "ok (ssc_oper_create E m name address ta s) (\<lambda>(r, s'). oper_step r s s')"
proof -
  from assms obtain ps where o: "opers s ps" by (rule wfE)
  let ?old = "find (\<lambda>q. \<not> op_persistent (the (ssc_heap s q))) ps"
  have old: "p \<in> dom (ssc_heap s) \<and> \<not> op_persistent (info (ssc_heap s) p)" if "?old = Some p" for p
    using find_SomeD [OF that] opers_dom [OF o] by (simp add: info_sel)
  then have old': "?old \<in> {None} \<union> Some ` dom (ssc_heap s)" by (cases ?old) auto
  note f = find_oper_opers [OF o]
  show ?thesis
  proof (cases address)
    case None
    have "ok (andthen (ssc_oper_assign ?old m name s) (\<lambda>s'.
        if ?old = None then Inr (None, printf (t s') s') else Inr (?old, s'))) (\<lambda>(r, s'). oper_step r s s')"
      for t :: "ssc \<Rightarrow> string"
    proof (rule ok_andthenI [OF wf_ssc_assign [OF assms old']])
      fix s' assume "wf_ssc s' \<and> oper_rest s' = oper_rest s
          \<and> dom (ssc_heap s') = dom (ssc_heap s)
          \<and> (\<forall>q. Some q \<noteq> ?old \<longrightarrow> ssc_heap s' q = ssc_heap s q)
          \<and> (\<forall>q \<in> dom (ssc_heap s). op_callstate (info (ssc_heap s') q) = op_callstate (info (ssc_heap s) q))"
      then have "oper_step ?old s s'" by (intro oper_step_reassign) (auto simp: old)
      then show "ok (if ?old = None then Inr (None, printf (t s') s') else Inr (?old, s')) (\<lambda>(r, s'). oper_step r s s')"
        by (auto simp: oper_step_def)
    qed
    moreover have "oper_step ?old s s" by (rule oper_step_reassign) (simp_all add: assms old)
    ultimately show ?thesis
      unfolding ssc_oper_create_def f None andthen_simps option.case by (simp only: ok_if ok_simps) simp
  next
    case (Some addr)
    have "ok (oper_create_to E m name to ta ?old s) (\<lambda>(r, s'). oper_step r s s')" for to
      by (rule ok_mono [OF oper_create_to_ok [OF o refl]], clarify, case_tac "fst (su_zalloc s)")
         (auto intro!: oper_step_fail [OF assms] oper_step_created [OF assms o _ oper_ok_new] dest: evicted_not_keep)
    then show ?thesis
      using Some by (simp add: ssc_oper_create_def f oper_step_fail [OF assms] split: option.split)
  qed
qed

section \<open>The table of operations as an interface\<close>

text \<open>
  What \<open>ssc_sip.c\<close> relies on when it searches, removes and adds operations: a search gives the first
  entry with a property, removal takes out exactly one entry, and a new entry comes first.
\<close>

locale oper_table =
  fixes rep :: "'s \<Rightarrow> 'p list \<Rightarrow> bool"
    and content :: "'s \<Rightarrow> 'p \<Rightarrow> 'o"
    and lookup :: "('o \<Rightarrow> bool) \<Rightarrow> 's \<Rightarrow> 'p option res"
    and remove :: "'p \<Rightarrow> 's \<Rightarrow> 's res"
  assumes rep_distinct: "rep s ps \<Longrightarrow> distinct ps"
    and lookup_first: "rep s ps \<Longrightarrow> lookup P s = Inr (find (\<lambda>p. P (content s p)) ps)"
    and remove_one: "rep s ps \<Longrightarrow> p \<in> set ps \<Longrightarrow>
      ok (remove p s) (\<lambda>s'. rep s' (remove1 p ps) \<and> (\<forall>q \<in> set ps - {p}. content s' q = content s q))"
begin

lemma lookup_sound:
  assumes "rep s ps" "lookup P s = Inr (Some p)"
  shows "p \<in> set ps \<and> P (content s p)"
  using assms by (auto simp: lookup_first find_Some_iff)

lemma lookup_complete:
  assumes "rep s ps" "lookup P s = Inr None" "p \<in> set ps"
  shows "\<not> P (content s p)"
  using assms by (auto simp: lookup_first find_None_iff)

lemma lookup_after_remove:
  assumes "rep s ps" "p \<in> set ps"
  shows "ok (andthen (remove p s) (lookup P))
           (\<lambda>r. r = find (\<lambda>q. P (content s q)) (remove1 p ps) \<and> r \<noteq> Some p)"
proof (rule ok_andthenI [OF remove_one [OF assms]])
  fix s' assume s': "rep s' (remove1 p ps) \<and> (\<forall>q \<in> set ps - {p}. content s' q = content s q)"
  have set: "set (remove1 p ps) = set ps - {p}"
    using rep_distinct [OF assms(1)] by (rule set_remove1_eq)
  have "find (\<lambda>q. P (content s' q)) (remove1 p ps) = find (\<lambda>q. P (content s q)) (remove1 p ps)"
    using s' set by (intro find_cong) auto
  moreover have "find Q (remove1 p ps) \<noteq> Some p" for Q
    using set by (auto simp: find_Some_iff) (metis DiffD2 insertI1 nth_mem)
  ultimately show "ok (lookup P s') (\<lambda>r. r = find (\<lambda>q. P (content s q)) (remove1 p ps) \<and> r \<noteq> Some p)"
    using s' lookup_first [of s' "remove1 p ps" P] by simp
qed

end

locale oper_table_add = oper_table rep content lookup remove
  for rep :: "'s \<Rightarrow> 'p list \<Rightarrow> bool" and content :: "'s \<Rightarrow> 'p \<Rightarrow> 'o" and lookup and remove +
  fixes add :: "'x \<Rightarrow> 's \<Rightarrow> ('p option \<times> 's) res"
    and entry :: "'x \<Rightarrow> 'o"
  assumes add_front: "rep s ps \<Longrightarrow> ok (add x s) (\<lambda>(r, s').
      (\<forall>q \<in> set ps. content s' q = content s q) \<and>
      (case r of None \<Rightarrow> rep s' ps | Some p \<Rightarrow> p \<notin> set ps \<and> rep s' (p # ps) \<and> content s' p = entry x))"
begin

text \<open>A search for what was just added finds it, if there was memory for it.\<close>

lemma lookup_after_add:
  assumes "rep s ps" "P (entry x)"
  shows "ok (andthen (add x s) (\<lambda>(r, s'). andthen (lookup P s') (\<lambda>f. Inr (r, f))))
           (\<lambda>(r, f). r \<noteq> None \<longrightarrow> f = r)"
proof (rule ok_andthenI [OF add_front [OF assms(1)]], clarify)
  fix r s'
  assume "case r of None \<Rightarrow> rep s' ps
          | Some p \<Rightarrow> p \<notin> set ps \<and> rep s' (p # ps) \<and> content s' p = entry x"
  then show "ok (andthen (lookup P s') (\<lambda>f. Inr (r, f))) (\<lambda>(r, f). r \<noteq> None \<longrightarrow> f = r)"
    using assms(2) lookup_first [of s' _ P] by (cases r) auto
qed

text \<open>Adding an entry and removing it again leaves the table as it was.\<close>

lemma remove_after_add:
  assumes "rep s ps"
  shows "ok (andthen (add x s) (\<lambda>(r, s'). case r of None \<Rightarrow> Inr s' | Some p \<Rightarrow> remove p s'))
           (\<lambda>s'. rep s' ps \<and> (\<forall>q \<in> set ps. content s' q = content s q))"
proof (rule ok_andthenI [OF add_front [OF assms]], clarify)
  fix r s'
  assume s': "\<forall>q \<in> set ps. content s' q = content s q"
    and r: "case r of None \<Rightarrow> rep s' ps
       | Some p \<Rightarrow> p \<notin> set ps \<and> rep s' (p # ps) \<and> content s' p = entry x"
  show "ok (case r of None \<Rightarrow> Inr s' | Some p \<Rightarrow> remove p s')
          (\<lambda>s'. rep s' ps \<and> (\<forall>q \<in> set ps. content s' q = content s q))"
  proof (cases r)
    case None
    with r s' show ?thesis by simp
  next
    case (Some p)
    with r have "rep s' (p # ps)" "p \<notin> set ps" by simp_all
    with Some s' show ?thesis
      using ok_mono [OF remove_one [of s' "p # ps" p]] by auto
  qed
qed

end

text \<open>\<open>ssc_oper.c\<close> provides the interface. A search looks at what an operation says, not at its link.\<close>

interpretation heap_table: oper_table opers "\<lambda>s. info (ssc_heap s)"
  "\<lambda>P. find_oper (\<lambda>r. P (r\<lparr>op_next := None\<rparr>))" "\<lambda>p. ssc_oper_destroy (Some p)"
proof (unfold_locales, goal_cases)
  case (1 s ps)
  then show ?case by (rule opers_distinct)
next
  case (2 s ps P)
  then show ?case by (simp add: find_oper_opers info_def)
next
  case (3 s ps p)
  then show ?case
    using ok_mono [OF ssc_oper_destroy_ok [OF 3]] by (simp add: destroyed_def)
qed

interpretation heap_table: oper_table_add opers "\<lambda>s. info (ssc_heap s)"
  "\<lambda>P. find_oper (\<lambda>r. P (r\<lparr>op_next := None\<rparr>))" "\<lambda>p. ssc_oper_destroy (Some p)"
  "\<lambda>(m, name, nh, frm). ssc_oper_create_with_handle E m name nh frm"
  "\<lambda>(m, name, nh, frm). new_info m name (Some nh) (e_addr_as_string E frm) 0" for E
proof (unfold_locales, goal_cases)
  case (1 s ps x)
  obtain m name nh frm where x: "x = (m, name, nh, frm)" by (cases x)
  have opers_print: "opers (printf t (s\<lparr>ssc_allocs := as\<rparr>)) ps" for t as
    using 1 by (simp add: opers_def)
  show ?case
    unfolding x prod.case
    by (rule ok_mono [OF ssc_oper_create_with_handle_ok [OF 1]])
       (auto simp: created_def Let_def opers_print split: option.splits)
qed

section \<open>The check of a pointer\<close>

lemma check_from_loops:
  assumes "h p = Some r" "op_next r = Some q" "q \<noteq> p"
  shows "check_from h (Some p) (Some q) = None"
proof -
  let ?P = "\<lambda>h' op tmp y. \<not> (h' = h \<and> op = Some p \<and> tmp = Some q)"
  have "?P h' op tmp y" if "check_from h' op tmp = Some y" for h' op tmp y
    by (rule check_from.raw_induct [where P = ?P, OF _ that]) (use assms in \<open>fastforce split: if_splits\<close>)
  then show ?thesis by (cases "check_from h (Some p) (Some q)") auto
qed

lemma chain_next:
  assumes "chain h t (as @ p # bs)"
  shows "\<exists>r. h p = Some r \<and> op_next r = first bs"
  using assms chain_first by (induction as arbitrary: t) auto

lemma check_result:
  assumes "opers s ps"
  shows "ssc_oper_check s (Some p) =
     (if ps = [] then Inr None
      else if p = hd ps then Inr (Some p)
      else if p \<notin> set ps then Inl Use_after_free
      else if p = last ps then Inr None
      else Inl No_return)"
proof (cases ps)
  case Nil
  with opers_chain [OF assms] show ?thesis by (simp add: ssc_oper_check_def check_from.simps)
next
  case (Cons a as)
  have a: "ssc_operations s = Some a" using opers_chain [OF assms] Cons by simp
  show ?thesis
  proof (cases "p = a \<or> p \<notin> set ps")
    case True
    have "p \<notin> set ps \<Longrightarrow> ssc_heap s p = None" using opers_dom [OF assms] by auto
    with True a Cons show ?thesis by (auto simp: ssc_oper_check_def check_from.simps)
  next
    case False
    then obtain xs ys where ps: "ps = xs @ p # ys" "xs \<noteq> []"
      using Cons by (metis append_Nil list.sel(1) split_list)
    obtain r where r: "ssc_heap s p = Some r" "op_next r = first ys"
      using chain_next opers_chain [OF assms] ps by metis
    have d: "distinct (xs @ p # ys)" using opers_distinct [OF assms] ps by simp
    have step: "check_from (ssc_heap s) (Some p) (ssc_operations s) =
        check_from (ssc_heap s) (Some p) (first ys)"
      using False a r by (subst check_from.simps) simp
    show ?thesis
    proof (cases ys)
      case Nil
      have "p \<noteq> hd ps" using ps d by (cases xs) auto
      with False ps Nil step show ?thesis
        by (simp add: ssc_oper_check_def check_from.simps [of _ _ None])
    next
      case (Cons b bs)
      then have "check_from (ssc_heap s) (Some p) (first ys) = None"
        using check_from_loops [of _ p r b] r d by auto
      moreover have "p \<noteq> last ps" "p \<noteq> hd ps" using ps d Cons by (auto simp: hd_append)
      ultimately show ?thesis
        using False step ps by (simp add: ssc_oper_check_def)
    qed
  qed
qed

section \<open>A concrete table for examples\<close>

definition demo_oper :: "sip_method \<Rightarrow> string \<Rightarrow> handle \<Rightarrow> callstate \<Rightarrow> ssc_oper" where
  "demo_oper m name nh cs =
     zero_oper\<lparr>op_ident := Some ''sip:bob@example.com'', op_handle := Some nh, op_ssc := True, op_method := m,
       op_method_name := Some name, op_callstate := cs, op_persistent := persistent_method m\<rparr>"

definition demo_idle :: ssc where
  "demo_idle =
     \<lparr>io_out = [], sm_state = sm_init, sm_sdp_local = None, sm_sdp_remote = None,
      sm_sdp_local_str = CNull, sm_sdp_remote_str = CNull, sm_handlers = [],
      ssc_name = ''UA'', ssc_heap = Map.empty, ssc_operations = None,
      ssc_address = Some ''sip:alice@example.com'', ssc_autoanswer = False, ssc_auth_pend = [],
      ssc_ans_status = 0, ssc_ans_phrase = [], ssc_exit_cb = True, ssc_event_cb = False,
      ssc_registration_cb = False, ssc_call_state_cb = True, ssc_media_state_cb = True,
      ssc_auth_req_cb = True, ssc_allocs = [Some 1, Some 2, Some 3, Some 4],
      ssc_handles = [Some 11, Some 12, Some 13, Some 14]\<rparr>"

text \<open>An active call, a registration and a message that has been sent, in this order.\<close>

definition demo_table :: ssc where
  "demo_table =
     demo_idle\<lparr>ssc_heap := [5 \<mapsto> (demo_oper sip_method_invite ''INVITE'' 25 opc_active)\<lparr>op_next := Some 6\<rparr>,
                           6 \<mapsto> (demo_oper sip_method_register ''REGISTER'' 26 0)\<lparr>op_next := Some 7\<rparr>,
                           7 \<mapsto> demo_oper sip_method_message ''MESSAGE'' 27 0],
               ssc_operations := Some 5, sm_state := sm_active\<rparr>"

lemmas demo_simps = demo_idle_def demo_table_def demo_oper_def zero_oper_def persistent_method_def opc_defs

lemma opers_demo_idle: "opers demo_idle []"
  by (simp add: opers_def demo_idle_def)

lemma opers_demo: "opers demo_table [5, 6, 7]"
  by (auto simp: opers_def demo_simps)

lemma demo_heap:
  "ssc_heap demo_table 5 = Some ((demo_oper sip_method_invite ''INVITE'' 25 opc_active)\<lparr>op_next := Some 6\<rparr>)"
  "ssc_heap demo_table 6 = Some ((demo_oper sip_method_register ''REGISTER'' 26 0)\<lparr>op_next := Some 7\<rparr>)"
  "ssc_heap demo_table 7 = Some (demo_oper sip_method_message ''MESSAGE'' 27 0)"
  by (simp_all add: demo_table_def)

section \<open>Properties\<close>

text \<open>
  The searches (C18). On a well-formed list each search ends, touches only live memory, and returns the
  first operation, newest first, with the property its name says: any call state, an INVITE in
  progress, an INVITE operation without call state, exactly \<open>opc_recv\<close>, a handle, a persistent
  operation of a method, a call state with a common flag, the registration.
\<close>

theorem searches_find_first:
  assumes "opers s ps"
  shows "ssc_oper_find_call s = Inr (find (\<lambda>p. op_callstate (info (ssc_heap s) p) \<noteq> 0) ps)
    \<and> ssc_oper_find_call_in_progress s = Inr (find (\<lambda>p. op_callstate (info (ssc_heap s) p) AND 1 \<noteq> 0) ps)
    \<and> ssc_oper_find_call_embryonic s =
        Inr (find (\<lambda>p. op_callstate (info (ssc_heap s) p) = 0 \<and> is_invite (ssc_heap s) p) ps)
    \<and> ssc_oper_find_unanswered s = Inr (find (\<lambda>p. op_callstate (info (ssc_heap s) p) = opc_recv) ps)
    \<and> ssc_oper_find_by_handle s nh = Inr (find (\<lambda>p. op_handle (info (ssc_heap s) p) = nh) ps)
    \<and> ssc_oper_find_by_method s m =
        Inr (find (\<lambda>p. op_method (info (ssc_heap s) p) = m \<and> op_persistent (info (ssc_heap s) p)) ps)
    \<and> ssc_oper_find_by_callstate s c = Inr (find (\<lambda>p. op_callstate (info (ssc_heap s) p) AND c \<noteq> 0) ps)
    \<and> ssc_oper_find_register s = ssc_oper_find_by_method s sip_method_register"
  using find_oper_opers [OF assms]
  by (simp add: ssc_oper_find_call_def ssc_oper_find_call_in_progress_def ssc_oper_find_call_embryonic_def
      ssc_oper_find_unanswered_def ssc_oper_find_by_handle_def ssc_oper_find_by_method_def
      ssc_oper_find_by_callstate_def ssc_oper_find_register_def info_sel is_invite_def opc_sent_def)

theorem searches_find_first_witness:
  "opers demo_table [5, 6, 7] \<and> ssc_oper_find_call demo_table = Inr (Some 5)
   \<and> ssc_oper_find_by_method demo_table sip_method_register = Inr (Some 6)
   \<and> ssc_oper_find_unanswered demo_table = Inr None"
  using opers_demo searches_find_first [OF opers_demo, of None sip_method_register 0]
  by (simp add: info_sel demo_heap) (simp add: demo_simps)

text \<open>
  Destroying an operation (C6). The call ends; the operation leaves the list and its memory is
  released, so that the memory in use is again exactly the list; every other operation stays what it
  was and in its order; its handle, if any, is destroyed; the media subsystem is disabled if no INVITE
  operation is left and otherwise keeps its state; and no later search returns the operation.
\<close>

theorem destroy_removes:
  assumes "opers s ps" "p \<in> set ps"
  shows "ok (ssc_oper_destroy (Some p) s) (\<lambda>s'.
      opers s' (remove1 p ps) \<and> dom (ssc_heap s') = set ps - {p}
      \<and> (\<forall>q \<in> set ps - {p}. info (ssc_heap s') q = info (ssc_heap s) q)
      \<and> io_out s' = io_out s @ (case op_handle (info (ssc_heap s) p) of None \<Rightarrow> []
                                | Some nh \<Rightarrow> [Nua_handle_destroy nh])
      \<and> sm_state s' = (if \<exists>q \<in> set ps - {p}. is_invite (ssc_heap s) q then sm_state s else sm_disabled)
      \<and> (\<forall>nh. ssc_oper_find_by_handle s' nh \<noteq> Inr (Some p)))"
proof (rule ok_mono [OF ssc_oper_destroy_ok [OF assms]])
  fix s' assume d: "destroyed p ps s s'"
  then have o: "opers s' (remove1 p ps)" by (simp add: destroyed_def)
  have set: "set (remove1 p ps) = set ps - {p}"
    using opers_distinct [OF assms(1)] by (rule set_remove1_eq)
  have "ssc_oper_find_by_handle s' nh \<noteq> Inr (Some p)" for nh
    using heap_table.lookup_sound [OF o, of "\<lambda>r. op_handle r = nh" p] set
    by (auto simp: ssc_oper_find_by_handle_def)
  with d o set opers_dom [OF o] show "opers s' (remove1 p ps) \<and> dom (ssc_heap s') = set ps - {p}
      \<and> (\<forall>q \<in> set ps - {p}. info (ssc_heap s') q = info (ssc_heap s) q)
      \<and> io_out s' = io_out s @ (case op_handle (info (ssc_heap s) p) of None \<Rightarrow> []
                                | Some nh \<Rightarrow> [Nua_handle_destroy nh])
      \<and> sm_state s' = (if \<exists>q \<in> set ps - {p}. is_invite (ssc_heap s) q then sm_state s else sm_disabled)
      \<and> (\<forall>nh. ssc_oper_find_by_handle s' nh \<noteq> Inr (Some p))"
    by (simp add: destroyed_def closing_def)
qed

theorem destroy_removes_witness:
  "opers demo_table [5, 6, 7] \<and> ok (ssc_oper_destroy (Some 5) demo_table) (\<lambda>s'.
     opers s' [6, 7] \<and> io_out s' = [Nua_handle_destroy 25] \<and> sm_state s' = sm_disabled)"
  using opers_demo
  by (auto intro!: ok_mono [OF destroy_removes [OF opers_demo, of 5]]
      simp: info_sel demo_heap is_invite_def) (auto simp: demo_simps)

lemma ssc_oper_create_ok:
  assumes "opers s ps" "e_sip_to_make E addr = Some to" "url_sanitize (a_url to) = Some u"
  shows "ok (ssc_oper_create E m name (Some addr) ta s) (\<lambda>(r, s'). r = fst (su_zalloc s) \<and>
     (case r of
       None \<Rightarrow> s' = printf (fmt [ssc_name s, '': '', pstr name, '': cannot create handle'', nl])
                       (s\<lparr>ssc_allocs := tl (ssc_allocs s)\<rparr>)
     | Some p \<Rightarrow>
         created m (new_info m name (next_handle s) (e_addr_as_string E (to\<lparr>a_url := u\<rparr>)) (-1))
           (Nua_handle (next_handle s) (create_tags m (to\<lparr>a_url := u\<rparr>) ta)) p ps (evicted m (ssc_heap s) ps) s s'))"
  using assms oper_create_to_ok [OF assms(1) refl] find_oper_opers [OF assms(1)]
  by (simp add: ssc_oper_create_def)

text \<open>
  Creating an operation for a destination (C7). With a usable address and memory, the new operation is
  the first of the list, carries the method, the printed address, the handle the stack gave and
  \<open>op_prev_state\<close> -1; the handle was asked for with the destination (and its URL unless registering).
  A transient method evicts every operation that is neither persistent nor in a call, destroying its
  handle; the others stay as they were. The media subsystem stops only when the last INVITE was among
  the evicted and the new operation is none. Without memory nothing but a message and the allocation
  attempt happens.
\<close>

theorem create_inserts:
  assumes "opers s ps" "e_sip_to_make E addr = Some to" "url_sanitize (a_url to) = Some u"
  shows "ok (ssc_oper_create E m name (Some addr) ta s) (\<lambda>(r, s'). r = fst (su_zalloc s) \<and>
     (case r of
       None \<Rightarrow> s' = printf (fmt [ssc_name s, '': '', pstr name, '': cannot create handle'', nl])
                       (s\<lparr>ssc_allocs := tl (ssc_allocs s)\<rparr>)
     | Some p \<Rightarrow>
         (let ev = (if persistent_method m then []
                    else filter (\<lambda>q. \<not> op_persistent (info (ssc_heap s) q)
                                     \<and> op_callstate (info (ssc_heap s) q) = 0) ps);
              L = filter (\<lambda>q. q \<notin> set ev) ps; to = to\<lparr>a_url := u\<rparr> in
          p \<notin> set ps \<and> opers s' (p # L)
          \<and> info (ssc_heap s') p = new_info m name (next_handle s) (e_addr_as_string E to) (-1)
          \<and> (\<forall>q \<in> set L. info (ssc_heap s') q = info (ssc_heap s) q)
          \<and> io_out s' = io_out s @ [Nua_handle (next_handle s) (create_tags m to ta)]
                        @ concat (map (closing (ssc_heap s)) ev)
          \<and> sm_state s' = (if ev = [] \<or> m = sip_method_invite \<or> (\<exists>q \<in> set L. is_invite (ssc_heap s) q)
                          then sm_state s else sm_disabled))))"
proof -
  have ev: "(if persistent_method m then []
      else filter (\<lambda>q. \<not> op_persistent (info (ssc_heap s) q) \<and> op_callstate (info (ssc_heap s) q) = 0) ps)
      = evicted m (ssc_heap s) ps"
    by (simp add: evicted_def keep_def)
  show ?thesis
    unfolding Let_def ev
    by (rule ok_mono [OF ssc_oper_create_ok [OF assms]], clarify, case_tac "fst (su_zalloc s)")
       (simp_all add: created_def Let_def del: if_split)
qed

theorem create_inserts_witness:
  "opers demo_table [5, 6, 7]
   \<and> ok (ssc_oper_create demo_env sip_method_options (Some ''OPTIONS'') (Some ''sip:bob'') [] demo_table)
       (\<lambda>(r, s'). r = Some 1 \<and> opers s' [1, 5, 6] \<and> sm_state s' = sm_active)"
proof -
  let ?to = "demo_addr ''sip:bob''"
  have h: "e_sip_to_make demo_env ''sip:bob'' = Some ?to"
      "url_sanitize (a_url ?to) = Some (a_url ?to)"
    by (simp_all add: demo_env_def)
  have ev: "filter (\<lambda>q. \<not> op_persistent (info (ssc_heap demo_table) q)
      \<and> op_callstate (info (ssc_heap demo_table) q) = 0) [5, 6, 7] = [7]"
    by (simp add: info_sel demo_heap) (simp add: demo_simps)
  have inv: "is_invite (ssc_heap demo_table) 5" "sm_state demo_table = sm_active"
    by (simp_all add: is_invite_def info_sel demo_heap) (simp_all add: demo_simps)
  have np: "\<not> persistent_method sip_method_options" by (simp add: persistent_method_def)
  have z: "fst (su_zalloc demo_table) = Some 1"
    by (simp add: su_zalloc_def demo_simps)
  have "ok (ssc_oper_create demo_env sip_method_options (Some ''OPTIONS'') (Some ''sip:bob'') [] demo_table)
       (\<lambda>(r, s'). r = Some 1 \<and> opers s' [1, 5, 6] \<and> sm_state s' = sm_active)"
    by (rule ok_mono [OF create_inserts [OF opers_demo h, of sip_method_options "Some ''OPTIONS''" "[]",
            unfolded Let_def ev z if_not_P [OF np]]])
       (use inv in auto)
  with opers_demo show ?thesis by blast
qed

text \<open>
  Creating an operation without a usable destination. An address that cannot be parsed or cleaned
  up is reported and nothing else happens. Without an address a new method re-labels the newest
  transient operation, in place, and returns it; if there is none this is reported. Without an address,
  a method and a name, the newest transient operation is returned as it is.
\<close>

theorem create_without_destination:
  assumes "opers s ps"
  defines "old \<equiv> find (\<lambda>q. \<not> op_persistent (info (ssc_heap s) q)) ps"
  shows "(e_sip_to_make E addr = None \<longrightarrow> ssc_oper_create E m name (Some addr) ta s =
           Inr (None, printf (fmt [ssc_name s, '': '', pstr name, '': invalid address: '', addr, nl]) s))
    \<and> (e_sip_to_make E addr = Some to \<and> url_sanitize (a_url to) = None \<longrightarrow>
         ssc_oper_create E m name (Some addr) ta s =
           Inr (None, printf (fmt [ssc_name s, '': '', pstr name, '': invalid address'', nl]) s))
    \<and> ssc_oper_create E m (Some name') None ta s =
         (case old of
            None \<Rightarrow> Inr (None, printf (fmt [ssc_name s, '': '', name', '': no destination'', nl]) s)
          | Some p \<Rightarrow> Inr (Some p, s\<lparr>ssc_heap := (ssc_heap s)(p \<mapsto> (the (ssc_heap s p))
              \<lparr>op_method := m, op_method_name := Some name', op_persistent := persistent_method m\<rparr>)\<rparr>))
    \<and> ssc_oper_create E sip_method_unknown None None ta s = Inr (old, s)"
proof -
  have f: "find_oper (\<lambda>op. \<not> op_persistent op) s = Inr old"
    unfolding old_def info_sel by (rule find_oper_opers [OF assms(1)])
  have live: "\<exists>r. ssc_heap s p = Some r" if "old = Some p" for p
    using find_SomeD [of _ ps p] opers_live [OF assms(1)] that unfolding old_def by blast
  show ?thesis
    using live
    by (auto simp: ssc_oper_create_def f ssc_oper_assign_def store_live pstr_def persistent_method_def
        split: option.split)
qed

theorem create_without_destination_witness:
  "opers demo_table [5, 6, 7]
   \<and> ssc_oper_create demo_env sip_method_unknown None None [] demo_table = Inr (Some 5, demo_table)
   \<and> ssc_oper_create demo_env sip_method_invite (Some ''INVITE'') (Some []) [] demo_table =
       Inr (None, printf (fmt [''UA'', '': '', ''INVITE'', '': invalid address: '', [], nl]) demo_table)"
proof -
  have "\<not> op_persistent (info (ssc_heap demo_table) 5)"
    by (simp add: info_sel demo_heap) (simp add: demo_simps)
  moreover have "e_sip_to_make demo_env [] = None" "ssc_name demo_table = ''UA''"
    by (simp_all add: demo_env_def demo_simps)
  ultimately show ?thesis
    using opers_demo create_without_destination [OF opers_demo, of demo_env "[]" sip_method_invite "Some ''INVITE''" "[]"]
    by (simp add: pstr_def)
qed
text \<open>
  Creating an operation for an incoming request. With memory the new operation comes first, owns
  the request's handle, which is bound to it, and evicts nothing; looking its handle up finds it, and
  destroying it restores the list as it was before.
\<close>

theorem create_with_handle_lookup:
  assumes "opers s ps"
  shows "ok (andthen (ssc_oper_create_with_handle E m name nh frm s) (\<lambda>(r, s1).
             andthen (ssc_oper_find_by_handle s1 (Some nh)) (\<lambda>f. Inr (r, f))))
           (\<lambda>(r, f). r \<noteq> None \<longrightarrow> f = r)
    \<and> ok (andthen (ssc_oper_create_with_handle E m name nh frm s) (\<lambda>(r, s1).
             case r of None \<Rightarrow> Inr s1 | Some p \<Rightarrow> ssc_oper_destroy (Some p) s1))
           (\<lambda>s2. opers s2 ps \<and> (\<forall>q \<in> set ps. info (ssc_heap s2) q = info (ssc_heap s) q))"
  using heap_table.lookup_after_add [OF assms, of "\<lambda>r. op_handle r = Some nh" E "(m, name, nh, frm)"]
    heap_table.remove_after_add [OF assms, of E "(m, name, nh, frm)"]
  by (simp add: ssc_oper_find_by_handle_def new_info_def)

theorem create_with_handle_lookup_witness:
  "opers demo_table [5, 6, 7]
   \<and> ok (andthen (ssc_oper_create_with_handle demo_env sip_method_invite (Some ''INVITE'') 40
           (demo_addr ''sip:eve'') demo_table)
         (\<lambda>(r, s1). andthen (ssc_oper_find_by_handle s1 (Some 40)) (\<lambda>f. Inr (r, f))))
       (\<lambda>(r, f). r \<noteq> None \<longrightarrow> f = r)"
  using opers_demo create_with_handle_lookup [OF opers_demo] by blast

text \<open>
  Checking a pointer against the list. \<open>ssc_oper_check\<close> steps from the pointer under test instead
  of the cell it looks at. It is right for the first operation, for every pointer while the list is
  empty, and nowhere else: the last operation of a longer list is reported as unknown, an operation in
  the middle makes the loop run forever, and a pointer to a destroyed operation is dereferenced.
\<close>

theorem ssc_oper_check_result:
  assumes "opers s ps"
  shows "ssc_oper_check s (Some p) =
     (if ps = [] then Inr None
      else if p = hd ps then Inr (Some p)
      else if p \<notin> set ps then Inl Use_after_free
      else if p = last ps then Inr None
      else Inl No_return)"
  by (rule check_result [OF assms])

theorem ssc_oper_check_result_witness:
  "opers demo_table [5, 6, 7] \<and> ssc_oper_check demo_table (Some 5) = Inr (Some 5)
   \<and> ssc_oper_check demo_table (Some 6) = Inl No_return \<and> ssc_oper_check demo_table (Some 7) = Inr None
   \<and> ssc_oper_check demo_table (Some 8) = Inl Use_after_free"
  using opers_demo ssc_oper_check_result [OF opers_demo] by simp

end
