(* ===== verification/Ssc_Sip.thy ===== *)
theory Ssc_Sip
  imports Ssc_Oper
begin

unbundle bit_operations_syntax

text \<open>
  The signalling client: \<open>ssc_sip.c\<close>. One definition per function, in the order of the file where the
  calls allow it.

  \<^item> Commands of the user (\<open>ssc_invite\<close>, \<open>ssc_bye\<close>, ...) and handlers of events of the SIP stack
    (\<open>ssc_r_invite\<close>, \<open>ssc_i_state\<close>, ...) are functions from the state \<open>ssc\<close> to its successor, or to the
    memory error they run into. \<open>priv_callback\<close> dispatches an event to its handler.
  \<^item> What the SIP stack hands to a handler is \<open>sip_t\<close>, the parsed message to the depth the client looks
    into it, and \<open>tags\<close>, the values \<open>tl_gets\<close> takes from the tag list.
  \<^item> The closures on the media subsystem's signal run while \<open>ssc_media_activate\<close> is active
    (\<open>media_activate\<close>); each is \<open>priv_media_state_cb\<close> for one operation pointer.
  \<^item> The model is the build with the dummy media implementation (\<open>HAVE_MEDIA_IMPL\<close> set, neither
    GStreamer nor libnice). \<open>su_strdup\<close> and \<open>su_sprintf\<close> are taken to succeed.
\<close>

section \<open>Messages, tags and events\<close>

record sip_auth =
  au_scheme :: string
  au_params :: "string list"
  au_text :: string

record sip_t =
  sip_from :: "sip_addr option"
  sip_to :: "sip_addr option"
  sip_subject :: "string option"
  sip_www_authenticate :: "sip_auth option"
  sip_proxy_authenticate :: "sip_auth option"
  sip_refer_to :: "sip_addr option"
  sip_event :: "string option"
  sip_content_type :: "string option"
  sip_payload :: "string option"
  sip_contact :: "string list"
  sip_expires :: "nat option"
  sip_rack :: "nat option"

record tags =
  t_callstate :: "nat option"
  t_offer_recv :: "int option"
  t_answer_recv :: "int option"
  t_offer_sent :: "int option"
  t_answer_sent :: "int option"
  t_local_sdp :: "string option"
  t_remote_sdp :: "string option"
  t_active_audio :: "int option"
  t_active_video :: "int option"
  t_active_chat :: "int option"
  t_handle :: "handle option"
  t_from :: "sip_addr option"
  t_www_authenticate :: "sip_auth option"
  t_proxy_authenticate :: "sip_auth option"
  t_text :: string

text \<open>\<open>tl_gets\<close> with one reference: the tag's value if the tag is there, else the old value.\<close>

definition tl_gets :: "'a option \<Rightarrow> 'a \<Rightarrow> 'a" where
  "tl_gets t v = (case t of None \<Rightarrow> v | Some x \<Rightarrow> x)"

definition tl_gets_ptr :: "'a option \<Rightarrow> 'a option \<Rightarrow> 'a option" where
  "tl_gets_ptr t v = (case t of None \<Rightarrow> v | Some x \<Rightarrow> Some x)"

text \<open>The events the client handles; any other one carries its number and the name the stack gives it.\<close>

datatype nua_event =
    nua_i_error | nua_i_invite | nua_i_cancel | nua_i_ack | nua_i_fork | nua_i_active
  | nua_i_terminated | nua_i_state | nua_i_bye | nua_i_options | nua_i_refer | nua_i_prack
  | nua_i_info | nua_i_message | nua_i_notify | nua_r_get_params | nua_r_shutdown | nua_r_register
  | nua_r_unregister | nua_r_invite | nua_r_bye | nua_r_options | nua_r_refer | nua_r_publish
  | nua_r_info | nua_r_message | nua_r_subscribe | nua_r_unsubscribe | nua_r_notify
  | nua_other int string

fun nua_event_code :: "nua_event \<Rightarrow> int" where
  "nua_event_code nua_i_error = 0"
| "nua_event_code nua_i_invite = 1"
| "nua_event_code nua_i_cancel = 2"
| "nua_event_code nua_i_ack = 3"
| "nua_event_code nua_i_fork = 4"
| "nua_event_code nua_i_active = 5"
| "nua_event_code nua_i_terminated = 6"
| "nua_event_code nua_i_state = 7"
| "nua_event_code nua_i_bye = 9"
| "nua_event_code nua_i_options = 10"
| "nua_event_code nua_i_refer = 11"
| "nua_event_code nua_i_prack = 13"
| "nua_event_code nua_i_info = 14"
| "nua_event_code nua_i_message = 16"
| "nua_event_code nua_i_notify = 20"
| "nua_event_code nua_r_get_params = 24"
| "nua_event_code nua_r_shutdown = 25"
| "nua_event_code nua_r_register = 29"
| "nua_event_code nua_r_unregister = 30"
| "nua_event_code nua_r_invite = 31"
| "nua_event_code nua_r_bye = 33"
| "nua_event_code nua_r_options = 34"
| "nua_event_code nua_r_refer = 35"
| "nua_event_code nua_r_publish = 36"
| "nua_event_code nua_r_info = 38"
| "nua_event_code nua_r_message = 41"
| "nua_event_code nua_r_subscribe = 43"
| "nua_event_code nua_r_unsubscribe = 44"
| "nua_event_code nua_r_notify = 45"
| "nua_event_code (nua_other n name) = n"

text \<open>Call states of the stack, by number.\<close>

definition nua_callstate_init :: nat where "nua_callstate_init = 0"
definition nua_callstate_completing :: nat where "nua_callstate_completing = 4"
definition nua_callstate_received :: nat where "nua_callstate_received = 5"
definition nua_callstate_early :: nat where "nua_callstate_early = 6"
definition nua_callstate_ready :: nat where "nua_callstate_ready = 8"
definition nua_callstate_terminated :: nat where "nua_callstate_terminated = 10"

lemmas nua_callstate_defs = nua_callstate_init_def nua_callstate_completing_def nua_callstate_received_def
  nua_callstate_early_def nua_callstate_ready_def nua_callstate_terminated_def

definition nua_callstate_name :: "nat \<Rightarrow> string" where
  "nua_callstate_name st =
     (if st < 11
      then [''init'', ''authenticating'', ''calling'', ''proceeding'', ''completing'', ''received'', ''early'',
            ''completed'', ''ready'', ''terminating'', ''terminated''] ! st
      else ''UNKNOWN'')"

definition sip_method_name :: "sip_method \<Rightarrow> string option \<Rightarrow> string option" where
  "sip_method_name m name =
     (case m of
        sip_method_invalid \<Rightarrow> None
      | sip_method_unknown \<Rightarrow> name
      | sip_method_invite \<Rightarrow> Some ''INVITE''
      | sip_method_ack \<Rightarrow> Some ''ACK''
      | sip_method_cancel \<Rightarrow> Some ''CANCEL''
      | sip_method_bye \<Rightarrow> Some ''BYE''
      | sip_method_options \<Rightarrow> Some ''OPTIONS''
      | sip_method_register \<Rightarrow> Some ''REGISTER''
      | sip_method_info \<Rightarrow> Some ''INFO''
      | sip_method_prack \<Rightarrow> Some ''PRACK''
      | sip_method_update \<Rightarrow> Some ''UPDATE''
      | sip_method_message \<Rightarrow> Some ''MESSAGE''
      | sip_method_subscribe \<Rightarrow> Some ''SUBSCRIBE''
      | sip_method_notify \<Rightarrow> Some ''NOTIFY''
      | sip_method_refer \<Rightarrow> Some ''REFER''
      | sip_method_publish \<Rightarrow> Some ''PUBLISH'')"

definition apos :: string where
  "apos = [CHR 0x27]"

text \<open>A message that starts with the name of the client.\<close>

abbreviation say :: "string list \<Rightarrow> ssc \<Rightarrow> ssc" where
  "say ps s \<equiv> printf (fmt (ssc_name s # ps)) s"

abbreviation print :: "string list \<Rightarrow> ssc \<Rightarrow> ssc" where
  "print ps \<equiv> printf (fmt ps)"

abbreviation reading :: "ssc \<Rightarrow> ptr option \<Rightarrow> (ssc_oper \<Rightarrow> 'a res) \<Rightarrow> 'a res" where
  "reading s op f \<equiv> andthen (deref (ssc_heap s) op) f"

definition display_name :: "sip_addr \<Rightarrow> string list" where
  "display_name a = (case a_display a of None \<Rightarrow> [] | Some d \<Rightarrow> [d, '' ''])"

section \<open>Creation and destruction of the client\<close>

record ssc_conf =
  conf_aor :: "string option"
  conf_certdir :: "string option"
  conf_contact :: "string option"
  conf_media_addr :: "string option"
  conf_media_impl :: "string option"
  conf_proxy :: "string option"
  conf_registrar :: "string option"
  conf_stun_server :: "string option"
  conf_autoanswer :: bool
  conf_register :: bool

text \<open>\<open>TAG_IF\<close> on a string.\<close>

definition TAG_IF :: "string option \<Rightarrow> (string \<Rightarrow> tag) \<Rightarrow> tag list" where
  "TAG_IF v t = (case v of None \<Rightarrow> [] | Some x \<Rightarrow> [t x])"

definition priv_parse_domain :: "string \<Rightarrow> string" where
  "priv_parse_domain sip_aor =
     (let aor = (if take 4 sip_aor = ''sip:'' then drop 4 sip_aor else sip_aor);
          aor = (if CHR ''@'' \<in> set aor then tl (dropWhile (\<lambda>c. c \<noteq> CHR ''@'') aor) else aor)
      in takeWhile (\<lambda>c. c \<noteq> CHR '';'' \<and> c \<noteq> CHR '':'') aor)"

text \<open>The choice of the media implementation, for a build with or without each of them.\<close>

datatype media_impl = Media_none | Media_nice | Media_gst | Media_dummy

definition priv_create_ssc_media :: "bool \<Rightarrow> bool \<Rightarrow> bool \<Rightarrow> ssc_conf \<Rightarrow> media_impl" where
  "priv_create_ssc_media have_media_impl have_libnice have_gst conf =
     (let impl = (case conf_media_impl conf of None \<Rightarrow> ''gstreamer'' | Some i \<Rightarrow> i) in
      if \<not> have_media_impl then Media_none
      else if have_libnice \<and> strstr_split ''nice'' impl \<noteq> None then Media_nice
      else if have_gst \<and> strstr_split ''gstreamer'' impl \<noteq> None then Media_gst
      else Media_dummy)"

definition priv_destroy_oper_with_disconnect :: "ptr \<Rightarrow> ssc \<Rightarrow> ssc res" where
  "priv_destroy_oper_with_disconnect op s =
     ssc_oper_destroy (Some op) (s\<lparr>sm_handlers := filter (\<lambda>h. h \<noteq> op) (sm_handlers s)\<rparr>)"

text \<open>Everything the client owns is released; what it has written stays.\<close>

definition ssc_destroy :: "ssc \<Rightarrow> io" where
  "ssc_destroy s = \<lparr>io_out = io_out s\<rparr>"

section \<open>Authentication\<close>

text \<open>The value of the first parameter with the given name (\<open>token\<close> up to its \<open>=\<close>).\<close>

fun msg_params_find :: "string list \<Rightarrow> string \<Rightarrow> string option" where
  "msg_params_find [] token = None"
| "msg_params_find (param # params) token =
     (let n = length (takeWhile (\<lambda>c. c \<noteq> CHR ''='') token) in
      if strcasecmp_eq (take n param) (take n token) \<and> n \<le> length param then
        (if n < length param \<and> param ! n = CHR ''='' then Some (drop (Suc n) param)
         else if n = length param then Some []
         else msg_params_find params token)
      else msg_params_find params token)"

text \<open>Memory for a record other than an operation.\<close>

definition su_zalloc_item :: "ssc \<Rightarrow> bool \<times> ssc" where
  "su_zalloc_item s =
     (case ssc_allocs s of [] \<Rightarrow> (False, s) | a # as \<Rightarrow> (a \<noteq> None, s\<lparr>ssc_allocs := as\<rparr>))"

definition priv_store_pending_auth ::
  "string \<Rightarrow> string list \<Rightarrow> ssc \<Rightarrow> ssc_auth_item option \<times> ssc" where
  "priv_store_pending_auth scheme params s =
     (let realm = msg_params_find params ''realm=''; (got, s) = su_zalloc_item s in
      (if got then Some \<lparr>ssc_scheme = Some scheme, ssc_realm = realm, ssc_username = None, ssc_op = None\<rparr>
       else None, s))"

definition priv_attach_op_and_username ::
  "ssc_auth_item option \<Rightarrow> sip_addr option \<Rightarrow> ptr option \<Rightarrow> ssc \<Rightarrow> (ssc_auth_item \<times> ssc) res" where
  "priv_attach_op_and_username authitem sipfrom op s =
     (case authitem of
        None \<Rightarrow> Inl Null_deref
      | Some item \<Rightarrow>
          let item = item\<lparr>ssc_op := op,
                ssc_username := (case sipfrom of None \<Rightarrow> ssc_username item | Some f \<Rightarrow> url_user (a_url f))\<rparr> in
          reading s op (\<lambda>r.
            let s = emit (Nua_handle_ref (op_handle r)) s in
            Inr (item, s\<lparr>ssc_auth_pend := ssc_auth_pend s @ [item]\<rparr>)))"

text \<open>One challenge: print it, store it.\<close>

definition store_challenge ::
  "string \<Rightarrow> sip_auth option \<Rightarrow> sip_addr option \<Rightarrow> ptr option \<Rightarrow> ssc_auth_item option \<times> ssc
     \<Rightarrow> (ssc_auth_item option \<times> ssc) res" where
  "store_challenge what a sipfrom op st =
     (case a of
        None \<Rightarrow> Inr st
      | Some w \<Rightarrow>
          (let s = print [what, au_text w, nl] (snd st);
               (authitem, s) = priv_store_pending_auth (au_scheme w) (au_params w) s in
           andthen (priv_attach_op_and_username authitem sipfrom op s) (\<lambda>(item, s). Inr (Some item, s))))"

definition ssc_store_pending_auth :: "ptr option \<Rightarrow> sip_t option \<Rightarrow> tags \<Rightarrow> ssc \<Rightarrow> ssc res" where
  "ssc_store_pending_auth op sip t s =
     (case sip of
        None \<Rightarrow> Inl Null_deref
      | Some m \<Rightarrow>
          let sipfrom = sip_from m;
              wa = tl_gets_ptr (t_www_authenticate t) (sip_www_authenticate m);
              pa = tl_gets_ptr (t_proxy_authenticate t) (sip_proxy_authenticate m) in
          andthen (store_challenge ''Server auth: '' wa sipfrom op (None, s)) (\<lambda>st.
          andthen (store_challenge ''Proxy auth: '' pa sipfrom op st) (\<lambda>(authitem, s).
          Inr (case authitem of
                 None \<Rightarrow> s
               | Some item \<Rightarrow> if ssc_auth_req_cb s then emit (Call_auth_req_cb (ssc_scheme item)) s else s))))"

definition priv_str_chr_count :: "string \<Rightarrow> char \<Rightarrow> nat" where
  "priv_str_chr_count data chr = length (filter (\<lambda>c. c = chr) data)"

text \<open>The text given to the stack: the user may leave out the scheme and realm, or the user name too.\<close>

definition auth_text :: "ssc_auth_item \<Rightarrow> string \<Rightarrow> string" where
  "auth_text item data =
     (let colons = priv_str_chr_count data (CHR '':'') in
      if colons = 0
      then fmt [pstr (ssc_scheme item), '':'', pstr (ssc_realm item), '':'', pstr (ssc_username item), '':'', data]
      else if colons = 1 then fmt [pstr (ssc_scheme item), '':'', pstr (ssc_realm item), '':'', data]
      else data)"

text \<open>The loop over the pending challenges; every one it looks at leaves the list, and the first one
  that is still valid is answered.\<close>

fun auth_loop :: "string \<Rightarrow> ssc_auth_item list \<Rightarrow> ssc \<Rightarrow> (bool \<times> ssc) res" where
  "auth_loop data [] s = Inr (False, s)"
| "auth_loop data (item # items) s =
     andthen (ssc_oper_check s (ssc_op item)) (\<lambda>op.
       if op \<noteq> None then
         reading s (ssc_op item) (\<lambda>r.
           let authstring = auth_text item data;
               s = say ['': authenticating '', apos, pstr (op_method_name r), apos, '' with '', apos,
                        authstring, apos, ''.'', nl] s;
               s = emit (Nua_request nua_authenticate (op_handle r) [NUTAG_AUTH authstring]) s;
               s = emit (Nua_handle_unref (op_handle r)) s in
           Inr (True, s\<lparr>ssc_auth_pend := items\<rparr>))
       else
         (let s = say ['': stale authentication challenge '', apos, pstr (ssc_realm item),
                       apos, '', ignoring.'', nl] s in
          auth_loop data items (s\<lparr>ssc_auth_pend := items\<rparr>)))"

definition ssc_auth :: "string option \<Rightarrow> ssc \<Rightarrow> ssc res" where
  "ssc_auth data s =
     (case data of
        None \<Rightarrow> Inl Null_deref
      | Some d \<Rightarrow>
          andthen (auth_loop d (ssc_auth_pend s) s) (\<lambda>(auth_done, s).
            Inr (if \<not> auth_done then say ['': No operation to authenticate'', nl] s else s)))"

section \<open>Errors and the list of operations\<close>

definition ssc_i_error :: "int \<Rightarrow> string \<Rightarrow> ssc \<Rightarrow> ssc" where
  "ssc_i_error status phrase s = say ['': error '', fmt_03d status, '' '', phrase, nl] s"

partial_function (option) list_from :: "ptr option \<Rightarrow> ssc \<Rightarrow> ssc res option" where
  "list_from op s =
     (case op of
        None \<Rightarrow> Some (Inr s)
      | Some a \<Rightarrow>
          (case ssc_heap s a of
             None \<Rightarrow> Some (Inl Use_after_free)
           | Some r \<Rightarrow>
               list_from (op_next r)
                 (case op_ident r of
                    None \<Rightarrow> s
                  | Some i \<Rightarrow> print [tab, pstr (sip_method_name (op_method r) (op_method_name r)), '' to '', i, nl] s)))"

definition ssc_list :: "ssc \<Rightarrow> ssc res" where
  "ssc_list s =
     (let s = say ['': listing active handles'', nl] s in returns (list_from (ssc_operations s) s))"

section \<open>The media signal\<close>

definition SOA_RTP_SORT_REMOTE :: nat where "SOA_RTP_SORT_REMOTE = 2"
definition SOA_RTP_SELECT_ALL :: nat where "SOA_RTP_SELECT_ALL = 2"
definition SOA_AF_IP4_IP6 :: nat where "SOA_AF_IP4_IP6 = 3"

definition sdp_tags :: "string \<Rightarrow> tag list" where
  "sdp_tags l_sdp = [SOATAG_USER_SDP_STR l_sdp, SOATAG_RTP_SORT SOA_RTP_SORT_REMOTE,
                     SOATAG_RTP_SELECT SOA_RTP_SELECT_ALL]"

text \<open>The first branch of the callback, for an outgoing call. \<open>op_callstate &= !opc_pending\<close> is a logical
  negation, so it masks with 0.\<close>

definition media_ready_invite :: "sofia_env \<Rightarrow> ptr \<Rightarrow> ssc \<Rightarrow> ssc res" where
  "media_ready_invite E op s =
     andthen (store (Some op) (\<lambda>r. r\<lparr>op_callstate := op_callstate r AND 0\<rparr>) s) (\<lambda>s.
     andthen (ssc_media_get_property E PROP_LOCAL_SDP s) (\<lambda>(l_sdp, s).
     case l_sdp of
       Some sdp \<Rightarrow>
         (let s = say ['': about to make a call with local SDP:'', nl, sdp, nl] s in
          reading s (Some op) (\<lambda>r.
          let s = emit (Nua_request nua_invite (op_handle r) (sdp_tags sdp)) s in
          andthen (store (Some op) (\<lambda>r. r\<lparr>op_callstate := op_callstate r OR opc_sent\<rparr>) s) (\<lambda>s.
          reading s (Some op) (\<lambda>r.
          Inr (say ['': INVITE to '', pstr (op_ident r), nl] s)))))
     | None \<Rightarrow>
         andthen (store (Some op) (\<lambda>r. r\<lparr>op_callstate := op_callstate r OR opc_none\<rparr>) s) (\<lambda>s.
         let s = print [''ERROR: no SDP provided by media subsystem, aborting call.'', nl] s in
         priv_destroy_oper_with_disconnect op s)))"

text \<open>The second branch, for an answer.\<close>

definition media_ready_answer :: "sofia_env \<Rightarrow> ptr \<Rightarrow> ssc \<Rightarrow> ssc res" where
  "media_ready_answer E op s =
     (let status = ssc_ans_status s; phrase = ssc_ans_phrase s in
      andthen (ssc_media_get_property E PROP_LOCAL_SDP s) (\<lambda>(l_sdp_str, s).
      let s = say ['': about to respond with local SDP:'', nl, pstr l_sdp_str, nl] s in
      case l_sdp_str of
        Some sdp \<Rightarrow>
          andthen (if 200 \<le> status \<and> status < 300
                   then store (Some op) (\<lambda>r. r\<lparr>op_callstate := op_callstate r OR opc_sent\<rparr>) s
                   else store (Some op) (\<lambda>r. r\<lparr>op_callstate := opc_none\<rparr>) s) (\<lambda>s.
          reading s (Some op) (\<lambda>r.
          Inr (emit (Nua_respond (op_handle r) status phrase (sdp_tags sdp)) s)))
      | None \<Rightarrow>
          let s = print [''ERROR: no SDP provided by media subsystem, unable to answer call.''] s in
          andthen (store (Some op) (\<lambda>r. r\<lparr>op_callstate := opc_none\<rparr>) s) (\<lambda>s.
          reading s (Some op) (\<lambda>r.
          Inr (emit (Nua_respond (op_handle r) 500 ''Not Acceptable Here'' []) s)))))"

definition priv_media_state_cb :: "sofia_env \<Rightarrow> sm_state_t \<Rightarrow> ptr \<Rightarrow> ssc \<Rightarrow> ssc res" where
  "priv_media_state_cb E state op s =
     reading s (Some op) (\<lambda>r0.
     andthen
       (if state = sm_local_ready \<or> state = sm_active then
          (if op_callstate r0 AND opc_pending \<noteq> 0 \<and> ssc_media_is_initialized s then media_ready_invite E op s
           else if op_callstate r0 AND opc_recv \<noteq> 0 then media_ready_answer E op s
           else Inr s)
        else if state = sm_error then
          (let s = say ['': Media subsystem reported an error.'', nl] s in
           priv_destroy_oper_with_disconnect op (ssc_media_deactivate s))
        else Inr s) (\<lambda>s.
     Inr (if ssc_media_state_cb s then emit (Call_media_state_cb (Some op) (sm_code state)) s else s)))"

text \<open>Signal emission: the closures connected when it starts run in order, except those that are
  disconnected before their turn.\<close>

fun run_handlers :: "sofia_env \<Rightarrow> sm_state_t \<Rightarrow> ptr list \<Rightarrow> ssc \<Rightarrow> ssc res" where
  "run_handlers E state [] s = Inr s"
| "run_handlers E state (h # hs) s =
     (if h \<in> set (sm_handlers s)
      then andthen (priv_media_state_cb E state h s) (run_handlers E state hs)
      else run_handlers E state hs s)"

definition media_activate :: "sofia_env \<Rightarrow> ssc \<Rightarrow> (int \<times> ssc) res" where
  "media_activate E s =
     andthen (ssc_media_activate E s) (\<lambda>(res, sig, s).
     if sig then andthen (run_handlers E (sm_state s) (sm_handlers s) s) (\<lambda>s. Inr (res, s))
     else Inr (res, s))"

section \<open>Calls\<close>

definition ssc_invite :: "sofia_env \<Rightarrow> string option \<Rightarrow> ssc \<Rightarrow> ssc res" where
  "ssc_invite E destination s =
     andthen (ssc_oper_create E sip_method_invite (Some ''INVITE'') destination [] s) (\<lambda>(op, s).
     case op of
       None \<Rightarrow> Inr s
     | Some p \<Rightarrow>
         andthen (store op (\<lambda>r. r\<lparr>op_callstate := op_callstate r OR opc_pending\<rparr>) s) (\<lambda>s.
         andthen (media_activate E (s\<lparr>sm_handlers := sm_handlers s @ [p]\<rparr>)) (\<lambda>(res, s).
         if res < 0 then
           priv_destroy_oper_with_disconnect p
             (say ['': ERROR: unable to active media subsystem, aborting session.'', nl] s)
         else reading s op (\<lambda>r. Inr (say ['': INVITE to '', pstr (op_ident r), '' pending'', nl] s)))))"

definition ssc_r_invite ::
  "int \<Rightarrow> string \<Rightarrow> ptr option \<Rightarrow> sip_t option \<Rightarrow> tags \<Rightarrow> ssc \<Rightarrow> ssc res" where
  "ssc_r_invite status phrase op sip t s =
     (let s = say ['': INVITE: '', fmt_03d status, '' '', phrase, nl] s in
      if status \<ge> 300 then
        andthen (store op (\<lambda>r. r\<lparr>op_callstate := op_callstate r AND NOT opc_sent\<rparr>) s) (\<lambda>s.
        if status = 401 \<or> status = 407 then ssc_store_pending_auth op sip t s else Inr s)
      else Inr s)"

definition ssc_i_fork :: "int \<Rightarrow> string \<Rightarrow> tags \<Rightarrow> ssc \<Rightarrow> ssc" where
  "ssc_i_fork status phrase t s =
     (let s = say ['': call fork: '', fmt_03d status, '' '', phrase, nl] s in
      case t_handle t of
        None \<Rightarrow> s
      | Some nh2 \<Rightarrow> emit (Nua_handle_destroy nh2) (emit (Nua_request nua_bye (Some nh2) []) s))"

definition ssc_answer :: "sofia_env \<Rightarrow> int \<Rightarrow> string \<Rightarrow> ssc \<Rightarrow> ssc res" where
  "ssc_answer E status phrase s =
     andthen (ssc_oper_find_unanswered s) (\<lambda>op.
     case op of
       None \<Rightarrow> Inr (say ['': no call to answer'', nl] s)
     | Some p \<Rightarrow>
         let s = s\<lparr>ssc_ans_status := status, ssc_ans_phrase := phrase\<rparr> in
         if 200 \<le> status \<and> status < 300 then
           andthen (media_activate E (s\<lparr>sm_handlers := sm_handlers s @ [p]\<rparr>)) (\<lambda>(res, s).
           if res < 0 then
             priv_destroy_oper_with_disconnect p
               (say ['': ERROR: unable to active media subsystem, unable to answer session.'', nl] s)
           else reading s op (\<lambda>r.
             Inr (say ['': answering to the offer received from '', pstr (op_ident r), nl] s)))
         else
           reading s op (\<lambda>r.
             priv_destroy_oper_with_disconnect p (emit (Nua_respond (op_handle r) status phrase []) s)))"

definition announce_call :: "sofia_env \<Rightarrow> ptr \<Rightarrow> sip_addr \<Rightarrow> string option \<Rightarrow> ssc \<Rightarrow> ssc res" where
  "announce_call E op to subject s =
     reading s (Some op) (\<lambda>r.
     if op_callstate r = opc_recv then
       let s = say ['': incoming call'', nl, tab, ''From: '', pstr (op_ident r), nl] s;
           s = print ([tab, ''To: ''] @ display_name to @ [''<'', URL_PRINT (a_url to), ''>'', nl]) s;
           s = (case subject of None \<Rightarrow> s | Some g \<Rightarrow> print [tab, ''Subject: '', g, nl] s) in
       if ssc_autoanswer s then ssc_answer E 200 ''OK'' s
       else Inr (print [''Please Answer(a), decline(d) or Decline(D) the call'', nl] s)
     else Inr (say ['': re-INVITE from: '', pstr (op_ident r), nl] s))"

definition ssc_i_invite :: "sofia_env \<Rightarrow> handle \<Rightarrow> ptr option \<Rightarrow> sip_t option \<Rightarrow> ssc \<Rightarrow> ssc res" where
  "ssc_i_invite E nh op sip s =
     (case sip of
        None \<Rightarrow> Inr s
      | Some m \<Rightarrow>
          (case (sip_from m, sip_to m) of
             (Some frm, Some to) \<Rightarrow>
               (case op of
                  Some p \<Rightarrow>
                    andthen (store op (\<lambda>r. r\<lparr>op_callstate := op_callstate r OR opc_recv\<rparr>) s)
                      (announce_call E p to (sip_subject m))
                | None \<Rightarrow>
                    andthen (ssc_oper_create_with_handle E sip_method_invite (Some ''INVITE'') nh frm s) (\<lambda>(op, s).
                    case op of
                      Some p \<Rightarrow>
                        andthen (store op (\<lambda>r. r\<lparr>op_callstate := opc_recv\<rparr>) s)
                          (announce_call E p to (sip_subject m))
                    | None \<Rightarrow>
                        Inr (emit (Nua_handle_destroy nh)
                              (emit (Nua_respond (Some nh) 500 ''Internal Server Error'' []) s))))
           | _ \<Rightarrow> Inr s))"

definition cli_active :: "int \<Rightarrow> string" where
  "cli_active mode =
     (if mode = 0 then ''inactive'' else if mode = 1 then ''sendonly'' else if mode = 2 then ''recvonly''
      else if mode = 3 then ''sendrecv'' else ''none'')"

definition ssc_i_prack :: "handle \<Rightarrow> ptr option \<Rightarrow> sip_t option \<Rightarrow> ssc \<Rightarrow> ssc" where
  "ssc_i_prack nh op sip s =
     (case sip of
        None \<Rightarrow> s
      | Some m \<Rightarrow>
          let s = say ['': received PRACK '', dec (case sip_rack m of None \<Rightarrow> 0 | Some n \<Rightarrow> n), nl] s in
          if op = None then emit (Nua_handle_destroy nh) s else s)"

text \<open>The three parts of \<open>ssc_i_state\<close>: storing the descriptions of the stack's offer/answer engine
  (the result says whether the handler goes on), the call states \<open>ready\<close> and \<open>terminated\<close>, and the
  callback.\<close>

definition state_sdp :: "sofia_env \<Rightarrow> tags \<Rightarrow> ssc \<Rightarrow> (bool \<times> ssc) res" where
  "state_sdp E t s =
     (let offer_recv = tl_gets (t_offer_recv t) 0; answer_recv = tl_gets (t_answer_recv t) 0;
          offer_sent = tl_gets (t_offer_sent t) 0; answer_sent = tl_gets (t_answer_sent t) 0 in
      if t_local_sdp t \<noteq> None \<and> answer_sent = 0 \<and> offer_sent = 0 then Inr (False, s)
      else andthen (if t_local_sdp t \<noteq> None then ssc_media_set_property E PROP_LOCAL_SDP (t_local_sdp t) s
                    else Inr s) (\<lambda>s.
      if t_remote_sdp t \<noteq> None \<and> answer_recv = 0 \<and> offer_recv = 0 then Inr (False, s)
      else andthen (if t_remote_sdp t \<noteq> None then ssc_media_set_property E PROP_REMOTE_SDP (t_remote_sdp t) s
                    else Inr s) (\<lambda>s.
      Inr (True, s))))"

definition state_ready :: "ptr option \<Rightarrow> nat \<Rightarrow> tags \<Rightarrow> ssc \<Rightarrow> ssc res" where
  "state_ready op ss_state t s =
     (let audio = tl_gets (t_active_audio t) 0; video = tl_gets (t_active_video t) 0;
          chat = tl_gets (t_active_chat t) 0 in
      andthen (store op (\<lambda>r. r\<lparr>op_callstate := opc_active\<rparr>) s) (\<lambda>s.
      reading s op (\<lambda>r.
      if op_prev_state r \<noteq> int ss_state then
        store op (\<lambda>r. r\<lparr>op_prev_state := int ss_state\<rparr>)
          (say ['': call to '', pstr (op_ident r), '' is active => '', apos, nua_callstate_name ss_state, apos, nl,
                tab, ''audio '', cli_active audio, '', video '', cli_active video, '', chat '', cli_active chat,
                ''.'', nl] s)
      else Inr s)))"

definition state_terminated :: "ptr option \<Rightarrow> ssc \<Rightarrow> ssc res" where
  "state_terminated op s =
     (case op of
        None \<Rightarrow> Inr s
      | Some p \<Rightarrow>
          reading s op (\<lambda>r.
          let s = say ['': call to '', pstr (op_ident r), '' is terminated'', nl] s in
          andthen (store op (\<lambda>r. r\<lparr>op_callstate := 0\<rparr>) s) (\<lambda>s.
          andthen (priv_destroy_oper_with_disconnect p s) (\<lambda>s.
          Inr (if ssc_media_is_initialized s then ssc_media_deactivate s else s)))))"

definition ssc_i_state :: "sofia_env \<Rightarrow> ptr option \<Rightarrow> tags \<Rightarrow> ssc \<Rightarrow> ssc res" where
  "ssc_i_state E op t s =
     (if op = None then Inr s
      else andthen (state_sdp E t s) (\<lambda>(go_on, s).
        if \<not> go_on then Inr s
        else
          let ss_state = tl_gets (t_callstate t) nua_callstate_init in
          andthen (if ss_state = nua_callstate_ready then state_ready op ss_state t s
                   else if ss_state = nua_callstate_terminated then state_terminated op s
                   else Inr s) (\<lambda>s.
          Inr (if ssc_call_state_cb s then emit (Call_call_state_cb op (int ss_state)) s else s))))"

definition ssc_bye :: "ssc \<Rightarrow> ssc res" where
  "ssc_bye s =
     andthen (ssc_oper_find_call s) (\<lambda>op.
     if op \<noteq> None then
       reading s op (\<lambda>r.
       let s = say ['': BYE to '', pstr (op_ident r), nl] s;
           s = emit (Nua_request nua_bye (op_handle r) []) s in
       store op (\<lambda>r. r\<lparr>op_callstate := 0\<rparr>) s)
     else Inr (say ['': no call to bye'', nl] s))"

text \<open>\<open>assert(op); assert(op->op_handle == nh);\<close>\<close>

definition assert_owner :: "handle \<Rightarrow> ptr option \<Rightarrow> ssc \<Rightarrow> ssc res" where
  "assert_owner nh op s =
     (if op = None then Inl Assert_failed
      else reading s op (\<lambda>r. if op_handle r = Some nh then Inr s else Inl Assert_failed))"

definition ssc_r_bye :: "int \<Rightarrow> string \<Rightarrow> handle \<Rightarrow> ptr option \<Rightarrow> ssc \<Rightarrow> ssc res" where
  "ssc_r_bye status phrase nh op s =
     andthen (assert_owner nh op s) (\<lambda>s. Inr (say ['': BYE: '', fmt_03d status, '' '', phrase, nl] s))"

definition ssc_i_bye :: "handle \<Rightarrow> ptr option \<Rightarrow> ssc \<Rightarrow> ssc res" where
  "ssc_i_bye nh op s = andthen (assert_owner nh op s) (\<lambda>s. Inr (say ['': BYE received'', nl] s))"

definition ssc_cancel :: "ssc \<Rightarrow> ssc res" where
  "ssc_cancel s =
     andthen (ssc_oper_find_call_in_progress s) (\<lambda>op.
     if op \<noteq> None then
       reading s op (\<lambda>r.
       let s = say ['': CANCEL '', pstr (op_method_name r), '' to '', pstr (op_ident r), nl] s in
       Inr (emit (Nua_request nua_cancel (op_handle r) []) s))
     else
       andthen (ssc_oper_find_call_embryonic s) (\<lambda>op.
       if op \<noteq> None then
         reading s op (\<lambda>r.
         let s = say ['': reject REFER to '', pstr (op_ident r), nl] s in
         Inr (emit (Nua_request nua_cancel (op_handle r) []) s))
       else Inr (say ['': no call to CANCEL'', nl] s)))"

definition ssc_i_cancel :: "handle \<Rightarrow> ptr option \<Rightarrow> ssc \<Rightarrow> ssc res" where
  "ssc_i_cancel nh op s = andthen (assert_owner nh op s) (\<lambda>s. Inr (say ['': CANCEL received'', nl] s))"

definition ssc_zap :: "sofia_env \<Rightarrow> ssc \<Rightarrow> ssc res" where
  "ssc_zap E s =
     andthen (ssc_oper_create E sip_method_unknown None None [] s) (\<lambda>(op, s).
     case op of
       None \<Rightarrow> Inr (print [''No operations to zap'', nl] s)
     | Some p \<Rightarrow>
         reading s op (\<lambda>r.
         priv_destroy_oper_with_disconnect p
           (say ['': zap '', pstr (op_method_name r), '' to '', pstr (op_ident r), nl] s)))"

section \<open>Requests outside calls\<close>

definition ssc_print_payload :: "string option \<Rightarrow> ssc \<Rightarrow> ssc" where
  "ssc_print_payload pl s =
     (let s = print [nl] s in
      case pl of
        None \<Rightarrow> s
      | Some d \<Rightarrow>
          (let s = print [d] s in
           if length d < 1 \<or> (last d \<noteq> CHR 0x0A \<or> last d \<noteq> CHR 0x0D) then print [nl, nl] s
           else print [nl] s))"

text \<open>A final response 401 or 407 stores its challenge (the tail most response handlers share).\<close>

definition challenge_if ::
  "int \<Rightarrow> ptr option \<Rightarrow> sip_t option \<Rightarrow> tags \<Rightarrow> ssc \<Rightarrow> ssc res" where
  "challenge_if status op sip t s =
     (if status = 401 \<or> status = 407 then ssc_store_pending_auth op sip t s else Inr s)"

definition ssc_options :: "sofia_env \<Rightarrow> string option \<Rightarrow> ssc \<Rightarrow> ssc res" where
  "ssc_options E destination s =
     andthen (ssc_oper_create E sip_method_options (Some ''OPTIONS'') destination [] s) (\<lambda>(op, s).
     if op \<noteq> None then
       reading s op (\<lambda>r.
       let s = say ['': OPTIONS to '', pstr (op_ident r), nl] s in
       Inr (emit (Nua_request nua_options (op_handle r) []) s))
     else Inr s)"

definition ssc_i_options :: "ssc \<Rightarrow> ssc" where
  "ssc_i_options s = say ['': OPTIONS received'', nl] s"

definition ssc_r_options ::
  "int \<Rightarrow> string \<Rightarrow> ptr option \<Rightarrow> sip_t option \<Rightarrow> tags \<Rightarrow> ssc \<Rightarrow> ssc res" where
  "ssc_r_options status phrase op sip t s =
     (let s = say ['': OPTIONS '', fmt_d status, '' '', phrase, nl] s in challenge_if status op sip t s)"

definition ssc_message :: "sofia_env \<Rightarrow> string option \<Rightarrow> string \<Rightarrow> ssc \<Rightarrow> ssc res" where
  "ssc_message E destination msg s =
     andthen (ssc_oper_create E sip_method_message (Some ''MESSAGE'') destination [] s) (\<lambda>(op, s).
     if op \<noteq> None then
       reading s op (\<lambda>r.
       let s = say ['': sending message to '', pstr (op_ident r), nl] s in
       Inr (emit (Nua_request nua_message (op_handle r)
                    [SIPTAG_CONTENT_TYPE_STR ''text/plain'', SIPTAG_PAYLOAD_STR msg]) s))
     else Inr s)"

definition ssc_r_message ::
  "int \<Rightarrow> string \<Rightarrow> ptr option \<Rightarrow> sip_t option \<Rightarrow> tags \<Rightarrow> ssc \<Rightarrow> ssc res" where
  "ssc_r_message status phrase op sip t s =
     (let s = say ['': MESSAGE: '', fmt_d status, '' '', phrase, nl] s in
      if status < 200 then Inr s else challenge_if status op sip t s)"

text \<open>The end of \<open>ssc_i_message\<close> and \<open>ssc_i_info\<close>: an operation for the request, or its handle is
  destroyed.\<close>

definition adopt_handle ::
  "sofia_env \<Rightarrow> sip_method \<Rightarrow> string \<Rightarrow> handle \<Rightarrow> ptr option \<Rightarrow> sip_addr \<Rightarrow> ssc \<Rightarrow> ssc res" where
  "adopt_handle E method name nh op frm s =
     andthen (if op = None then ssc_oper_create_with_handle E method (Some name) nh frm s else Inr (op, s))
       (\<lambda>(op, s). Inr (if op = None then emit (Nua_handle_destroy nh) s else s))"

definition ssc_i_message :: "sofia_env \<Rightarrow> handle \<Rightarrow> ptr option \<Rightarrow> sip_t option \<Rightarrow> ssc \<Rightarrow> ssc res" where
  "ssc_i_message E nh op sip s =
     (case sip of
        None \<Rightarrow> Inl Assert_failed
      | Some m \<Rightarrow>
          (case (sip_from m, sip_to m) of
             (Some frm, Some to) \<Rightarrow>
               let s = say ['': new message '', nl] s;
                   s = print ([tab, ''From: ''] @ display_name frm @ [URL_PRINT (a_url frm), nl]) s;
                   s = (case sip_subject m of None \<Rightarrow> s | Some g \<Rightarrow> print [tab, ''Subject: '', g, nl] s);
                   s = ssc_print_payload (sip_payload m) s in
               adopt_handle E sip_method_message ''MESSAGE'' nh op frm s
           | _ \<Rightarrow> Inl Assert_failed))"

definition ssc_info :: "string option \<Rightarrow> string \<Rightarrow> ssc \<Rightarrow> ssc res" where
  "ssc_info destination msg s =
     andthen (ssc_oper_find_call s) (\<lambda>op.
     if op \<noteq> None then
       reading s op (\<lambda>r.
       let s = say ['': sending INFO to '', pstr (op_ident r), nl] s in
       Inr (emit (Nua_request nua_info (op_handle r)
                    [SIPTAG_CONTENT_TYPE_STR ''text/plain'', SIPTAG_PAYLOAD_STR msg]) s))
     else Inr (print [''INFO can be send only within an existing call'', nl] s))"

definition ssc_r_info ::
  "int \<Rightarrow> string \<Rightarrow> ptr option \<Rightarrow> sip_t option \<Rightarrow> tags \<Rightarrow> ssc \<Rightarrow> ssc res" where
  "ssc_r_info status phrase op sip t s =
     (let s = say ['': INFO: '', fmt_d status, '' '', phrase, nl] s in
      if status < 200 then Inr s else challenge_if status op sip t s)"

definition ssc_i_info :: "sofia_env \<Rightarrow> handle \<Rightarrow> ptr option \<Rightarrow> sip_t option \<Rightarrow> ssc \<Rightarrow> ssc res" where
  "ssc_i_info E nh op sip s =
     (case sip of
        None \<Rightarrow> Inl Assert_failed
      | Some m \<Rightarrow>
          (case (sip_from m, sip_to m) of
             (Some frm, Some to) \<Rightarrow>
               let s = say ['': new info '', nl] s;
                   s = print ([tab, ''From: ''] @ display_name frm @ [URL_PRINT (a_url frm), nl]) s;
                   s = ssc_print_payload (sip_payload m) s in
               adopt_handle E sip_method_info ''INFO'' nh op frm s
           | _ \<Rightarrow> Inl Assert_failed))"

definition ssc_refer :: "sofia_env \<Rightarrow> string option \<Rightarrow> string \<Rightarrow> ssc \<Rightarrow> ssc res" where
  "ssc_refer E destination to_address s =
     andthen (ssc_oper_find_call s) (\<lambda>op.
     andthen (if op = None then ssc_oper_create E sip_method_refer (Some ''REFER'') destination [] s
              else Inr (op, s)) (\<lambda>(op, s).
     if op \<noteq> None then
       reading s op (\<lambda>r.
       let s = say ['': Refer to '', pstr (op_ident r), nl] s in
       Inr (emit (Nua_request nua_refer (op_handle r) [SIPTAG_REFER_TO_STR to_address]) s))
     else Inr s))"

definition ssc_r_refer ::
  "int \<Rightarrow> string \<Rightarrow> ptr option \<Rightarrow> sip_t option \<Rightarrow> tags \<Rightarrow> ssc \<Rightarrow> ssc res" where
  "ssc_r_refer status phrase op sip t s =
     (let s = say ['': refer: '', fmt_d status, '' '', phrase, nl] s in
      if status < 200 then Inr s else challenge_if status op sip t s)"

definition ssc_i_refer :: "sofia_env \<Rightarrow> handle \<Rightarrow> sip_t option \<Rightarrow> ssc \<Rightarrow> ssc res" where
  "ssc_i_refer E nh sip s =
     (case sip of
        None \<Rightarrow> Inl Assert_failed
      | Some m \<Rightarrow>
          (case (sip_from m, sip_to m) of
             (Some frm, Some to) \<Rightarrow>
               let s = say (['': refer to '', URL_PRINT (a_url frm), '' from ''] @ display_name frm
                            @ [URL_PRINT (a_url frm), nl]) s;
                   s = print [''Please follow(i) or reject(c) the refer'', nl] s in
               (case sip_refer_to m of
                  None \<Rightarrow> Inl Null_deref
                | Some refer_to \<Rightarrow>
                    if url_type (a_url refer_to) = url_sip then
                      andthen (ssc_oper_create E sip_method_invite (Some ''INVITE'') (e_addr_as_string E refer_to)
                                 [NUTAG_NOTIFY_REFER nh] s) (\<lambda>(op2, s). Inr s)
                    else Inr (print [nl, ''Please Refer to URI: '', URL_PRINT (a_url refer_to), nl] s))
           | _ \<Rightarrow> Inl Assert_failed))"

definition ssc_hold :: "ssc \<Rightarrow> ssc" where
  "ssc_hold s = say ['': call hold feature not available.'', nl] s"

section \<open>Subscriptions\<close>

definition ssc_subscribe :: "sofia_env \<Rightarrow> string option \<Rightarrow> ssc \<Rightarrow> ssc res" where
  "ssc_subscribe E destination s =
     (case destination of
        None \<Rightarrow> Inl Null_deref
      | Some d \<Rightarrow>
          let event = ''presence'';
              is_list = strncasecmp_eq d ''list '' 5;
              d = (if is_list then dropWhile (\<lambda>c. c = CHR '' '') (drop 5 d) else d);
              supported = (if is_list then Some ''eventlist'' else None) in
          andthen (ssc_oper_create E sip_method_subscribe (Some ''SUBSCRIBE'') (Some d) [] s) (\<lambda>(op, s).
          if op \<noteq> None then
            reading s op (\<lambda>r.
            let s = say ['': SUBSCRIBE '', event, '' to '', pstr (op_ident r), nl] s in
            Inr (emit (Nua_request nua_subscribe (op_handle r)
              ([SIPTAG_EXPIRES_STR ''3600'',
                SIPTAG_ACCEPT_STR ''application/cpim-pidf+xml;q=0.5, application/pidf-partial+xml'']
               @ (if supported \<noteq> None then [SIPTAG_ACCEPT_STR ''multipart/related, application/rlmi+xml''] else [])
               @ [SIPTAG_SUPPORTED_STR supported, SIPTAG_EVENT_STR event])) s))
          else Inr s))"

definition ssc_watch :: "sofia_env \<Rightarrow> string option \<Rightarrow> ssc \<Rightarrow> ssc res" where
  "ssc_watch E event s =
     (case event of
        None \<Rightarrow> Inl Null_deref
      | Some e \<Rightarrow>
          let (e, destination) =
                (case strchr_split (CHR '' '') e of
                   None \<Rightarrow> (e, None)
                 | Some (before, rest) \<Rightarrow> (before, Some (dropWhile (\<lambda>c. c = CHR '' '') rest))) in
          andthen (ssc_oper_create E sip_method_subscribe (Some ''SUBSCRIBE'') destination [] s) (\<lambda>(op, s).
          if op \<noteq> None then
            reading s op (\<lambda>r.
            let s = say ['': SUBSCRIBE '', e, '' to '', pstr (op_ident r), nl] s in
            Inr (emit (Nua_request nua_subscribe (op_handle r) [SIPTAG_EVENT_STR e]) s))
          else Inr s))"

definition ssc_r_subscribe ::
  "int \<Rightarrow> string \<Rightarrow> ptr option \<Rightarrow> sip_t option \<Rightarrow> tags \<Rightarrow> ssc \<Rightarrow> ssc res" where
  "ssc_r_subscribe status phrase op sip t s =
     (let s = say ['': SUBSCRIBE: '', fmt_03d status, '' '', phrase, nl] s in
      if status < 200 then Inr s
      else andthen (if status \<ge> 300 then store op (\<lambda>r. r\<lparr>op_persistent := False\<rparr>) s else Inr s)
             (challenge_if status op sip t))"

definition ssc_notify :: "ssc \<Rightarrow> ssc res" where
  "ssc_notify s =
     andthen (ssc_oper_find_call_embryonic s) (\<lambda>op.
     if op \<noteq> None then
       (let s = say ['': not follow refer, NOTIFY(503)'', nl] s in
        reading s op (\<lambda>r. ssc_oper_destroy op (emit (Nua_request nua_cancel (op_handle r) []) s)))
     else Inr (say ['': no REFER to NOTIFY'', nl] s))"

definition ssc_i_notify :: "ptr option \<Rightarrow> sip_t option \<Rightarrow> ssc \<Rightarrow> ssc res" where
  "ssc_i_notify op sip s =
     (case sip of
        Some m \<Rightarrow>
          andthen (if op \<noteq> None
                   then reading s op (\<lambda>r. Inr (say ['': NOTIFY from '', pstr (op_ident r), nl] s))
                   else (case sip_from m of
                           None \<Rightarrow> Inl Null_deref
                         | Some frm \<Rightarrow> Inr (say ['': rogue NOTIFY from '', URL_PRINT (a_url frm), nl] s))) (\<lambda>s.
          let s = (case sip_event m of None \<Rightarrow> s | Some e \<Rightarrow> print [tab, ''Event: '', e, nl] s);
              s = (case sip_content_type m of None \<Rightarrow> s | Some c \<Rightarrow> print [tab, ''Content type: '', c, nl] s);
              s = print [nl] s in
          Inr (ssc_print_payload (sip_payload m) s))
      | None \<Rightarrow>
          reading s op (\<lambda>r. Inr (say ['': SUBSCRIBE/NOTIFY timeout for '', pstr (op_ident r), nl] s)))"

definition ssc_r_notify ::
  "int \<Rightarrow> string \<Rightarrow> ptr option \<Rightarrow> sip_t option \<Rightarrow> tags \<Rightarrow> ssc \<Rightarrow> ssc res" where
  "ssc_r_notify status phrase op sip t s =
     (let s = say ['': notify: '', fmt_d status, '' '', phrase, nl] s in
      if status < 200 then Inr s else challenge_if status op sip t s)"

definition ssc_unsubscribe :: "ssc \<Rightarrow> ssc res" where
  "ssc_unsubscribe s =
     andthen (ssc_oper_find_by_method s sip_method_subscribe) (\<lambda>op.
     if op \<noteq> None then
       reading s op (\<lambda>r.
       let s = say ['': un-SUBSCRIBE to '', pstr (op_ident r), nl] s in
       Inr (emit (Nua_request nua_unsubscribe (op_handle r) []) s))
     else Inr (say ['': no subscriptions'', nl] s))"

definition ssc_r_unsubscribe :: "int \<Rightarrow> string \<Rightarrow> ptr option \<Rightarrow> ssc \<Rightarrow> ssc res" where
  "ssc_r_unsubscribe status phrase op s =
     (let s = say ['': un-SUBSCRIBE: '', fmt_03d status, '' '', phrase, nl] s in
      if status < 200 then Inr s else ssc_oper_destroy op s)"

section \<open>Registration and publication\<close>

definition ssc_register :: "sofia_env \<Rightarrow> string option \<Rightarrow> ssc \<Rightarrow> ssc res" where
  "ssc_register E registrar s =
     andthen (if registrar = None then ssc_oper_find_by_method s sip_method_register else Inr None) (\<lambda>op.
     if op \<noteq> None then
       reading s op (\<lambda>r.
       let s = say ['': REGISTER '', pstr (op_ident r), '' - updating existing registration'', nl] s in
       Inr (emit (Nua_request nua_register (op_handle r) []) s))
     else
       andthen (ssc_oper_create E sip_method_register (Some ''REGISTER'') (ssc_address s) [] s) (\<lambda>(op, s).
       if op \<noteq> None then
         reading s op (\<lambda>r.
         let s = say ['': REGISTER '', pstr (op_ident r), '' - registering address to network'', nl] s in
         Inr (emit (Nua_request nua_register (op_handle r)
                      (TAG_IF registrar NUTAG_REGISTRAR @ [NUTAG_M_FEATURES ''expires=180''])) s))
       else Inr s))"

definition print_contacts :: "sip_t option \<Rightarrow> ssc \<Rightarrow> ssc" where
  "print_contacts sip s =
     fold (\<lambda>m. print [tab, ''Contact: '', m, nl]) (case sip of None \<Rightarrow> [] | Some x \<Rightarrow> sip_contact x) s"

definition ssc_r_register ::
  "int \<Rightarrow> string \<Rightarrow> ptr option \<Rightarrow> sip_t option \<Rightarrow> tags \<Rightarrow> ssc \<Rightarrow> ssc res" where
  "ssc_r_register status phrase op sip t s =
     (let s = say ['': REGISTER: '', fmt_03d status, '' '', phrase, nl] s in
      if status < 200 then Inr s
      else if status = 401 \<or> status = 407 then ssc_store_pending_auth op sip t s
      else if status \<ge> 300 then ssc_oper_destroy op s
      else if status = 200 then
        (let s = say ['': succesfully registered '', pstr (ssc_address s), '' to network'', nl] s;
             s = (if ssc_registration_cb s then emit (Call_registration_cb 1) s else s) in
         Inr (print_contacts sip s))
      else Inr s)"

definition ssc_unregister :: "sofia_env \<Rightarrow> string option \<Rightarrow> ssc \<Rightarrow> ssc res" where
  "ssc_unregister E registrar s =
     andthen (if registrar = None then ssc_oper_find_by_method s sip_method_register else Inr None) (\<lambda>op.
     if op \<noteq> None then
       reading s op (\<lambda>r.
       let s = say ['': un-REGISTER '', pstr (op_ident r), nl] s in
       Inr (emit (Nua_request nua_unregister (op_handle r) []) s))
     else
       andthen (ssc_oper_create E sip_method_register (Some ''REGISTER'') (ssc_address s) [] s) (\<lambda>(op, s).
       if op \<noteq> None then
         reading s op (\<lambda>r.
         let s = say (['': un-REGISTER '', pstr (op_ident r)]
                      @ (case registrar of None \<Rightarrow> [] | Some g \<Rightarrow> ['' at '', g]) @ [nl]) s in
         Inr (emit (Nua_request nua_unregister (op_handle r)
                      (TAG_IF registrar NUTAG_REGISTRAR
                       @ [SIPTAG_CONTACT_STR ''*'', SIPTAG_EXPIRES_STR ''0''])) s))
       else Inr s))"

definition ssc_r_unregister ::
  "int \<Rightarrow> string \<Rightarrow> ptr option \<Rightarrow> sip_t option \<Rightarrow> tags \<Rightarrow> ssc \<Rightarrow> ssc res" where
  "ssc_r_unregister status phrase op sip t s =
     (let s = say ['': un-REGISTER: '', fmt_03d status, '' '', phrase, nl] s in
      if status < 200 then Inr s
      else
        let s = (if status = 200
                 then print_contacts sip (if ssc_registration_cb s then emit (Call_registration_cb 0) s else s)
                 else s) in
        if status = 401 \<or> status = 407 then ssc_store_pending_auth op sip t s else ssc_oper_destroy op s)"

definition presence_document :: "string option \<Rightarrow> string option \<Rightarrow> string \<Rightarrow> string" where
  "presence_document note address name =
     (let opened = (case note of None \<Rightarrow> True | Some n \<Rightarrow> n = [] \<or> hd n \<noteq> CHR ''-'');
          xmlnote = (case note of
                       None \<Rightarrow> []
                     | Some n \<Rightarrow> if n = ''-'' then []
                                 else fmt [''<note>'', if opened then n else tl n, ''</note>'', nl]) in
      fmt [''<?xml version='', apos, ''1.0'', apos, '' encoding='', apos, ''UTF-8'', apos, ''?>'', nl,
           ''<presence xmlns='', apos, ''urn:ietf:params:xml:ns:cpim-pidf'', apos, nl,
           ''          entity='', apos, pstr address, apos, ''>'', nl,
           ''  <tuple id='', apos, name, apos, ''>'', nl,
           ''    <status><basic>'', if opened then ''open'' else ''closed'', ''</basic></status>'', nl,
           xmlnote,
           ''  </tuple>'', nl,
           ''</presence>'', nl])"

definition ssc_publish :: "sofia_env \<Rightarrow> string option \<Rightarrow> ssc \<Rightarrow> ssc res" where
  "ssc_publish E note s =
     (let pl = presence_document note (ssc_address s) (ssc_name s) in
      andthen (ssc_oper_find_by_method s sip_method_publish) (\<lambda>op.
      if op \<noteq> None then
        reading s op (\<lambda>r.
        let s = say ['': '', pstr (op_method_name r), '' '', pstr (op_ident r), nl] s in
        Inr (emit (Nua_request nua_publish (op_handle r)
                     [SIPTAG_PAYLOAD_STR pl, SIPTAG_CONTENT_TYPE_STR ''application/cpim-pidf+xml'']) s))
      else
        andthen (ssc_oper_create E sip_method_publish (Some ''PUBLISH'') (ssc_address s)
                   [SIPTAG_EVENT_STR ''presence''] s) (\<lambda>(op, s).
        if op \<noteq> None then
          reading s op (\<lambda>r.
          let s = say ['': '', pstr (op_method_name r), '' '', pstr (op_ident r), nl] s in
          Inr (emit (Nua_request nua_publish (op_handle r)
                       [SIPTAG_CONTENT_TYPE_STR ''application/cpim-pidf+xml'', SIPTAG_PAYLOAD_STR pl]) s))
        else Inr s)))"

definition ssc_unpublish :: "sofia_env \<Rightarrow> ssc \<Rightarrow> ssc res" where
  "ssc_unpublish E s =
     andthen (ssc_oper_find_by_method s sip_method_publish) (\<lambda>op.
     if op \<noteq> None then
       reading s op (\<lambda>r.
       let s = say ['': '', pstr (op_method_name r), '' '', pstr (op_ident r), nl] s in
       Inr (emit (Nua_request nua_publish (op_handle r) [SIPTAG_EXPIRES_STR ''0'']) s))
     else
       andthen (ssc_oper_create E sip_method_publish (Some ''PUBLISH'') (ssc_address s)
                  [SIPTAG_EVENT_STR ''presence''] s) (\<lambda>(op, s).
       if op \<noteq> None then
         reading s op (\<lambda>r.
         let s = say ['': un-'', pstr (op_method_name r), '' '', pstr (op_ident r), nl] s in
         Inr (emit (Nua_request nua_publish (op_handle r) [SIPTAG_EXPIRES_STR ''0'']) s))
       else Inr s))"

definition ssc_set_public_address :: "string option \<Rightarrow> ssc \<Rightarrow> ssc" where
  "ssc_set_public_address address s =
     (case address of
        None \<Rightarrow> s
      | Some a \<Rightarrow> emit (Nua_set_params [SIPTAG_FROM_STR a]) (s\<lparr>ssc_address := Some a\<rparr>))"

definition ssc_r_publish ::
  "int \<Rightarrow> string \<Rightarrow> ptr option \<Rightarrow> sip_t option \<Rightarrow> tags \<Rightarrow> ssc \<Rightarrow> ssc res" where
  "ssc_r_publish status phrase op sip t s =
     (let s = say ['': PUBLISH: '', fmt_03d status, '' '', phrase, nl] s in
      if status < 200 then Inr s
      else if status = 401 \<or> status = 407 then ssc_store_pending_auth op sip t s
      else if status \<ge> 300 then ssc_oper_destroy op s
      else (case sip of
              None \<Rightarrow> Inl Null_deref
            | Some m \<Rightarrow> if sip_expires m = None \<or> sip_expires m = Some 0 then ssc_oper_destroy op s else Inr s))"

section \<open>Shutdown, parameters and dispatch\<close>

definition ssc_r_shutdown :: "int \<Rightarrow> string \<Rightarrow> ssc \<Rightarrow> ssc" where
  "ssc_r_shutdown status phrase s =
     (let s = say ['': nua_shutdown: '', fmt_03d status, '' '', phrase, nl] s in
      if status < 200 then s else if ssc_exit_cb s then emit Call_exit_cb s else s)"

definition ssc_r_get_params :: "sofia_env \<Rightarrow> int \<Rightarrow> string \<Rightarrow> tags \<Rightarrow> ssc \<Rightarrow> ssc" where
  "ssc_r_get_params E status phrase t s =
     (let s = say ['': nua_r_getparams: '', fmt_03d status, '' '', phrase, nl] s;
          s = print [t_text t] s;
          s = (case t_from t of
                 None \<Rightarrow> s
               | Some frm \<Rightarrow>
                   (case e_addr_as_string E frm of None \<Rightarrow> s | Some a \<Rightarrow> s\<lparr>ssc_address := Some a\<rparr>)) in
      print [nl, ''Starting sofsip-cli in interactive mode. Issue '', apos, ''h'', apos,
             '' to get list of available commands.'', nl] s)"

definition ssc_print_settings :: "ssc \<Rightarrow> ssc" where
  "ssc_print_settings s = print [''SIP address...........: '', pstr (ssc_address s), nl] s"

text \<open>The parameters the stack knows, by namespace, and whether \<open>t_scan\<close> accepts a value.\<close>

record param_env =
  p_nua_tags :: "string list"
  p_nta_tags :: "string list"
  p_sip_tags :: "string list"
  p_scan :: "string \<Rightarrow> string \<Rightarrow> bool"

definition param_split :: "string \<Rightarrow> string option \<times> string" where
  "param_split param =
     (case strstr_split ''::'' param of
        Some (a, b) \<Rightarrow> (Some a, drop 2 b)
      | None \<Rightarrow>
          (case strstr_split ''.'' param of
             Some (a, b) \<Rightarrow> (Some a, drop 1 b)
           | None \<Rightarrow>
               (case strstr_split '':'' param of
                  Some (a, b) \<Rightarrow> (Some a, drop 1 b)
                | None \<Rightarrow> (None, param))))"

text \<open>One search: it leaves \<open>tag\<close> null when it runs to the end of the list.\<close>

definition param_search ::
  "string \<Rightarrow> string list \<Rightarrow> string \<Rightarrow> string option \<times> string option \<Rightarrow> string option \<times> string option" where
  "param_search name tag_list param st =
     (case st of (tag, ns) \<Rightarrow>
        if ns = None \<or> ns = Some name
        then (if param \<in> set tag_list then (Some param, Some ''found'') else (None, ns))
        else (tag, ns))"

definition ssc_param :: "param_env \<Rightarrow> string \<Rightarrow> string \<Rightarrow> ssc \<Rightarrow> ssc" where
  "ssc_param P param value s =
     (let (ns, param) = param_split param;
          (tag, ns) = param_search ''sip'' (p_sip_tags P) param
                        (param_search ''nta'' (p_nta_tags P) param
                          (param_search ''nua'' (p_nua_tags P) param (None, ns)));
          shown = (case ns of None \<Rightarrow> [] | Some n \<Rightarrow> n) in
      case tag of
        None \<Rightarrow> print [''sofsip: unknown parameter '', shown, ''::'', param, nl] s
      | Some t \<Rightarrow>
          if \<not> p_scan P t value then print [''sofsip: invalid value for '', shown, ''::'', param, nl] s
          else emit (Nua_get_params [TAG_PARAM t []]) (emit (Nua_set_params [TAG_PARAM t value]) s))"

definition ssc_shutdown :: "ssc \<Rightarrow> ssc" where
  "ssc_shutdown s = emit Nua_shutdown (say ['': quitting (this can take some time)'', nl] s)"

text \<open>The events without a handler of their own.\<close>

definition unknown_event ::
  "int \<Rightarrow> string \<Rightarrow> int \<Rightarrow> string \<Rightarrow> handle \<Rightarrow> tags \<Rightarrow> ssc \<Rightarrow> ssc res" where
  "unknown_event code name status phrase nh t s =
     (let s = (if status > 100
               then say ['': unknown event '', apos, name, apos, '' ('', fmt_d code, ''): '', fmt_03d status, '' '',
                         phrase, nl] s
               else say ['': unknown event '', fmt_d code, nl] s);
          s = print [t_text t] s in
      andthen (ssc_oper_find_by_handle s (Some nh)) (\<lambda>op.
      Inr (if op = None then emit (Nua_handle_destroy nh) s else s)))"

definition dispatch ::
  "sofia_env \<Rightarrow> nua_event \<Rightarrow> int \<Rightarrow> string \<Rightarrow> handle \<Rightarrow> ptr option \<Rightarrow> sip_t option \<Rightarrow> tags \<Rightarrow> ssc \<Rightarrow> ssc res" where
  "dispatch E event status phrase nh op sip t s =
     (case event of
        nua_r_shutdown \<Rightarrow> Inr (ssc_r_shutdown status phrase s)
      | nua_r_get_params \<Rightarrow> Inr (ssc_r_get_params E status phrase t s)
      | nua_r_register \<Rightarrow> ssc_r_register status phrase op sip t s
      | nua_r_unregister \<Rightarrow> ssc_r_unregister status phrase op sip t s
      | nua_i_options \<Rightarrow> Inr (ssc_i_options s)
      | nua_r_options \<Rightarrow> ssc_r_options status phrase op sip t s
      | nua_r_invite \<Rightarrow> ssc_r_invite status phrase op sip t s
      | nua_i_fork \<Rightarrow> Inr (ssc_i_fork status phrase t s)
      | nua_i_invite \<Rightarrow> ssc_i_invite E nh op sip s
      | nua_i_prack \<Rightarrow> Inr (ssc_i_prack nh op sip s)
      | nua_i_state \<Rightarrow> ssc_i_state E op t s
      | nua_r_bye \<Rightarrow> ssc_r_bye status phrase nh op s
      | nua_i_bye \<Rightarrow> ssc_i_bye nh op s
      | nua_r_message \<Rightarrow> ssc_r_message status phrase op sip t s
      | nua_i_message \<Rightarrow> ssc_i_message E nh op sip s
      | nua_r_info \<Rightarrow> ssc_r_info status phrase op sip t s
      | nua_i_info \<Rightarrow> ssc_i_info E nh op sip s
      | nua_r_refer \<Rightarrow> ssc_r_refer status phrase op sip t s
      | nua_i_refer \<Rightarrow> ssc_i_refer E nh sip s
      | nua_r_subscribe \<Rightarrow> ssc_r_subscribe status phrase op sip t s
      | nua_r_unsubscribe \<Rightarrow> ssc_r_unsubscribe status phrase op s
      | nua_r_publish \<Rightarrow> ssc_r_publish status phrase op sip t s
      | nua_r_notify \<Rightarrow> ssc_r_notify status phrase op sip t s
      | nua_i_notify \<Rightarrow> ssc_i_notify op sip s
      | nua_i_cancel \<Rightarrow> ssc_i_cancel nh op s
      | nua_i_error \<Rightarrow> Inr (ssc_i_error status phrase s)
      | nua_i_active \<Rightarrow> Inr s
      | nua_i_ack \<Rightarrow> Inr s
      | nua_i_terminated \<Rightarrow> Inr s
      | nua_other code name \<Rightarrow> unknown_event code name status phrase nh t s)"

definition priv_callback ::
  "sofia_env \<Rightarrow> nua_event \<Rightarrow> int \<Rightarrow> string \<Rightarrow> handle \<Rightarrow> ptr option \<Rightarrow> sip_t option \<Rightarrow> tags \<Rightarrow> ssc \<Rightarrow> ssc res" where
  "priv_callback E event status phrase nh op sip t s =
     andthen (dispatch E event status phrase nh op sip t s) (\<lambda>s.
     Inr (if ssc_event_cb s then emit (Call_event_cb (nua_event_code event)) s else s))"

text \<open>
  \<open>ssc_create\<close>: \<open>got\<close> tells whether there is memory for the client, \<open>launched\<close> whether \<open>nua_create\<close>
  succeeds (without a stack \<open>nua_handle\<close> gives no handles). \<open>allocs\<close> and \<open>handles\<close> are the outcomes the
  later calls will see.
\<close>

definition zero_ssc :: "ptr option list \<Rightarrow> handle option list \<Rightarrow> ssc" where
  "zero_ssc allocs handles =
     \<lparr>io_out = [], sm_state = sm_init, sm_sdp_local = None, sm_sdp_remote = None, sm_sdp_local_str = CNull,
      sm_sdp_remote_str = CNull, sm_handlers = [], ssc_name = ''UA'', ssc_heap = Map.empty,
      ssc_operations = None, ssc_address = None, ssc_autoanswer = False, ssc_auth_pend = [],
      ssc_ans_status = 0, ssc_ans_phrase = [], ssc_exit_cb = False, ssc_event_cb = False,
      ssc_registration_cb = False, ssc_call_state_cb = False, ssc_media_state_cb = False,
      ssc_auth_req_cb = False, ssc_allocs = allocs, ssc_handles = handles\<rparr>"

definition create_nua_tags :: "ssc_conf \<Rightarrow> tag list" where
  "create_nua_tags conf =
     TAG_IF (conf_aor conf) SIPTAG_FROM_STR @ TAG_IF (conf_proxy conf) NUTAG_PROXY
     @ TAG_IF (conf_registrar conf) NUTAG_REGISTRAR @ TAG_IF (conf_contact conf) NUTAG_CONTACT_URL
     @ TAG_IF (conf_media_addr conf) NUTAG_MEDIA_ADDRESS
     @ [SOATAG_USER_SDP_STR ssc_media_static_capabilities, SOATAG_AF SOA_AF_IP4_IP6]"

definition create_params :: "ssc_conf \<Rightarrow> tag list" where
  "create_params conf =
     [NUTAG_FLAG ''ENABLEMESSAGE'' 1, NUTAG_FLAG ''ENABLEINVITE'' 1, NUTAG_FLAG ''AUTOALERT'' 1,
      NUTAG_FLAG ''SESSION_TIMER'' 0, NUTAG_FLAG ''AUTOANSWER'' 0]
     @ TAG_IF (conf_certdir conf) NUTAG_CERTIFICATE_DIR"

definition ssc_create ::
  "sofia_env \<Rightarrow> bool \<Rightarrow> bool \<Rightarrow> ptr option list \<Rightarrow> handle option list \<Rightarrow> ssc_conf \<Rightarrow> (ssc option \<times> io) res" where
  "ssc_create E got launched allocs handles conf =
     (if \<not> got then Inr (None, \<lparr>io_out = []\<rparr>)
      else
        let s = zero_ssc allocs (if launched then handles else []);
            s = s\<lparr>ssc_address := conf_aor conf, ssc_autoanswer := conf_autoanswer conf\<rparr>;
            s = emit (Nua_create (create_nua_tags conf)) s in
        andthen (if conf_register conf then ssc_register E None s else Inr s) (\<lambda>s.
        if launched then
          (let s = emit (Nua_get_params []) (emit (Nua_set_params (create_params conf)) s) in
           Inr (Some s, \<lparr>io_out = io_out s\<rparr>))
        else Inr (None, ssc_destroy s)))"

section \<open>Weakest preconditions\<close>

lemma ok_deref [simp]: "ok (deref h op) Q \<longleftrightarrow> (\<exists>p r. op = Some p \<and> h p = Some r \<and> Q r)"
  by (cases op) (auto simp: deref_def split: option.split)

lemma ok_store [simp]: "ok (store op f s) Q \<longleftrightarrow>
    (\<exists>p r. op = Some p \<and> ssc_heap s p = Some r \<and> Q (s\<lparr>ssc_heap := (ssc_heap s)(p \<mapsto> f r)\<rparr>))"
  by (auto simp: store_def)

lemma wf_ssc_oper_ok: "wf_ssc s \<Longrightarrow> ssc_heap s p = Some r \<Longrightarrow> oper_ok r"
  by (auto simp: wf_ssc_def)

lemma wf_ssc_upd:
  assumes "wf_ssc s" "\<And>q. q \<noteq> p \<Longrightarrow> h q = ssc_heap s q" "ssc_heap s p \<noteq> None"
    and "op_next r' = op_next (the (ssc_heap s p))" "oper_ok (the (ssc_heap s p)) \<Longrightarrow> oper_ok r'"
  shows "wf_ssc (s\<lparr>ssc_heap := h(p \<mapsto> r')\<rparr>)"
proof -
  obtain r where "ssc_heap s p = Some r" using assms(3) by auto
  moreover have "h(p \<mapsto> r') = (ssc_heap s)(p \<mapsto> r')" using assms(2) by auto
  ultimately show ?thesis
    using wf_store [OF assms(1), of p r "\<lambda>_. r'"] assms(4,5) by (simp add: store_live)
qed

lemma ok_find:
  assumes "wf_ssc s" "\<And>p r. ssc_heap s p = Some r \<Longrightarrow> P r \<Longrightarrow> Q (Some p)" "Q None"
  shows "ok (find_oper P s) Q"
proof -
  from assms(1) obtain ps where o: "opers s ps" by (rule wfE)
  have "Q (find (\<lambda>a. P (the (ssc_heap s a))) ps)"
  proof (cases "find (\<lambda>a. P (the (ssc_heap s a))) ps")
    case (Some p)
    with find_SomeD [OF Some] opers_live [OF o, of p] assms(2) show ?thesis by auto
  qed (simp add: assms(3))
  then show ?thesis by (simp add: find_oper_opers [OF o])
qed

lemmas find_defs = ssc_oper_find_call_def ssc_oper_find_call_in_progress_def ssc_oper_find_call_embryonic_def
  ssc_oper_find_unanswered_def ssc_oper_find_by_handle_def ssc_oper_find_by_method_def
  ssc_oper_find_by_callstate_def ssc_oper_find_register_def

lemma ok_create:
  assumes "wf_ssc s" "\<And>r s'. oper_step r s s' \<Longrightarrow> Q (r, s')"
  shows "ok (ssc_oper_create E m name address ta s) Q"
  by (rule ok_mono [OF wf_ssc_create [OF assms(1)]]) (auto intro: assms(2))

lemma ok_create_with_handle:
  assumes "wf_ssc s" "\<And>r s'. oper_step r s s' \<Longrightarrow> Q (r, s')"
  shows "ok (ssc_oper_create_with_handle E m name nh frm s) Q"
  by (rule ok_mono [OF wf_ssc_create_with_handle [OF assms(1)]]) (auto intro: assms(2))

lemma ok_destroy:
  assumes "wf_ssc s" "\<And>p. op = Some p \<Longrightarrow> \<exists>r. ssc_heap s p = Some r" "op = None \<Longrightarrow> Q s"
    and "\<And>s' p. wf_ssc s' \<Longrightarrow> op = Some p \<Longrightarrow> dom (ssc_heap s') = dom (ssc_heap s) - {p} \<Longrightarrow>
      oper_rest s' = oper_rest s \<Longrightarrow> Q s'"
  shows "ok (ssc_oper_destroy op s) Q"
proof (cases op)
  case None
  with assms(3) show ?thesis by (simp add: ssc_oper_destroy_def)
next
  case (Some p)
  with assms(2) have "p \<in> dom (ssc_heap s)" by auto
  with Some assms(4) show ?thesis by (auto intro!: ok_mono [OF wf_ssc_destroy [OF assms(1)]])
qed

lemma oper_stepD:
  assumes "oper_step r s s'"
  shows "wf_ssc s'" "r = Some p \<Longrightarrow> \<exists>x. ssc_heap s' p = Some x" "ssc_name s' = ssc_name s"
    "sm_handlers s' = sm_handlers s"
  using assms oper_restD [of s' s] by (auto simp: oper_step_def)

lemma oper_step_SomeE:
  assumes "oper_step (Some p) s s'"
  obtains r where "wf_ssc s'" "ssc_heap s' p = Some r"
  using oper_stepD [OF assms] by auto

text \<open>A heap update that keeps the links, seen through what only prints or sends.\<close>

lemma wf_media_frame:
  assumes "wf_ssc s" "media_frame s s'" "media_ok s'"
  shows "wf_ssc s'"
proof -
  have m: "SscMedia.more s' = SscMedia.more s" using assms(2) by (simp add: media_frame_def)
  then have "ssc_heap s' = ssc_heap s" "ssc_operations s' = ssc_operations s"
    by (cases s, cases s', simp)+
  with assms(1,3) show ?thesis by (simp add: wf_ssc_def opers_def)
qed

lemmas wp_intros = ok_create ok_create_with_handle ok_destroy ok_find wf_ssc_upd


lemma emit_upd_heap [simp]: "(emit x s)\<lparr>ssc_heap := h\<rparr> = emit x (s\<lparr>ssc_heap := h\<rparr>)"
  by (simp add: emit_def)

lemma local_text_heap [simp]: "local_text E (s\<lparr>ssc_heap := h\<rparr>) = local_text E s"
  by (simp add: local_text_def split: cstr.split)

lemma wf_upd_frame [simp]:
  "wf_ssc (s\<lparr>sm_handlers := hs, ssc_heap := h\<rparr>) = wf_ssc (s\<lparr>ssc_heap := h\<rparr>)"
  "wf_ssc (s\<lparr>ssc_ans_status := i, ssc_heap := h\<rparr>) = wf_ssc (s\<lparr>ssc_heap := h\<rparr>)"
  by (rule wf_cong; simp)+

lemma ssc_print_payload_frame [simp]:
  "wf_ssc (ssc_print_payload pl s) = wf_ssc s" "ssc_heap (ssc_print_payload pl s) = ssc_heap s"
  by (auto simp: ssc_print_payload_def Let_def split: option.split)

lemma print_contacts_frame [simp]:
  "wf_ssc (print_contacts sip s) = wf_ssc s" "ssc_heap (print_contacts sip s) = ssc_heap s"
proof -
  have "wf_ssc (fold (\<lambda>m. print [tab, ''Contact: '', m, nl]) ms s) = wf_ssc s
      \<and> ssc_heap (fold (\<lambda>m. print [tab, ''Contact: '', m, nl]) ms s) = ssc_heap s" for ms
    by (induction ms arbitrary: s) simp_all
  then show "wf_ssc (print_contacts sip s) = wf_ssc s" "ssc_heap (print_contacts sip s) = ssc_heap s"
    by (simp_all add: print_contacts_def)
qed

section \<open>Commands of the user keep the client well-formed\<close>

lemma wf_bye: "wf_ssc s \<Longrightarrow> ok (ssc_bye s) wf_ssc"
  by (auto simp: ssc_bye_def find_defs Let_def oper_ok_def intro!: wp_intros)

lemma wf_cancel: "wf_ssc s \<Longrightarrow> ok (ssc_cancel s) wf_ssc"
  by (auto simp: ssc_cancel_def find_defs Let_def intro!: wp_intros)

lemma wf_zap: "wf_ssc s \<Longrightarrow> ok (ssc_zap E s) wf_ssc"
  by (auto simp: ssc_zap_def priv_destroy_oper_with_disconnect_def Let_def
      intro!: wp_intros split: option.split elim!: oper_step_SomeE dest: oper_stepD)

lemma wf_options: "wf_ssc s \<Longrightarrow> ok (ssc_options E d s) wf_ssc"
  by (auto simp: ssc_options_def Let_def intro!: wp_intros dest: oper_stepD)

lemma wf_message: "wf_ssc s \<Longrightarrow> ok (ssc_message E d msg s) wf_ssc"
  by (auto simp: ssc_message_def Let_def intro!: wp_intros dest: oper_stepD)

lemma wf_info: "wf_ssc s \<Longrightarrow> ok (ssc_info d msg s) wf_ssc"
  by (auto simp: ssc_info_def find_defs Let_def intro!: wp_intros)

lemma wf_refer: "wf_ssc s \<Longrightarrow> ok (ssc_refer E d to s) wf_ssc"
  by (auto simp: ssc_refer_def find_defs Let_def intro!: wp_intros dest: oper_stepD)

lemma wf_subscribe: "wf_ssc s \<Longrightarrow> ok (ssc_subscribe E (Some d) s) wf_ssc"
  by (auto simp: ssc_subscribe_def Let_def intro!: wp_intros dest: oper_stepD)

lemma wf_watch: "wf_ssc s \<Longrightarrow> ok (ssc_watch E (Some d) s) wf_ssc"
  by (auto simp: ssc_watch_def Let_def intro!: wp_intros dest: oper_stepD split: option.split)

lemma wf_notify: "wf_ssc s \<Longrightarrow> ok (ssc_notify s) wf_ssc"
  by (auto simp: ssc_notify_def find_defs Let_def intro!: wp_intros)

lemma wf_unsubscribe: "wf_ssc s \<Longrightarrow> ok (ssc_unsubscribe s) wf_ssc"
  by (auto simp: ssc_unsubscribe_def find_defs Let_def intro!: wp_intros)

lemma wf_register: "wf_ssc s \<Longrightarrow> ok (ssc_register E g s) wf_ssc"
  by (auto simp: ssc_register_def find_defs Let_def intro!: wp_intros dest: oper_stepD)

lemma wf_unregister: "wf_ssc s \<Longrightarrow> ok (ssc_unregister E g s) wf_ssc"
  by (auto simp: ssc_unregister_def find_defs Let_def intro!: wp_intros dest: oper_stepD)

lemma wf_publish: "wf_ssc s \<Longrightarrow> ok (ssc_publish E n s) wf_ssc"
  by (auto simp: ssc_publish_def find_defs Let_def intro!: wp_intros dest: oper_stepD)

lemma wf_unpublish: "wf_ssc s \<Longrightarrow> ok (ssc_unpublish E s) wf_ssc"
  by (auto simp: ssc_unpublish_def find_defs Let_def intro!: wp_intros dest: oper_stepD)

lemma wf_set_public_address [simp]: "wf_ssc (ssc_set_public_address a s) = wf_ssc s"
  by (auto simp: ssc_set_public_address_def split: option.split)

lemma wf_param [simp]: "wf_ssc (ssc_param P p v s) = wf_ssc s"
  by (auto simp: ssc_param_def Let_def split: option.split prod.split)

lemma wf_shutdown [simp]: "wf_ssc (ssc_shutdown s) = wf_ssc s"
  by (simp add: ssc_shutdown_def)

section \<open>Events of the stack keep the client well-formed\<close>

text \<open>
  What the client relies on when the stack delivers an event (\<open>event_ok\<close>): the operation bound to the
  handle is live if there is one; requests come with their message and its mandatory headers; the
  answers to requests the client sent belong to an operation; a challenge comes with the message that
  carries it, and there is memory to store it.
\<close>

definition mem_ok :: "ssc \<Rightarrow> bool" where
  "mem_ok s \<longleftrightarrow> 2 \<le> length (ssc_allocs s) \<and> (\<forall>a \<in> set (take 2 (ssc_allocs s)). a \<noteq> None)"

definition op_ok :: "ptr option \<Rightarrow> ssc \<Rightarrow> bool" where
  "op_ok op s \<longleftrightarrow> (\<forall>p. op = Some p \<longrightarrow> p \<in> dom (ssc_heap s))"

definition has_from_to :: "sip_t option \<Rightarrow> bool" where
  "has_from_to sip \<longleftrightarrow> (case sip of None \<Rightarrow> False | Some m \<Rightarrow> sip_from m \<noteq> None \<and> sip_to m \<noteq> None)"

definition owns :: "handle \<Rightarrow> ptr option \<Rightarrow> ssc \<Rightarrow> bool" where
  "owns nh op s \<longleftrightarrow> (\<exists>p r. op = Some p \<and> ssc_heap s p = Some r \<and> op_handle r = Some nh)"

definition challenge_ok :: "int \<Rightarrow> ptr option \<Rightarrow> sip_t option \<Rightarrow> ssc \<Rightarrow> bool" where
  "challenge_ok status op sip s \<longleftrightarrow>
     (status = 401 \<or> status = 407 \<longrightarrow> op \<noteq> None \<and> sip \<noteq> None \<and> mem_ok s)"

definition event_ok :: "nua_event \<Rightarrow> int \<Rightarrow> handle \<Rightarrow> ptr option \<Rightarrow> sip_t option \<Rightarrow> ssc \<Rightarrow> bool" where
  "event_ok event status nh op sip s \<longleftrightarrow> op_ok op s \<and> challenge_ok status op sip s \<and>
     (case event of
        nua_i_message \<Rightarrow> has_from_to sip
      | nua_i_info \<Rightarrow> has_from_to sip
      | nua_i_refer \<Rightarrow> has_from_to sip \<and> sip_refer_to (the sip) \<noteq> None
      | nua_i_notify \<Rightarrow> op \<noteq> None \<or> has_from_to sip
      | nua_r_bye \<Rightarrow> owns nh op s
      | nua_i_bye \<Rightarrow> owns nh op s
      | nua_i_cancel \<Rightarrow> owns nh op s
      | nua_r_invite \<Rightarrow> op \<noteq> None
      | nua_r_subscribe \<Rightarrow> op \<noteq> None
      | nua_r_publish \<Rightarrow> sip \<noteq> None
      | _ \<Rightarrow> True)"

lemma op_ok_Some: "op_ok (Some p) s \<longleftrightarrow> (\<exists>r. ssc_heap s p = Some r)"
  by (auto simp: op_ok_def)

lemma store_challenge_ok:
  assumes "wf_ssc s" "ssc_heap s p = Some r"
    and "\<And>w. a = Some w \<Longrightarrow> \<exists>x as. ssc_allocs s = Some x # as"
  shows "ok (store_challenge what a frm (Some p) (i, s)) (\<lambda>(i', s'). wf_ssc s' \<and> ssc_heap s' = ssc_heap s
     \<and> ssc_allocs s' = (if a = None then ssc_allocs s else tl (ssc_allocs s)))"
  using assms
  by (cases a) (auto simp: store_challenge_def priv_store_pending_auth_def priv_attach_op_and_username_def
      su_zalloc_item_def Let_def)

lemma ok_store_pending_auth:
  assumes "wf_ssc s" "op_ok op s" "op \<noteq> None" "sip \<noteq> None" "mem_ok s"
  shows "ok (ssc_store_pending_auth op sip t s) wf_ssc"
proof -
  from assms(2-4) obtain p r m where p: "op = Some p" "ssc_heap s p = Some r" "sip = Some m"
    by (auto simp: op_ok_def)
  from assms(5) obtain x y as where al: "ssc_allocs s = Some x # Some y # as"
    unfolding mem_ok_def by (cases "ssc_allocs s"; cases "tl (ssc_allocs s)") auto
  show ?thesis
    unfolding ssc_store_pending_auth_def p option.case Let_def
  proof (rule ok_andthenI [OF store_challenge_ok [OF assms(1) p(2)]], goal_cases)
    case 1
    then show ?case by (simp add: al)
  next
    case (2 st)
    obtain i s1 where st: "st = (i, s1)" by (cases st)
    show ?case
      unfolding st
      by (rule ok_andthenI [OF store_challenge_ok [of s1 p r]])
         (use 2 st al p in \<open>auto split: option.split if_splits\<close>)
  qed
qed

lemma ok_challenge_if:
  assumes "wf_ssc s" "op_ok op s" "challenge_ok status op sip s"
  shows "ok (challenge_if status op sip t s) wf_ssc"
  using assms ok_store_pending_auth [OF assms(1,2)] by (auto simp: challenge_if_def challenge_ok_def)

lemma auth_frame [simp]:
  "op_ok op (emit x s) = op_ok op s" "mem_ok (emit x s) = mem_ok s"
  "challenge_ok st op sip (emit x s) = challenge_ok st op sip s" "owns nh op (emit x s) = owns nh op s"
  by (simp_all add: op_ok_def mem_ok_def challenge_ok_def owns_def)

lemmas event_wp = wp_intros ok_store_pending_auth ok_challenge_if

lemma auth_upd [simp]:
  "mem_ok (s\<lparr>ssc_heap := h\<rparr>) = mem_ok s"
  "op_ok op s \<Longrightarrow> op_ok op (s\<lparr>ssc_heap := (ssc_heap s)(p \<mapsto> r)\<rparr>)"
  "challenge_ok st op sip (s\<lparr>ssc_heap := h\<rparr>) = challenge_ok st op sip s"
  by (auto simp: op_ok_def mem_ok_def challenge_ok_def)

lemma wf_r_invite:
  assumes "wf_ssc s" "op_ok op s" "op \<noteq> None" "challenge_ok status op sip s"
  shows "ok (ssc_r_invite status phrase op sip t s) wf_ssc"
proof -
  from assms obtain p r where p: "op = Some p" "ssc_heap s p = Some r" by (auto simp: op_ok_def)
  with assms show ?thesis
    by (auto simp: ssc_r_invite_def challenge_if_def [symmetric] oper_ok_def Let_def
        intro!: ok_challenge_if wf_ssc_upd)
qed

lemma wf_r_simple:
  assumes "wf_ssc s" "op_ok op s" "challenge_ok status op sip s"
  shows "ok (ssc_r_options status phrase op sip t s) wf_ssc" "ok (ssc_r_message status phrase op sip t s) wf_ssc"
    "ok (ssc_r_info status phrase op sip t s) wf_ssc" "ok (ssc_r_refer status phrase op sip t s) wf_ssc"
    "ok (ssc_r_notify status phrase op sip t s) wf_ssc"
  using assms
  by (auto simp: ssc_r_options_def ssc_r_message_def ssc_r_info_def ssc_r_refer_def ssc_r_notify_def Let_def
      intro!: ok_challenge_if)

lemma wf_r_subscribe:
  assumes "wf_ssc s" "op_ok op s" "op \<noteq> None" "challenge_ok status op sip s"
  shows "ok (ssc_r_subscribe status phrase op sip t s) wf_ssc"
proof -
  from assms obtain p r where p: "op = Some p" "ssc_heap s p = Some r" by (auto simp: op_ok_def)
  with assms show ?thesis
    by (auto simp: ssc_r_subscribe_def oper_ok_def Let_def intro!: ok_challenge_if wf_ssc_upd)
qed

lemma wf_r_destroying:
  assumes "wf_ssc s" "op_ok op s" "challenge_ok status op sip s"
  shows "ok (ssc_r_register status phrase op sip t s) wf_ssc" "ok (ssc_r_unregister status phrase op sip t s) wf_ssc"
    "ok (ssc_r_unsubscribe status phrase op s) wf_ssc"
    "sip \<noteq> None \<Longrightarrow> ok (ssc_r_publish status phrase op sip t s) wf_ssc"
  using assms
  by (auto simp: ssc_r_register_def ssc_r_unregister_def ssc_r_unsubscribe_def ssc_r_publish_def Let_def
      challenge_ok_def op_ok_def mem_ok_def intro!: event_wp split: option.split)

lemma wf_incoming:
  assumes "wf_ssc s" "has_from_to sip"
  shows "ok (ssc_i_message E nh op sip s) wf_ssc" "ok (ssc_i_info E nh op sip s) wf_ssc"
    "sip_refer_to (the sip) \<noteq> None \<Longrightarrow> ok (ssc_i_refer E nh sip s) wf_ssc"
  using assms
  by (auto simp: ssc_i_message_def ssc_i_info_def ssc_i_refer_def adopt_handle_def has_from_to_def Let_def
      intro!: wp_intros split: option.splits dest: oper_stepD)

lemma wf_i_notify:
  assumes "wf_ssc s" "op_ok op s" "op \<noteq> None \<or> has_from_to sip"
  shows "ok (ssc_i_notify op sip s) wf_ssc"
  using assms
  by (auto simp: ssc_i_notify_def op_ok_Some has_from_to_def Let_def split: option.splits)

lemma wf_asserting:
  assumes "wf_ssc s" "owns nh op s"
  shows "ok (ssc_r_bye status phrase nh op s) wf_ssc" "ok (ssc_i_bye nh op s) wf_ssc" "ok (ssc_i_cancel nh op s) wf_ssc"
  using assms by (auto simp: ssc_r_bye_def ssc_i_bye_def ssc_i_cancel_def assert_owner_def owns_def)

lemma wf_printing [simp]:
  "wf_ssc (ssc_i_error st ph s) = wf_ssc s" "wf_ssc (ssc_i_options s) = wf_ssc s"
  "wf_ssc (ssc_i_fork st ph t s) = wf_ssc s" "wf_ssc (ssc_i_prack nh op sip s) = wf_ssc s"
  "wf_ssc (ssc_r_shutdown st ph s) = wf_ssc s" "wf_ssc (ssc_r_get_params E st ph t s) = wf_ssc s"
  by (auto simp: ssc_i_error_def ssc_i_options_def ssc_i_fork_def ssc_i_prack_def ssc_r_shutdown_def
      ssc_r_get_params_def Let_def split: option.split)

lemma wf_unknown: "wf_ssc s \<Longrightarrow> ok (unknown_event c n st ph nh t s) wf_ssc"
  by (auto simp: unknown_event_def find_defs Let_def intro!: wp_intros)

lemma media_keep_wf:
  assumes "media_keep s s'" "wf_ssc s"
  shows "wf_ssc s'" "ssc_heap s' = ssc_heap s" "sm_handlers s' = sm_handlers s"
    "ssc_autoanswer s' = ssc_autoanswer s" "ssc_name s' = ssc_name s"
proof -
  have f: "media_frame s s'" "media_ok s'" using assms(1) by (simp_all add: media_keep_def)
  show "wf_ssc s'" by (rule wf_media_frame [OF assms(2) f])
  have "SscMedia.more s' = SscMedia.more s" "sm_handlers s' = sm_handlers s"
    using f(1) by (simp_all add: media_frame_def)
  then show "ssc_heap s' = ssc_heap s" "sm_handlers s' = sm_handlers s"
    "ssc_autoanswer s' = ssc_autoanswer s" "ssc_name s' = ssc_name s"
    by (cases s, cases s', simp)+
qed

lemma wf_media_ok: "wf_ssc s \<Longrightarrow> media_ok s"
  by (simp add: wf_ssc_def)

lemma ok_set_property:
  assumes "wf_ssc s" "prop \<in> {PROP_LOCAL_SDP, PROP_REMOTE_SDP}" "\<And>s'. media_keep s s' \<Longrightarrow> Q s'"
  shows "ok (ssc_media_set_property E prop (Some t) s) Q"
  using assms(2,3) ok_mono [OF set_property_local_ok [OF wf_media_ok [OF assms(1)]]]
    ok_mono [OF set_property_remote_ok [OF wf_media_ok [OF assms(1)]]]
  by blast

lemma ok_state_sdp:
  assumes "wf_ssc s"
  shows "ok (state_sdp E t s) (\<lambda>(go_on, s'). media_keep s s')"
  using assms wf_media_ok [OF assms]
  by (cases "t_local_sdp t"; cases "t_remote_sdp t")
     (auto simp: state_sdp_def Let_def media_keep_refl intro!: ok_set_property
       intro: media_keep_trans media_keep_wf)

lemma wf_deactivate [simp]:
  "wf_ssc (ssc_media_deactivate s) = wf_ssc s" "ssc_heap (ssc_media_deactivate s) = ssc_heap s"
  by (simp_all add: ssc_media_deactivate_def priv_deactivate_base_def)

lemma wf_i_state:
  assumes "wf_ssc s" "op_ok op s"
  shows "ok (ssc_i_state E op t s) wf_ssc"
proof (cases op)
  case None
  with assms show ?thesis by (simp add: ssc_i_state_def)
next
  case (Some p)
  then obtain r where r: "ssc_heap s p = Some r" using assms(2) by (auto simp: op_ok_def)
  show ?thesis
    unfolding ssc_i_state_def Some if_not_P [OF option.distinct(2)]
  proof (rule ok_andthenI [OF ok_state_sdp [OF assms(1)]], clarify, goal_cases)
    case (1 go_on s1)
    from media_keep_wf [OF 1 assms(1)] r have "wf_ssc s1" "ssc_heap s1 p = Some r" by simp_all
    then show ?case
      by (auto simp: state_ready_def state_terminated_def priv_destroy_oper_with_disconnect_def Let_def oper_ok_def
          intro!: wp_intros)
  qed
qed

section \<open>The media signal\<close>

lemma if_returns_deref [simp]:
  "if_returns (deref h op) Q \<longleftrightarrow> (\<forall>p r. op = Some p \<longrightarrow> h p = Some r \<longrightarrow> Q r)"
  by (cases op) (auto simp: deref_def split: option.split)

lemma if_returns_store [simp]: "if_returns (store op f s) Q \<longleftrightarrow>
    (\<forall>p r. op = Some p \<longrightarrow> ssc_heap s p = Some r \<longrightarrow> Q (s\<lparr>ssc_heap := (ssc_heap s)(p \<mapsto> f r)\<rparr>))"
  by (auto simp: store_def)

lemmas if_returns_destroy = ok_if_returns [OF ok_destroy]

lemma wf_media_ready:
  assumes "wf_ssc s"
  shows "if_returns (media_ready_invite E p s) wf_ssc" "if_returns (media_ready_answer E p s) wf_ssc"
proof -
  have get: "if_returns (ssc_media_get_property E PROP_LOCAL_SDP s) Q"
    if "wf_ssc s" "\<And>v s'. wf_ssc s' \<Longrightarrow> Q (v, s')" for s :: ssc and Q
    by (rule ok_if_returns [OF ok_mono [OF get_property_local_ok [OF wf_media_ok [OF that(1)]]]])
       (use that media_keep_wf in auto)
  show "if_returns (media_ready_invite E p s) wf_ssc"
    unfolding media_ready_invite_def priv_destroy_oper_with_disconnect_def Let_def
    using assms
    by (auto simp: oper_ok_def intro!: get wf_ssc_upd if_returns_destroy split: option.split)
  show "if_returns (media_ready_answer E p s) wf_ssc"
    unfolding media_ready_answer_def Let_def
    using assms
    by (auto simp: oper_ok_def intro!: get wf_ssc_upd split: option.split)
qed

lemma wf_media_cb:
  assumes "wf_ssc s"
  shows "if_returns (priv_media_state_cb E st p s) wf_ssc"
  unfolding priv_media_state_cb_def
  using assms
  by (auto simp: priv_destroy_oper_with_disconnect_def Let_def
      intro!: if_returns_mono [OF wf_media_ready(1)] if_returns_mono [OF wf_media_ready(2)]
        if_returns_destroy)

lemma wf_run_handlers: "wf_ssc s \<Longrightarrow> if_returns (run_handlers E st hs s) wf_ssc"
  by (induction hs arbitrary: s) (auto intro: if_returns_mono [OF wf_media_cb])

lemma wf_media_activate:
  assumes "wf_ssc s"
  shows "if_returns (media_activate E s) (\<lambda>(res, s'). res = 0 \<and> wf_ssc s')"
  unfolding media_activate_def
  by (simp, rule ok_if_returns, rule ok_mono [OF activate_ok [OF wf_media_ok [OF assms]]])
     (use wf_media_frame [OF assms] in \<open>auto intro!: if_returns_mono [OF wf_run_handlers]\<close>)

lemma wf_invite: "wf_ssc s \<Longrightarrow> if_returns (ssc_invite E d s) wf_ssc"
  unfolding ssc_invite_def priv_destroy_oper_with_disconnect_def Let_def
  by (auto intro!: ok_if_returns [OF ok_create] if_returns_mono [OF wf_media_activate] wf_ssc_upd
      simp: oper_ok_def split: option.split elim!: oper_step_SomeE dest: oper_stepD)

lemma wf_answer: "wf_ssc s \<Longrightarrow> if_returns (ssc_answer E st ph s) wf_ssc"
  unfolding ssc_answer_def priv_destroy_oper_with_disconnect_def find_defs Let_def
  by (auto intro!: ok_if_returns [OF ok_find] if_returns_mono [OF wf_media_activate] if_returns_destroy)

lemma wf_announce: "wf_ssc s \<Longrightarrow> if_returns (announce_call E p to subj s) wf_ssc"
  unfolding announce_call_def Let_def
  by (auto intro!: if_returns_mono [OF wf_answer] split: option.split)

lemma wf_i_invite: "wf_ssc s \<Longrightarrow> if_returns (ssc_i_invite E nh op sip s) wf_ssc"
  unfolding ssc_i_invite_def
  by (auto intro!: ok_if_returns [OF ok_create_with_handle] if_returns_mono [OF wf_announce] wf_ssc_upd
      simp: oper_ok_def split: option.split elim!: oper_step_SomeE dest: oper_stepD)

lemma wf_auth_loop: "wf_ssc s \<Longrightarrow> if_returns (auth_loop d items s) (\<lambda>(b, s'). wf_ssc s')"
  by (induction items arbitrary: s)
     (auto simp: Let_def intro!: if_returns_all [where m = "ssc_oper_check _ _"])

lemma wf_auth: "wf_ssc s \<Longrightarrow> if_returns (ssc_auth d s) wf_ssc"
  unfolding ssc_auth_def
  by (auto intro!: if_returns_mono [OF wf_auth_loop] split: option.split)


text \<open>The lines \<open>ssc_list\<close> prints.\<close>

definition list_lines :: "oheap \<Rightarrow> ptr list \<Rightarrow> out list" where
  "list_lines h ps =
     map (\<lambda>p. let r = the (h p) in
            Print (fmt [tab, pstr (sip_method_name (op_method r) (op_method_name r)), '' to '', pstr (op_ident r), nl]))
         (filter (\<lambda>p. op_ident (the (h p)) \<noteq> None) ps)"

lemma wf_io_out [simp]: "wf_ssc (s\<lparr>io_out := x\<rparr>) = wf_ssc s"
  by (rule wf_cong) simp_all

lemma list_from_chain:
  "chain (ssc_heap s) op ps \<Longrightarrow> list_from op s = Some (Inr (s\<lparr>io_out := io_out s @ list_lines (ssc_heap s) ps\<rparr>))"
proof (induction ps arbitrary: op s)
  case Nil
  then show ?case by (simp add: list_from.simps list_lines_def)
next
  case (Cons p ps)
  then obtain r where r: "op = Some p" "ssc_heap s p = Some r" "chain (ssc_heap s) (op_next r) ps" by auto
  let ?s = "case op_ident r of None \<Rightarrow> s
    | Some i \<Rightarrow> print [tab, pstr (sip_method_name (op_method r) (op_method_name r)), '' to '', i, nl] s"
  have "list_from (op_next r) ?s = Some (Inr (?s\<lparr>io_out := io_out ?s @ list_lines (ssc_heap ?s) ps\<rparr>))"
    by (rule Cons.IH) (use r in \<open>simp split: option.split\<close>)
  then show ?case
    using r by (cases "op_ident r") (simp_all add: list_from.simps [of "Some p"] list_lines_def Let_def emit_def)
qed

lemma wf_list:
  assumes "wf_ssc s"
  shows "ok (ssc_list s) wf_ssc"
proof -
  from assms obtain ps where "opers s ps" by (rule wfE)
  with assms show ?thesis
    using list_from_chain [of "say ['': listing active handles'', nl] s" "ssc_operations s" ps] opers_chain [of s ps]
    by (simp add: ssc_list_def Let_def)
qed


section \<open>The client as a state machine\<close>

text \<open>Everything that can happen to a client: a command of the user, or an event of the stack.\<close>

datatype action =
    Answer int string | Set_address "string option" | Bye | Cancel | Invite "string option"
  | Info "string option" string | Hold | Auth "string option" | List_handles
  | Message "string option" string | Settings | Subscribe "string option" | Watch "string option"
  | Options "string option" | Publish "string option" | Unpublish | Register "string option"
  | Unregister "string option" | Refer "string option" string | Unsubscribe | Zap | Reject_refer
  | Param string string | Shutdown
  | Event nua_event int string handle "ptr option" "sip_t option" tags

fun perform :: "sofia_env \<Rightarrow> param_env \<Rightarrow> action \<Rightarrow> ssc \<Rightarrow> ssc res" where
  "perform E P (Answer st ph) s = ssc_answer E st ph s"
| "perform E P (Set_address a) s = Inr (ssc_set_public_address a s)"
| "perform E P Bye s = ssc_bye s"
| "perform E P Cancel s = ssc_cancel s"
| "perform E P (Invite d) s = ssc_invite E d s"
| "perform E P (Info d m) s = ssc_info d m s"
| "perform E P Hold s = Inr (ssc_hold s)"
| "perform E P (Auth d) s = ssc_auth d s"
| "perform E P List_handles s = ssc_list s"
| "perform E P (Message d m) s = ssc_message E d m s"
| "perform E P Settings s = Inr (ssc_print_settings s)"
| "perform E P (Subscribe d) s = ssc_subscribe E d s"
| "perform E P (Watch d) s = ssc_watch E d s"
| "perform E P (Options d) s = ssc_options E d s"
| "perform E P (Publish n) s = ssc_publish E n s"
| "perform E P Unpublish s = ssc_unpublish E s"
| "perform E P (Register g) s = ssc_register E g s"
| "perform E P (Unregister g) s = ssc_unregister E g s"
| "perform E P (Refer d to) s = ssc_refer E d to s"
| "perform E P Unsubscribe s = ssc_unsubscribe s"
| "perform E P Zap s = ssc_zap E s"
| "perform E P Reject_refer s = ssc_notify s"
| "perform E P (Param n v) s = Inr (ssc_param P n v s)"
| "perform E P Shutdown s = Inr (ssc_shutdown s)"
| "perform E P (Event ev st ph nh op sip t) s = priv_callback E ev st ph nh op sip t s"

text \<open>The stack keeps its side (\<open>event_ok\<close>); the commands that need an argument get one.\<close>

fun action_ok :: "action \<Rightarrow> ssc \<Rightarrow> bool" where
  "action_ok (Event ev st ph nh op sip t) s = event_ok ev st nh op sip s"
| "action_ok (Subscribe d) s = (d \<noteq> None)"
| "action_ok (Watch d) s = (d \<noteq> None)"
| "action_ok (Auth d) s = (d \<noteq> None)"
| "action_ok a s = True"

text \<open>The actions that run the closures of the media signal, and authentication, which checks a stored
  pointer.\<close>

fun risky :: "action \<Rightarrow> bool" where
  "risky (Answer st ph) = True"
| "risky (Invite d) = True"
| "risky (Auth d) = True"
| "risky (Event ev st ph nh op sip t) = (ev = nua_i_invite)"
| "risky a = False"

text \<open>The application installs its callbacks after it has created the client.\<close>

definition install_callbacks :: "bool \<Rightarrow> bool \<Rightarrow> bool \<Rightarrow> ssc \<Rightarrow> ssc" where
  "install_callbacks ex ev au s = s\<lparr>ssc_exit_cb := ex, ssc_event_cb := ev, ssc_auth_req_cb := au\<rparr>"

lemma wf_install_callbacks [simp]: "wf_ssc (install_callbacks ex ev au s) = wf_ssc s"
  by (rule wf_cong) (simp_all add: install_callbacks_def)

inductive reachable :: "sofia_env \<Rightarrow> param_env \<Rightarrow> ssc \<Rightarrow> bool" for E P where
  start: "ssc_create E True True allocs handles conf = Inr (Some s, out) \<Longrightarrow> reachable E P s"
| install: "reachable E P s \<Longrightarrow> reachable E P (install_callbacks ex ev au s)"
| step: "reachable E P s \<Longrightarrow> action_ok a s \<Longrightarrow> perform E P a s = Inr s' \<Longrightarrow> reachable E P s'"

inductive_cases reachableE: "reachable E P s"

lemma wf_ssc_hold [simp]: "wf_ssc (ssc_hold s) = wf_ssc s" "wf_ssc (ssc_print_settings s) = wf_ssc s"
  by (simp_all add: ssc_hold_def ssc_print_settings_def)

lemma wf_r_unsubscribe: "wf_ssc s \<Longrightarrow> op_ok op s \<Longrightarrow> ok (ssc_r_unsubscribe st ph op s) wf_ssc"
  by (auto simp: ssc_r_unsubscribe_def Let_def op_ok_def intro!: ok_destroy)

lemma dispatch_ok:
  assumes "wf_ssc s" "event_ok ev st nh op sip s" "ev \<noteq> nua_i_invite"
  shows "ok (dispatch E ev st ph nh op sip t s) wf_ssc"
  using assms
  by (cases ev)
     (simp_all add: dispatch_def event_ok_def wf_r_invite wf_r_simple wf_r_subscribe wf_r_destroying wf_incoming
       wf_i_notify wf_asserting wf_unknown wf_i_state wf_r_unsubscribe)

lemma callback_ok:
  assumes "wf_ssc s" "event_ok ev st nh op sip s" "ev \<noteq> nua_i_invite"
  shows "ok (priv_callback E ev st ph nh op sip t s) wf_ssc"
  unfolding priv_callback_def by (rule ok_andthenI [OF dispatch_ok [OF assms]]) simp

lemma perform_ok:
  assumes "wf_ssc s" "action_ok a s" "\<not> risky a"
  shows "ok (perform E P a s) wf_ssc"
  using assms
  by (cases a) (auto intro: wf_bye wf_cancel wf_info wf_list wf_message wf_subscribe wf_watch wf_options wf_publish
      wf_unpublish wf_register wf_unregister wf_refer wf_unsubscribe wf_zap wf_notify callback_ok)

lemma perform_wf:
  assumes "wf_ssc s" "action_ok a s" "perform E P a s = Inr s'"
  shows "wf_ssc s'"
proof (cases "risky a")
  case False
  with perform_ok [OF assms(1,2), of E P] assms(3) show ?thesis by (auto simp: ok_iff)
next
  case True
  have "if_returns (perform E P a s) wf_ssc"
  proof (cases a)
    case (Event ev st ph nh op sip t)
    with True have "ev = nua_i_invite" by simp
    with Event show ?thesis
      using wf_i_invite [OF assms(1)] by (auto simp: priv_callback_def dispatch_def intro: if_returns_mono)
  qed (use True wf_invite wf_answer wf_auth assms(1) in auto)
  with assms(3) show ?thesis by (simp add: if_returns_def)
qed

lemma wf_zero_ssc: "wf_ssc (zero_ssc allocs handles)"
  by (auto simp: wf_ssc_def opers_def media_ok_def zero_ssc_def)

lemma wf_create:
  assumes "ssc_create E True True allocs handles conf = Inr (Some s, out)"
  shows "wf_ssc s"
proof -
  let ?s = "emit (Nua_create (create_nua_tags conf)) ((zero_ssc allocs handles)\<lparr>ssc_address := conf_aor conf,
      ssc_autoanswer := conf_autoanswer conf\<rparr>)"
  have "wf_ssc ?s" by (simp add: wf_ssc_def opers_def media_ok_def zero_ssc_def)
  then have "if_returns (if conf_register conf then ssc_register E None ?s else Inr ?s) wf_ssc"
    using ok_if_returns [OF wf_register] by simp
  with assms show ?thesis
    by (auto simp: ssc_create_def Let_def andthen_eq_Inr if_returns_def)
qed

lemma reachable_inv: "reachable E P s \<Longrightarrow> wf_ssc s"
  by (induction rule: reachable.induct) (auto intro: wf_create perform_wf)

section \<open>A concrete client\<close>

definition demo_conf :: ssc_conf where
  "demo_conf = \<lparr>conf_aor = Some ''sip:alice@example.com'', conf_certdir = None, conf_contact = None,
     conf_media_addr = None, conf_media_impl = None, conf_proxy = None, conf_registrar = None,
     conf_stun_server = None, conf_autoanswer = False, conf_register = False\<rparr>"

definition demo_params :: param_env where
  "demo_params = \<lparr>p_nua_tags = [''proxy''], p_nta_tags = [''debug''], p_sip_tags = [''from''], p_scan = (\<lambda>t v. v \<noteq> [])\<rparr>"

definition demo_ssc :: ssc where
  "demo_ssc = (zero_ssc [Some 1, Some 2, Some 3, Some 4] [Some 11, Some 12, Some 13, Some 14])
     \<lparr>ssc_address := Some ''sip:alice@example.com'',
      io_out := [Nua_create (create_nua_tags demo_conf), Nua_set_params (create_params demo_conf), Nua_get_params []]\<rparr>"

lemma demo_created:
  "ssc_create demo_env True True [Some 1, Some 2, Some 3, Some 4] [Some 11, Some 12, Some 13, Some 14] demo_conf
     = Inr (Some demo_ssc, \<lparr>io_out = io_out demo_ssc\<rparr>)"
  by (simp add: ssc_create_def demo_ssc_def zero_ssc_def emit_def demo_conf_def Let_def)

lemma demo_reachable: "reachable demo_env demo_params demo_ssc"
  by (rule start [OF demo_created])

section \<open>Properties\<close>

text \<open>
  Every state the client can get into is well-formed (C1): from creation on, whatever the user types
  and whatever the stack delivers, the operations form one finite list that is exactly the memory in
  use for operations (no leak, no dangling link, no cycle), every operation knows its owner and is
  persistent only for SUBSCRIBE, REGISTER and PUBLISH, and the media object owns no dangling text.
\<close>

theorem reachable_well_formed:
  assumes "reachable E P s"
  shows "\<exists>ps. chain (ssc_heap s) (ssc_operations s) ps \<and> dom (ssc_heap s) = set ps \<and> distinct ps
     \<and> (\<forall>p \<in> set ps. op_ssc (info (ssc_heap s) p) \<and>
          (op_persistent (info (ssc_heap s) p) \<longrightarrow> op_method (info (ssc_heap s) p) \<in>
             {sip_method_subscribe, sip_method_register, sip_method_publish}))
     \<and> sm_sdp_local_str s \<noteq> CFreed \<and> sm_sdp_remote_str s = CNull"
proof -
  from reachable_inv [OF assms] obtain ps
    where o: "opers s ps" and r: "\<And>p r. ssc_heap s p = Some r \<Longrightarrow> oper_ok r" and m: "media_ok s"
    by (rule wfE) blast
  show ?thesis
    using opersD [OF o] r opers_live [OF o] m
    by (intro exI [of _ ps]) (fastforce simp: oper_ok_def persistent_method_def info_sel media_ok_def)
qed

theorem reachable_well_formed_witness:
  "reachable demo_env demo_params demo_ssc \<and> sm_sdp_remote_str demo_ssc = CNull"
  using demo_reachable reachable_well_formed [OF demo_reachable] by blast

text \<open>
  No crash (C2). In every reachable state, every command except answering, inviting and
  authenticating, and every event except an incoming INVITE, runs to its end without a memory error, a
  failed assertion or an endless loop, as long as the stack keeps its side of the contract and the
  commands that need an argument get one; the state it leaves is reachable again.
\<close>

theorem no_crash:
  assumes "reachable E P s" "action_ok a s" "\<not> risky a"
  shows "ok (perform E P a s) (reachable E P)"
  using perform_ok [OF reachable_inv [OF assms(1)] assms(2,3), of E P] step [OF assms(1,2)]
  by (auto simp: ok_iff)

theorem no_crash_witness:
  "reachable demo_env demo_params demo_ssc \<and> action_ok Bye demo_ssc \<and> \<not> risky Bye
   \<and> ok (perform demo_env demo_params Bye demo_ssc) (reachable demo_env demo_params)"
  using demo_reachable no_crash [OF demo_reachable, of Bye] by simp

end
