(* ===== verification/Ssc_Calls.thy ===== *)
theory Ssc_Calls
  imports Ssc_Sip
begin

unbundle bit_operations_syntax

text \<open>
  What the signalling client does for its user: the requests a command sends, and what it leaves in the
  list of operations and in the media subsystem.

  \<^item> Calls: placing one, the second one, accepting, declining, and the end of a call, with the
    requests each sends (\<open>requests\<close> of the output).
  \<^item> The closures on the media signal: while the operations they belong to are live and in a call, calls
    run without a memory error; a closure can outlive its operation, and then the next call does not.
  \<^item> Authentication, listing, registration, and the two text routines.
\<close>

section \<open>Calls, step by step\<close>

text \<open>The requests and responses among the output.\<close>

definition requests :: "out list \<Rightarrow> out list" where
  "requests os = filter (\<lambda>x. case x of Nua_request _ _ _ \<Rightarrow> True | Nua_respond _ _ _ _ \<Rightarrow> True | _ \<Rightarrow> False) os"

lemma requests_append [simp]: "requests (xs @ ys) = requests xs @ requests ys"
  by (simp add: requests_def)

lemma requests_simps [simp]:
  "requests [] = []" "requests (Print t # os) = requests os" "requests (Nua_handle h ts # os) = requests os"
  "requests (Nua_handle_bind nh p # os) = requests os" "requests (Nua_handle_destroy nh # os) = requests os"
  "requests (Call_media_state_cb op n # os) = requests os" "requests (Call_call_state_cb op i # os) = requests os"
  "requests (Nua_request q h ts # os) = Nua_request q h ts # requests os"
  "requests (Nua_respond h st ph ts # os) = Nua_respond h st ph ts # requests os"
  by (simp_all add: requests_def)

lemma requests_prints [simp]: "requests (map Print ts) = []"
  by (simp add: requests_def filter_empty_conv)

lemma requests_closing [simp]: "requests (concat (map (closing h) ps)) = []"
  by (induction ps) (auto simp: closing_def split: option.split)

lemma requests_frame: "media_frame m m' \<Longrightarrow> requests (io_out m') = requests (io_out m)"
  by (auto simp: media_frame_def)

lemma ok_get_text:
  assumes "wf_ssc s"
    and "\<And>s'. wf_ssc s' \<Longrightarrow> ssc_heap s' = ssc_heap s \<Longrightarrow> sm_handlers s' = sm_handlers s \<Longrightarrow>
      sm_state s' = sm_state s \<Longrightarrow> requests (io_out s') = requests (io_out s) \<Longrightarrow>
      local_text E s' = local_text E s \<Longrightarrow> Q (local_text E s, s')"
  shows "ok (ssc_media_get_property E PROP_LOCAL_SDP s) Q"
proof (rule ok_mono [OF get_local_text [OF wf_media_ok [OF assms(1)]]], clarify)
  fix s' assume k: "media_keep s s'" and t: "local_text E s' = local_text E s"
  note w = media_keep_wf [OF k assms(1)]
  from k have f: "media_frame s s'" "sm_state s' = sm_state s" by (simp_all add: media_keep_def)
  show "Q (local_text E s, s')"
    by (rule assms(2) [OF w(1-3) f(2) requests_frame [OF f(1)] t])
qed

lemma cb_pending:
  assumes "wf_ssc s" "ssc_heap s p = Some r" "op_callstate r AND opc_pending \<noteq> 0"
    and "sm_state s = sm_active" "local_text E s = Some t"
  shows "ok (priv_media_state_cb E sm_active p s) (\<lambda>s'. wf_ssc s'
     \<and> ssc_heap s' = (ssc_heap s)(p \<mapsto> r\<lparr>op_callstate := opc_sent\<rparr>)
     \<and> requests (io_out s') = requests (io_out s) @ [Nua_request nua_invite (op_handle r) (sdp_tags t)]
     \<and> sm_handlers s' = sm_handlers s \<and> sm_state s' = sm_active \<and> local_text E s' = Some t)"
  using assms
  by (auto simp: priv_media_state_cb_def media_ready_invite_def ssc_media_is_initialized_def Let_def oper_ok_def
      opc_sent_def
      intro!: ok_get_text wf_ssc_upd)

lemma cb_answer:
  assumes "wf_ssc s" "ssc_heap s p = Some r" "op_callstate r AND opc_pending = 0" "op_callstate r AND opc_recv \<noteq> 0"
    and "200 \<le> ssc_ans_status s" "ssc_ans_status s < 300" "local_text E s = Some t"
  shows "ok (priv_media_state_cb E sm_active p s) (\<lambda>s'. wf_ssc s'
     \<and> ssc_heap s' = (ssc_heap s)(p \<mapsto> r\<lparr>op_callstate := op_callstate r OR opc_sent\<rparr>)
     \<and> requests (io_out s') = requests (io_out s)
         @ [Nua_respond (op_handle r) (ssc_ans_status s) (ssc_ans_phrase s) (sdp_tags t)]
     \<and> sm_handlers s' = sm_handlers s \<and> sm_state s' = sm_state s \<and> local_text E s' = Some t)"
  using assms
  by (auto simp: priv_media_state_cb_def media_ready_answer_def Let_def oper_ok_def
      intro!: ok_get_text wf_ssc_upd)

lemma media_frame_fields:
  assumes "media_frame s s'"
  shows "ssc_heap s' = ssc_heap s" "sm_handlers s' = sm_handlers s" "ssc_ans_status s' = ssc_ans_status s"
    "ssc_ans_phrase s' = ssc_ans_phrase s" "ssc_name s' = ssc_name s"
proof -
  have "SscMedia.more s' = SscMedia.more s" "sm_handlers s' = sm_handlers s"
    using assms by (simp_all add: media_frame_def)
  then show "ssc_heap s' = ssc_heap s" "sm_handlers s' = sm_handlers s" "ssc_ans_status s' = ssc_ans_status s"
    "ssc_ans_phrase s' = ssc_ans_phrase s" "ssc_name s' = ssc_name s"
    by (cases s, cases s', simp)+
qed

lemma ok_activate:
  assumes "wf_ssc s" "sdp_env_ok E" "local_ok s"
    and "\<And>s' t. wf_ssc s' \<Longrightarrow> ssc_heap s' = ssc_heap s \<Longrightarrow> sm_handlers s' = sm_handlers s \<Longrightarrow>
      ssc_ans_status s' = ssc_ans_status s \<Longrightarrow> ssc_ans_phrase s' = ssc_ans_phrase s \<Longrightarrow>
      sm_state s' = sm_active \<Longrightarrow> requests (io_out s') = requests (io_out s) \<Longrightarrow> local_text E s' = Some t \<Longrightarrow>
      Q (0, sm_state s \<noteq> sm_active, s')"
  shows "ok (ssc_media_activate E s) Q"
proof (rule ok_mono [OF ok_conj [OF activate_ok activate_text [OF _ assms(2,3)]]])
  show m: "media_ok s" "media_ok s" by (rule wf_media_ok [OF assms(1)])+
  fix x :: "int \<times> bool \<times> ssc"
  assume x: "(case x of (r, sig, m') \<Rightarrow> r = 0 \<and> sig = (sm_state s \<noteq> sm_active) \<and> sm_state m' = sm_active
      \<and> media_ok m' \<and> media_frame s m' \<and> sm_sdp_local m' \<noteq> None)
    \<and> (case x of (r, sig, m') \<Rightarrow> local_text E m' \<noteq> None)"
  obtain r sig s' where xs: "x = (r, sig, s')" by (cases x)
  have f: "media_frame s s'" "media_ok s'" using x xs by simp_all
  obtain t where t: "local_text E s' = Some t" using x xs by auto
  have "Q (0, sm_state s \<noteq> sm_active, s')"
    by (rule assms(4)) (use x xs t media_frame_fields [OF f(1)] requests_frame [OF f(1)] wf_media_frame [OF assms(1) f] in simp_all)
  then show "Q x" using x xs by simp
qed

lemma local_ok_frame [simp]:
  "local_ok (emit x s) = local_ok s" "local_ok (s\<lparr>ssc_heap := h\<rparr>) = local_ok s"
  "local_ok (s\<lparr>sm_handlers := hs\<rparr>) = local_ok s" "local_ok (s\<lparr>ssc_ans_status := i, ssc_ans_phrase := ph\<rparr>) = local_ok s"
  by (simp_all add: local_ok_def)

text \<open>A new INVITE operation.\<close>

lemma ok_create_invite:
  assumes "wf_ssc s" "e_sip_to_make E addr = Some to" "url_sanitize (a_url to) = Some u" "fst (su_zalloc s) = Some p"
    and "\<And>s' r. wf_ssc s' \<Longrightarrow> ssc_heap s' p = Some r \<Longrightarrow> op_callstate r = 0 \<Longrightarrow> op_handle r = next_handle s \<Longrightarrow>
      requests (io_out s') = requests (io_out s) \<Longrightarrow> sm_state s' = sm_state s \<Longrightarrow> sm_handlers s' = sm_handlers s \<Longrightarrow>
      local_ok s' = local_ok s \<Longrightarrow> dom (ssc_heap s') \<subseteq> insert p (dom (ssc_heap s)) \<Longrightarrow> Q (Some p, s')"
  shows "ok (ssc_oper_create E sip_method_invite name (Some addr) ta s) Q"
proof -
  from assms(1) obtain ps where o: "opers s ps" by (rule wfE)
  let ?new = "new_info sip_method_invite name (next_handle s) (e_addr_as_string E (to\<lparr>a_url := u\<rparr>)) (-1)"
  show ?thesis
  proof (rule ok_mono [OF ok_conj [OF ssc_oper_create_ok [OF o assms(2,3)] wf_ssc_create [OF assms(1)]]],
      clarsimp simp: assms(4))
    fix s'
    assume c: "created sip_method_invite ?new (Nua_handle (next_handle s) (create_tags sip_method_invite (to\<lparr>a_url := u\<rparr>) ta))
        p ps (evicted sip_method_invite (ssc_heap s) ps) s s'" and st: "oper_step (Some p) s s'"
    from oper_step_SomeE [OF st] obtain r where r: "wf_ssc s'" "ssc_heap s' p = Some r" by auto
    have "op_callstate r = op_callstate (info (ssc_heap s') p)" "op_handle r = op_handle (info (ssc_heap s') p)"
      using r(2) by (simp_all add: info_sel)
    then have i: "op_callstate r = 0" "op_handle r = next_handle s"
      by (simp_all add: createdD(3) [OF c] new_info_def zero_oper_def)
    have l: "local_ok s' = local_ok s" "sm_handlers s' = sm_handlers s"
      using oper_restD [OF createdD(5) [OF c]] by (simp_all add: local_ok_def)
    have d: "dom (ssc_heap s') \<subseteq> insert p (dom (ssc_heap s))"
      using opers_dom [OF createdD(2) [OF c]] opers_dom [OF o] by auto
    show "Q (Some p, s')"
      by (rule assms(5) [OF r i _ _ l(2,1) d]) (use c in \<open>simp_all add: created_def Let_def\<close>)
  qed
qed

lemma run_single: "h \<in> set (sm_handlers s) \<Longrightarrow> run_handlers E st [h] s = priv_media_state_cb E st h s"
  by (cases "priv_media_state_cb E st h s") simp_all

lemma activate_pending:
  assumes "wf_ssc s" "sdp_env_ok E" "local_ok s" "sm_handlers s = [p]" "sm_state s \<noteq> sm_active"
    and "ssc_heap s p = Some r" "op_callstate r AND opc_pending \<noteq> 0"
  shows "ok (media_activate E s) (\<lambda>(res, s'). res = 0 \<and> wf_ssc s'
     \<and> ssc_heap s' = (ssc_heap s)(p \<mapsto> r\<lparr>op_callstate := opc_sent\<rparr>)
     \<and> (\<exists>t. local_text E s' = Some t
          \<and> requests (io_out s') = requests (io_out s) @ [Nua_request nua_invite (op_handle r) (sdp_tags t)])
     \<and> sm_handlers s' = [p] \<and> sm_state s' = sm_active)"
  unfolding media_activate_def ok_simps
proof (rule ok_activate [OF assms(1-3)], goal_cases)
  case (1 s' t)
  have "ok (priv_media_state_cb E sm_active p s') (\<lambda>s''. wf_ssc s''
     \<and> ssc_heap s'' = (ssc_heap s')(p \<mapsto> r\<lparr>op_callstate := opc_sent\<rparr>)
     \<and> requests (io_out s'') = requests (io_out s') @ [Nua_request nua_invite (op_handle r) (sdp_tags t)]
     \<and> sm_handlers s'' = sm_handlers s' \<and> sm_state s'' = sm_active \<and> local_text E s'' = Some t)"
    by (rule cb_pending) (use 1 assms in auto)
  with 1 assms show ?case
    by (auto simp: run_single elim!: ok_mono)
qed

lemma activate_silent:
  assumes "wf_ssc s" "sdp_env_ok E" "local_ok s" "sm_state s = sm_active"
  shows "ok (media_activate E s) (\<lambda>(res, s'). res = 0 \<and> wf_ssc s' \<and> ssc_heap s' = ssc_heap s
     \<and> requests (io_out s') = requests (io_out s) \<and> sm_handlers s' = sm_handlers s \<and> sm_state s' = sm_active)"
  unfolding media_activate_def ok_simps
  by (rule ok_activate [OF assms(1-3)]) (use assms in auto)

text \<open>
  Placing a call (C9). With the media subsystem idle and no other call waiting for it, \<open>ssc_invite\<close> to a
  usable address makes a new operation, activates the media subsystem, and from its signal sends exactly
  one INVITE, on the handle of the new operation and with the local description as offer. The operation
  ends up in the state \<open>opc_sent\<close> and connected to the signal.
\<close>

theorem invite_sends_offer:
  assumes "wf_ssc s" "e_sip_to_make E addr = Some to" "url_sanitize (a_url to) = Some u" "fst (su_zalloc s) = Some p"
    and "sm_handlers s = []" "sm_state s \<noteq> sm_active" "sdp_env_ok E" "local_ok s"
  shows "ok (ssc_invite E (Some addr) s) (\<lambda>s'. \<exists>sdp. local_text E s' = Some sdp
     \<and> requests (io_out s') = requests (io_out s) @ [Nua_request nua_invite (next_handle s) (sdp_tags sdp)]
     \<and> p \<in> dom (ssc_heap s') \<and> op_callstate (info (ssc_heap s') p) = opc_sent
     \<and> sm_state s' = sm_active \<and> sm_handlers s' = [p] \<and> wf_ssc s')"
  unfolding ssc_invite_def ok_simps
proof (rule ok_create_invite [OF assms(1-4)], goal_cases)
  case (1 s1 r)
  let ?s2 = "s1\<lparr>ssc_heap := (ssc_heap s1)(p \<mapsto> r\<lparr>op_callstate := opc_pending\<rparr>), sm_handlers := [p]\<rparr>"
  have w2: "wf_ssc ?s2" by (simp, rule wf_ssc_upd) (use 1 in \<open>auto simp: oper_ok_def\<close>)
  have "ok (media_activate E ?s2) (\<lambda>(res, s'). res = 0 \<and> wf_ssc s'
     \<and> ssc_heap s' = (ssc_heap ?s2)(p \<mapsto> r\<lparr>op_callstate := opc_sent\<rparr>)
     \<and> (\<exists>t. local_text E s' = Some t
          \<and> requests (io_out s') = requests (io_out ?s2) @ [Nua_request nua_invite (op_handle r) (sdp_tags t)])
     \<and> sm_handlers s' = [p] \<and> sm_state s' = sm_active)"
    by (rule ok_mono [OF activate_pending [where r = "r\<lparr>op_callstate := opc_pending\<rparr>"]])
       (use w2 1 assms in \<open>auto simp: opc_pending_def\<close>)
  with 1 assms show ?case
    by (auto simp: info_sel elim!: ok_mono)
qed

text \<open>
  A second call. While the media subsystem is active for a call, its signal does not go out again:
  \<open>ssc_invite\<close> announces the INVITE as pending, but nothing is sent and the new operation stays in
  \<open>opc_pending\<close>.
\<close>

theorem second_invite_never_sent:
  assumes "wf_ssc s" "e_sip_to_make E addr = Some to" "url_sanitize (a_url to) = Some u" "fst (su_zalloc s) = Some p"
    and "sm_state s = sm_active" "sdp_env_ok E" "local_ok s"
  shows "ok (ssc_invite E (Some addr) s) (\<lambda>s'. requests (io_out s') = requests (io_out s)
     \<and> p \<in> dom (ssc_heap s') \<and> op_callstate (info (ssc_heap s') p) = opc_pending
     \<and> sm_handlers s' = sm_handlers s @ [p] \<and> wf_ssc s')"
  unfolding ssc_invite_def ok_simps
proof (rule ok_create_invite [OF assms(1-4)], goal_cases)
  case (1 s1 r)
  let ?s2 = "s1\<lparr>ssc_heap := (ssc_heap s1)(p \<mapsto> r\<lparr>op_callstate := opc_pending\<rparr>), sm_handlers := sm_handlers s1 @ [p]\<rparr>"
  have w2: "wf_ssc ?s2" by (simp, rule wf_ssc_upd) (use 1 in \<open>auto simp: oper_ok_def\<close>)
  have "ok (media_activate E ?s2) (\<lambda>(res, s'). res = 0 \<and> wf_ssc s' \<and> ssc_heap s' = ssc_heap ?s2
     \<and> requests (io_out s') = requests (io_out ?s2) \<and> sm_handlers s' = sm_handlers ?s2 \<and> sm_state s' = sm_active)"
    by (rule activate_silent) (use w2 1 assms in auto)
  with 1 assms show ?case
    by (auto simp: info_sel elim!: ok_mono)
qed

lemma activate_recv:
  assumes "wf_ssc s" "sdp_env_ok E" "local_ok s" "sm_handlers s = [p]" "sm_state s \<noteq> sm_active"
    and "ssc_heap s p = Some r" "op_callstate r = opc_recv" "200 \<le> ssc_ans_status s" "ssc_ans_status s < 300"
  shows "ok (media_activate E s) (\<lambda>(res, s'). res = 0 \<and> wf_ssc s'
     \<and> ssc_heap s' = (ssc_heap s)(p \<mapsto> r\<lparr>op_callstate := opc_complete\<rparr>)
     \<and> (\<exists>t. local_text E s' = Some t
          \<and> requests (io_out s') = requests (io_out s)
              @ [Nua_respond (op_handle r) (ssc_ans_status s) (ssc_ans_phrase s) (sdp_tags t)])
     \<and> sm_handlers s' = [p] \<and> sm_state s' = sm_active)"
  unfolding media_activate_def ok_simps
proof (rule ok_activate [OF assms(1-3)], goal_cases)
  case (1 s' t)
  have "ok (priv_media_state_cb E sm_active p s') (\<lambda>s''. wf_ssc s''
     \<and> ssc_heap s'' = (ssc_heap s')(p \<mapsto> r\<lparr>op_callstate := op_callstate r OR opc_sent\<rparr>)
     \<and> requests (io_out s'') = requests (io_out s')
         @ [Nua_respond (op_handle r) (ssc_ans_status s') (ssc_ans_phrase s') (sdp_tags t)]
     \<and> sm_handlers s'' = sm_handlers s' \<and> sm_state s'' = sm_state s' \<and> local_text E s'' = Some t)"
    by (rule cb_answer) (use 1 assms in \<open>auto simp: opc_defs\<close>)
  moreover have "opc_recv OR opc_sent = opc_complete" by (simp add: opc_defs)
  ultimately show ?case
    using 1 assms by (auto simp: run_single elim!: ok_mono)
qed

lemma unanswered_op:
  assumes "wf_ssc s" "ssc_oper_find_unanswered s = Inr (Some p)"
  obtains r where "ssc_heap s p = Some r" "op_callstate r = opc_recv"
proof -
  have "ok (ssc_oper_find_unanswered s) (\<lambda>x. \<forall>q. x = Some q \<longrightarrow> (\<exists>r. ssc_heap s q = Some r \<and> op_callstate r = opc_recv))"
    unfolding ssc_oper_find_unanswered_def by (rule ok_find [OF assms(1)]) auto
  with assms(2) show thesis by (auto intro: that)
qed

text \<open>
  Accepting a call (C8). With an unanswered call, no closure connected to the media signal, the media subsystem
  not active, and a local description the library can parse and print (\<open>sdp_env_ok\<close>, \<open>local_ok\<close>), answering
  with a 2xx status activates the media subsystem and from its signal sends exactly one response, on the
  handle of the call, with the given status and phrase and the local description; the call becomes
  \<open>opc_complete\<close>. If the media subsystem were active already, its signal would not be emitted and nothing sent.
\<close>

theorem answer_accepts:
  assumes "wf_ssc s" "ssc_oper_find_unanswered s = Inr (Some p)" "200 \<le> status" "status < 300"
    and "sm_handlers s = []" "sm_state s \<noteq> sm_active" "sdp_env_ok E" "local_ok s"
  shows "ok (ssc_answer E status phrase s) (\<lambda>s'. \<exists>sdp. local_text E s' = Some sdp
     \<and> requests (io_out s') = requests (io_out s)
         @ [Nua_respond (op_handle (info (ssc_heap s) p)) status phrase (sdp_tags sdp)]
     \<and> op_callstate (info (ssc_heap s') p) = opc_complete
     \<and> sm_state s' = sm_active \<and> sm_handlers s' = [p] \<and> wf_ssc s')"
proof -
  obtain r where r: "ssc_heap s p = Some r" "op_callstate r = opc_recv"
    by (rule unanswered_op [OF assms(1,2)])
  let ?s1 = "s\<lparr>ssc_ans_status := status, ssc_ans_phrase := phrase, sm_handlers := [p]\<rparr>"
  have "ok (media_activate E ?s1) (\<lambda>(res, s'). res = 0 \<and> wf_ssc s'
     \<and> ssc_heap s' = (ssc_heap ?s1)(p \<mapsto> r\<lparr>op_callstate := opc_complete\<rparr>)
     \<and> (\<exists>t. local_text E s' = Some t
          \<and> requests (io_out s') = requests (io_out ?s1)
              @ [Nua_respond (op_handle r) (ssc_ans_status ?s1) (ssc_ans_phrase ?s1) (sdp_tags t)])
     \<and> sm_handlers s' = [p] \<and> sm_state s' = sm_active)"
    by (rule activate_recv) (use assms r in \<open>auto simp: local_ok_def\<close>)
  with assms r show ?thesis
    by (auto simp: ssc_answer_def Let_def info_sel elim!: ok_mono)
qed

lemma ok_disconnect:
  assumes "wf_ssc s" "ssc_heap s p = Some r"
    and "\<And>s'. wf_ssc s' \<Longrightarrow> dom (ssc_heap s') = dom (ssc_heap s) - {p} \<Longrightarrow>
      sm_handlers s' = filter (\<lambda>h. h \<noteq> p) (sm_handlers s) \<Longrightarrow> requests (io_out s') = requests (io_out s) \<Longrightarrow> Q s'"
  shows "ok (priv_destroy_oper_with_disconnect p s) Q"
proof -
  let ?s1 = "s\<lparr>sm_handlers := filter (\<lambda>h. h \<noteq> p) (sm_handlers s)\<rparr>"
  have w: "wf_ssc ?s1" using assms(1) by simp
  then obtain ps where o: "opers ?s1 ps" by (rule wfE)
  have p: "p \<in> set ps" using opers_dom [OF o] assms(2) by auto
  have d: "p \<in> dom (ssc_heap ?s1)" using assms(2) by auto
  show ?thesis
    unfolding priv_destroy_oper_with_disconnect_def
  proof (rule ok_mono [OF ok_conj [OF ssc_oper_destroy_ok [OF o p] wf_ssc_destroy [OF w d]]], elim conjE)
    fix s' assume s': "destroyed p ps ?s1 s'" "wf_ssc s'" "dom (ssc_heap s') = dom (ssc_heap ?s1) - {p}"
    have "oper_rest s' = oper_rest ?s1" "requests (io_out s') = requests (io_out ?s1)"
      using s'(1) by (auto simp: destroyed_def closing_def split: option.split)
    with s' show "Q s'" using oper_restD(5) [of s' ?s1] by (intro assms(3)) simp_all
  qed
qed

text \<open>
  Declining a call. Any other status is sent as it is, on the handle of the unanswered call; the
  call is removed, its memory released, its closure disconnected and its handle destroyed.
\<close>

theorem answer_declines:
  assumes "wf_ssc s" "ssc_oper_find_unanswered s = Inr (Some p)" "\<not> (200 \<le> status \<and> status < 300)"
  shows "ok (ssc_answer E status phrase s) (\<lambda>s'. wf_ssc s' \<and> dom (ssc_heap s') = dom (ssc_heap s) - {p}
     \<and> sm_handlers s' = filter (\<lambda>h. h \<noteq> p) (sm_handlers s)
     \<and> requests (io_out s') = requests (io_out s) @ [Nua_respond (op_handle (info (ssc_heap s) p)) status phrase []])"
proof -
  obtain r where r: "ssc_heap s p = Some r" "op_callstate r = opc_recv"
    by (rule unanswered_op [OF assms(1,2)])
  have s: "\<not> (200 \<le> status \<and> status < 300)" by (rule assms(3))
  show ?thesis
    unfolding ssc_answer_def assms(2) andthen_simps option.case Let_def if_not_P [OF s]
    by (simp add: r info_sel, rule ok_disconnect) (use assms(1) r in simp_all)
qed

text \<open>The descriptions of a call state event: one of our own comes with an offer or answer sent, one of the peer's
  with an offer or answer received. \<open>ssc_i_state\<close> gives up on any other event (\<open>g_return_if_fail\<close>).\<close>

definition sdp_marked :: "tags \<Rightarrow> bool" where
  "sdp_marked t \<longleftrightarrow>
     (t_local_sdp t \<noteq> None \<longrightarrow> tl_gets (t_answer_sent t) 0 \<noteq> 0 \<or> tl_gets (t_offer_sent t) 0 \<noteq> 0)
     \<and> (t_remote_sdp t \<noteq> None \<longrightarrow> tl_gets (t_answer_recv t) 0 \<noteq> 0 \<or> tl_gets (t_offer_recv t) 0 \<noteq> 0)"

lemma state_sdp_marked:
  assumes "wf_ssc s" "sdp_marked t"
  shows "ok (state_sdp E t s) (\<lambda>(go_on, s'). go_on \<and> media_keep s s')"
  using assms wf_media_ok [OF assms(1)]
  by (cases "t_local_sdp t"; cases "t_remote_sdp t")
     (auto simp: state_sdp_def sdp_marked_def Let_def media_keep_refl intro!: ok_set_property
       intro: media_keep_trans media_keep_wf)

lemma media_keep_requests: "media_keep s s' \<Longrightarrow> requests (io_out s') = requests (io_out s)"
proof -
  have "requests (map Print ts) = []" for ts by (induction ts) simp_all
  then show "media_keep s s' \<Longrightarrow> ?thesis" by (auto simp: media_keep_def media_frame_def)
qed

lemma state_terminated_cleans:
  assumes "wf_ssc s" "p \<in> dom (ssc_heap s)"
  shows "ok (state_terminated (Some p) s) (\<lambda>s'. wf_ssc s' \<and> dom (ssc_heap s') = dom (ssc_heap s) - {p}
     \<and> p \<notin> set (sm_handlers s') \<and> sm_state s' = sm_disabled \<and> requests (io_out s') = requests (io_out s))"
proof -
  from assms(2) obtain r where r: "ssc_heap s p = Some r" by auto
  have "wf_ssc (s\<lparr>ssc_heap := (ssc_heap s)(p \<mapsto> r\<lparr>op_callstate := 0\<rparr>)\<rparr>)"
    by (rule wf_ssc_upd) (use assms r in \<open>auto simp: oper_ok_def\<close>)
  with assms r show ?thesis
    by (simp add: state_terminated_def Let_def, intro ok_disconnect)
       (simp_all add: ssc_media_is_initialized_def ssc_media_deactivate_def priv_deactivate_base_def)
qed

text \<open>
  The end of a call (C10). When the stack reports the call state \<open>terminated\<close> for an operation, with or
  without session descriptions (each marked as sent or received in an offer or answer), the
  operation is removed from the list and from memory, none of its closures stays connected, the media
  subsystem is disabled, no request goes out, and the application is told.
\<close>

theorem terminated_cleans_up:
  assumes "wf_ssc s" "p \<in> dom (ssc_heap s)" "t_callstate t = Some nua_callstate_terminated" "sdp_marked t"
  shows "ok (ssc_i_state E (Some p) t s) (\<lambda>s'. wf_ssc s' \<and> dom (ssc_heap s') = dom (ssc_heap s) - {p}
     \<and> p \<notin> set (sm_handlers s') \<and> sm_state s' = sm_disabled \<and> requests (io_out s') = requests (io_out s)
     \<and> (ssc_call_state_cb s' \<longrightarrow> last (io_out s') = Call_call_state_cb (Some p) (int nua_callstate_terminated)))"
  unfolding ssc_i_state_def if_not_P [OF option.distinct(2)]
proof (rule ok_andthenI [OF state_sdp_marked [OF assms(1,4)]], clarify, goal_cases)
  case (1 go_on s1)
  note keep = media_keep_wf [OF 1(2) assms(1)] media_keep_requests [OF 1(2)]
  have "p \<in> dom (ssc_heap s1)" using assms(2) keep(2) by simp
  from state_terminated_cleans [OF keep(1) this] show ?case
    using 1(1) assms(3) keep(2,6) by (auto simp: tl_gets_def nua_callstate_defs Let_def elim!: ok_mono)
qed

section \<open>When the closures are safe\<close>

text \<open>Every operation connected to the media signal is live and will not be evicted by a new one.\<close>

definition handlers_kept :: "ssc \<Rightarrow> bool" where
  "handlers_kept s \<longleftrightarrow> (\<forall>h \<in> set (sm_handlers s). h \<in> dom (ssc_heap s) \<and> keep (ssc_heap s) h)"

lemma cb_total:
  assumes "wf_ssc s" "p \<in> dom (ssc_heap s)" "local_text E s \<noteq> None" "sm_state s = sm_active"
  shows "ok (priv_media_state_cb E sm_active p s) (\<lambda>s'. wf_ssc s' \<and> dom (ssc_heap s') = dom (ssc_heap s)
     \<and> sm_handlers s' = sm_handlers s \<and> local_text E s' \<noteq> None \<and> sm_state s' = sm_active)"
proof -
  from assms(2) obtain r where r: "ssc_heap s p = Some r" by auto
  from assms(3) obtain t where t: "local_text E s = Some t" by auto
  show ?thesis
  proof (cases "op_callstate r AND opc_pending = 0")
    case False
    with cb_pending [OF assms(1) r _ assms(4) t] show ?thesis
      by (auto simp: r elim!: ok_mono split: if_splits)
  next
    case True
    with r t assms(1,4) show ?thesis
      unfolding priv_media_state_cb_def media_ready_answer_def Let_def
      by (auto simp: insert_absorb oper_ok_def intro!: ok_get_text wf_ssc_upd)
  qed
qed

lemma run_total:
  "wf_ssc s \<Longrightarrow> set (sm_handlers s) \<subseteq> dom (ssc_heap s) \<Longrightarrow> local_text E s \<noteq> None \<Longrightarrow> sm_state s = sm_active \<Longrightarrow>
   ok (run_handlers E sm_active hs s) (\<lambda>s'. wf_ssc s' \<and> dom (ssc_heap s') = dom (ssc_heap s))"
proof (induction hs arbitrary: s)
  case (Cons h hs)
  show ?case
  proof (cases "h \<in> set (sm_handlers s)")
    case True
    then have "h \<in> dom (ssc_heap s)" using Cons.prems(2) by auto
    note cb = cb_total [OF Cons.prems(1) this Cons.prems(3,4)]
    have "ok (andthen (priv_media_state_cb E sm_active h s) (run_handlers E sm_active hs))
        (\<lambda>s'. wf_ssc s' \<and> dom (ssc_heap s') = dom (ssc_heap s))"
      by (rule ok_andthenI [OF cb], elim conjE, rule ok_mono [OF Cons.IH]) (use Cons.prems(2) in simp_all)
    with True show ?thesis by simp
  qed (use Cons in simp)
qed simp

lemma activate_total:
  assumes "wf_ssc s" "set (sm_handlers s) \<subseteq> dom (ssc_heap s)" "sdp_env_ok E" "local_ok s"
  shows "ok (media_activate E s) (\<lambda>(res, s'). res = 0 \<and> wf_ssc s' \<and> dom (ssc_heap s') = dom (ssc_heap s))"
  unfolding media_activate_def ok_simps
proof (rule ok_activate [OF assms(1,3,4)], goal_cases)
  case (1 s' t)
  then have "ok (run_handlers E sm_active (sm_handlers s') s') (\<lambda>s''. wf_ssc s'' \<and> dom (ssc_heap s'') = dom (ssc_heap s'))"
    using assms(2) by (intro run_total) auto
  with 1 show ?case by (auto elim!: ok_mono)
qed

lemma ok_reading_live: "p \<in> dom h \<Longrightarrow> (\<And>r. h p = Some r \<Longrightarrow> Q r) \<Longrightarrow> ok (deref h (Some p)) Q"
  by auto

lemma answer_total:
  assumes "wf_ssc s" "set (sm_handlers s) \<subseteq> dom (ssc_heap s)" "sdp_env_ok E" "local_ok s"
  shows "ok (ssc_answer E status phrase s) wf_ssc"
  unfolding ssc_answer_def ok_simps find_defs
proof (rule ok_find [OF assms(1)], goal_cases)
  case (1 p r)
  let ?s = "s\<lparr>ssc_ans_status := status, ssc_ans_phrase := phrase\<rparr>"
  have "ok (media_activate E (?s\<lparr>sm_handlers := sm_handlers s @ [p]\<rparr>))
      (\<lambda>(res, s'). res = 0 \<and> wf_ssc s' \<and> dom (ssc_heap s') = dom (ssc_heap s))"
    by (rule ok_mono [OF activate_total]) (use 1 assms in \<open>auto simp: local_ok_def\<close>)
  with 1 assms(1) show ?case
    by (auto simp: Let_def elim!: ok_mono intro!: ok_disconnect)
qed (use assms in simp)

lemma announce_total:
  assumes "wf_ssc s" "p \<in> dom (ssc_heap s)" "set (sm_handlers s) \<subseteq> dom (ssc_heap s)" "sdp_env_ok E" "local_ok s"
  shows "ok (announce_call E p to subj s) wf_ssc"
proof -
  from assms(2) obtain r where "ssc_heap s p = Some r" by auto
  with assms show ?thesis
    by (auto simp: announce_call_def Let_def intro!: answer_total split: option.split)
qed

lemma kept_after:
  assumes "handlers_kept s" "oper_step r s s'"
  shows "handlers_kept s'" "local_ok s' = local_ok s"
  using assms oper_restD [of s' s] by (auto simp: handlers_kept_def oper_step_def local_ok_def)

lemma kept_live: "handlers_kept s \<Longrightarrow> set (sm_handlers s) \<subseteq> dom (ssc_heap s)"
  by (auto simp: handlers_kept_def)

lemma announce_stored:
  assumes "wf_ssc s" "ssc_heap s p = Some r" "handlers_kept s" "sdp_env_ok E" "local_ok s"
  shows "ok (announce_call E p to subj (s\<lparr>ssc_heap := (ssc_heap s)(p \<mapsto> r\<lparr>op_callstate := c\<rparr>)\<rparr>)) wf_ssc"
proof (rule announce_total)
  show "wf_ssc (s\<lparr>ssc_heap := (ssc_heap s)(p \<mapsto> r\<lparr>op_callstate := c\<rparr>)\<rparr>)"
    by (rule wf_ssc_upd) (use assms in \<open>auto simp: oper_ok_def\<close>)
qed (use assms kept_live [OF assms(3)] in auto)

lemma i_invite_total:
  assumes "wf_ssc s" "op_ok op s" "handlers_kept s" "sdp_env_ok E" "local_ok s"
  shows "ok (ssc_i_invite E nh op sip s) wf_ssc"
proof (cases op)
  case (Some p)
  then obtain r where "ssc_heap s p = Some r" using assms(2) by (auto simp: op_ok_def)
  with Some assms announce_stored [OF assms(1) this assms(3-5)] show ?thesis
    by (auto simp: ssc_i_invite_def split: option.split)
next
  case None
  have "ok (ssc_oper_create_with_handle E sip_method_invite (Some ''INVITE'') nh frm s) (\<lambda>(op, s).
      ok (case op of
            Some p \<Rightarrow> andthen (store op (\<lambda>r. r\<lparr>op_callstate := opc_recv\<rparr>) s) (announce_call E p to subj)
          | None \<Rightarrow> Inr (emit (Nua_handle_destroy nh)
                              (emit (Nua_respond (Some nh) 500 ''Internal Server Error'' []) s))) wf_ssc)"
    for frm to subj
  proof (rule ok_create_with_handle [OF assms(1)], clarify, goal_cases)
    case (1 r s1)
    note st = 1 and k = kept_after [OF assms(3) 1]
    show ?case
    proof (cases r)
      case None
      then show ?thesis using oper_stepD(1) [OF st] by simp
    next
      case (Some p)
      with st obtain x where x: "wf_ssc s1" "ssc_heap s1 p = Some x" by (auto elim: oper_step_SomeE)
      show ?thesis using Some x announce_stored [OF x k(1) assms(4)] k(2) assms(5) by simp
    qed
  qed
  then show ?thesis
    using None assms(1) by (simp add: ssc_i_invite_def split: option.split)
qed

lemma invite_total:
  assumes "wf_ssc s" "handlers_kept s" "sdp_env_ok E" "local_ok s"
  shows "ok (ssc_invite E d s) wf_ssc"
  unfolding ssc_invite_def ok_simps
proof (rule ok_create [OF assms(1)], clarify, goal_cases)
  case (1 op s1)
  note st = 1 and k = kept_after [OF assms(2) 1]
  show ?case
  proof (cases op)
    case None
    then show ?thesis using oper_stepD(1) [OF st] by simp
  next
    case (Some p)
    with st obtain x where x: "wf_ssc s1" "ssc_heap s1 p = Some x" by (auto elim: oper_step_SomeE)
    let ?s2 = "s1\<lparr>ssc_heap := (ssc_heap s1)(p \<mapsto> x\<lparr>op_callstate := op_callstate x OR opc_pending\<rparr>),
        sm_handlers := sm_handlers s1 @ [p]\<rparr>"
    have "wf_ssc ?s2" by (simp, rule wf_ssc_upd) (use x in \<open>auto simp: oper_ok_def\<close>)
    then have "ok (media_activate E ?s2) (\<lambda>(res, s'). res = 0 \<and> wf_ssc s' \<and> dom (ssc_heap s') = dom (ssc_heap ?s2))"
      by (rule activate_total) (use kept_live [OF k(1)] k(2) x assms in auto)
    with Some x show ?thesis by (auto elim!: ok_mono)
  qed
qed

text \<open>
  Calls do not crash (C11). If every operation connected to the media signal is live and in a call (or
  persistent), the library can print descriptions, and the local description is not a failed parse
  without text, then placing a call, answering one and receiving one run to their end and leave the
  client well-formed.
\<close>

theorem calls_no_crash:
  assumes "reachable E P s" "handlers_kept s" "sdp_env_ok E" "local_ok s" "op_ok op s"
  shows "ok (ssc_invite E d s) wf_ssc \<and> ok (ssc_answer E status phrase s) wf_ssc
       \<and> ok (ssc_i_invite E nh op sip s) wf_ssc"
proof -
  note w = reachable_inv [OF assms(1)]
  show ?thesis
    using invite_total [OF w assms(2-4)] answer_total [OF w kept_live [OF assms(2)] assms(3,4)]
      i_invite_total [OF w assms(5,2-4)] by blast
qed

lemma sdp_env_ok_demo: "sdp_env_ok demo_env"
  by (simp add: sdp_env_ok_def demo_env_def sdp_parsing_error_def ssc_media_static_capabilities_def
      priv_static_capabilities_base_def)

lemma demo_ssc_sel:
  "sm_handlers demo_ssc = []" "ssc_heap demo_ssc = Map.empty" "sm_sdp_local demo_ssc = None"
  "sm_state demo_ssc = sm_init" "ssc_operations demo_ssc = None" "next_handle demo_ssc = Some 11"
  "fst (su_zalloc demo_ssc) = Some 1" "requests (io_out demo_ssc) = []"
  by (simp_all add: demo_ssc_def zero_ssc_def next_handle_def su_zalloc_def requests_def)

theorem calls_no_crash_witness:
  "handlers_kept demo_ssc \<and> sdp_env_ok demo_env \<and> local_ok demo_ssc \<and> op_ok None demo_ssc
   \<and> ok (ssc_invite demo_env (Some ''sip:bob'') demo_ssc) wf_ssc"
  using calls_no_crash [OF demo_reachable, of None] sdp_env_ok_demo
  by (simp add: handlers_kept_def local_ok_def op_ok_def demo_ssc_sel)

section \<open>A closure left behind\<close>

lemma crash_andthen: "ok m Q \<Longrightarrow> (\<And>x. Q x \<Longrightarrow> f x = Inl e) \<Longrightarrow> andthen m f = Inl e"
  by (auto simp: ok_iff)

lemma activate_stale:
  assumes "wf_ssc s" "sdp_env_ok E" "local_ok s" "sm_handlers s = h # hs" "ssc_heap s h = None"
    and "sm_state s \<noteq> sm_active"
  shows "media_activate E s = Inl Use_after_free"
proof -
  have "ok (ssc_media_activate E s)
      (\<lambda>(res, sig, s'). sig \<and> ssc_heap s' = ssc_heap s \<and> sm_handlers s' = sm_handlers s)"
    by (rule ok_activate [OF assms(1-3)]) (use assms(6) in simp)
  then show ?thesis
    unfolding media_activate_def
    by (rule crash_andthen) (use assms in \<open>auto simp: priv_media_state_cb_def\<close>)
qed

lemma invite_stale:
  assumes "wf_ssc s" "e_sip_to_make E addr = Some to" "url_sanitize (a_url to) = Some u" "fst (su_zalloc s) = Some p"
    and "sm_handlers s = h # hs" "ssc_heap s h = None" "h \<noteq> p" "sm_state s \<noteq> sm_active" "sdp_env_ok E" "local_ok s"
  shows "ssc_invite E (Some addr) s = Inl Use_after_free"
proof -
  have "ok (ssc_oper_create E sip_method_invite (Some ''INVITE'') (Some addr) [] s) (\<lambda>(op, s1). op = Some p
      \<and> wf_ssc s1 \<and> (\<exists>r. ssc_heap s1 p = Some r) \<and> ssc_heap s1 h = None \<and> sm_handlers s1 = h # hs
      \<and> sm_state s1 \<noteq> sm_active \<and> local_ok s1)"
    by (rule ok_create_invite [OF assms(1-4)]) (use assms(5-) in auto)
  then show ?thesis
    unfolding ssc_invite_def
  proof (rule crash_andthen, clarify, goal_cases)
    case (1 op s1 r)
    let ?s2 = "s1\<lparr>ssc_heap := (ssc_heap s1)(p \<mapsto> r\<lparr>op_callstate := op_callstate r OR opc_pending\<rparr>),
        sm_handlers := sm_handlers s1 @ [p]\<rparr>"
    have "wf_ssc ?s2" by (simp, rule wf_ssc_upd) (use 1 in \<open>auto simp: oper_ok_def\<close>)
    then have "media_activate E ?s2 = Inl Use_after_free"
      by (rule activate_stale [where h = h and hs = "hs @ [p]"]) (use 1 assms in auto)
    with 1 show ?case by (simp add: store_live)
  qed
qed

text \<open>Hanging up leaves the operation idle; a message then evicts it without disconnecting it.\<close>

lemma bye_eq:
  assumes "opers s (p # ps)" "ssc_heap s p = Some r" "op_callstate r \<noteq> 0"
  shows "ssc_bye s = Inr ((emit (Nua_request nua_bye (op_handle r) []) (say ['': BYE to '', pstr (op_ident r), nl] s))
           \<lparr>ssc_heap := (ssc_heap s)(p \<mapsto> r\<lparr>op_callstate := 0\<rparr>)\<rparr>)"
  using assms find_oper_opers [OF assms(1)]
  by (simp add: ssc_bye_def ssc_oper_find_call_def store_live Let_def)

lemma message_evicts:
  assumes "wf_ssc s" "opers s [p]" "\<not> keep (ssc_heap s) p" "e_sip_to_make E addr = Some to"
    and "url_sanitize (a_url to) = Some u" "fst (su_zalloc s) = Some q"
  shows "ok (ssc_message E (Some addr) msg s) (\<lambda>s'. wf_ssc s' \<and> ssc_heap s' p = None \<and> sm_state s' = sm_disabled
     \<and> sm_handlers s' = sm_handlers s \<and> local_ok s' = local_ok s)"
proof -
  have ev: "evicted sip_method_message (ssc_heap s) [p] = [p]"
    using assms(3) by (simp add: evicted_def persistent_method_def)
  have "ok (ssc_oper_create E sip_method_message (Some ''MESSAGE'') (Some addr) [] s) (\<lambda>(op, s').
      op = Some q \<and> q \<in> dom (ssc_heap s') \<and> wf_ssc s' \<and> ssc_heap s' p = None \<and> sm_state s' = sm_disabled
      \<and> sm_handlers s' = sm_handlers s \<and> local_ok s' = local_ok s)"
  proof (rule ok_mono [OF ok_conj [OF ssc_oper_create_ok [OF assms(2,4,5)] wf_ssc_create [OF assms(1)]]],
      clarsimp simp: assms(6) ev, goal_cases)
    case (1 s')
    have o: "opers s' [q]" "q \<noteq> p" "oper_rest s' = oper_rest s" "sm_state s' = sm_disabled"
      using 1(2) by (auto simp: created_def)
    have "local_ok s' = local_ok s" "sm_handlers s' = sm_handlers s"
      using oper_restD [OF o(3)] by (simp_all add: local_ok_def)
    moreover have "dom (ssc_heap s') = {q}" using opers_dom [OF o(1)] by simp
    ultimately show ?case using o oper_stepD(1) [OF 1(1)] by auto
  qed
  then show ?thesis
    unfolding ssc_message_def ok_simps by (rule ok_mono) (auto simp: Let_def local_ok_def)
qed

text \<open>
  A closure that outlives its operation. In a call, hang up, then send a message: the message
  evicts the idle call without disconnecting its closure, and the next call calls it with the released
  operation. (If the allocator happens to return the same address, the closure acts on the new
  operation instead.)
\<close>

theorem closure_outlives_operation:
  assumes "wf_ssc s" "opers s [p]" "op_callstate (info (ssc_heap s) p) \<noteq> 0" "\<not> op_persistent (info (ssc_heap s) p)"
    and "sm_handlers s = [p]" "e_sip_to_make E addr = Some to" "url_sanitize (a_url to) = Some u"
    and "fst (su_zalloc s) = Some q" "sdp_env_ok E" "local_ok s"
  shows "ok (andthen (ssc_bye s) (ssc_message E (Some addr) msg)) (\<lambda>s2.
     wf_ssc s2 \<and> sm_handlers s2 = [p] \<and> p \<notin> dom (ssc_heap s2) \<and>
     (\<forall>b. fst (su_zalloc s2) = Some b \<and> b \<noteq> p \<longrightarrow> ssc_invite E (Some addr) s2 = Inl Use_after_free))"
proof -
  obtain r where r: "ssc_heap s p = Some r" using opers_live [OF assms(2)] by auto
  let ?s1 = "(emit (Nua_request nua_bye (op_handle r) []) (say ['': BYE to '', pstr (op_ident r), nl] s))
           \<lparr>ssc_heap := (ssc_heap s)(p \<mapsto> r\<lparr>op_callstate := 0\<rparr>)\<rparr>"
  have bye: "ssc_bye s = Inr ?s1"
    by (rule bye_eq [OF assms(2) r]) (use assms(3) r in \<open>simp add: info_sel\<close>)
  have w: "wf_ssc ?s1" by (simp, rule wf_ssc_upd) (use assms(1) r in \<open>auto simp: oper_ok_def\<close>)
  have o: "opers ?s1 [p]" using assms(2) r opers_upd_data [of s p r "r\<lparr>op_callstate := 0\<rparr>" "[p]"]
    by (simp add: opers_def)
  have k: "\<not> keep (ssc_heap ?s1) p" using assms(4) r by (simp add: keep_def info_sel)
  have z: "fst (su_zalloc ?s1) = Some q"
    using assms(8) r by (auto simp: su_zalloc_def split: list.splits option.splits if_splits)
  have "ok (ssc_message E (Some addr) msg ?s1) (\<lambda>s'. wf_ssc s' \<and> ssc_heap s' p = None \<and> sm_state s' = sm_disabled
     \<and> sm_handlers s' = sm_handlers ?s1 \<and> local_ok s' = local_ok ?s1)"
    by (rule message_evicts [OF w o k assms(6,7) z])
  then show ?thesis
    unfolding bye andthen_simps
    by (rule ok_mono) (use assms invite_stale [OF _ assms(6,7)] in \<open>auto simp: domIff\<close>)
qed

section \<open>Examples\<close>

definition demo_call :: "callstate \<Rightarrow> ssc" where
  "demo_call cs = demo_idle\<lparr>ssc_heap := [5 \<mapsto> demo_oper sip_method_invite ''INVITE'' 25 cs], ssc_operations := Some 5\<rparr>"

lemma opers_demo_call: "opers (demo_call cs) [5]"
  by (auto simp: opers_def demo_call_def demo_oper_def zero_oper_def)

lemma wf_demo_call: "wf_ssc (demo_call cs)"
  using opers_demo_call [of cs]
  by (auto simp: wf_ssc_def demo_call_def oper_ok_def media_ok_def demo_simps)

lemma demo_call_sel:
  "ssc_heap (demo_call cs) 5 = Some (demo_oper sip_method_invite ''INVITE'' 25 cs)"
  "sm_handlers (demo_call cs) = []" "sm_state (demo_call cs) = sm_init" "sm_sdp_local (demo_call cs) = None"
  "fst (su_zalloc (demo_call cs)) = Some 1"
  by (simp_all add: demo_call_def demo_idle_def su_zalloc_def)

lemma demo_to_make:
  "e_sip_to_make demo_env ''sip:bob'' = Some (demo_addr ''sip:bob'')"
  "url_sanitize (a_url (demo_addr ''sip:bob'')) = Some (a_url (demo_addr ''sip:bob''))"
  by (simp_all add: demo_env_def)

theorem invite_sends_offer_witness:
  "ok (ssc_invite demo_env (Some ''sip:bob'') demo_ssc) (\<lambda>s'. \<exists>sdp.
     requests (io_out s') = [Nua_request nua_invite (Some 11) (sdp_tags sdp)]
     \<and> op_callstate (info (ssc_heap s') 1) = opc_sent \<and> sm_handlers s' = [1])"
proof -
  have "wf_ssc demo_ssc" by (rule reachable_inv [OF demo_reachable])
  from invite_sends_offer [OF this demo_to_make demo_ssc_sel(7,1) _ sdp_env_ok_demo] show ?thesis
    by (auto simp: demo_ssc_sel local_ok_def elim!: ok_mono)
qed

theorem second_invite_never_sent_witness:
  "ok (ssc_invite demo_env (Some ''sip:bob'') (demo_ssc\<lparr>sm_state := sm_active\<rparr>)) (\<lambda>s'.
     requests (io_out s') = [] \<and> op_callstate (info (ssc_heap s') 1) = opc_pending)"
proof -
  have w: "wf_ssc (demo_ssc\<lparr>sm_state := sm_active\<rparr>)" using reachable_inv [OF demo_reachable] by simp
  have z: "fst (su_zalloc (demo_ssc\<lparr>sm_state := sm_active\<rparr>)) = Some 1"
    by (simp add: su_zalloc_def demo_ssc_def zero_ssc_def)
  from second_invite_never_sent [OF w demo_to_make z _ sdp_env_ok_demo] show ?thesis
    by (auto simp: demo_ssc_sel local_ok_def elim!: ok_mono)
qed

lemma demo_unanswered: "ssc_oper_find_unanswered (demo_call opc_recv) = Inr (Some 5)"
  unfolding ssc_oper_find_unanswered_def find_oper_opers [OF opers_demo_call]
  by (simp add: demo_call_sel demo_oper_def)

lemma demo_call_handle: "op_handle (info (ssc_heap (demo_call cs)) 5) = Some 25"
  by (simp add: info_sel demo_call_sel demo_oper_def)

theorem answer_accepts_witness:
  "ok (ssc_answer demo_env 200 ''OK'' (demo_call opc_recv)) (\<lambda>s'. \<exists>sdp.
     requests (io_out s') = [Nua_respond (Some 25) 200 ''OK'' (sdp_tags sdp)]
     \<and> op_callstate (info (ssc_heap s') 5) = opc_complete)"
proof -
  have "requests (io_out (demo_call opc_recv)) = []" by (simp add: demo_call_def demo_idle_def)
  with answer_accepts [OF wf_demo_call demo_unanswered _ _ demo_call_sel(2) _ sdp_env_ok_demo, of 200 "''OK''"]
  show ?thesis by (auto simp: demo_call_sel demo_call_handle local_ok_def elim!: ok_mono)
qed

theorem answer_declines_witness:
  "ok (ssc_answer demo_env 603 ''Decline'' (demo_call opc_recv)) (\<lambda>s'. dom (ssc_heap s') = {}
     \<and> requests (io_out s') = [Nua_respond (Some 25) 603 ''Decline'' []])"
proof -
  have "requests (io_out (demo_call opc_recv)) = []" "dom (ssc_heap (demo_call opc_recv)) = {5}"
    by (simp_all add: demo_call_def demo_idle_def)
  with answer_declines [OF wf_demo_call demo_unanswered, of 603 demo_env "''Decline''"] show ?thesis
    by (auto simp: demo_call_handle simp del: dom_eq_empty_conv elim!: ok_mono)
qed

definition demo_tags :: tags where
  "demo_tags = \<lparr>t_callstate = Some nua_callstate_terminated, t_offer_recv = None, t_answer_recv = None, t_offer_sent = None,
     t_answer_sent = None, t_local_sdp = None, t_remote_sdp = None, t_active_audio = None, t_active_video = None,
     t_active_chat = None, t_handle = None, t_from = None, t_www_authenticate = None, t_proxy_authenticate = None,
     t_text = []\<rparr>"

theorem terminated_cleans_up_witness:
  "ok (ssc_i_state demo_env (Some 5) (demo_tags\<lparr>t_remote_sdp := Some ''v=0'', t_answer_recv := Some 1\<rparr>)
         (demo_call opc_active)) (\<lambda>s'. dom (ssc_heap s') = {} \<and> sm_state s' = sm_disabled)"
proof -
  let ?t = "demo_tags\<lparr>t_remote_sdp := Some ''v=0'', t_answer_recv := Some 1\<rparr>"
  have "dom (ssc_heap (demo_call opc_active)) = {5}" by (simp add: demo_call_def)
  moreover have "sdp_marked ?t" by (simp add: sdp_marked_def tl_gets_def demo_tags_def)
  moreover have "t_callstate ?t = Some nua_callstate_terminated" by (simp add: demo_tags_def)
  ultimately show ?thesis
    using terminated_cleans_up [OF wf_demo_call, of 5 opc_active ?t demo_env]
    by (auto simp del: dom_eq_empty_conv elim!: ok_mono)
qed

theorem closure_outlives_operation_witness:
  "ok (andthen (ssc_bye ((demo_call opc_active)\<lparr>sm_handlers := [5]\<rparr>)) (ssc_message demo_env (Some ''sip:bob'') ''hi''))
     (\<lambda>s2. sm_handlers s2 = [5] \<and> 5 \<notin> dom (ssc_heap s2))"
proof -
  let ?s = "(demo_call opc_active)\<lparr>sm_handlers := [5]\<rparr>"
  have w: "wf_ssc ?s" using wf_demo_call by simp
  have o: "opers ?s [5]" using opers_demo_call [of opc_active] by (simp add: opers_def)
  have i: "op_callstate (info (ssc_heap ?s) 5) \<noteq> 0" "\<not> op_persistent (info (ssc_heap ?s) 5)"
    by (simp_all add: info_sel demo_call_sel demo_oper_def zero_oper_def opc_defs persistent_method_def)
  have z: "fst (su_zalloc ?s) = Some 1" by (simp add: su_zalloc_def demo_call_def demo_idle_def)
  from closure_outlives_operation [where msg = "''hi''", OF w o i _ demo_to_make z sdp_env_ok_demo] show ?thesis
    by (auto simp: local_ok_def demo_call_sel simp del: ok_simps elim!: ok_mono)
qed

text \<open>
  Answering a challenge. If the oldest pending challenge belongs to the operation at the head of
  the list, \<open>ssc_auth\<close> sends exactly one authentication, on the handle of that operation, with the
  credentials completed from the challenge: a bare password gets scheme, realm and user in front, a
  user and password get scheme and realm, anything else goes out as it is. The challenge is used up.
\<close>

theorem auth_answers_challenge:
  assumes "opers s (p # ps)" "ssc_auth_pend s = item # items" "ssc_op item = Some p"
  shows "ok (ssc_auth (Some d) s) (\<lambda>s'. ssc_auth_pend s' = items \<and> ssc_heap s' = ssc_heap s
     \<and> requests (io_out s') = requests (io_out s) @ [Nua_request nua_authenticate (op_handle (info (ssc_heap s) p))
         [NUTAG_AUTH
           (let colons = length (filter (\<lambda>c. c = CHR '':'') d) in
            if colons = 0 then concat [pstr (ssc_scheme item), '':'', pstr (ssc_realm item), '':'',
                                       pstr (ssc_username item), '':'', d]
            else if colons = 1 then concat [pstr (ssc_scheme item), '':'', pstr (ssc_realm item), '':'', d]
            else d)]])"
proof -
  obtain r where r: "ssc_heap s p = Some r" using opers_live [OF assms(1)] by auto
  have "ssc_oper_check s (Some p) = Inr (Some p)"
    using check_result [OF assms(1), of p] by simp
  with r assms show ?thesis
    by (simp add: ssc_auth_def Let_def info_sel auth_text_def priv_str_chr_count_def fmt_def requests_def)
qed

theorem auth_answers_challenge_witness:
  "ok (ssc_auth (Some ''secret'') ((demo_call opc_sent)\<lparr>ssc_auth_pend :=
      [\<lparr>ssc_scheme = Some ''Digest'', ssc_realm = Some ''ex'', ssc_username = Some ''alice'', ssc_op = Some 5\<rparr>]\<rparr>))
     (\<lambda>s'. ssc_auth_pend s' = [] \<and> requests (io_out s') =
        [Nua_request nua_authenticate (Some 25) [NUTAG_AUTH ''Digest:ex:alice:secret'']])"
proof -
  let ?i = "\<lparr>ssc_scheme = Some ''Digest'', ssc_realm = Some ''ex'', ssc_username = Some ''alice'', ssc_op = Some (5 :: ptr)\<rparr>"
  let ?s = "(demo_call opc_sent)\<lparr>ssc_auth_pend := [?i]\<rparr>"
  have o: "opers ?s [5]" using opers_demo_call [of opc_sent] by (simp add: opers_def)
  have "requests (io_out (demo_call opc_sent)) = []" by (simp add: demo_call_def demo_idle_def)
  with auth_answers_challenge [where d = "''secret''" and item = ?i and items = "[]", OF o] show ?thesis
    by (auto simp: demo_call_handle elim!: ok_mono)
qed

text \<open>
  A challenge that has gone stale. If the operation of the oldest pending challenge has been destroyed and
  the client still has another operation, answering reads released memory instead of reporting the
  challenge as stale.
\<close>

theorem auth_stale_challenge_crashes:
  assumes "opers s ps" "ps \<noteq> []" "ssc_auth_pend s = item # items" "ssc_op item = Some p" "p \<notin> set ps"
  shows "ssc_auth (Some d) s = Inl Use_after_free"
  using check_result [OF assms(1), of p] assms by (auto simp: ssc_auth_def)

theorem auth_stale_challenge_crashes_witness:
  "ssc_auth (Some ''secret'') ((demo_call opc_sent)\<lparr>ssc_auth_pend :=
      [\<lparr>ssc_scheme = Some ''Digest'', ssc_realm = None, ssc_username = None, ssc_op = Some 8\<rparr>]\<rparr>) = Inl Use_after_free"
proof -
  have "opers ((demo_call opc_sent)\<lparr>ssc_auth_pend :=
      [\<lparr>ssc_scheme = Some ''Digest'', ssc_realm = None, ssc_username = None, ssc_op = Some 8\<rparr>]\<rparr>) [5]"
    using opers_demo_call [of opc_sent] by (simp add: opers_def)
  from auth_stale_challenge_crashes [OF this] show ?thesis by simp
qed

text \<open>
  Listing the operations: after the heading, one line for each operation with an identity, newest
  first, with its method and remote end; nothing else changes.
\<close>

theorem list_prints_operations:
  assumes "opers s ps"
  shows "ssc_list s = Inr (s\<lparr>io_out := io_out s @ [Print (fmt [ssc_name s, '': listing active handles'', nl])]
     @ map (\<lambda>p. let r = info (ssc_heap s) p in
            Print (fmt [tab, pstr (sip_method_name (op_method r) (op_method_name r)), '' to '', pstr (op_ident r), nl]))
         (filter (\<lambda>p. op_ident (info (ssc_heap s) p) \<noteq> None) ps)\<rparr>)"
  using list_from_chain [of "say ['': listing active handles'', nl] s" "ssc_operations s" ps] opers_chain [OF assms]
  by (simp add: ssc_list_def list_lines_def info_sel emit_def Let_def)

theorem list_prints_operations_witness:
  "ssc_list (demo_call opc_active) = Inr ((demo_call opc_active)\<lparr>io_out :=
     [Print (fmt [''UA'', '': listing active handles'', nl]),
      Print (fmt [tab, ''INVITE'', '' to '', ''sip:bob@example.com'', nl])]\<rparr>)"
proof -
  have "op_ident (info (ssc_heap (demo_call opc_active)) 5) = Some ''sip:bob@example.com''"
    "op_method (info (ssc_heap (demo_call opc_active)) 5) = sip_method_invite"
    "ssc_name (demo_call opc_active) = ''UA''" "io_out (demo_call opc_active) = []"
    by (simp_all add: info_sel demo_call_sel demo_oper_def) (simp_all add: demo_call_def demo_idle_def)
  with list_prints_operations [OF opers_demo_call, of opc_active] show ?thesis
    by (simp add: sip_method_name_def)
qed

text \<open>
  The domain of an address. Of \<open>[sip:][user@]domain\<close>, optionally followed by a port or URI parameters,
  \<open>priv_parse_domain\<close> returns the domain; whatever the input, the result has no colon or semicolon.
\<close>

theorem parse_domain_correct:
  assumes "set dn \<inter> {CHR '';'', CHR '':'', CHR ''@''} = {}" "CHR ''@'' \<notin> set user"
    and "rest = [] \<or> hd rest \<in> {CHR '';'', CHR '':''}" "CHR ''@'' \<notin> set rest" "take 4 dn \<noteq> ''sip:''"
  shows "priv_parse_domain (''sip:'' @ user @ ''@'' @ dn @ rest) = dn
       \<and> priv_parse_domain (''sip:'' @ dn @ rest) = dn
       \<and> set (priv_parse_domain any) \<inter> {CHR '';'', CHR '':''} = {}"
proof -
  have t: "takeWhile (\<lambda>c. c \<noteq> CHR '';'' \<and> c \<noteq> CHR '':'') (dn @ rest) = dn"
    using assms(1,3) by (cases rest) (auto simp: takeWhile_append takeWhile_eq_all_conv)
  have d: "dropWhile (\<lambda>c. c \<noteq> CHR ''@'') (user @ CHR ''@'' # dn @ rest) = CHR ''@'' # dn @ rest"
    using assms(2) by (simp add: dropWhile_append)
  have n: "CHR ''@'' \<notin> set (dn @ rest)" using assms(1,4) by auto
  have "set (takeWhile (\<lambda>c. c \<noteq> CHR '';'' \<and> c \<noteq> CHR '':'') x) \<inter> {CHR '';'', CHR '':''} = {}" for x
    by (auto dest: set_takeWhileD)
  then show ?thesis
    using t d n by (simp add: priv_parse_domain_def Let_def)
qed

theorem parse_domain_correct_witness:
  "priv_parse_domain ''sip:bob@example.com:5060'' = ''example.com''"
  using parse_domain_correct [of "''example.com''" "''bob''" "'':5060''" "[]"] by simp

text \<open>
  Printing a body. A payload is followed by two line ends whatever it ends with: the test for a
  trailing line end can never succeed.
\<close>

theorem payload_always_two_line_ends:
  "ssc_print_payload (Some d) s = print [nl, nl] (print [d] (print [nl] s))
   \<and> ssc_print_payload None s = print [nl] s"
  by (auto simp: ssc_print_payload_def Let_def)

lemma find_register_op:
  assumes "wf_ssc s" "ssc_oper_find_by_method s m = Inr (Some p)"
  obtains r where "ssc_heap s p = Some r" "op_method r = m" "op_persistent r"
proof -
  have "ok (ssc_oper_find_by_method s m)
      (\<lambda>x. \<forall>q. x = Some q \<longrightarrow> (\<exists>r. ssc_heap s q = Some r \<and> op_method r = m \<and> op_persistent r))"
    unfolding ssc_oper_find_by_method_def by (rule ok_find [OF assms(1)]) auto
  with assms(2) show thesis by (auto intro: that)
qed

text \<open>
  Registering. Without a registrar and with a registration already there, exactly one REGISTER goes
  out on its handle and nothing else changes. Otherwise a new, persistent registration is added in front
  of the list, every other operation stays as it was, and exactly one REGISTER goes out on the new
  handle, to the given registrar if there is one.
\<close>

theorem register_refreshes_or_creates:
  assumes "wf_ssc s" "ssc_oper_find_by_method s sip_method_register = Inr old"
    and "ssc_address s = Some addr" "e_sip_to_make E addr = Some to" "url_sanitize (a_url to) = Some u"
    and "fst (su_zalloc s) = Some p"
  shows "ok (ssc_register E g s) (\<lambda>s'.
     if g = None \<and> old \<noteq> None
     then ssc_heap s' = ssc_heap s
        \<and> requests (io_out s') = requests (io_out s) @ [Nua_request nua_register (op_handle (info (ssc_heap s) (the old))) []]
     else dom (ssc_heap s') = insert p (dom (ssc_heap s)) \<and> ssc_operations s' = Some p
        \<and> op_method (info (ssc_heap s') p) = sip_method_register \<and> op_persistent (info (ssc_heap s') p)
        \<and> (\<forall>q \<in> dom (ssc_heap s). info (ssc_heap s') q = info (ssc_heap s) q)
        \<and> requests (io_out s') = requests (io_out s)
            @ [Nua_request nua_register (next_handle s)
                 ((case g of None \<Rightarrow> [] | Some r \<Rightarrow> [NUTAG_REGISTRAR r]) @ [NUTAG_M_FEATURES ''expires=180''])])"
proof (cases "g = None \<and> old \<noteq> None")
  case True
  then obtain q where q: "old = Some q" by auto
  with assms(2) obtain r where "ssc_heap s q = Some r" by (auto elim: find_register_op [OF assms(1)])
  with True q assms(2) show ?thesis by (simp add: ssc_register_def Let_def info_sel)
next
  case False
  from assms(1) obtain ps where o: "opers s ps" by (rule wfE)
  have new: "ssc_register E g s = andthen (ssc_oper_create E sip_method_register (Some ''REGISTER'') (Some addr) [] s)
      (\<lambda>(op, s). if op \<noteq> None then
         reading s op (\<lambda>r.
         let s = say ['': REGISTER '', pstr (op_ident r), '' - registering address to network'', nl] s in
         Inr (emit (Nua_request nua_register (op_handle r)
                      (TAG_IF g NUTAG_REGISTRAR @ [NUTAG_M_FEATURES ''expires=180''])) s))
       else Inr s)"
    using False assms(2,3) by (auto simp: ssc_register_def)
  have ev: "evicted sip_method_register (ssc_heap s) ps = []" "filter (\<lambda>q. q \<notin> set []) ps = ps"
    by (simp_all add: evicted_def persistent_method_def)
  show ?thesis
    unfolding if_not_P [OF False] new
  proof (rule ok_andthenI [OF ssc_oper_create_ok [OF o assms(4,5)]], clarsimp simp: assms(6) ev, goal_cases)
    case (1 s')
    note c = createdD [OF 1, unfolded ev]
    obtain r where r: "ssc_heap s' p = Some r" using opers_live [OF c(2)] by auto
    have i: "op_handle r = next_handle s" "info (ssc_heap s') p = new_info sip_method_register (Some ''REGISTER'')
        (next_handle s) (e_addr_as_string E (to\<lparr>a_url := u\<rparr>)) (-1)"
      using c(3) r info_sel(2) [of "ssc_heap s'" p] by (simp_all add: new_info_def)
    have "requests (io_out s') = requests (io_out s)" "ssc_operations s' = Some p"
      using 1 opers_chain [OF c(2)] by (simp_all add: created_def)
    with c r i opers_dom [OF o] opers_dom [OF c(2)] show ?case
      by (auto simp: TAG_IF_def new_info_def persistent_method_def)
  qed
qed

theorem register_refreshes_or_creates_witness:
  "ok (ssc_register demo_env None demo_ssc) (\<lambda>s'. op_method (info (ssc_heap s') 1) = sip_method_register
     \<and> requests (io_out s') = [Nua_request nua_register (Some 11) [NUTAG_M_FEATURES ''expires=180'']])"
proof -
  have w: "wf_ssc demo_ssc" by (rule reachable_inv [OF demo_reachable])
  have f: "ssc_oper_find_by_method demo_ssc sip_method_register = Inr None"
    by (simp add: ssc_oper_find_by_method_def find_oper_def find_from.simps demo_ssc_sel)
  have a: "ssc_address demo_ssc = Some ''sip:alice@example.com''" by (simp add: demo_ssc_def)
  have m: "e_sip_to_make demo_env ''sip:alice@example.com'' = Some (demo_addr ''sip:alice@example.com'')"
    by (simp add: demo_env_def)
  from register_refreshes_or_creates [where g = None, OF w f a m demo_sanitize demo_ssc_sel(7)] show ?thesis
    by (auto simp: demo_ssc_sel elim!: ok_mono)
qed

text \<open>
  The outcome of a registration. A final failure other than a challenge removes the operation; a 200
  keeps every operation and reports success to the application; neither sends a request.
\<close>

theorem registration_outcome:
  assumes "wf_ssc s" "p \<in> dom (ssc_heap s)" "status = 200 \<or> 300 \<le> status \<and> status \<notin> {401, 407}"
  shows "ok (ssc_r_register status phrase (Some p) sip t s) (\<lambda>s'. wf_ssc s'
     \<and> (status = 200 \<longrightarrow> ssc_heap s' = ssc_heap s \<and> (ssc_registration_cb s \<longrightarrow> Call_registration_cb 1 \<in> set (io_out s')))
     \<and> (status \<noteq> 200 \<longrightarrow> dom (ssc_heap s') = dom (ssc_heap s) - {p}))"
proof -
  have mono: "set (io_out s0) \<subseteq> set (io_out (print_contacts sip s0))" for s0
  proof -
    have "set (io_out s0) \<subseteq> set (io_out (fold (\<lambda>m. print [tab, ''Contact: '', m, nl]) ms s0))" for ms
      by (induction ms arbitrary: s0) fastforce+
    then show ?thesis by (simp add: print_contacts_def)
  qed
  show ?thesis
  proof (cases "status = 200")
    case True
    with assms(1) mono show ?thesis by (fastforce simp: ssc_r_register_def Let_def)
  next
    case False
    with assms(3) have "300 \<le> status" "status \<noteq> 401" "status \<noteq> 407" by auto
    then show ?thesis
      using ok_mono [OF wf_ssc_destroy [of "say ['': REGISTER: '', fmt_03d status, '' '', phrase, nl] s" p]] assms(1,2)
      by (simp add: ssc_r_register_def Let_def)
  qed
qed

theorem registration_outcome_witness:
  "ok (ssc_r_register 403 ''Forbidden'' (Some 5) None demo_tags (demo_call opc_active)) (\<lambda>s'. dom (ssc_heap s') = {})"
proof -
  have d: "dom (ssc_heap (demo_call opc_active)) = {5}" by (simp add: demo_call_def)
  with registration_outcome [OF wf_demo_call, of 5 opc_active 403 "''Forbidden''" None demo_tags] show ?thesis
    by (auto simp del: dom_eq_empty_conv elim!: ok_mono)
qed

end
