(* ===== verification/Ssc_Input.thy ===== *)
theory Ssc_Input
  imports Ssc_Sip
begin

text \<open>
  Terminal input: \<open>ssc_input.c\<close>, in the build without readline.

  The module's two static variables, the handler (installed or not) and the prompt, and the terminal it
  reads from are the record \<open>cli\<close>, which also holds the signalling client: everything is printed to the
  same output. \<open>in_tty\<close> is what has been typed and not read, \<open>in_stdio\<close> what the C library has read
  ahead for \<open>fgets\<close>. A terminal hands out at most one line at a time.

  \<open>cli_main\<close> tells whether the main loop is running, \<open>cli_junk\<close> is what an uninitialised local buffer
  happens to hold.
\<close>

record cli =
  cli_ssc :: ssc
  cli_init :: bool
  cli_prompt :: bool
  cli_main :: bool
  cli_junk :: string
  in_handler :: bool
  in_prompt :: string
  in_tty :: string
  in_stdio :: string

definition cli_printf :: "string \<Rightarrow> cli \<Rightarrow> cli" where
  "cli_printf t c = c\<lparr>cli_ssc := printf t (cli_ssc c)\<rparr>"

definition ssc_input_install_handler :: "string \<Rightarrow> cli \<Rightarrow> cli" where
  "ssc_input_install_handler prompt c = c\<lparr>in_handler := True\<rparr>"

definition ssc_input_remove_handler :: "cli \<Rightarrow> cli" where
  "ssc_input_remove_handler c = c\<lparr>in_handler := False\<rparr>"

definition ssc_input_refresh :: "cli \<Rightarrow> cli" where
  "ssc_input_refresh c = cli_printf (in_prompt c) c"

definition ssc_input_set_prompt :: "string \<Rightarrow> cli \<Rightarrow> cli" where
  "ssc_input_set_prompt prompt c =
     (let refresh = (prompt \<noteq> in_prompt c); c = c\<lparr>in_prompt := prompt\<rparr>
      in if refresh then ssc_input_refresh c else c)"

text \<open>The first line of a text, with its line end if it has one.\<close>

definition first_line :: "string \<Rightarrow> string" where
  "first_line t = takeWhile (\<lambda>c. c \<noteq> CHR 0x0A) t @ take 1 (dropWhile (\<lambda>c. c \<noteq> CHR 0x0A) t)"

text \<open>\<open>read(0, buf, n)\<close> on a terminal.\<close>

definition tty_read :: "nat \<Rightarrow> cli \<Rightarrow> string \<times> cli" where
  "tty_read n c = (let got = take n (first_line (in_tty c)) in (got, c\<lparr>in_tty := drop (length got) (in_tty c)\<rparr>))"

text \<open>The line given to the handler, if one was read. \<open>buf[n - 1] = 0\<close> removes the last character read,
  whatever it is, and the copy ends at the first NUL.\<close>

definition ssc_input_read_char :: "(string option \<Rightarrow> cli \<Rightarrow> cli res) \<Rightarrow> cli \<Rightarrow> cli res" where
  "ssc_input_read_char handler c =
     (let (buf, c) = tty_read 1023 c in
      if buf = [] then Inr c
      else andthen (if in_handler c then handler (Some (takeWhile (\<lambda>x. x \<noteq> CHR 0x00) (butlast buf))) c else Inr c)
             (\<lambda>c. Inr (ssc_input_refresh c)))"

text \<open>\<open>fgets(str, n, stdin)\<close>: the C library reads lines of the terminal into its own buffer until that
  holds a whole line or enough characters, or nothing is left.\<close>

lemma first_line_Cons: "first_line (c # t) = (if c = CHR 0x0A then [c] else c # first_line t)"
  by (simp add: first_line_def)

lemma first_line_Nil [simp]: "first_line [] = []"
  by (simp add: first_line_def)

lemma first_line_empty [simp]: "first_line t = [] \<longleftrightarrow> t = []"
  by (cases t) (simp_all add: first_line_Cons first_line_def)

function stdio_fill :: "nat \<Rightarrow> cli \<Rightarrow> cli" where
  "stdio_fill n c =
     (if CHR 0x0A \<in> set (in_stdio c) \<or> n \<le> length (in_stdio c) \<or> in_tty c = [] then c
      else (let (got, c') = tty_read 1024 c in stdio_fill n (c'\<lparr>in_stdio := in_stdio c @ got\<rparr>)))"
  by pat_completeness auto

termination
  by (relation "measure (\<lambda>(n, c). length (in_tty c))") (auto simp: tty_read_def Let_def)

declare stdio_fill.simps [simp del]

definition ssc_input_read_string :: "nat \<Rightarrow> cli \<Rightarrow> string option \<times> cli" where
  "ssc_input_read_string n c =
     (let c = stdio_fill (n - 1) c; got = take (n - 1) (first_line (in_stdio c)) in
      if got = [] then (None, c) else (Some got, c\<lparr>in_stdio := drop (length got) (in_stdio c)\<rparr>))"

definition ssc_input_add_history :: "string \<Rightarrow> cli \<Rightarrow> cli" where
  "ssc_input_add_history entry c = c"

definition ssc_input_clear_history :: "cli \<Rightarrow> cli" where
  "ssc_input_clear_history c = c"

definition ssc_input_reset :: "cli \<Rightarrow> cli" where
  "ssc_input_reset c = c"

section \<open>Reading\<close>

lemma first_line_prefix: "\<exists>u. t = first_line t @ u"
  by (induction t) (auto simp: first_line_Cons first_line_def [of "[]"])

lemma first_line_append: "CHR 0x0A \<in> set t \<Longrightarrow> first_line (t @ u) = first_line t"
  by (induction t) (auto simp: first_line_Cons)

lemma first_line_take: "n \<le> length t \<Longrightarrow> take n (first_line (t @ u)) = take n (first_line t)"
  by (induction t arbitrary: n) (auto simp: first_line_Cons take_Cons split: nat.split)

lemma take_first_line:
  assumes "got = take n (first_line t)"
  shows "t = got @ drop (length got) t"
proof -
  obtain u where "t = first_line t @ u" using first_line_prefix by blast
  then have "t = got @ drop n (first_line t) @ u" using assms by (metis append_assoc append_take_drop_id)
  then show ?thesis by (metis append_eq_conv_conj)
qed

lemma tty_read_sound:
  assumes "tty_read n c = (got, c')"
  shows "in_tty c = got @ in_tty c'" "cli_ssc c' = cli_ssc c"
  using assms take_first_line [of got n "in_tty c"] by (auto simp: tty_read_def Let_def)

text \<open>Filling the buffer neither loses nor reorders characters.\<close>

lemma stdio_fill_sound:
  "in_stdio (stdio_fill n c) @ in_tty (stdio_fill n c) = in_stdio c @ in_tty c
   \<and> (CHR 0x0A \<in> set (in_stdio (stdio_fill n c)) \<or> n \<le> length (in_stdio (stdio_fill n c)) \<or> in_tty (stdio_fill n c) = [])
   \<and> cli_ssc (stdio_fill n c) = cli_ssc c"
proof (induction n c rule: stdio_fill.induct)
  case (1 n c)
  show ?case
  proof (cases "CHR 0x0A \<in> set (in_stdio c) \<or> n \<le> length (in_stdio c) \<or> in_tty c = []")
    case True
    then show ?thesis by (auto simp: stdio_fill.simps [of n c])
  next
    case False
    obtain got c' where g: "tty_read 1024 c = (got, c')" by fastforce
    with 1 [OF False g [symmetric]] tty_read_sound [OF g] False show ?thesis
      by (simp add: stdio_fill.simps [of n c])
  qed
qed

section \<open>A concrete terminal\<close>

definition demo_cli :: "string \<Rightarrow> cli" where
  "demo_cli typed = \<lparr>cli_ssc = demo_ssc, cli_init = True, cli_prompt = False, cli_main = True, cli_junk = [],
     in_handler = True, in_prompt = ''> '', in_tty = typed, in_stdio = []\<rparr>"

text \<open>A handler that keeps the line.\<close>

definition demo_handler :: "string option \<Rightarrow> cli \<Rightarrow> cli res" where
  "demo_handler l c = Inr (c\<lparr>cli_junk := the l\<rparr>)"

section \<open>Properties\<close>

text \<open>
  A typed line. A line shorter than the input buffer is taken from the terminal as a whole and
  given to the handler without its line end; what was typed after it stays for the next read.
\<close>

theorem read_char_passes_line:
  assumes "in_handler c" "in_tty c = line @ CHR 0x0A # later" "CHR 0x0A \<notin> set line" "CHR 0x00 \<notin> set line"
    and "length line < 1023"
  shows "ssc_input_read_char handler c =
     andthen (handler (Some line) (c\<lparr>in_tty := later\<rparr>)) (\<lambda>c. Inr (ssc_input_refresh c))"
proof -
  have "first_line (in_tty c) = line @ [CHR 0x0A]"
    using assms(2,3) by (simp add: first_line_def takeWhile_append dropWhile_append)
  then show ?thesis
    using assms(1,2,5) by (simp add: takeWhile_neq [OF assms(4)] ssc_input_read_char_def tty_read_def Let_def)
qed

theorem read_char_passes_line_witness:
  "ok (ssc_input_read_char demo_handler (demo_cli (''bye'' @ nl @ ''x''))) (\<lambda>c. cli_junk c = ''bye'' \<and> in_tty c = ''x'')"
  using read_char_passes_line [of "demo_cli (''bye'' @ nl @ ''x'')" "''bye''" "''x''" demo_handler]
  by (simp add: demo_cli_def demo_handler_def nl_def ssc_input_refresh_def cli_printf_def)

text \<open>
  A long line. When a line has more characters than the buffer holds, the character in the last
  place of the buffer is lost: the handler sees the first 1022 characters, and the rest of the line,
  from the 1024th character on, comes as a line of its own.
\<close>

theorem read_char_drops_character:
  assumes "in_handler c" "in_tty c = part @ x # rest" "length part = 1022"
    and "CHR 0x0A \<notin> set (part @ [x])" "CHR 0x00 \<notin> set part"
  shows "ssc_input_read_char handler c =
     andthen (handler (Some part) (c\<lparr>in_tty := rest\<rparr>)) (\<lambda>c. Inr (ssc_input_refresh c))"
proof -
  have "first_line (in_tty c) = part @ x # first_line rest"
    using assms(2,4) by (induction part arbitrary: c) (auto simp: first_line_def takeWhile_append dropWhile_append)
  then show ?thesis
    using assms(1-3) by (simp add: takeWhile_neq [OF assms(5)] ssc_input_read_char_def tty_read_def Let_def butlast_append)
qed

theorem read_char_drops_character_witness:
  "ok (ssc_input_read_char demo_handler (demo_cli (replicate 1022 (CHR ''a'') @ ''bc'')))
     (\<lambda>c. cli_junk c = replicate 1022 (CHR ''a'') \<and> in_tty c = ''c'')"
proof -
  have "ssc_input_read_char demo_handler (demo_cli (replicate 1022 (CHR ''a'') @ ''bc'')) =
      andthen (demo_handler (Some (replicate 1022 (CHR ''a'')))
        ((demo_cli (replicate 1022 (CHR ''a'') @ ''bc''))\<lparr>in_tty := ''c''\<rparr>)) (\<lambda>c. Inr (ssc_input_refresh c))"
    by (rule read_char_drops_character) (auto simp: demo_cli_def)
  then show ?thesis
    by (simp add: demo_handler_def ssc_input_refresh_def cli_printf_def)
qed

text \<open>
  Reading into a buffer of \<open>n\<close> characters: the text fits with its terminator, it is the beginning of
  what is still unread, it goes to the end of the line if that fits, and exactly it is consumed.
\<close>

theorem read_string_bounded:
  assumes "ssc_input_read_string n c = (r, c')"
  shows "case r of
      None \<Rightarrow> (in_stdio c @ in_tty c = [] \<or> n \<le> 1) \<and> in_stdio c' @ in_tty c' = in_stdio c @ in_tty c
    | Some t \<Rightarrow> t \<noteq> [] \<and> length t < n \<and> in_stdio c @ in_tty c = t @ in_stdio c' @ in_tty c'
              \<and> t = take (n - 1) (first_line (in_stdio c @ in_tty c))"
proof -
  let ?f = "stdio_fill (n - 1) c"
  note f = stdio_fill_sound [of "n - 1" c]
  have t: "take (n - 1) (first_line (in_stdio c @ in_tty c)) = take (n - 1) (first_line (in_stdio ?f))"
    using f first_line_append [of "in_stdio ?f" "in_tty ?f"] first_line_take [of "n - 1" "in_stdio ?f" "in_tty ?f"]
    by (metis append_Nil2)
  let ?got = "take (n - 1) (first_line (in_stdio ?f))"
  have g: "in_stdio ?f = ?got @ drop (length ?got) (in_stdio ?f)"
    by (rule take_first_line [OF refl])
  show ?thesis
  proof (cases "?got = []")
    case True
    then have "r = None" "c' = ?f" using assms by (auto simp: ssc_input_read_string_def Let_def)
    moreover have "in_stdio c @ in_tty c = [] \<or> n \<le> 1"
      using True t first_line_empty [of "in_stdio c @ in_tty c"] by auto
    ultimately show ?thesis using f by simp
  next
    case False
    then have "r = Some ?got" "c' = ?f\<lparr>in_stdio := drop (length ?got) (in_stdio ?f)\<rparr>"
      using assms by (auto simp: ssc_input_read_string_def Let_def)
    moreover have "in_stdio c @ in_tty c = (?got @ drop (length ?got) (in_stdio ?f)) @ in_tty ?f"
      using f arg_cong [OF g, of "\<lambda>x. x @ in_tty ?f"] by simp
    moreover have "length ?got < n" using False by (cases n) auto
    ultimately show ?thesis using False t by simp
  qed
qed

theorem read_string_bounded_witness:
  "ssc_input_read_string 4 (demo_cli ''hello'') = (Some ''hel'', (demo_cli [])\<lparr>in_stdio := ''lo''\<rparr>)
   \<and> length ''hel'' < 4"
proof -
  have e: "ssc_input_read_string 4 (demo_cli ''hello'') = (Some ''hel'', (demo_cli [])\<lparr>in_stdio := ''lo''\<rparr>)"
    by (simp add: ssc_input_read_string_def stdio_fill.simps tty_read_def demo_cli_def first_line_def Let_def)
  with read_string_bounded [OF e] show ?thesis by simp
qed

end
