(* ===== verification/Goption.thy ===== *)
theory Goption
  imports Ssc_Prelude
begin

unbundle bit_operations_syntax

text \<open>
  The option parser of \<open>replace_goption.c\<close>: data model, set-up of contexts and groups, and the help output.

  \<^item> \<open>GOptionEntry\<close>, \<open>GOptionGroup\<close>, \<open>GOptionContext\<close>, \<open>Change\<close> and \<open>PendingNull\<close> are the structures of the
    source. A group's array of entries is a list; a pointer to a structure that is never shared is the
    structure. The unions of \<open>Change\<close> are datatypes with a constructor per representation
    (\<open>bool\<close>/\<open>integer\<close> and \<open>str\<close>/\<open>array\<close> of \<open>prev\<close> have the same one) that says which member was last
    written; reading a member of another representation crashes the model.
  \<^item> \<open>opt\<close> extends the context by the memory the parser works on: the variables the entries point to
    (\<open>int_at\<close> for \<open>gint\<close> and \<open>gboolean\<close>, \<open>ptr_at\<close> for \<open>gchar *\<close> and \<open>gchar **\<close>, by address), the
    allocated blocks, the argument vector, the error, and everything printed or called.
  \<^item> \<open>halt\<close>: besides returning, a function of this file can crash or end the program with \<open>exit\<close>.
  \<^item> Functions of GLib and of the application that are called through pointers are the fields of
    \<open>glib_env\<close>; callbacks and hooks answer and are recorded, and do not write the parser's own data.

  Translation is compiled out (\<open>#if notyet\<close>), so \<open>TRANSLATE\<close> and \<open>_\<close> are the identity.
\<close>

section \<open>Data\<close>

datatype GOptionArg = G_OPTION_ARG_NONE | G_OPTION_ARG_STRING | G_OPTION_ARG_INT | G_OPTION_ARG_CALLBACK
  | G_OPTION_ARG_FILENAME | G_OPTION_ARG_STRING_ARRAY | G_OPTION_ARG_FILENAME_ARRAY

type_synonym gflags = "32 word"

definition G_OPTION_FLAG_HIDDEN :: gflags where "G_OPTION_FLAG_HIDDEN = 1"
definition G_OPTION_FLAG_IN_MAIN :: gflags where "G_OPTION_FLAG_IN_MAIN = 2"
definition G_OPTION_FLAG_REVERSE :: gflags where "G_OPTION_FLAG_REVERSE = 4"
definition G_OPTION_FLAG_NO_ARG :: gflags where "G_OPTION_FLAG_NO_ARG = 8"
definition G_OPTION_FLAG_FILENAME :: gflags where "G_OPTION_FLAG_FILENAME = 16"
definition G_OPTION_FLAG_OPTIONAL_ARG :: gflags where "G_OPTION_FLAG_OPTIONAL_ARG = 32"
definition G_OPTION_FLAG_NOALIAS :: gflags where "G_OPTION_FLAG_NOALIAS = 64"

lemmas G_OPTION_FLAG_defs = G_OPTION_FLAG_HIDDEN_def G_OPTION_FLAG_IN_MAIN_def G_OPTION_FLAG_REVERSE_def
  G_OPTION_FLAG_NO_ARG_def G_OPTION_FLAG_FILENAME_def G_OPTION_FLAG_OPTIONAL_ARG_def G_OPTION_FLAG_NOALIAS_def

datatype GOptionError = G_OPTION_ERROR_UNKNOWN_OPTION | G_OPTION_ERROR_BAD_VALUE | G_OPTION_ERROR_FAILED
  | Other_error

type_synonym gerr = "GOptionError \<times> string"

text \<open>The short name 0 is "none".\<close>

record GOptionEntry =
  long_name :: string
  short_name :: char
  flags :: gflags
  arg :: GOptionArg
  arg_data :: nat
  description :: "string option"
  arg_description :: "string option"

definition has_flag :: "GOptionEntry \<Rightarrow> gflags \<Rightarrow> bool" where
  "has_flag e f \<longleftrightarrow> flags e AND f \<noteq> 0"

definition NO_ARG :: "GOptionEntry \<Rightarrow> bool" where
  "NO_ARG e \<longleftrightarrow> arg e = G_OPTION_ARG_NONE \<or> (arg e = G_OPTION_ARG_CALLBACK \<and> has_flag e G_OPTION_FLAG_NO_ARG)"

definition OPTIONAL_ARG :: "GOptionEntry \<Rightarrow> bool" where
  "OPTIONAL_ARG e \<longleftrightarrow> arg e = G_OPTION_ARG_CALLBACK \<and> has_flag e G_OPTION_FLAG_OPTIONAL_ARG"

text \<open>Functions passed by pointer are named by their address.\<close>

record GOptionGroup =
  g_name :: "string option"
  g_description :: "string option"
  help_description :: "string option"
  destroy_notify :: "nat option"
  user_data :: nat
  entries :: "GOptionEntry list"
  pre_parse_func :: "nat option"
  post_parse_func :: "nat option"
  error_func :: "nat option"

text \<open>The unions \<open>prev\<close> and \<open>allocated\<close>: zeroed by \<open>g_new0\<close>, or the member that was last written.\<close>

datatype prev_union = Prev_zero | Prev_integer int | Prev_pointer "nat option"

datatype allocated_union = Allocated_zero | Allocated_str "nat option" | Allocated_array nat nat

record Change =
  change_type :: GOptionArg
  change_data :: nat
  change_prev :: prev_union
  change_allocated :: allocated_union

text \<open>The \<open>argv\<close> element to be changed, by index, and its new text after the dash (or \<open>NULL\<close>).\<close>

record PendingNull =
  null_ptr :: nat
  null_value :: "string option"

record GOptionContext =
  groups :: "GOptionGroup list"
  parameter_string :: "string option"
  help_enabled :: bool
  ignore_unknown :: bool
  main_group :: "GOptionGroup option"
  changes :: "Change list"
  pending_nulls :: "PendingNull list"

text \<open>Allocated blocks: a string, or a vector of strings (without its terminating \<open>NULL\<close>).\<close>

datatype block = Chars string | Strv "nat option list"

datatype gcall = Arg_func nat string "string option" nat | Hook nat nat | Error_hook nat nat | Destroy nat nat

record opt = GOptionContext +
  int_at :: "nat \<Rightarrow> int"
  ptr_at :: "nat \<Rightarrow> nat option"
  blocks :: "nat \<rightharpoonup> block"
  next_block :: nat
  argc :: nat
  argv :: "string option list"
  gerror :: "gerr option"
  gcalls :: "gcall list"
  g_out :: string
  g_warnings :: "string list"
  g_prgname :: string

record glib_env =
  locale_to_utf8 :: "string \<Rightarrow> gerr + string"
  path_get_basename :: "string \<Rightarrow> string"
  call_arg_func :: "nat \<Rightarrow> string \<Rightarrow> string option \<Rightarrow> nat \<Rightarrow> bool \<times> gerr option"
  call_hook :: "nat \<Rightarrow> nat \<Rightarrow> bool \<times> gerr option"

datatype halt = Crash crash | Exit int string

type_synonym 'a run = "halt + 'a"

section \<open>Reading a union\<close>

text \<open>A zeroed union reads as zero through every member. A pointer read as an integer, or a string's address
  read as a length and a vector, is not a value the program can rely on.\<close>

definition prev_integer :: "Change \<Rightarrow> int run" where
  "prev_integer c =
     (case change_prev c of
        Prev_zero \<Rightarrow> Inr 0
      | Prev_integer i \<Rightarrow> Inr i
      | Prev_pointer _ \<Rightarrow> Inl (Crash Wrong_member))"

definition prev_pointer :: "Change \<Rightarrow> nat option run" where
  "prev_pointer c =
     (case change_prev c of
        Prev_zero \<Rightarrow> Inr None
      | Prev_integer _ \<Rightarrow> Inl (Crash Wrong_member)
      | Prev_pointer p \<Rightarrow> Inr p)"

definition allocated_str :: "Change \<Rightarrow> nat option run" where
  "allocated_str c =
     (case change_allocated c of
        Allocated_zero \<Rightarrow> Inr None
      | Allocated_str p \<Rightarrow> Inr p
      | Allocated_array _ _ \<Rightarrow> Inl (Crash Wrong_member))"

text \<open>\<open>allocated.array.len\<close> and \<open>allocated.array.data\<close>.\<close>

definition allocated_array :: "Change \<Rightarrow> (nat \<times> nat option) run" where
  "allocated_array c =
     (case change_allocated c of
        Allocated_zero \<Rightarrow> Inr (0, None)
      | Allocated_str _ \<Rightarrow> Inl (Crash Wrong_member)
      | Allocated_array n a \<Rightarrow> Inr (n, Some a))"

section \<open>GLib\<close>

text \<open>\<open>g_set_error\<close> keeps an error that is already there and complains.\<close>

definition g_set_error :: "GOptionError \<Rightarrow> string \<Rightarrow> opt \<Rightarrow> opt" where
  "g_set_error code msg s =
     (case gerror s of
        None \<Rightarrow> s\<lparr>gerror := Some (code, msg)\<rparr>
      | Some _ \<Rightarrow> s\<lparr>g_warnings := g_warnings s @ [''GError set over the top of a previous GError'']\<rparr>)"

definition g_print :: "string list \<Rightarrow> opt \<Rightarrow> opt" where
  "g_print ps s = s\<lparr>g_out := g_out s @ concat ps\<rparr>"

definition g_malloc :: "block \<Rightarrow> opt \<Rightarrow> nat \<times> opt" where
  "g_malloc b s = (next_block s, s\<lparr>blocks := (blocks s)(next_block s \<mapsto> b), next_block := Suc (next_block s)\<rparr>)"

definition g_strdup :: "string option \<Rightarrow> opt \<Rightarrow> nat option \<times> opt" where
  "g_strdup v s = (case v of None \<Rightarrow> (None, s) | Some t \<Rightarrow> (let (a, s) = g_malloc (Chars t) s in (Some a, s)))"

definition g_free_block :: "nat option \<Rightarrow> opt \<Rightarrow> opt run" where
  "g_free_block p s =
     (case p of None \<Rightarrow> Inr s
      | Some a \<Rightarrow> if blocks s a = None then Inl (Crash Double_free) else Inr (s\<lparr>blocks := (blocks s)(a := None)\<rparr>))"

text \<open>\<open>g_strfreev\<close> frees the strings up to the first \<open>NULL\<close>, then the vector.\<close>

fun g_free_all :: "nat option list \<Rightarrow> opt \<Rightarrow> opt run" where
  "g_free_all (Some a # as) s = andthen (g_free_block (Some a) s) (g_free_all as)"
| "g_free_all _ s = Inr s"

definition g_strfreev :: "nat option \<Rightarrow> opt \<Rightarrow> opt run" where
  "g_strfreev p s =
     (case p of None \<Rightarrow> Inr s
      | Some a \<Rightarrow>
          (case blocks s a of
             Some (Strv ps) \<Rightarrow> andthen (g_free_all ps s) (g_free_block (Some a))
           | _ \<Rightarrow> Inl (Crash Use_after_free)))"

text \<open>\<open>g_utf8_strlen\<close>: the bytes that do not continue a character.\<close>

definition g_utf8_strlen :: "string \<Rightarrow> nat" where
  "g_utf8_strlen t = length (filter (\<lambda>c. \<not> (128 \<le> (of_char c :: nat) \<and> (of_char c :: nat) < 192)) t)"

text \<open>\<open>%-*s\<close>\<close>

definition fmt_left :: "nat \<Rightarrow> string \<Rightarrow> string" where
  "fmt_left w t = t @ replicate (w - length t) (CHR '' '')"

definition g_ascii_isprint :: "char \<Rightarrow> bool" where
  "g_ascii_isprint c \<longleftrightarrow> 32 \<le> (of_char c :: nat) \<and> (of_char c :: nat) \<le> 126"

section \<open>Groups\<close>

definition g_option_group_new ::
  "string option \<Rightarrow> string option \<Rightarrow> string option \<Rightarrow> nat \<Rightarrow> nat option \<Rightarrow> GOptionGroup" where
  "g_option_group_new name desc help_desc data destroy =
     \<lparr>g_name = name, g_description = desc, help_description = help_desc, destroy_notify = destroy,
      user_data = data, entries = [], pre_parse_func = None, post_parse_func = None, error_func = None\<rparr>"

definition g_option_group_free :: "GOptionGroup \<Rightarrow> opt \<Rightarrow> opt" where
  "g_option_group_free g s =
     (case destroy_notify g of None \<Rightarrow> s | Some f \<Rightarrow> s\<lparr>gcalls := gcalls s @ [Destroy f (user_data g)]\<rparr>)"

text \<open>Copied entries lose a short name that is a dash or not printable (the warning about it is not
  kept).\<close>

definition clean_short_name :: "GOptionEntry \<Rightarrow> GOptionEntry" where
  "clean_short_name e =
     (let c = short_name e in
      if c \<noteq> CHR 0x00 \<and> (c = CHR ''-'' \<or> \<not> g_ascii_isprint c) then e\<lparr>short_name := CHR 0x00\<rparr> else e)"

definition g_option_group_add_entries :: "GOptionEntry list \<Rightarrow> GOptionGroup \<Rightarrow> GOptionGroup" where
  "g_option_group_add_entries new g = g\<lparr>entries := entries g @ map clean_short_name new\<rparr>"

definition g_option_group_set_parse_hooks :: "nat option \<Rightarrow> nat option \<Rightarrow> GOptionGroup \<Rightarrow> GOptionGroup" where
  "g_option_group_set_parse_hooks pre post g = g\<lparr>pre_parse_func := pre, post_parse_func := post\<rparr>"

definition g_option_group_set_error_hook :: "nat option \<Rightarrow> GOptionGroup \<Rightarrow> GOptionGroup" where
  "g_option_group_set_error_hook f g = g\<lparr>error_func := f\<rparr>"

section \<open>Contexts\<close>

text \<open>A new context, in the program state it is created in.\<close>

definition g_option_context_new :: "string option \<Rightarrow> opt \<Rightarrow> opt" where
  "g_option_context_new params s =
     s\<lparr>groups := [], parameter_string := params, help_enabled := True, ignore_unknown := False,
       main_group := None, changes := [], pending_nulls := []\<rparr>"

definition g_option_context_set_help_enabled :: "bool \<Rightarrow> opt \<Rightarrow> opt" where
  "g_option_context_set_help_enabled b s = s\<lparr>help_enabled := b\<rparr>"

definition g_option_context_get_help_enabled :: "opt \<Rightarrow> bool" where
  "g_option_context_get_help_enabled s = help_enabled s"

definition g_option_context_set_ignore_unknown_options :: "bool \<Rightarrow> opt \<Rightarrow> opt" where
  "g_option_context_set_ignore_unknown_options b s = s\<lparr>ignore_unknown := b\<rparr>"

definition g_option_context_get_ignore_unknown_options :: "opt \<Rightarrow> bool" where
  "g_option_context_get_ignore_unknown_options s = ignore_unknown s"

text \<open>\<open>g_return_if_fail\<close> logs the failed condition and returns.\<close>

definition g_critical :: "string \<Rightarrow> opt \<Rightarrow> opt" where
  "g_critical msg s = s\<lparr>g_warnings := g_warnings s @ [msg]\<rparr>"

definition dup_warnings :: "GOptionGroup \<Rightarrow> GOptionGroup list \<Rightarrow> string list" where
  "dup_warnings g gs = map (\<lambda>_. concat [''A group named '', [CHR 0x22], pstr (g_name g), [CHR 0x22],
       '' is already part of this GOptionContext'']) (filter (\<lambda>h. g_name h = g_name g) gs)"

definition g_option_context_add_group :: "GOptionGroup \<Rightarrow> opt \<Rightarrow> opt" where
  "g_option_context_add_group g s =
     (if g_name g = None then g_critical ''group->name != NULL'' s
      else if g_description g = None then g_critical ''group->description != NULL'' s
      else if help_description g = None then g_critical ''group->help_description != NULL'' s
      else s\<lparr>g_warnings := g_warnings s @ dup_warnings g (groups s), groups := groups s @ [g]\<rparr>)"

definition g_option_context_set_main_group :: "GOptionGroup \<Rightarrow> opt \<Rightarrow> opt" where
  "g_option_context_set_main_group g s =
     (if main_group s \<noteq> None then g_critical ''This GOptionContext already has a main group'' s
      else s\<lparr>main_group := Some g\<rparr>)"

definition g_option_context_get_main_group :: "opt \<Rightarrow> GOptionGroup option" where
  "g_option_context_get_main_group s = main_group s"

definition g_option_context_add_main_entries :: "GOptionEntry list \<Rightarrow> opt \<Rightarrow> opt" where
  "g_option_context_add_main_entries new s =
     (let g = (case main_group s of None \<Rightarrow> g_option_group_new None None None 0 None | Some g \<Rightarrow> g)
      in s\<lparr>main_group := Some (g_option_group_add_entries new g)\<rparr>)"

section \<open>Help\<close>

definition calculate_max_length :: "GOptionGroup \<Rightarrow> nat" where
  "calculate_max_length g =
     foldl max 0 (map (\<lambda>e. g_utf8_strlen (long_name e) + (if short_name e \<noteq> CHR 0x00 then 4 else 0)
         + (case arg_description e of
              Some d \<Rightarrow> if \<not> NO_ARG e then 1 + g_utf8_strlen d else 0
            | None \<Rightarrow> 0))
       (filter (\<lambda>e. \<not> has_flag e G_OPTION_FLAG_HIDDEN) (entries g)))"

definition entry_text :: "GOptionEntry \<Rightarrow> string" where
  "entry_text e =
     (if short_name e \<noteq> CHR 0x00 then concat [''  -'', [short_name e], '', --'', long_name e]
      else ''  --'' @ long_name e)
     @ (case arg_description e of None \<Rightarrow> [] | Some d \<Rightarrow> ''='' @ d)"

definition print_entry :: "nat \<Rightarrow> GOptionEntry \<Rightarrow> opt \<Rightarrow> opt" where
  "print_entry max_length e s =
     (if has_flag e G_OPTION_FLAG_HIDDEN then s
      else if long_name e = [] then s
      else g_print [fmt_left (max_length + 4) (entry_text e), '' '',
                    (case description e of Some d \<Rightarrow> d | None \<Rightarrow> []), nl] s)"

text \<open>Names that an earlier entry already has: the short one is dropped, the long one (outside the main
  group) gets the group's name in front, unless the entry has any flag at all.\<close>

type_synonym names_seen = "string list \<times> char list"

fun shadow_main :: "names_seen \<Rightarrow> GOptionEntry list \<Rightarrow> GOptionEntry list \<times> names_seen" where
  "shadow_main (ls, cs) [] = ([], ls, cs)"
| "shadow_main (ls, cs) (e # es) =
     (let (e', cs') = (if short_name e \<in> set cs then (e\<lparr>short_name := CHR 0x00\<rparr>, cs) else (e, short_name e # cs));
          (es', seen) = shadow_main (long_name e # ls, cs') es
      in (e' # es', seen))"

fun shadow_group :: "string option \<Rightarrow> names_seen \<Rightarrow> GOptionEntry list \<Rightarrow> GOptionEntry list \<times> names_seen" where
  "shadow_group name (ls, cs) [] = ([], ls, cs)"
| "shadow_group name (ls, cs) (e # es) =
     (let noalias = (flags e \<noteq> 0);
          (e', ls') = (if long_name e \<in> set ls \<and> \<not> noalias
                       then (e\<lparr>long_name := concat [pstr name, ''-'', long_name e]\<rparr>, ls)
                       else (e, long_name e # ls));
          (e'', cs') = (if short_name e' \<in> set cs \<and> \<not> noalias
                        then (e'\<lparr>short_name := CHR 0x00\<rparr>, cs) else (e', short_name e' # cs));
          (es', seen) = shadow_group name (ls', cs') es
      in (e'' # es', seen))"

fun shadow_groups :: "names_seen \<Rightarrow> GOptionGroup list \<Rightarrow> GOptionGroup list" where
  "shadow_groups seen [] = []"
| "shadow_groups seen (g # gs) =
     (let (es, seen') = shadow_group (g_name g) seen (entries g) in g\<lparr>entries := es\<rparr> # shadow_groups seen' gs)"

definition help_shadow :: "opt \<Rightarrow> opt" where
  "help_shadow s =
     (let (mg, seen) = (case main_group s of
              None \<Rightarrow> (None, ([], []))
            | Some g \<Rightarrow> (let (es, seen) = shadow_main ([], []) (entries g) in (Some (g\<lparr>entries := es\<rparr>), seen)))
      in s\<lparr>main_group := mg, groups := shadow_groups seen (groups s)\<rparr>)"

definition rest_description :: "opt \<Rightarrow> string option" where
  "rest_description s =
     (case main_group s of None \<Rightarrow> None
      | Some g \<Rightarrow> (case find (\<lambda>e. long_name e = []) (entries g) of None \<Rightarrow> None | Some e \<Rightarrow> arg_description e))"

definition help_width :: "opt \<Rightarrow> nat" where
  "help_width s =
     foldl max 0
       (g_utf8_strlen ''-?, --help''
        # (if groups s = [] then [] else [g_utf8_strlen ''--help-all''])
        @ (case main_group s of None \<Rightarrow> [] | Some g \<Rightarrow> [calculate_max_length g])
        @ concat (map (\<lambda>g. [g_utf8_strlen ''--help-'' + (case g_name g of None \<Rightarrow> 0 | Some n \<Rightarrow> g_utf8_strlen n),
                            calculate_max_length g]) (groups s))) + 4"

definition help_usage :: "opt \<Rightarrow> opt" where
  "help_usage s =
     g_print [''Usage:'', nl, ''  '', g_prgname s, '' '', ''[OPTION...]'',
              (case rest_description s of None \<Rightarrow> [] | Some d \<Rightarrow> '' '' @ d),
              (case parameter_string s of None \<Rightarrow> [] | Some p \<Rightarrow> '' '' @ p), nl, nl] s"

definition help_options :: "nat \<Rightarrow> opt \<Rightarrow> opt" where
  "help_options w s =
     (let s = g_print [''Help Options:'', nl, ''  -?, --'', fmt_left (w - 4) ''help'', '' Show help options'', nl] s;
          s = (if groups s = [] then s else g_print [''  --'', fmt_left w ''help-all'', '' Show all help options'', nl] s);
          s = fold (\<lambda>g. g_print [''  --help-'', fmt_left (w - 5) (pstr (g_name g)), '' '',
                                 pstr (help_description g), nl]) (groups s) s
      in g_print [nl] s)"

definition print_entries :: "nat \<Rightarrow> (GOptionEntry \<Rightarrow> bool) \<Rightarrow> GOptionGroup \<Rightarrow> opt \<Rightarrow> opt" where
  "print_entries w P g s = fold (print_entry w) (filter P (entries g)) s"

text \<open>\<open>grp\<close> is the position of the chosen group among the context's groups.\<close>

definition print_help :: "bool \<Rightarrow> nat option \<Rightarrow> opt \<Rightarrow> 'a run" where
  "print_help main_help grp s =
     (let s = help_shadow (help_usage s);
          w = help_width s;
          in_main = (\<lambda>e. has_flag e G_OPTION_FLAG_IN_MAIN);
          s = (case grp of
                 None \<Rightarrow>
                   (let s = help_options w s in
                    if main_help then s
                    else fold (\<lambda>g s. g_print [nl] (print_entries w (\<lambda>e. \<not> in_main e) g
                                        (g_print [pstr (g_description g), nl] s))) (groups s) s)
               | Some k \<Rightarrow>
                   (let g = groups s ! k in
                    g_print [nl] (print_entries w (\<lambda>_. True) g (g_print [pstr (g_description g), nl] s))));
          s = (if main_help \<or> grp = None then
                 (let s = g_print [''Application Options:'', nl] s;
                      s = (case main_group s of None \<Rightarrow> s | Some g \<Rightarrow> print_entries w (\<lambda>_. True) g s);
                      s = fold (print_entries w in_main) (groups s) s
                  in g_print [nl] s)
               else s)
      in Inl (Exit 0 (g_out s)))"

end
