(* ===== verification/Goption_Parse.thy ===== *)
theory Goption_Parse
  imports Goption
begin

text \<open>
  Parsing a command line: \<open>parse_int\<close>, \<open>parse_arg\<close>, the searches for short, long and remaining arguments, the
  bookkeeping that undoes a failed parse, and \<open>g_option_context_parse\<close>.

  A function that returns \<open>gboolean\<close> and changes its arguments returns the boolean together with their new
  values. \<open>goto fail\<close> is the boolean \<open>False\<close>.
\<close>

section \<open>Integers\<close>

definition c_isspace :: "char \<Rightarrow> bool" where
  "c_isspace c \<longleftrightarrow> (let n = of_char c :: nat in n = 32 \<or> 9 \<le> n \<and> n \<le> 13)"

definition digit_value :: "char \<Rightarrow> nat" where
  "digit_value c =
     (let n = of_char c :: nat in
      if 48 \<le> n \<and> n \<le> 57 then n - 48
      else if 97 \<le> n \<and> n \<le> 122 then n - 87
      else if 65 \<le> n \<and> n \<le> 90 then n - 55
      else 36)"

definition number_of :: "nat \<Rightarrow> string \<Rightarrow> nat" where
  "number_of b ds = foldl (\<lambda>n d. b * n + digit_value d) 0 ds"

text \<open>The base and the digits of a number without its sign, when \<open>strtol\<close> is called with base 0.\<close>

definition strtol_base :: "string \<Rightarrow> nat \<times> string" where
  "strtol_base t =
     (if take 2 t \<in> {''0x'', ''0X''} \<and> length t > 2 \<and> digit_value (t ! 2) < 16 then (16, drop 2 t)
      else if take 1 t = ''0'' then (8, t) else (10, t))"

definition LONG_MAX :: int where "LONG_MAX = 2 ^ 63 - 1"
definition LONG_MIN :: int where "LONG_MIN = - (2 ^ 63)"

text \<open>\<open>strtol(arg, &end, 0)\<close>: the value, the text at \<open>end\<close>, and whether \<open>errno\<close> is set to \<open>ERANGE\<close>.\<close>

definition strtol :: "string \<Rightarrow> int \<times> string \<times> bool" where
  "strtol t =
     (let u = dropWhile c_isspace t;
          neg = (take 1 u = ''-'');
          u = (if take 1 u \<in> {''-'', ''+''} then drop 1 u else u);
          (b, u) = strtol_base u;
          ds = takeWhile (\<lambda>c. digit_value c < b) u;
          rest = dropWhile (\<lambda>c. digit_value c < b) u;
          v = (if neg then - int (number_of b ds) else int (number_of b ds))
      in if ds = [] then (0, t, False)
         else if v > LONG_MAX then (LONG_MAX, rest, True)
         else if v < LONG_MIN then (LONG_MIN, rest, True)
         else (v, rest, False))"

text \<open>The conversion of a \<open>glong\<close> to a \<open>gint\<close> keeps the low 32 bits.\<close>

definition to_gint :: "int \<Rightarrow> int" where
  "to_gint v = signed_take_bit 31 v"

definition parse_int :: "string \<Rightarrow> string option \<Rightarrow> opt \<Rightarrow> (int option \<times> opt) run" where
  "parse_int arg_name a s =
     (case a of
        None \<Rightarrow> Inl (Crash Null_deref)
      | Some t \<Rightarrow>
          (let (tmp, rest, erange) = strtol t in
           if t = [] \<or> rest \<noteq> [] then
             Inr (None, g_set_error G_OPTION_ERROR_BAD_VALUE
                    (concat [''Cannot parse integer value '', [CHR 0x27], t, [CHR 0x27], '' for '', arg_name]) s)
           else if to_gint tmp \<noteq> tmp \<or> erange then
             Inr (None, g_set_error G_OPTION_ERROR_BAD_VALUE
                    (concat [''Integer value '', [CHR 0x27], t, [CHR 0x27], '' for '', arg_name, '' out of range'']) s)
           else Inr (Some (to_gint tmp), s)))"

section \<open>Bookkeeping\<close>

text \<open>A change is found by the address of its variable; a new one is put in front, zeroed.\<close>

definition get_change :: "GOptionArg \<Rightarrow> nat \<Rightarrow> opt \<Rightarrow> Change \<times> opt" where
  "get_change ty d s =
     (case find (\<lambda>c. change_data c = d) (changes s) of
        Some c \<Rightarrow> (c, s)
      | None \<Rightarrow>
          (let c = \<lparr>change_type = ty, change_data = d, change_prev = Prev_zero, change_allocated = Allocated_zero\<rparr>
           in (c, s\<lparr>changes := c # changes s\<rparr>)))"

text \<open>Assignments to the fields of the change that was found.\<close>

definition put_change :: "Change \<Rightarrow> opt \<Rightarrow> opt" where
  "put_change c s = s\<lparr>changes := map (\<lambda>d. if change_data d = change_data c then c else d) (changes s)\<rparr>"

definition add_pending_null :: "nat \<Rightarrow> string option \<Rightarrow> opt \<Rightarrow> opt" where
  "add_pending_null i v s = s\<lparr>pending_nulls := \<lparr>null_ptr = i, null_value = v\<rparr> # pending_nulls s\<rparr>"

section \<open>One argument\<close>

definition g_locale_to_utf8 :: "glib_env \<Rightarrow> string option \<Rightarrow> opt \<Rightarrow> (string option \<times> opt) run" where
  "g_locale_to_utf8 E v s =
     (case v of
        None \<Rightarrow> Inl (Crash Null_deref)
      | Some t \<Rightarrow>
          (case locale_to_utf8 E t of
             Inl (code, msg) \<Rightarrow> Inr (None, g_set_error code msg s)
           | Inr u \<Rightarrow> Inr (Some u, s)))"

definition arg_none :: "GOptionEntry \<Rightarrow> opt \<Rightarrow> opt" where
  "arg_none e s =
     (let (c, s) = get_change G_OPTION_ARG_NONE (arg_data e) s in
      s\<lparr>int_at := (int_at s)(arg_data e := (if has_flag e G_OPTION_FLAG_REVERSE then 0 else 1))\<rparr>)"

text \<open>\<open>STRING\<close> and \<open>FILENAME\<close>: the earlier text is freed, the variable's old value is remembered, and the
  variable gets the new text (\<open>g_strdup\<close> of \<open>NULL\<close> is \<open>NULL\<close>).\<close>

definition arg_string :: "GOptionArg \<Rightarrow> GOptionEntry \<Rightarrow> string option \<Rightarrow> opt \<Rightarrow> opt run" where
  "arg_string ty e v s =
     (let (data, s) = g_strdup v s;
          (c, s) = get_change ty (arg_data e) s in
      andthen (allocated_str c) (\<lambda>old.
      andthen (g_free_block old s) (\<lambda>s.
      let s = put_change (c\<lparr>change_prev := Prev_pointer (ptr_at s (arg_data e)),
                            change_allocated := Allocated_str data\<rparr>) s in
      Inr (s\<lparr>ptr_at := (ptr_at s)(arg_data e := data)\<rparr>))))"

text \<open>The two vector types: the vector is grown by one element. A reallocation moves it.\<close>

definition arg_array :: "GOptionEntry \<Rightarrow> string option \<Rightarrow> opt \<Rightarrow> opt run" where
  "arg_array e v s =
     (let (new, s) = g_strdup v s;
          (c, s) = get_change G_OPTION_ARG_STRING_ARRAY (arg_data e) s in
      andthen (allocated_array c) (\<lambda>(len, data).
      let c = (if len = 0 then c\<lparr>change_prev := Prev_pointer (ptr_at s (arg_data e))\<rparr> else c) in
      andthen
        (if len = 0 then Inr ([], s)
         else (case data of
                 None \<Rightarrow> Inl (Crash Null_deref)
               | Some a \<Rightarrow>
                   (case blocks s a of
                      Some (Strv ps) \<Rightarrow> andthen (g_free_block (Some a) s) (\<lambda>s. Inr (ps, s))
                    | _ \<Rightarrow> Inl (Crash Use_after_free)))) (\<lambda>(old, s).
      let (a, s) = g_malloc (Strv (old @ [new])) s;
          s = put_change (c\<lparr>change_allocated := Allocated_array (Suc len) a\<rparr>) s in
      Inr (s\<lparr>ptr_at := (ptr_at s)(arg_data e := Some a)\<rparr>))))"

definition arg_int :: "GOptionEntry \<Rightarrow> string option \<Rightarrow> string \<Rightarrow> opt \<Rightarrow> (bool \<times> opt) run" where
  "arg_int e v option_name s =
     andthen (parse_int option_name v s) (\<lambda>(data, s).
     case data of
       None \<Rightarrow> Inr (False, s)
     | Some i \<Rightarrow>
         (let (c, s) = get_change G_OPTION_ARG_INT (arg_data e) s;
              s = put_change (c\<lparr>change_prev := Prev_integer (int_at s (arg_data e))\<rparr>) s in
          Inr (True, s\<lparr>int_at := (int_at s)(arg_data e := i)\<rparr>)))"

text \<open>The text handed to a callback lives only during the call. \<open>GError\<close>s it returns are set as usual.\<close>

definition arg_callback ::
  "glib_env \<Rightarrow> nat \<Rightarrow> GOptionEntry \<Rightarrow> string option \<Rightarrow> string \<Rightarrow> opt \<Rightarrow> (bool \<times> opt) run" where
  "arg_callback E udata e v option_name s =
     andthen
       (if v = None \<and> has_flag e G_OPTION_FLAG_OPTIONAL_ARG then Inr (None, s)
        else if has_flag e G_OPTION_FLAG_NO_ARG then Inr (None, s)
        else if has_flag e G_OPTION_FLAG_FILENAME then Inr (v, s)
        else g_locale_to_utf8 E v s) (\<lambda>(data, s).
     if flags e AND (G_OPTION_FLAG_NO_ARG OR G_OPTION_FLAG_OPTIONAL_ARG) = 0 \<and> data = None then Inr (False, s)
     else
       (let s = s\<lparr>gcalls := gcalls s @ [Arg_func (arg_data e) option_name data udata]\<rparr>;
            (retval, err) = call_arg_func E (arg_data e) option_name data udata in
        Inr (retval, (case err of None \<Rightarrow> s | Some (code, msg) \<Rightarrow> g_set_error code msg s))))"

definition parse_arg ::
  "glib_env \<Rightarrow> nat \<Rightarrow> GOptionEntry \<Rightarrow> string option \<Rightarrow> string \<Rightarrow> opt \<Rightarrow> (bool \<times> opt) run" where
  "parse_arg E udata e v option_name s =
     (case arg e of
        G_OPTION_ARG_NONE \<Rightarrow> Inr (True, arg_none e s)
      | G_OPTION_ARG_STRING \<Rightarrow>
          andthen (g_locale_to_utf8 E v s) (\<lambda>(data, s).
          if data = None then Inr (False, s)
          else andthen (arg_string G_OPTION_ARG_STRING e data s) (\<lambda>s. Inr (True, s)))
      | G_OPTION_ARG_STRING_ARRAY \<Rightarrow>
          andthen (g_locale_to_utf8 E v s) (\<lambda>(data, s).
          if data = None then Inr (False, s)
          else andthen (arg_array e data s) (\<lambda>s. Inr (True, s)))
      | G_OPTION_ARG_FILENAME \<Rightarrow> andthen (arg_string G_OPTION_ARG_FILENAME e v s) (\<lambda>s. Inr (True, s))
      | G_OPTION_ARG_FILENAME_ARRAY \<Rightarrow> andthen (arg_array e v s) (\<lambda>s. Inr (True, s))
      | G_OPTION_ARG_INT \<Rightarrow> arg_int e v option_name s
      | G_OPTION_ARG_CALLBACK \<Rightarrow> arg_callback E udata e v option_name s)"

section \<open>Short options\<close>

definition starts_with_dash :: "string \<Rightarrow> bool" where
  "starts_with_dash t \<longleftrightarrow> take 1 t = ''-''"

text \<open>The next argument becomes the value and will be removed.\<close>

definition take_next :: "nat \<Rightarrow> opt \<Rightarrow> string option \<times> opt" where
  "take_next i s = (argv s ! Suc i, add_pending_null (Suc i) None s)"

text \<open>The value of a short option: whether there is no error, the value, and \<open>new_index\<close>.\<close>

definition short_value ::
  "GOptionEntry \<Rightarrow> nat \<Rightarrow> nat \<Rightarrow> string \<Rightarrow> opt \<Rightarrow> (bool \<times> string option \<times> nat \<times> opt) run" where
  "short_value e index new_index option_name s =
     (if NO_ARG e then Inr (True, None, new_index, s)
      else if new_index > index then
        Inr (False, None, new_index, g_set_error G_OPTION_ERROR_FAILED (''Error parsing option '' @ option_name) s)
      else if Suc index < argc s then
        (if \<not> OPTIONAL_ARG e then
           (let (v, s) = take_next index s in Inr (True, v, Suc index, s))
         else
           (case argv s ! Suc index of
              None \<Rightarrow> Inl (Crash Null_deref)
            | Some a \<Rightarrow>
                if starts_with_dash a then Inr (True, None, new_index, s)
                else (let (v, s) = take_next index s in Inr (True, v, Suc index, s))))
      else if OPTIONAL_ARG e then Inr (True, None, new_index, s)
      else Inr (False, None, new_index,
                g_set_error G_OPTION_ERROR_BAD_VALUE (''Missing argument for '' @ option_name) s))"

text \<open>The loop over the entries; every entry with the short name is applied. The result has \<open>new_index\<close> and
  \<open>parsed\<close>.\<close>

fun short_entries ::
  "glib_env \<Rightarrow> nat \<Rightarrow> GOptionEntry list \<Rightarrow> nat \<Rightarrow> char \<Rightarrow> nat \<Rightarrow> bool \<Rightarrow> opt \<Rightarrow> (bool \<times> nat \<times> bool \<times> opt) run" where
  "short_entries E udata [] index c new_index parsed s = Inr (True, new_index, parsed, s)"
| "short_entries E udata (e # es) index c new_index parsed s =
     (if c = short_name e then
        (let option_name = ''-'' @ [short_name e] in
         andthen (short_value e index new_index option_name s) (\<lambda>(okay, v, new_index, s).
         if \<not> okay then Inr (False, new_index, parsed, s)
         else
           andthen (parse_arg E udata e v option_name s) (\<lambda>(okay, s).
           if okay then short_entries E udata es index c new_index True s
           else Inr (False, new_index, parsed, s))))
      else short_entries E udata es index c new_index parsed s)"

definition parse_short_option ::
  "glib_env \<Rightarrow> GOptionGroup \<Rightarrow> nat \<Rightarrow> char \<Rightarrow> nat \<Rightarrow> bool \<Rightarrow> opt \<Rightarrow> (bool \<times> nat \<times> bool \<times> opt) run" where
  "parse_short_option E g index c new_index parsed s =
     short_entries E (user_data g) (entries g) index c new_index parsed s"

section \<open>Long options\<close>

text \<open>\<open>strncmp(arg, long_name, len) == 0\<close> and what follows is \<open>=\<close> or the end.\<close>

definition long_matches :: "string \<Rightarrow> string \<Rightarrow> bool" where
  "long_matches a name \<longleftrightarrow> take (length name) a = name
     \<and> (drop (length name) a = [] \<or> hd (drop (length name) a) = CHR ''='')"

text \<open>The value for an entry that matches: the value, the new index, whether there is no error, and whether
  the loop stops after this entry (the early returns for an omitted optional argument).\<close>

definition long_value ::
  "GOptionEntry \<Rightarrow> string \<Rightarrow> nat \<Rightarrow> string \<Rightarrow> opt \<Rightarrow> (string option \<times> nat \<times> bool \<times> bool \<times> opt) run" where
  "long_value e a index option_name s =
     (if drop (length (long_name e)) a \<noteq> [] then Inr (Some (drop (Suc (length (long_name e))) a), index, True, False, s)
      else if Suc index < argc s then
        (if \<not> has_flag e G_OPTION_FLAG_OPTIONAL_ARG then
           (let (v, s) = take_next index s in Inr (v, Suc index, True, False, s))
         else
           (case argv s ! Suc index of
              None \<Rightarrow> Inl (Crash Null_deref)
            | Some b \<Rightarrow>
                if starts_with_dash b then Inr (None, index, True, True, s)
                else (let (v, s) = take_next index s in Inr (v, Suc index, True, False, s))))
      else if has_flag e G_OPTION_FLAG_OPTIONAL_ARG then Inr (None, index, True, True, s)
      else Inr (None, index, False, True,
                g_set_error G_OPTION_ERROR_BAD_VALUE (''Missing argument for '' @ option_name) s))"

fun long_entries ::
  "glib_env \<Rightarrow> nat \<Rightarrow> GOptionEntry list \<Rightarrow> string \<Rightarrow> bool \<Rightarrow> nat \<Rightarrow> bool \<Rightarrow> opt \<Rightarrow> (bool \<times> nat \<times> bool \<times> opt) run" where
  "long_entries E udata [] a aliased index parsed s = Inr (True, index, parsed, s)"
| "long_entries E udata (e # es) a aliased index parsed s =
     (let option_name = ''--'' @ long_name e in
      if index \<ge> argc s then Inr (True, index, parsed, s)
      else if aliased \<and> has_flag e G_OPTION_FLAG_NOALIAS then long_entries E udata es a aliased index parsed s
      else if NO_ARG e \<and> a = long_name e then
        andthen (parse_arg E udata e None option_name s) (\<lambda>(_, s).
        long_entries E udata es a aliased index True (add_pending_null index None s))
      else if long_matches a (long_name e) then
        andthen (long_value e a index option_name (add_pending_null index None s)) (\<lambda>(v, index, okay, stop, s).
        if \<not> okay then Inr (False, index, parsed, s)
        else
          andthen (parse_arg E udata e v option_name s) (\<lambda>(okay, s).
          if stop then Inr (okay, index, True, s)
          else if okay then long_entries E udata es a aliased index True s
          else Inr (False, index, parsed, s)))
      else long_entries E udata es a aliased index parsed s)"

definition parse_long_option ::
  "glib_env \<Rightarrow> GOptionGroup \<Rightarrow> string \<Rightarrow> bool \<Rightarrow> nat \<Rightarrow> bool \<Rightarrow> opt \<Rightarrow> (bool \<times> nat \<times> bool \<times> opt) run" where
  "parse_long_option E g a aliased index parsed s =
     long_entries E (user_data g) (entries g) a aliased index parsed s"

section \<open>Remaining arguments\<close>

fun remaining_entries :: "glib_env \<Rightarrow> nat \<Rightarrow> GOptionEntry list \<Rightarrow> nat \<Rightarrow> bool \<Rightarrow> opt \<Rightarrow> (bool \<times> bool \<times> opt) run" where
  "remaining_entries E udata [] index parsed s = Inr (True, parsed, s)"
| "remaining_entries E udata (e # es) index parsed s =
     (if index \<ge> argc s then Inr (True, parsed, s)
      else if long_name e \<noteq> [] then remaining_entries E udata es index parsed s
      else if arg e \<notin> {G_OPTION_ARG_STRING_ARRAY, G_OPTION_ARG_FILENAME_ARRAY} then
        Inr (False, parsed, g_critical ''arg == G_OPTION_ARG_STRING_ARRAY || arg == G_OPTION_ARG_FILENAME_ARRAY'' s)
      else
        andthen (parse_arg E udata e (argv s ! index) [] (add_pending_null index None s)) (\<lambda>(okay, s).
        Inr (okay, if okay then True else parsed, s)))"

definition parse_remaining_arg :: "glib_env \<Rightarrow> GOptionGroup \<Rightarrow> nat \<Rightarrow> bool \<Rightarrow> opt \<Rightarrow> (bool \<times> bool \<times> opt) run" where
  "parse_remaining_arg E g index parsed s = remaining_entries E (user_data g) (entries g) index parsed s"

section \<open>Ending a parse\<close>

definition revert_integer :: "Change \<Rightarrow> opt \<Rightarrow> opt run" where
  "revert_integer c s =
     andthen (prev_integer c) (\<lambda>i. Inr (s\<lparr>int_at := (int_at s)(change_data c := i)\<rparr>))"

definition revert_pointer :: "Change \<Rightarrow> opt \<Rightarrow> opt run" where
  "revert_pointer c s =
     andthen (prev_pointer c) (\<lambda>p. Inr (s\<lparr>ptr_at := (ptr_at s)(change_data c := p)\<rparr>))"

definition revert_str :: "Change \<Rightarrow> opt \<Rightarrow> opt run" where
  "revert_str c s =
     andthen (allocated_str c) (\<lambda>p. andthen (g_free_block p s) (revert_pointer c))"

definition revert_array :: "Change \<Rightarrow> opt \<Rightarrow> opt run" where
  "revert_array c s =
     andthen (allocated_array c) (\<lambda>(_, p). andthen (g_strfreev p s) (revert_pointer c))"

definition revert_change :: "Change \<Rightarrow> opt \<Rightarrow> opt run" where
  "revert_change c s =
     (case change_type c of
        G_OPTION_ARG_NONE \<Rightarrow> revert_integer c s
      | G_OPTION_ARG_INT \<Rightarrow> revert_integer c s
      | G_OPTION_ARG_STRING \<Rightarrow> revert_str c s
      | G_OPTION_ARG_FILENAME \<Rightarrow> revert_str c s
      | G_OPTION_ARG_STRING_ARRAY \<Rightarrow> revert_array c s
      | G_OPTION_ARG_FILENAME_ARRAY \<Rightarrow> revert_array c s
      | G_OPTION_ARG_CALLBACK \<Rightarrow> Inl (Crash Assert_failed))"

fun revert_changes :: "Change list \<Rightarrow> opt \<Rightarrow> opt run" where
  "revert_changes [] s = Inr s"
| "revert_changes (c # cs) s = andthen (revert_change c s) (revert_changes cs)"

definition free_changes_list :: "bool \<Rightarrow> opt \<Rightarrow> opt run" where
  "free_changes_list revert s =
     andthen (if revert then revert_changes (changes s) s else Inr s) (\<lambda>s. Inr (s\<lparr>changes := []\<rparr>))"

text \<open>Short options that were not recognised are copied back into the argument.\<close>

fun perform_nulls :: "PendingNull list \<Rightarrow> opt \<Rightarrow> opt run" where
  "perform_nulls [] s = Inr s"
| "perform_nulls (n # ns) s =
     (case null_value n of
        None \<Rightarrow> perform_nulls ns (s\<lparr>argv := (argv s)[null_ptr n := None]\<rparr>)
      | Some v \<Rightarrow>
          (case argv s ! null_ptr n of
             None \<Rightarrow> Inl (Crash Null_deref)
           | Some _ \<Rightarrow> perform_nulls ns (s\<lparr>argv := (argv s)[null_ptr n := Some (CHR ''-'' # v)]\<rparr>)))"

definition free_pending_nulls :: "bool \<Rightarrow> opt \<Rightarrow> opt run" where
  "free_pending_nulls perform s =
     andthen (if perform then perform_nulls (pending_nulls s) s else Inr s) (\<lambda>s. Inr (s\<lparr>pending_nulls := []\<rparr>))"

definition g_option_context_free :: "opt \<Rightarrow> opt run" where
  "g_option_context_free s =
     (let s = fold g_option_group_free (groups s) s;
          s = (case main_group s of None \<Rightarrow> s | Some g \<Rightarrow> g_option_group_free g s) in
      andthen (free_changes_list False s) (\<lambda>s.
      andthen (free_pending_nulls False s) (\<lambda>s.
      Inr (s\<lparr>groups := [], main_group := None, parameter_string := None\<rparr>))))"

section \<open>The command line\<close>

text \<open>The local variables of \<open>g_option_context_parse\<close> that live across arguments.\<close>

record scan =
  stop_parsing :: bool
  has_unknown :: bool
  separator_pos :: nat

text \<open>\<open>--help\<close>, \<open>--help-all\<close> and \<open>--help-<group>\<close>.\<close>

fun help_group :: "string \<Rightarrow> nat \<Rightarrow> GOptionGroup list \<Rightarrow> opt \<Rightarrow> opt run" where
  "help_group name k [] s = Inr s"
| "help_group name k (g # gs) s =
     (case g_name g of
        None \<Rightarrow> Inl (Crash Null_deref)
      | Some n \<Rightarrow> if name = n then print_help False (Some k) s else help_group name (Suc k) gs s)"

definition long_help :: "string \<Rightarrow> opt \<Rightarrow> opt run" where
  "long_help a s =
     (if \<not> help_enabled s then Inr s
      else if a = ''help'' then print_help True None s
      else if a = ''help-all'' then print_help False None s
      else if take 5 a = ''help-'' then help_group (drop 5 a) 0 (groups s) s
      else Inr s)"

text \<open>The groups in turn, until one has parsed the option.\<close>

fun long_groups :: "glib_env \<Rightarrow> GOptionGroup list \<Rightarrow> string \<Rightarrow> nat \<Rightarrow> opt \<Rightarrow> (bool \<times> nat \<times> bool \<times> opt) run" where
  "long_groups E [] a i s = Inr (True, i, False, s)"
| "long_groups E (g # gs) a i s =
     andthen (parse_long_option E g a False i False s) (\<lambda>(okay, i, parsed, s).
     if \<not> okay \<or> parsed then Inr (okay, i, parsed, s) else long_groups E gs a i s)"

text \<open>\<open>--<group>-<option>\<close>: only as many characters as stand before the dash are compared with the name.\<close>

fun alias_groups ::
  "glib_env \<Rightarrow> GOptionGroup list \<Rightarrow> string \<Rightarrow> string \<Rightarrow> nat \<Rightarrow> opt \<Rightarrow> (bool \<times> nat \<times> bool \<times> opt) run" where
  "alias_groups E [] prefix a i s = Inr (True, i, False, s)"
| "alias_groups E (g # gs) prefix a i s =
     (case g_name g of
        None \<Rightarrow> Inl (Crash Null_deref)
      | Some n \<Rightarrow>
          if take (length prefix) n = prefix then
            andthen (parse_long_option E g a True i False s) (\<lambda>(okay, i, parsed, s).
            if \<not> okay \<or> parsed then Inr (okay, i, parsed, s) else alias_groups E gs prefix a i s)
          else alias_groups E gs prefix a i s)"

definition long_option :: "glib_env \<Rightarrow> string \<Rightarrow> nat \<Rightarrow> opt \<Rightarrow> (bool \<times> nat \<times> bool \<times> opt) run" where
  "long_option E a i s =
     andthen (case main_group s of
                None \<Rightarrow> Inr (True, i, False, s)
              | Some g \<Rightarrow> parse_long_option E g a False i False s) (\<lambda>(okay, i, parsed, s).
     if \<not> okay \<or> parsed then Inr (okay, i, parsed, s)
     else
       andthen (long_groups E (groups s) a i s) (\<lambda>(okay, i, parsed, s).
       if \<not> okay \<or> parsed then Inr (okay, i, parsed, s)
       else
         (case strchr_split (CHR ''-'') a of
            None \<Rightarrow> Inr (True, i, False, s)
          | Some (prefix, dash) \<Rightarrow> alias_groups E (groups s) prefix (tl dash) i s)))"

definition unknown_option :: "nat \<Rightarrow> opt \<Rightarrow> opt" where
  "unknown_option i s =
     g_set_error G_OPTION_ERROR_UNKNOWN_OPTION (''Unknown option '' @ pstr (argv s ! i)) s"

text \<open>One argument that starts with two dashes.\<close>

definition long_arg :: "glib_env \<Rightarrow> nat \<Rightarrow> string \<Rightarrow> scan \<Rightarrow> opt \<Rightarrow> (bool \<times> nat \<times> scan \<times> opt) run" where
  "long_arg E i a sc s =
     (if a = [] then Inr (True, i, sc\<lparr>separator_pos := i, stop_parsing := True\<rparr>, s)
      else
        andthen (long_help a s) (\<lambda>s.
        andthen (long_option E a i s) (\<lambda>(okay, i, parsed, s).
        if \<not> okay then Inr (False, i, sc, s)
        else if parsed \<or> ignore_unknown s then Inr (True, i, sc, s)
        else Inr (False, i, sc\<lparr>has_unknown := True\<rparr>, unknown_option i s))))"

fun short_groups ::
  "glib_env \<Rightarrow> GOptionGroup list \<Rightarrow> nat \<Rightarrow> char \<Rightarrow> nat \<Rightarrow> opt \<Rightarrow> (bool \<times> nat \<times> bool \<times> opt) run" where
  "short_groups E [] i c new_i s = Inr (True, new_i, False, s)"
| "short_groups E (g # gs) i c new_i s =
     andthen (parse_short_option E g i c new_i False s) (\<lambda>(okay, new_i, parsed, s).
     if \<not> okay \<or> parsed then Inr (okay, new_i, parsed, s) else short_groups E gs i c new_i s)"

definition short_option :: "glib_env \<Rightarrow> nat \<Rightarrow> char \<Rightarrow> nat \<Rightarrow> opt \<Rightarrow> (bool \<times> nat \<times> bool \<times> opt) run" where
  "short_option E i c new_i s =
     andthen (case main_group s of
                None \<Rightarrow> Inr (True, new_i, False, s)
              | Some g \<Rightarrow> parse_short_option E g i c new_i False s) (\<lambda>(okay, new_i, parsed, s).
     if \<not> okay \<or> parsed then Inr (okay, new_i, parsed, s)
     else short_groups E (groups s) i c new_i s)"

text \<open>The characters of an argument with one dash. \<open>nulled\<close> holds, in reverse, which were recognised.\<close>

fun short_chars ::
  "glib_env \<Rightarrow> nat \<Rightarrow> string \<Rightarrow> nat \<Rightarrow> bool \<Rightarrow> bool list \<Rightarrow> opt \<Rightarrow> (bool \<times> nat \<times> bool \<times> bool list \<times> opt) run" where
  "short_chars E i [] new_i parsed nulled s = Inr (True, new_i, parsed, rev nulled, s)"
| "short_chars E i (c # cs) new_i parsed nulled s =
     andthen (if help_enabled s \<and> c = CHR ''?'' then print_help True None s else Inr s) (\<lambda>s.
     andthen (short_option E i c new_i s) (\<lambda>(okay, new_i, parsed, s).
     if \<not> okay then Inr (False, new_i, parsed, rev nulled, s)
     else if \<not> parsed \<and> \<not> ignore_unknown s then Inr (True, new_i, False, rev nulled, s)
     else short_chars E i cs new_i parsed (parsed # nulled) s))"

text \<open>The characters that were not recognised, as the new text of the argument.\<close>

definition not_nulled :: "string \<Rightarrow> bool list \<Rightarrow> string option" where
  "not_nulled a nulled =
     (let left = map fst (filter (\<lambda>(c, n). \<not> n) (zip a nulled)) in if left = [] then None else Some left)"

definition short_arg :: "glib_env \<Rightarrow> nat \<Rightarrow> string \<Rightarrow> scan \<Rightarrow> opt \<Rightarrow> (bool \<times> nat \<times> scan \<times> opt) run" where
  "short_arg E i a sc s =
     andthen (short_chars E i a i False [] s) (\<lambda>(okay, new_i, parsed, nulled, s).
     if \<not> okay then Inr (False, i, sc, s)
     else
       (let (i, s) = (if ignore_unknown s then (i, add_pending_null i (not_nulled a nulled) s)
                      else if parsed then (new_i, add_pending_null i None s)
                      else (i, s));
            sc = (if parsed then sc else sc\<lparr>has_unknown := True\<rparr>) in
        if \<not> parsed \<and> \<not> ignore_unknown s then Inr (False, i, sc, unknown_option i s)
        else Inr (True, i, sc, s)))"

definition remaining_arg :: "glib_env \<Rightarrow> nat \<Rightarrow> string \<Rightarrow> scan \<Rightarrow> opt \<Rightarrow> (bool \<times> nat \<times> scan \<times> opt) run" where
  "remaining_arg E i a sc s =
     andthen (case main_group s of
                None \<Rightarrow> Inr (True, False, s)
              | Some g \<Rightarrow> parse_remaining_arg E g i False s) (\<lambda>(okay, parsed, s).
     Inr (okay, i, (if okay \<and> \<not> parsed \<and> (has_unknown sc \<or> starts_with_dash a) then sc\<lparr>separator_pos := 0\<rparr> else sc), s))"

text \<open>One round of the loop over the arguments.\<close>

definition parse_step :: "glib_env \<Rightarrow> nat \<Rightarrow> scan \<Rightarrow> opt \<Rightarrow> (bool \<times> nat \<times> scan \<times> opt) run" where
  "parse_step E i sc s =
     (case argv s ! i of
        None \<Rightarrow> Inl (Crash Null_deref)
      | Some a \<Rightarrow>
          if starts_with_dash a \<and> drop 1 a \<noteq> [] \<and> \<not> stop_parsing sc then
            (if a ! 1 = CHR ''-'' then long_arg E i (drop 2 a) sc s
             else short_arg E i (drop 1 a) sc s)
          else remaining_arg E i a sc s)"

end
