(* ===== verification/Goption_Context.thy ===== *)
theory Goption_Context
  imports Goption_Parse
begin

text \<open>
  \<open>g_option_context_parse\<close> as a whole: the loop over the arguments and its termination, the hooks, the
  removal of the parsed arguments, and the way out on failure; then the properties of the option parser.

  The model is of calls that pass the addresses of \<open>argc\<close> and \<open>argv\<close>, as \<open>sofsip_init\<close> does.
\<close>

section \<open>What parsing leaves alone\<close>

text \<open>Until it ends, a parse changes neither the arguments nor the definition of the options.\<close>

definition frame :: "nat \<Rightarrow> opt \<Rightarrow> opt \<Rightarrow> bool" where
  "frame j s s' \<longleftrightarrow> argv s' = argv s \<and> argc s' = argc s \<and> groups s' = groups s \<and> main_group s' = main_group s
     \<and> help_enabled s' = help_enabled s \<and> ignore_unknown s' = ignore_unknown s
     \<and> parameter_string s' = parameter_string s \<and> g_prgname s' = g_prgname s
     \<and> (\<exists>new. pending_nulls s' = new @ pending_nulls s
          \<and> (\<forall>n \<in> set new. null_value n = None \<and> j \<le> null_ptr n \<and> null_ptr n < argc s))"

lemma frame_refl [simp]: "frame j s s"
  by (simp add: frame_def)

lemma frame_trans: "frame j s s' \<Longrightarrow> frame j s' s'' \<Longrightarrow> frame j s s''"
  by (fastforce simp: frame_def)

lemma frame_argc: "frame j s s' \<Longrightarrow> argc s' = argc s"
  by (simp add: frame_def)

lemma frame_basic [simp]:
  "frame j t (g_set_error code msg s) = frame j t s"
  "frame j t (put_change c s) = frame j t s"
  "frame j t (snd (g_malloc b s)) = frame j t s"
  "frame j t (snd (g_strdup v s)) = frame j t s"
  "frame j t (snd (get_change ty d s)) = frame j t s"
  "frame j t (arg_none e s) = frame j t s"
  "frame j t (g_critical msg s) = frame j t s"
  "frame j t (unknown_option i s) = frame j t s"
  by (auto simp: frame_def g_set_error_def put_change_def g_malloc_def g_strdup_def get_change_def
      arg_none_def g_critical_def unknown_option_def Let_def split: option.split)

lemma frame_add_pending_null [intro]:
  assumes "frame j t s" "j \<le> i" "i < argc t"
  shows "frame j t (add_pending_null i None s)"
proof -
  from assms obtain new where "pending_nulls s = new @ pending_nulls t"
      "\<forall>n \<in> set new. null_value n = None \<and> j \<le> null_ptr n \<and> null_ptr n < argc t"
    by (auto simp: frame_def)
  then have "pending_nulls (add_pending_null i None s) = (\<lparr>null_ptr = i, null_value = None\<rparr> # new) @ pending_nulls t
      \<and> (\<forall>n \<in> set (\<lparr>null_ptr = i, null_value = None\<rparr> # new). null_value n = None \<and> j \<le> null_ptr n \<and> null_ptr n < argc t)"
    using assms by (simp add: add_pending_null_def frame_def)
  with assms(1) show ?thesis unfolding frame_def by (auto simp: add_pending_null_def)
qed

lemma frame_fields [simp]:
  "frame j t (s\<lparr>int_at := x\<rparr>) = frame j t s"
  "frame j t (s\<lparr>ptr_at := p\<rparr>) = frame j t s"
  "frame j t (s\<lparr>gcalls := y\<rparr>) = frame j t s"
  by (simp_all add: frame_def)

text \<open>Reading a union changes nothing.\<close>

lemma readers_return:
  "(\<And>i. Q i) \<Longrightarrow> if_returns (prev_integer c) Q" "(\<And>p. R p) \<Longrightarrow> if_returns (prev_pointer c) R"
  "(\<And>p. R p) \<Longrightarrow> if_returns (allocated_str c) R" "(\<And>p. P p) \<Longrightarrow> if_returns (allocated_array c) P"
  by (simp_all add: prev_integer_def prev_pointer_def allocated_str_def allocated_array_def
      split: prev_union.split allocated_union.split)

lemma frame_g_free: "if_returns (g_free_block p s) (\<lambda>s'. frame j s s')"
  by (simp add: g_free_block_def frame_def split: option.split)

lemmas wp_g_free = if_returns_mono [OF frame_g_free]

lemma frame_arg_string: "if_returns (arg_string ty e v s) (frame j s)"
proof -
  obtain data s1 where a: "g_strdup v s = (data, s1)" by fastforce
  obtain c s2 where g: "get_change ty (arg_data e) s1 = (c, s2)" by fastforce
  have f2: "frame j s s2"
    using frame_basic(4) [of j s v s] frame_basic(5) [of j s ty "arg_data e" s1] a g by simp
  show ?thesis
    unfolding arg_string_def Let_def a g prod.case
    using f2 by (auto intro!: readers_return wp_g_free dest: frame_trans)
qed

lemma frame_arg_array: "if_returns (arg_array e v s) (frame j s)"
proof -
  obtain new s1 where a: "g_strdup v s = (new, s1)" by fastforce
  obtain c s2 where g: "get_change G_OPTION_ARG_STRING_ARRAY (arg_data e) s1 = (c, s2)" by fastforce
  have f2: "frame j s s2"
    using frame_basic(4) [of j s v s] frame_basic(5) [of j s G_OPTION_ARG_STRING_ARRAY "arg_data e" s1] a g by simp
  have f3: "frame j s s3 \<Longrightarrow> frame j s (snd (g_malloc b s3))" for b s3 by simp
  show ?thesis
    unfolding arg_array_def Let_def a g prod.case
    apply (simp only: if_returns_simps)
    apply (rule readers_return)
    apply clarify
    apply (rule if_returns_andthenI [where P = "\<lambda>(ps, s'). frame j s s'"])
    using f2
     apply (auto split: option.split block.split intro!: wp_g_free dest: frame_trans)[1]
    using f3 by (auto simp: case_prod_beta)
qed

lemma frame_locale: "if_returns (g_locale_to_utf8 E v s) (\<lambda>(d, s'). frame j s s')"
  by (auto simp: g_locale_to_utf8_def split: option.split sum.split prod.split)

lemma frame_arg_int: "if_returns (arg_int e v n s) (\<lambda>(b, s'). frame j s s')"
  by (auto simp: arg_int_def parse_int_def Let_def case_prod_beta split: option.split)

lemma frame_arg_callback: "if_returns (arg_callback E u e v n s) (\<lambda>(b, s'). frame j s s')"
proof -
  have "if_returns (if v = None \<and> has_flag e G_OPTION_FLAG_OPTIONAL_ARG then Inr (None, s)
        else if has_flag e G_OPTION_FLAG_NO_ARG then Inr (None, s)
        else if has_flag e G_OPTION_FLAG_FILENAME then Inr (v, s)
        else g_locale_to_utf8 E v s) (\<lambda>(d, s'). frame j s s')"
    using frame_locale by simp
  then show ?thesis
    unfolding arg_callback_def
    by (rule if_returns_andthenI) (auto simp: Let_def case_prod_beta split: option.split)
qed

lemma frame_parse_arg: "if_returns (parse_arg E u e v n s) (\<lambda>(b, s'). frame j s s')"
proof (cases "arg e")
  case G_OPTION_ARG_STRING
  then show ?thesis
    by (auto simp: parse_arg_def intro!: if_returns_mono [OF frame_locale] if_returns_mono [OF frame_arg_string] dest: frame_trans)
next
  case G_OPTION_ARG_STRING_ARRAY
  then show ?thesis
    by (auto simp: parse_arg_def intro!: if_returns_mono [OF frame_locale] if_returns_mono [OF frame_arg_array] dest: frame_trans)
next
  case G_OPTION_ARG_FILENAME
  then show ?thesis by (auto simp: parse_arg_def intro!: if_returns_mono [OF frame_arg_string])
next
  case G_OPTION_ARG_FILENAME_ARRAY
  then show ?thesis by (auto simp: parse_arg_def intro!: if_returns_mono [OF frame_arg_array])
qed (simp_all add: parse_arg_def frame_arg_int frame_arg_callback)

lemma wp_parse_arg:
  assumes "frame j t s" "\<And>b s'. frame j t s' \<Longrightarrow> Q (b, s')"
  shows "if_returns (parse_arg E u e v n s) Q"
  by (rule if_returns_mono [OF frame_parse_arg]) (use assms in \<open>auto dest: frame_trans\<close>)

lemma wp_short_value:
  assumes "frame j t s" "j \<le> i" "j \<le> k" "\<And>b v' k' s'. frame j t s' \<Longrightarrow> j \<le> k' \<Longrightarrow> Q (b, v', k', s')"
  shows "if_returns (short_value e i k n s) Q"
proof -
  have "Suc i < argc s \<Longrightarrow> Q (True, v, Suc i, add_pending_null (Suc i) None s)" for v
    using assms frame_argc [OF assms(1)] by (intro assms(4)) auto
  then show ?thesis
    using assms by (auto simp: short_value_def take_next_def Let_def split: option.split)
qed

lemma frame_short_entries:
  "frame j t s \<Longrightarrow> j \<le> i \<Longrightarrow> j \<le> k \<Longrightarrow>
   if_returns (short_entries E u es i c k p s) (\<lambda>(b, k', p', s'). frame j t s' \<and> j \<le> k')"
proof (induction es arbitrary: k p s)
  case (Cons e es)
  then show ?case
    by (auto simp: Let_def intro!: wp_short_value [of j t] wp_parse_arg [of j t])
qed simp

lemma wp_long_value:
  assumes "frame j t s" "j \<le> i" "\<And>v' i' b st s'. frame j t s' \<Longrightarrow> j \<le> i' \<Longrightarrow> Q (v', i', b, st, s')"
  shows "if_returns (long_value e a i n s) Q"
proof -
  have "Suc i < argc s \<Longrightarrow> Q (v, Suc i, True, False, add_pending_null (Suc i) None s)" for v
    using assms frame_argc [OF assms(1)] by (intro assms(3)) auto
  then show ?thesis
    using assms by (auto simp: long_value_def take_next_def Let_def split: option.split)
qed

lemma frame_long_entries:
  "frame j t s \<Longrightarrow> j \<le> i \<Longrightarrow>
   if_returns (long_entries E u es a al i p s) (\<lambda>(b, i', p', s'). frame j t s' \<and> j \<le> i')"
proof (induction es arbitrary: a al i p s)
  case (Cons e es)
  then show ?case
    using frame_argc [OF Cons.prems(1)]
    by (auto simp: Let_def intro!: wp_long_value [of j t] wp_parse_arg [of j t] Cons.IH)
qed simp

lemma frame_remaining_entries:
  "frame j t s \<Longrightarrow> j \<le> i \<Longrightarrow> if_returns (remaining_entries E u es i p s) (\<lambda>(b, p', s'). frame j t s')"
  using frame_argc [of j t s] by (induction es) (auto intro!: wp_parse_arg [of j t])

text \<open>The same for the groups.\<close>

lemma wp_parse_long_option:
  assumes "frame j t s" "j \<le> i" "\<And>b i' p' s'. frame j t s' \<Longrightarrow> j \<le> i' \<Longrightarrow> Q (b, i', p', s')"
  shows "if_returns (parse_long_option E g a al i p s) Q"
  unfolding parse_long_option_def
  by (rule if_returns_mono [OF frame_long_entries [OF assms(1,2)]]) (use assms(3) in auto)

lemma wp_parse_short_option:
  assumes "frame j t s" "j \<le> i" "j \<le> k" "\<And>b k' p' s'. frame j t s' \<Longrightarrow> j \<le> k' \<Longrightarrow> Q (b, k', p', s')"
  shows "if_returns (parse_short_option E g i c k p s) Q"
  unfolding parse_short_option_def
  by (rule if_returns_mono [OF frame_short_entries [OF assms(1-3)]]) (use assms(4) in auto)

lemma frame_long_groups:
  "frame j t s \<Longrightarrow> j \<le> i \<Longrightarrow> if_returns (long_groups E gs a i s) (\<lambda>(b, i', p', s'). frame j t s' \<and> j \<le> i')"
  by (induction gs arbitrary: i s) (auto intro!: wp_parse_long_option [of j t])

lemma frame_alias_groups:
  "frame j t s \<Longrightarrow> j \<le> i \<Longrightarrow> if_returns (alias_groups E gs pre a i s) (\<lambda>(b, i', p', s'). frame j t s' \<and> j \<le> i')"
  by (induction gs arbitrary: i s) (auto intro!: wp_parse_long_option [of j t] split: option.split)

lemma frame_short_groups:
  "frame j t s \<Longrightarrow> j \<le> i \<Longrightarrow> j \<le> k \<Longrightarrow>
   if_returns (short_groups E gs i c k s) (\<lambda>(b, k', p', s'). frame j t s' \<and> j \<le> k')"
  by (induction gs arbitrary: k s) (auto intro!: wp_parse_short_option [of j t])

lemma print_help_exits [simp]: "if_returns (print_help b k s) Q"
  by (simp add: print_help_def Let_def)

lemma frame_long_help: "if_returns (long_help a s) (\<lambda>s'. s' = s)"
proof -
  have "if_returns (help_group n k gs s) (\<lambda>s'. s' = s)" for n k gs
    by (induction gs arbitrary: k) (auto split: option.split)
  then show ?thesis by (simp add: long_help_def)
qed

lemma frame_long_option:
  assumes "frame j t s" "j \<le> i"
  shows "if_returns (long_option E a i s) (\<lambda>(b, i', p', s'). frame j t s' \<and> j \<le> i')"
  unfolding long_option_def using assms
  by (auto simp: case_prod_beta split: option.split
      intro!: wp_parse_long_option [of j t] if_returns_mono [OF frame_long_groups [of j t]] frame_alias_groups)

lemma frame_short_option:
  assumes "frame j t s" "j \<le> i" "j \<le> k"
  shows "if_returns (short_option E i c k s) (\<lambda>(b, k', p', s'). frame j t s' \<and> j \<le> k')"
  unfolding short_option_def using assms
  by (auto split: option.split intro!: wp_parse_short_option [of j t] frame_short_groups)

lemma frame_short_chars:
  "frame j t s \<Longrightarrow> j \<le> i \<Longrightarrow> j \<le> k \<Longrightarrow>
   if_returns (short_chars E i cs k p ns s) (\<lambda>(b, k', p', ns', s'). frame j t s' \<and> j \<le> k')"
proof (induction cs arbitrary: k p ns s)
  case (Cons c cs)
  then show ?case by (auto intro!: if_returns_mono [OF frame_short_option [of j t]])
qed simp

text \<open>One round may also put back the short options it did not recognise.\<close>

definition step_frame :: "nat \<Rightarrow> opt \<Rightarrow> opt \<Rightarrow> bool" where
  "step_frame i s s' \<longleftrightarrow> frame i s s' \<or> ignore_unknown s \<and> (\<exists>v s1. frame i s s1 \<and> s' = add_pending_null i (Some v) s1)"

lemma step_frame_argc: "step_frame i s s' \<Longrightarrow> argc s' = argc s"
  by (auto simp: step_frame_def frame_def add_pending_null_def)

lemma frame_ignore: "frame j s s' \<Longrightarrow> ignore_unknown s' = ignore_unknown s"
  by (simp add: frame_def)

lemma frame_short_arg:
  assumes "i < argc s"
  shows "if_returns (short_arg E i a sc s) (\<lambda>(b, i', sc', s'). step_frame i s s' \<and> i \<le> i')"
  unfolding short_arg_def
proof (rule if_returns_andthenI [OF frame_short_chars [of i s s i i]])
  fix x :: "bool \<times> nat \<times> bool \<times> bool list \<times> opt"
  assume "case x of (b, k', p', ns', s') \<Rightarrow> frame i s s' \<and> i \<le> k'"
  then obtain b k p ns s1 where x: "x = (b, k, p, ns, s1)" "frame i s s1" "i \<le> k" by (cases x) auto
  have "step_frame i s (add_pending_null i v s1)" if "v = None \<or> ignore_unknown s" for v
  proof (cases v)
    case None
    then show ?thesis using x(2) assms by (auto simp: step_frame_def)
  next
    case (Some w)
    then show ?thesis using x(2) that by (auto simp: step_frame_def)
  qed
  moreover have "step_frame i s s1" "step_frame i s (unknown_option m s1)" for m
    using x(2) by (simp_all add: step_frame_def)
  moreover have "ignore_unknown (add_pending_null i v s1) = ignore_unknown s1" for v
    by (simp add: add_pending_null_def)
  ultimately show "if_returns (case x of (okay, new_i, parsed, nulled, s) \<Rightarrow>
      if \<not> okay then Inr (False, i, sc, s)
      else let (i, s) = if ignore_unknown s then (i, add_pending_null i (not_nulled a nulled) s)
                   else if parsed then (new_i, add_pending_null i None s) else (i, s);
               sc = if parsed then sc else sc\<lparr>has_unknown := True\<rparr>
           in if \<not> parsed \<and> \<not> ignore_unknown s then Inr (False, i, sc, unknown_option i s) else Inr (True, i, sc, s))
     (\<lambda>(b, i', sc', s'). step_frame i s s' \<and> i \<le> i')"
    using x frame_ignore [OF x(2)] by (auto simp: Let_def)
qed simp_all

lemma frame_parse_step:
  assumes "i < argc s"
  shows "if_returns (parse_step E i sc s) (\<lambda>(b, i', sc', s'). step_frame i s s' \<and> i \<le> i')"
proof -
  have "if_returns (long_arg E i a sc s) (\<lambda>(b, i', sc', s'). frame i s s' \<and> i \<le> i')" for a
    by (auto simp: long_arg_def intro!: if_returns_mono [OF frame_long_help] if_returns_mono [OF frame_long_option [of i s]])
  moreover have "if_returns (remaining_arg E i a sc s) (\<lambda>(b, i', sc', s'). frame i s s' \<and> i \<le> i')" for a
    by (auto simp: remaining_arg_def parse_remaining_arg_def split: option.split
        intro!: if_returns_mono [OF frame_remaining_entries [of i s]])
  moreover have "if_returns m (\<lambda>(b, i', sc', s'). step_frame i s s' \<and> i \<le> i')"
    if "if_returns m (\<lambda>(b, i', sc', s'). frame i s s' \<and> i \<le> i')" for m :: "(bool \<times> nat \<times> scan \<times> opt) run"
    by (rule if_returns_mono [OF that]) (auto simp: step_frame_def)
  ultimately show ?thesis
    using frame_short_arg [OF assms] by (simp add: parse_step_def split: option.split)
qed

text \<open>The loop over the arguments: the index only grows, so it ends.\<close>

function parse_args :: "glib_env \<Rightarrow> nat \<Rightarrow> scan \<Rightarrow> opt \<Rightarrow> (bool \<times> scan \<times> opt) run" where
  "parse_args E i sc s =
     (if i < argc s then
        andthen (parse_step E i sc s) (\<lambda>(okay, i, sc, s).
        if okay then parse_args E (Suc i) sc s else Inr (False, sc, s))
      else Inr (True, sc, s))"
  by pat_completeness auto

termination
proof (relation "measure (\<lambda>(E, i, sc, s). argc s - i)")
  fix E i sc s x okay y i' z sc' s'
  assume "i < argc s" "parse_step E i sc s = Inr x" "(okay, y) = x" "(i', z) = y" "(sc', s') = z" okay
  then show "((E, Suc i', sc', s'), E, i, sc, s) \<in> measure (\<lambda>(E, i, sc, s). argc s - i)"
    using frame_parse_step [of i s E sc] by (auto simp: if_returns_def dest: step_frame_argc)
qed simp

declare parse_args.simps [simp del]

section \<open>Parsing\<close>

text \<open>Hooks, called for every group that has one; the first that fails ends the parse.\<close>

fun run_hooks :: "glib_env \<Rightarrow> (GOptionGroup \<Rightarrow> nat option) \<Rightarrow> GOptionGroup list \<Rightarrow> opt \<Rightarrow> bool \<times> opt" where
  "run_hooks E hook [] s = (True, s)"
| "run_hooks E hook (g # gs) s =
     (case hook g of
        None \<Rightarrow> run_hooks E hook gs s
      | Some f \<Rightarrow>
          (let s = s\<lparr>gcalls := gcalls s @ [Hook f (user_data g)]\<rparr>;
               (okay, err) = call_hook E f (user_data g);
               s = (case err of None \<Rightarrow> s | Some (code, msg) \<Rightarrow> g_set_error code msg s)
           in if okay then run_hooks E hook gs s else (False, s)))"

definition all_groups :: "opt \<Rightarrow> GOptionGroup list" where
  "all_groups s = groups s @ (case main_group s of None \<Rightarrow> [] | Some g \<Rightarrow> [g])"

definition run_error_hooks :: "opt \<Rightarrow> opt" where
  "run_error_hooks s =
     s\<lparr>gcalls := gcalls s @ concat (map (\<lambda>g. case error_func g of None \<Rightarrow> [] | Some f \<Rightarrow> [Error_hook f (user_data g)])
                                      (all_groups s))\<rparr>"

text \<open>The loops that close the gaps. \<open>k\<close> is the first place from \<open>i\<close> on that is not \<open>NULL\<close>; everything from
  there on moves down.\<close>

definition first_left :: "string option list \<Rightarrow> nat \<Rightarrow> nat \<Rightarrow> nat" where
  "first_left v n i = (case find (\<lambda>k. v ! k \<noteq> None) [i..<n] of None \<Rightarrow> max i n | Some k \<Rightarrow> k)"

definition move_down :: "nat \<Rightarrow> nat \<Rightarrow> nat \<Rightarrow> string option list \<Rightarrow> string option list" where
  "move_down i k n v = fold (\<lambda>j v. (v[j - k := v ! j])[j := None]) [i + k..<n] v"

function compact :: "nat \<Rightarrow> nat \<Rightarrow> string option list \<Rightarrow> nat \<times> string option list" where
  "compact i n v =
     (if i < n then
        (let k = first_left v n i - i in
         if k > 0 then compact (Suc i) (n - k) (move_down i k n v) else compact (Suc i) n v)
      else (n, v))"
  by pat_completeness auto

termination
  by (relation "measure (\<lambda>(i, n, v). n - i)") auto

declare compact.simps [simp del]

definition set_prgname :: "glib_env \<Rightarrow> opt \<Rightarrow> opt run" where
  "set_prgname E s =
     (if argc s = 0 then Inr (s\<lparr>g_prgname := ''<unknown>''\<rparr>)
      else (case argv s ! 0 of
              None \<Rightarrow> Inl (Crash Null_deref)
            | Some a \<Rightarrow> Inr (s\<lparr>g_prgname := path_get_basename E a\<rparr>)))"

definition parse_fail :: "opt \<Rightarrow> (bool \<times> opt) run" where
  "parse_fail s =
     andthen (free_changes_list True (run_error_hooks s)) (\<lambda>s.
     andthen (free_pending_nulls False s) (\<lambda>s. Inr (False, s)))"

definition parse_finish :: "opt \<Rightarrow> (bool \<times> opt) run" where
  "parse_finish s =
     andthen (free_pending_nulls True s) (\<lambda>s.
     let (n, v) = compact 1 (argc s) (argv s) in Inr (True, s\<lparr>argc := n, argv := v\<rparr>))"

text \<open>After the last argument: the separator, the post-parse hooks, and success or failure.\<close>

definition parse_end :: "glib_env \<Rightarrow> scan \<Rightarrow> opt \<Rightarrow> (bool \<times> opt) run" where
  "parse_end E sc s =
     (let s = (if separator_pos sc > 0 then add_pending_null (separator_pos sc) None s else s);
          (okay, s) = run_hooks E post_parse_func (all_groups s) s in
      if \<not> okay then parse_fail s else parse_finish s)"

definition g_option_context_parse :: "glib_env \<Rightarrow> opt \<Rightarrow> (bool \<times> opt) run" where
  "g_option_context_parse E s =
     andthen (set_prgname E s) (\<lambda>s.
     let (okay, s) = run_hooks E pre_parse_func (all_groups s) s in
     if \<not> okay then parse_fail s
     else
       andthen (parse_args E 1 \<lparr>stop_parsing = False, has_unknown = False, separator_pos = 0\<rparr> s) (\<lambda>(okay, sc, s).
       if \<not> okay then parse_fail s else parse_end E sc s))"

end
