(* ===== verification/Goption_Args.thy ===== *)
theory Goption_Args
  imports Goption_Context
begin

text \<open>
  What \<open>g_option_context_parse\<close> (replace_goption.c) does with the argument vector: the compaction that removes
  recognised options keeps the rest in order, a failed parse leaves the vector alone, and a successful one
  leaves no argument that looks like an option in front of a \<open>--\<close>.
\<close>

section \<open>Closing the gaps\<close>

lemma length_move_down [simp]: "length (move_down i k n v) = length v"
proof -
  have "length (fold (\<lambda>j v. (v[j - k := v ! j])[j := None]) js v) = length v" for js
    by (induction js arbitrary: v) auto
  then show ?thesis by (simp add: move_down_def)
qed

lemma move_down_nth:
  assumes "k > 0" "i + k \<le> n" "n \<le> length v"
  shows "l < i \<Longrightarrow> move_down i k n v ! l = v ! l"
    and "i \<le> l \<Longrightarrow> l < n - k \<Longrightarrow> move_down i k n v ! l = v ! (l + k)"
    and "n \<le> l \<Longrightarrow> l < length v \<Longrightarrow> move_down i k n v ! l = v ! l"
  using assms(2,3)
proof (induction n arbitrary: l)
  case (Suc n)
  note IH = Suc.IH
  {
    case 1
    show ?case
    proof (cases "i + k \<le> n")
      case True
      then have "move_down i k (Suc n) v = ((move_down i k n v)[n - k := move_down i k n v ! n])[n := None]"
        by (simp add: move_down_def)
      with True 1 IH(1) [of l] assms(1) show ?thesis by simp
    next
      case False
      with 1 have "i + k = Suc n" by simp
      then show ?thesis by (simp add: move_down_def)
    qed
  next
    case 2
    then have k: "i + k \<le> n" by simp
    then have m: "move_down i k (Suc n) v = ((move_down i k n v)[n - k := move_down i k n v ! n])[n := None]"
      by (simp add: move_down_def)
    show ?case
    proof (cases "l = n - k")
      case True
      with k m IH(3) [of n] 2 assms(1) show ?thesis by simp
    next
      case False
      with k m IH(2) [of l] 2 assms(1) show ?thesis by simp
    qed
  next
    case 3
    show ?case
    proof (cases "i + k \<le> n")
      case True
      then have "move_down i k (Suc n) v = ((move_down i k n v)[n - k := move_down i k n v ! n])[n := None]"
        by (simp add: move_down_def)
      with True 3 IH(3) [of l] assms(1) show ?thesis by simp
    next
      case False
      with 3 have "i + k = Suc n" by simp
      then show ?thesis by (simp add: move_down_def)
    qed
  }
qed (simp_all add: move_down_def)

lemma take_move_down:
  assumes "k > 0" "i + k \<le> n" "n \<le> length v"
  shows "take (n - k) (move_down i k n v) = take i v @ drop (i + k) (take n v)"
proof (rule nth_equalityI)
  show "length (take (n - k) (move_down i k n v)) = length (take i v @ drop (i + k) (take n v))"
    using assms by simp
  fix l
  assume l: "l < length (take (n - k) (move_down i k n v))"
  show "take (n - k) (move_down i k n v) ! l = (take i v @ drop (i + k) (take n v)) ! l"
  proof (cases "l < i")
    case True
    then show ?thesis using l assms move_down_nth(1) [OF assms True] by (simp add: nth_append)
  next
    case False
    then show ?thesis using l assms move_down_nth(2) [OF assms, of l] by (simp add: nth_append ac_simps)
  qed
qed

lemma move_down_split:
  assumes "i < f" "f < n" "n \<le> length v"
  shows "take (Suc i) (move_down i (f - i) n v) = take i v @ [v ! f]"
    and "drop (Suc i) (take (n - (f - i)) (move_down i (f - i) n v)) = drop (Suc f) (take n v)"
proof -
  let ?w = "move_down i (f - i) n v"
  have tw: "take (n - (f - i)) ?w = take i v @ v ! f # drop (Suc f) (take n v)"
    using take_move_down [of "f - i" i n v] assms by (simp add: Cons_nth_drop_Suc [symmetric])
  have "take (Suc i) ?w = take (Suc i) (take (n - (f - i)) ?w)" using assms by simp
  then show "take (Suc i) ?w = take i v @ [v ! f]" unfolding tw using assms by simp
  show "drop (Suc i) (take (n - (f - i)) ?w) = drop (Suc f) (take n v)" unfolding tw using assms by simp
qed

lemma first_left_range:
  assumes "i < n"
  shows "i \<le> first_left v n i \<and> first_left v n i \<le> n \<and> (\<forall>l. i \<le> l \<and> l < first_left v n i \<longrightarrow> v ! l = None)
    \<and> (first_left v n i < n \<longrightarrow> v ! first_left v n i \<noteq> None)"
proof (cases "find (\<lambda>k. v ! k \<noteq> None) [i..<n]")
  case None
  then have "first_left v n i = n" using assms unfolding first_left_def None by simp
  with None show ?thesis using assms by (simp add: find_None_iff)
next
  case (Some k)
  then obtain m where "m < n - i" "k = i + m" "v ! k \<noteq> None" "\<forall>j < m. v ! (i + j) = None"
    by (auto simp: find_Some_iff)
  moreover have "v ! l = None" if "i \<le> l" "l < k" for l
    using calculation that le_Suc_ex [OF that(1)] by auto
  moreover have "first_left v n i = k" unfolding first_left_def Some by simp
  ultimately show ?thesis by simp
qed

lemma filter_skip:
  assumes "i \<le> f" "f \<le> n" "n \<le> length v" "\<And>l. i \<le> l \<Longrightarrow> l < f \<Longrightarrow> v ! l = None"
  shows "filter (\<lambda>x. x \<noteq> None) (drop i (take n v)) = filter (\<lambda>x. x \<noteq> None) (drop f (take n v))"
proof -
  have "drop i (take n v) = take (f - i) (drop i (take n v)) @ drop f (take n v)"
    using assms(1) by (metis append_take_drop_id drop_drop le_add_diff_inverse2)
  moreover have "filter (\<lambda>x. x \<noteq> None) (take (f - i) (drop i (take n v))) = []"
    using assms by (auto simp: filter_empty_conv in_set_conv_nth)
  ultimately show ?thesis by (metis append_Nil filter_append)
qed

lemma compact_keeps:
  "i \<le> n \<Longrightarrow> n \<le> length v \<Longrightarrow> compact i n v = (n', v') \<Longrightarrow>
     n' \<le> n \<and> length v' = length v \<and> take n' v' = take i v @ filter (\<lambda>x. x \<noteq> None) (drop i (take n v))"
proof (induction i n v arbitrary: n' v' rule: compact.induct)
  case (1 i n v)
  show ?case
  proof (cases "i < n")
    case False
    with 1(3-) show ?thesis by (auto simp: compact.simps [of n n v])
  next
    case True
    define f where "f = first_left v n i"
    have f: "i \<le> f" "f \<le> n" "\<And>l. i \<le> l \<Longrightarrow> l < f \<Longrightarrow> v ! l = None" "f < n \<Longrightarrow> v ! f \<noteq> None"
      using first_left_range [OF True, of v] by (auto simp: f_def)
    have skip: "filter (\<lambda>x. x \<noteq> None) (drop i (take n v)) = filter (\<lambda>x. x \<noteq> None) (drop f (take n v))"
      by (rule filter_skip) (use f 1(4) in auto)
    show ?thesis
    proof (cases "f = i")
      case same: True
      then have c: "compact (Suc i) n v = (n', v')"
        using 1(5) True by (simp add: compact.simps [of i n v] f_def)
      have "n' \<le> n \<and> length v' = length v \<and> take n' v' = take (Suc i) v @ filter (\<lambda>x. x \<noteq> None) (drop (Suc i) (take n v))"
        by (rule 1(2) [OF True refl _ _ _ c]) (use same True 1(4) f_def in auto)
      moreover have "drop i (take n v) = v ! i # drop (Suc i) (take n v)"
        using True 1(4) by (simp add: Cons_nth_drop_Suc [symmetric])
      ultimately show ?thesis
        using f(4) same True 1(4) by (simp add: take_Suc_conv_app_nth)
    next
      case False
      define w where "w = move_down i (f - i) n v"
      from False f(1) True have c: "compact (Suc i) (n - (f - i)) w = (n', v')"
        using 1(5) by (simp add: compact.simps [of i n v] f_def w_def Let_def)
      have tw: "take (n - (f - i)) w = take i v @ drop f (take n v)"
        unfolding w_def using take_move_down [of "f - i" i n v] False f 1(4) by simp
      show ?thesis
      proof (cases "f = n")
        case all: True
        then have "compact (Suc i) (n - (f - i)) w = (i, w)"
          using True by (simp add: compact.simps [of "Suc i"])
        then show ?thesis using c tw all skip True by (auto simp: w_def)
      next
        case some: False
        have "n' \<le> n - (f - i) \<and> length v' = length w
            \<and> take n' v' = take (Suc i) w @ filter (\<lambda>x. x \<noteq> None) (drop (Suc i) (take (n - (f - i)) w))"
          unfolding w_def
          by (rule 1(1) [OF True]) (use False f some c 1(4) in \<open>auto simp: w_def f_def\<close>)
        moreover have d: "drop f (take n v) = v ! f # drop (Suc f) (take n v)"
          using some f(2) 1(4) by (simp add: Cons_nth_drop_Suc [symmetric])
        moreover note move_down_split [of i f n v, folded w_def]
        ultimately show ?thesis using skip f some False 1(4) by (auto simp: w_def)
      qed
    qed
  qed
qed

section \<open>The arguments during a parse\<close>

text \<open>What a parse never changes until it removes the arguments.\<close>

definition static :: "opt \<Rightarrow> opt \<Rightarrow> bool" where
  "static s s' \<longleftrightarrow> argv s' = argv s \<and> argc s' = argc s \<and> groups s' = groups s \<and> main_group s' = main_group s
     \<and> ignore_unknown s' = ignore_unknown s \<and> help_enabled s' = help_enabled s"

text \<open>An argument is rewritten only if nothing was put on the list for it later (the list has the latest
  first).\<close>

fun rewrites_last :: "PendingNull list \<Rightarrow> bool" where
  "rewrites_last [] = True"
| "rewrites_last (n # ns) \<longleftrightarrow> rewrites_last ns \<and> (\<forall>m \<in> set ns. null_value m \<noteq> None \<longrightarrow> null_ptr m \<noteq> null_ptr n)"

definition nulls_ok :: "nat \<Rightarrow> opt \<Rightarrow> bool" where
  "nulls_ok i s \<longleftrightarrow> rewrites_last (pending_nulls s)
     \<and> (\<forall>n \<in> set (pending_nulls s). 1 \<le> null_ptr n \<and> null_ptr n < argc s
          \<and> (null_value n \<noteq> None \<longrightarrow> ignore_unknown s \<and> null_ptr n < i))"

definition separator_ok :: "nat \<Rightarrow> scan \<Rightarrow> opt \<Rightarrow> bool" where
  "separator_ok i sc s \<longleftrightarrow> separator_pos sc = 0 \<or> separator_pos sc < i \<and> separator_pos sc < argc s
     \<and> (\<forall>n \<in> set (pending_nulls s). null_value n \<noteq> None \<longrightarrow> null_ptr n \<noteq> separator_pos sc)"

lemma rewrites_last_append:
  "rewrites_last ns \<Longrightarrow> \<forall>n \<in> set new. null_value n = None \<and> (\<forall>m \<in> set ns. null_value m \<noteq> None \<longrightarrow> null_ptr m < null_ptr n)
   \<Longrightarrow> rewrites_last (new @ ns)"
  by (induction new) auto

lemma nulls_ok_frame:
  assumes "nulls_ok i s" "1 \<le> i" "frame i s s'"
  shows "nulls_ok i s'"
proof -
  obtain new where p: "pending_nulls s' = new @ pending_nulls s"
      "\<forall>n \<in> set new. null_value n = None \<and> i \<le> null_ptr n \<and> null_ptr n < argc s"
    using assms(3) by (auto simp: frame_def)
  have "rewrites_last (new @ pending_nulls s)"
    by (rule rewrites_last_append) (use assms(1) p(2) in \<open>auto simp: nulls_ok_def intro: less_le_trans\<close>)
  then show ?thesis
    using assms p by (auto simp: nulls_ok_def frame_def)
qed

lemma nulls_ok_step:
  assumes "nulls_ok i s" "1 \<le> i" "i < argc s" "step_frame i s s'" "i \<le> i'"
  shows "nulls_ok (Suc i') s'"
proof -
  have mono: "nulls_ok i s1 \<Longrightarrow> nulls_ok (Suc i') s1" for s1
    using assms(5) by (auto simp: nulls_ok_def)
  have "nulls_ok (Suc i') (add_pending_null i (Some v) s1)" if "frame i s s1" "ignore_unknown s" for v s1
    using nulls_ok_frame [OF assms(1,2) that(1)] that assms(2,3,5)
    by (auto simp: nulls_ok_def add_pending_null_def frame_def)
  then show ?thesis
    using assms(4) mono nulls_ok_frame [OF assms(1,2)] by (auto simp: step_frame_def)
qed

lemma static_step: "step_frame i s s' \<Longrightarrow> static s s'"
  by (auto simp: step_frame_def frame_def static_def add_pending_null_def)

lemma separator_step:
  assumes "i < argc s" "nulls_ok i s" "separator_ok i sc s"
  shows "if_returns (parse_step E i sc s) (\<lambda>(b, i', sc', s'). separator_ok (Suc i') sc' s')"
proof -
  have old: "separator_ok (Suc i') sc' s'"
    if "step_frame i s s'" "i \<le> i'" "separator_pos sc' \<in> {0, separator_pos sc}" for i' sc' s'
    using assms that by (auto simp: separator_ok_def step_frame_def frame_def add_pending_null_def)
  have new: "separator_ok (Suc i) (sc\<lparr>separator_pos := i, stop_parsing := True\<rparr>) s"
    using assms by (auto simp: separator_ok_def nulls_ok_def)
  have "if_returns (parse_step E i sc s) (\<lambda>(b, i', sc', s'). separator_pos sc' \<in> {0, separator_pos sc}
      \<or> i' = i \<and> sc' = sc\<lparr>separator_pos := i, stop_parsing := True\<rparr> \<and> s' = s)"
    by (auto simp: parse_step_def long_arg_def short_arg_def remaining_arg_def Let_def split: option.split if_splits
        intro!: if_returns_all)
  then show ?thesis
    using frame_parse_step [OF assms(1), of E sc] old new by (auto simp: if_returns_def)
qed

lemma parse_args_nulls:
  assumes "1 \<le> i" "nulls_ok i s" "separator_ok i sc s"
  shows "if_returns (parse_args E i sc s) (\<lambda>(b, sc', s'). static s s' \<and> (\<exists>i'. nulls_ok i' s' \<and> separator_ok i' sc' s'))"
  using assms
proof (induction E i sc s rule: parse_args.induct)
  case (1 E i sc s)
  show ?case
  proof (cases "i < argc s")
    case True
    have "if_returns (case x of (okay, i, sc, s) \<Rightarrow> if okay then parse_args E (Suc i) sc s else Inr (False, sc, s))
        (\<lambda>(b, sc', s'). static s s' \<and> (\<exists>i'. nulls_ok i' s' \<and> separator_ok i' sc' s'))"
      if x: "parse_step E i sc s = Inr x" for x
    proof -
      obtain b i' sc' s' where xx: "x = (b, i', sc', s')" by (cases x)
      have st: "step_frame i s s'" "i \<le> i'" and sep: "separator_ok (Suc i') sc' s'"
        using frame_parse_step [OF True, of E sc] separator_step [OF True 1(3,4), of E] x xx by simp_all
      have n: "nulls_ok (Suc i') s'"
        by (rule nulls_ok_step [OF 1(3,2) True st])
      have "if_returns (parse_args E (Suc i') sc' s') (\<lambda>(b, sc2, s2). static s' s2 \<and> (\<exists>i'. nulls_ok i' s2 \<and> separator_ok i' sc2 s2))"
        if b using 1(1) [OF True x xx [symmetric] refl refl that] n sep by simp
      then show ?thesis
        using xx static_step [OF st(1)] n sep by (auto simp: static_def elim!: if_returns_mono)
    qed
    then show ?thesis
      unfolding parse_args.simps [of E i sc s] if_P [OF True] by (rule if_returns_bindI)
  next
    case False
    with 1(2-4) show ?thesis by (auto simp: parse_args.simps [of E i sc s] static_def)
  qed
qed

section \<open>Which arguments are removed\<close>

text \<open>The arguments that will be removed.\<close>

definition nulled :: "opt \<Rightarrow> nat set" where
  "nulled s = null_ptr ` set (pending_nulls s)"

lemma nulled_add [simp]: "nulled (add_pending_null i v s) = insert i (nulled s)"
  by (simp add: nulled_def add_pending_null_def)

lemma nulled_basic [simp]: "nulled (g_set_error c m s) = nulled s" "nulled (unknown_option i s) = nulled s"
  by (simp_all add: nulled_def g_set_error_def unknown_option_def split: option.split)

lemma frame_nulled: "frame j s s' \<Longrightarrow> nulled s \<subseteq> nulled s'"
  by (auto simp: frame_def nulled_def)

lemma wp_parse_arg_nulled:
  assumes "\<And>b s'. nulled s \<subseteq> nulled s' \<Longrightarrow> Q (b, s')"
  shows "if_returns (parse_arg E u e v n s) Q"
  by (rule if_returns_mono [OF frame_parse_arg [where j = 0]]) (use assms frame_nulled in auto)

text \<open>A loop over entries removes every argument it steps over.\<close>

lemma long_entries_nulled:
  "if_returns (long_entries E u es a al i p s) (\<lambda>(b, i', p', s'). nulled s \<subseteq> nulled s' \<and> {i<..i'} \<subseteq> nulled s'
     \<and> (p' \<longrightarrow> p \<or> i \<in> nulled s') \<and> (b \<and> \<not> p' \<longrightarrow> i' = i) \<and> (p \<longrightarrow> p'))"
proof (induction es arbitrary: a al i p s)
  case (Cons e es)
  have next_arg: "{i<..i'} \<subseteq> insert (Suc i) {Suc i<..i'}" for i' by auto
  have "if_returns (long_entries E u es a al i True (add_pending_null i None s')) (\<lambda>(b, i', p', s'). nulled s \<subseteq> nulled s'
      \<and> {i<..i'} \<subseteq> nulled s' \<and> (p' \<longrightarrow> p \<or> i \<in> nulled s') \<and> (b \<and> \<not> p' \<longrightarrow> i' = i) \<and> (p \<longrightarrow> p'))" if "nulled s \<subseteq> nulled s'" for s'
    by (rule if_returns_mono [OF Cons.IH]) (use that in auto)
  moreover have "if_returns (long_entries E u es a al i True s') (\<lambda>(b, i', p', s'). nulled s \<subseteq> nulled s'
      \<and> {i<..i'} \<subseteq> nulled s' \<and> (p' \<longrightarrow> p \<or> i \<in> nulled s') \<and> (b \<and> \<not> p' \<longrightarrow> i' = i) \<and> (p \<longrightarrow> p'))" if "insert i (nulled s) \<subseteq> nulled s'" for s'
    by (rule if_returns_mono [OF Cons.IH]) (use that in auto)
  moreover have "if_returns (long_entries E u es a al (Suc i) True s') (\<lambda>(b, i', p', s'). nulled s \<subseteq> nulled s'
      \<and> {i<..i'} \<subseteq> nulled s' \<and> (p' \<longrightarrow> p \<or> i \<in> nulled s') \<and> (b \<and> \<not> p' \<longrightarrow> i' = i) \<and> (p \<longrightarrow> p'))" if "insert (Suc i) (insert i (nulled s)) \<subseteq> nulled s'" for s'
    by (rule if_returns_mono [OF Cons.IH]) (use that in \<open>auto intro!: subset_trans [OF next_arg]\<close>)
  ultimately show ?case
    by (auto simp: Let_def long_value_def take_next_def Cons.IH split: option.split intro!: wp_parse_arg_nulled)
qed auto

lemma long_option_nulled:
  "if_returns (long_option E a i s) (\<lambda>(b, i', p, s'). nulled s \<subseteq> nulled s' \<and> {i<..i'} \<subseteq> nulled s' \<and> (p \<longrightarrow> i \<in> nulled s')
     \<and> (b \<and> \<not> p \<longrightarrow> i' = i))"
proof -
  define Q where "Q s i = (\<lambda>(b, i', p, s'). nulled s \<subseteq> nulled s' \<and> {i<..i'} \<subseteq> nulled s' \<and> (p \<longrightarrow> i \<in> nulled s')
      \<and> (b \<and> \<not> p \<longrightarrow> i' = i))" for s i
  have opt: "if_returns (parse_long_option E g a al i False s) (Q s i)" for g a al i s
    unfolding parse_long_option_def by (rule if_returns_mono [OF long_entries_nulled]) (auto simp: Q_def)
  have tr: "Q s i r" if "Q s i (True, i', False, s')" "Q s' i' r" for i i' s s' r
    using that by (cases r) (auto simp: Q_def)
  have chain: "if_returns m (Q s i)" if "Q s i (True, i', False, s')" "if_returns m (Q s' i')" for i i' s s' m
    by (rule if_returns_mono [OF that(2)]) (use that(1) tr in auto)
  have long: "if_returns (long_groups E gs a i s) (Q s i)" for gs i s
  proof (induction gs arbitrary: i s)
    case (Cons g gs)
    show ?case
      by (auto intro!: if_returns_mono [OF opt] intro: chain [OF _ Cons.IH])
  qed (simp add: Q_def)
  have ali: "if_returns (alias_groups E gs pre a i s) (Q s i)" for gs pre a i s
  proof (induction gs arbitrary: i s)
    case (Cons g gs)
    show ?case
      by (auto intro!: if_returns_mono [OF opt] Cons.IH intro: chain [OF _ Cons.IH] split: option.split)
  qed (simp add: Q_def)
  have "if_returns (long_option E a i s) (Q s i)"
    unfolding long_option_def
    by (auto split: option.split prod.split intro!: if_returns_mono [OF opt] if_returns_mono [OF long]
        intro: tr chain [OF tr ali] chain [OF _ ali])
  then show ?thesis by (simp add: Q_def)
qed

text \<open>The same for short options, with everything up to \<open>k\<close> already stepped over.\<close>

definition over :: "nat \<Rightarrow> opt \<Rightarrow> nat \<Rightarrow> opt \<Rightarrow> bool" where
  "over i s k s' \<longleftrightarrow> nulled s \<subseteq> nulled s' \<and> i \<le> k \<and> {i<..k} \<subseteq> nulled s'"

lemma over_mono: "over i s k s1 \<Longrightarrow> nulled s1 \<subseteq> nulled s2 \<Longrightarrow> over i s k s2"
  by (auto simp: over_def)

lemma over_start: "over i s i s"
  by (simp add: over_def)

lemma over_error [simp]: "over i s k (g_set_error c m s1) = over i s k s1"
  by (simp add: over_def)

lemma over_next: "over i s k s1 \<Longrightarrow> over i s (Suc i) (add_pending_null (Suc i) None s1)"
  by (auto simp: over_def)

lemma wp_short_value_over:
  assumes "over i t k s" "\<And>b v k' s'. over i t k' s' \<Longrightarrow> Q (b, v, k', s')"
  shows "if_returns (short_value e i k n s) Q"
  using assms(1) over_next [OF assms(1)]
  by (auto simp: short_value_def take_next_def Let_def split: option.split intro!: assms(2))

lemma wp_parse_arg_over:
  assumes "over i t k s" "\<And>b s'. over i t k s' \<Longrightarrow> Q (b, s')"
  shows "if_returns (parse_arg E u e v n s) Q"
  by (rule wp_parse_arg_nulled) (use assms over_mono in blast)

lemma short_entries_over:
  "over i t k s \<Longrightarrow> if_returns (short_entries E u es i c k p s) (\<lambda>(b, k', p', s'). over i t k' s')"
  by (induction es arbitrary: k p s) (auto simp: Let_def intro!: wp_short_value_over [of i t] wp_parse_arg_over [of i t])

lemma short_groups_over:
  "over i t k s \<Longrightarrow> if_returns (short_groups E gs i c k s) (\<lambda>(b, k', p', s'). over i t k' s')"
  by (induction gs arbitrary: k s)
     (auto simp: parse_short_option_def intro!: if_returns_mono [OF short_entries_over [of i t]])

lemma short_option_over:
  "over i t k s \<Longrightarrow> if_returns (short_option E i c k s) (\<lambda>(b, k', p', s'). over i t k' s')"
  by (auto simp: short_option_def parse_short_option_def split: option.split
      intro!: if_returns_mono [OF short_entries_over [of i t]] if_returns_mono [OF short_groups_over [of i t]])

lemma short_chars_over:
  "over i t k s \<Longrightarrow> if_returns (short_chars E i cs k p ns s) (\<lambda>(b, k', p', ns', s'). over i t k' s')"
  by (induction cs arbitrary: k p ns s) (auto intro!: if_returns_mono [OF short_option_over [of i t]])

section \<open>Options are recognised or refused\<close>

definition looks_like_option :: "string option \<Rightarrow> bool" where
  "looks_like_option a \<longleftrightarrow> (\<exists>t. a = Some t \<and> starts_with_dash t \<and> drop 1 t \<noteq> [] \<and> t \<noteq> ''--'')"

text \<open>Before \<open>i\<close>, an argument that looks like an option will be removed unless it comes after \<open>--\<close>.\<close>

definition options_done :: "nat \<Rightarrow> opt \<Rightarrow> bool" where
  "options_done i s \<longleftrightarrow> (\<forall>k. 1 \<le> k \<and> k < i \<longrightarrow> k \<in> nulled s \<or> \<not> looks_like_option (argv s ! k)
     \<or> (\<exists>m. 1 \<le> m \<and> m < k \<and> argv s ! m = Some ''--''))"

definition stop_seen :: "nat \<Rightarrow> scan \<Rightarrow> opt \<Rightarrow> bool" where
  "stop_seen i sc s \<longleftrightarrow> (stop_parsing sc \<longrightarrow> (\<exists>m. 1 \<le> m \<and> m < i \<and> argv s ! m = Some ''--''))"

lemma options_done_step:
  assumes "options_done i s" "stop_seen i sc s" "nulled s \<subseteq> nulled s'" "{i<..i'} \<subseteq> nulled s'" "argv s' = argv s"
    and "i \<in> nulled s' \<or> \<not> looks_like_option (argv s ! i) \<or> stop_parsing sc"
  shows "options_done (Suc i') s'"
  unfolding options_done_def
proof (intro allI impI)
  fix k
  assume k: "1 \<le> k \<and> k < Suc i'"
  consider "k < i" | "k = i" | "k \<in> {i<..i'}" using k by fastforce
  then show "k \<in> nulled s' \<or> \<not> looks_like_option (argv s' ! k) \<or> (\<exists>m. 1 \<le> m \<and> m < k \<and> argv s' ! m = Some ''--'')"
  proof cases
    case 1
    then show ?thesis using k assms(1,3,5) by (auto simp: options_done_def)
  next
    case 2
    then show ?thesis using assms(2,5,6) by (auto simp: stop_seen_def)
  next
    case 3
    then show ?thesis using assms(4) by auto
  qed
qed

lemma stop_seen_step:
  assumes "stop_seen i sc s" "1 \<le> i" "i \<le> i'" "argv s' = argv s" "stop_parsing sc' \<longrightarrow> stop_parsing sc \<or> argv s ! i = Some ''--''"
  shows "stop_seen (Suc i') sc' s'"
  using assms unfolding stop_seen_def by (metis le_SucI less_Suc_eq_le less_imp_le order.strict_trans1)

lemma long_arg_done:
  assumes "\<not> ignore_unknown s"
  shows "if_returns (long_arg E i a sc s) (\<lambda>(b, i', sc', s'). b \<longrightarrow> nulled s \<subseteq> nulled s' \<and> {i<..i'} \<subseteq> nulled s'
     \<and> (i \<in> nulled s' \<or> a = []) \<and> (stop_parsing sc' \<longrightarrow> stop_parsing sc \<or> a = []))"
proof -
  have "if_returns (long_option E a i s) (\<lambda>(b, i', p, s'). nulled s \<subseteq> nulled s' \<and> {i<..i'} \<subseteq> nulled s'
      \<and> (p \<longrightarrow> i \<in> nulled s') \<and> \<not> ignore_unknown s')"
    using long_option_nulled [of E a i s] frame_long_option [of 0 s s i E a] assms
    by (fastforce simp: if_returns_def dest: frame_ignore)
  then show ?thesis
    by (auto simp: long_arg_def intro!: if_returns_mono [OF frame_long_help] elim!: if_returns_mono)
qed

lemma short_arg_done:
  assumes "\<not> ignore_unknown s"
  shows "if_returns (short_arg E i a sc s) (\<lambda>(b, i', sc', s'). b \<longrightarrow> nulled s \<subseteq> nulled s' \<and> {i<..i'} \<subseteq> nulled s'
     \<and> i \<in> nulled s' \<and> stop_parsing sc' = stop_parsing sc)"
proof -
  have "if_returns (short_chars E i a i False [] s) (\<lambda>(b, k, p, ns, s'). over i s k s' \<and> \<not> ignore_unknown s')"
    using short_chars_over [OF over_start, of E i a False "[]" s] frame_short_chars [of 0 s s i i] assms
    by (fastforce simp: if_returns_def dest: frame_ignore)
  then show ?thesis
    unfolding short_arg_def
    by (rule if_returns_andthenI) (auto simp: Let_def over_def split: if_splits)
qed

lemma remaining_arg_done:
  "if_returns (remaining_arg E i a sc s) (\<lambda>(b, i', sc', s'). nulled s \<subseteq> nulled s' \<and> i' = i \<and> stop_parsing sc' = stop_parsing sc)"
  by (auto simp: remaining_arg_def parse_remaining_arg_def split: option.split if_splits
      intro!: if_returns_mono [OF frame_remaining_entries [of 0 s]] dest: frame_nulled)

lemma two_dashes: "starts_with_dash a \<Longrightarrow> drop 1 a \<noteq> [] \<Longrightarrow> a ! 1 = CHR ''-'' \<Longrightarrow> drop 2 a = [] \<Longrightarrow> a = ''--''"
  by (cases a rule: list.exhaust; cases "tl a") (auto simp: starts_with_dash_def)

text \<open>One round that goes on: an option was recognised and is removed with everything it consumed; any other
  argument is passed over.\<close>

lemma parse_step_done:
  assumes "\<not> ignore_unknown s"
  shows "if_returns (parse_step E i sc s) (\<lambda>(b, i', sc', s'). b \<longrightarrow> nulled s \<subseteq> nulled s' \<and> {i<..i'} \<subseteq> nulled s'
     \<and> (i \<in> nulled s' \<or> \<not> looks_like_option (argv s ! i) \<or> stop_parsing sc)
     \<and> (stop_parsing sc' \<longrightarrow> stop_parsing sc \<or> argv s ! i = Some ''--''))"
proof (cases "argv s ! i")
  case None
  then show ?thesis by (simp add: parse_step_def)
next
  case (Some a)
  show ?thesis
  proof (cases "starts_with_dash a \<and> drop 1 a \<noteq> [] \<and> \<not> stop_parsing sc")
    case False
    with Some show ?thesis
      using remaining_arg_done [of E i a sc s]
      by (auto simp: parse_step_def looks_like_option_def elim!: if_returns_mono)
  next
    case True
    with Some show ?thesis
      using long_arg_done [OF assms, of E i "drop 2 a" sc] short_arg_done [OF assms, of E i "drop 1 a" sc]
        two_dashes [of a] by (auto simp: parse_step_def looks_like_option_def elim!: if_returns_mono)
  qed
qed

lemma parse_args_done:
  assumes "\<not> ignore_unknown s" "options_done i s" "stop_seen i sc s" "1 \<le> i"
  shows "if_returns (parse_args E i sc s) (\<lambda>(b, sc', s'). b \<longrightarrow> options_done (argc s) s')"
  using assms
proof (induction E i sc s rule: parse_args.induct)
  case (1 E i sc s)
  show ?case
  proof (cases "i < argc s")
    case True
    have "if_returns (case x of (okay, i, sc, s) \<Rightarrow> if okay then parse_args E (Suc i) sc s else Inr (False, sc, s))
        (\<lambda>(b, sc', s'). b \<longrightarrow> options_done (argc s) s')"
      if x: "parse_step E i sc s = Inr x" for x
    proof -
      obtain b i' sc' s' where xx: "x = (b, i', sc', s')" by (cases x)
      have st: "static s s'" "i \<le> i'"
        using frame_parse_step [OF True, of E sc] x xx by (auto dest: static_step)
      have "if_returns (parse_args E (Suc i') sc' s') (\<lambda>(b, sc2, s2). b \<longrightarrow> options_done (argc s') s2)" if b
      proof (rule 1(1) [OF True x xx [symmetric] refl refl that])
        show "options_done (Suc i') s'"
          by (rule options_done_step [OF 1(3,4)])
             (use parse_step_done [OF 1(2), of E i sc] x xx that st in \<open>auto simp: static_def\<close>)
        show "stop_seen (Suc i') sc' s'"
          by (rule stop_seen_step [OF 1(4,5) st(2)])
             (use parse_step_done [OF 1(2), of E i sc] x xx that st in \<open>auto simp: static_def\<close>)
      qed (use st 1(2) in \<open>auto simp: static_def\<close>)
      then show ?thesis using xx st by (auto simp: static_def)
    qed
    then show ?thesis
      unfolding parse_args.simps [of E i sc s] if_P [OF True] by (rule if_returns_bindI)
  next
    case False
    with 1(2-4) show ?thesis by (auto simp: parse_args.simps [of E i sc s] options_done_def)
  qed
qed

section \<open>Nothing else is removed\<close>

text \<open>Everything removed since \<open>s\<close> lies between the arguments \<open>i\<close> and \<open>k\<close>.\<close>

definition upto_arg :: "nat \<Rightarrow> opt \<Rightarrow> nat \<Rightarrow> opt \<Rightarrow> bool" where
  "upto_arg i s k s' \<longleftrightarrow> i \<le> k \<and> nulled s' \<subseteq> nulled s \<union> {i..k}"

lemma upto_start [simp]: "upto_arg i s i s"
  by (auto simp: upto_arg_def)

lemma upto_trans: "upto_arg i s k s1 \<Longrightarrow> upto_arg k s1 m s2 \<Longrightarrow> upto_arg i s m s2"
  by (fastforce simp: upto_arg_def)

lemma upto_error [simp]: "upto_arg i s k (g_set_error c m s1) = upto_arg i s k s1"
  by (simp add: upto_arg_def)

lemma upto_same: "upto_arg i s k s1 \<Longrightarrow> nulled s2 = nulled s1 \<Longrightarrow> upto_arg i s k s2"
  by (simp add: upto_arg_def)

lemma upto_next:
  assumes "upto_arg i s k s1" "k \<le> Suc i"
  shows "upto_arg i s (Suc i) (add_pending_null (Suc i) None s1)"
proof -
  have "{i..k} \<subseteq> {i..Suc i}" using assms(2) by auto
  with assms(1) show ?thesis by (auto simp: upto_arg_def)
qed

lemma wp_parse_arg_same:
  assumes "\<And>b s'. nulled s' = nulled s \<Longrightarrow> Q (b, s')"
  shows "if_returns (parse_arg E u e v n s) Q"
proof (rule if_returns_mono [OF frame_parse_arg [where j = "argc s"]])
  fix x :: "bool \<times> opt"
  assume "case x of (b, s') \<Rightarrow> frame (argc s) s s'"
  then obtain b s' where x: "x = (b, s')" "frame (argc s) s s'" by (cases x) simp
  obtain new where "pending_nulls s' = new @ pending_nulls s" "\<forall>n \<in> set new. argc s \<le> null_ptr n \<and> null_ptr n < argc s"
    using x(2) by (auto simp: frame_def)
  then have "nulled s' = nulled s" by (cases new) (auto simp: nulled_def)
  with assms x(1) show "Q x" by simp
qed

lemma long_entries_upto:
  "if_returns (long_entries E u es a al i p s) (\<lambda>(b, i', p', s'). upto_arg i s i' s'
     \<and> (b \<and> \<not> p' \<longrightarrow> nulled s' = nulled s) \<and> (p \<longrightarrow> p'))"
proof (induction es arbitrary: a al i p s)
  case (Cons e es)
  have rec: "if_returns (long_entries E u es a' al' k True s') (\<lambda>(b, i', p', s'). upto_arg i s i' s'
      \<and> (b \<and> \<not> p' \<longrightarrow> nulled s' = nulled s) \<and> (p \<longrightarrow> p'))" if "upto_arg i s k s'" for a' al' k s'
    by (rule if_returns_mono [OF Cons.IH]) (use that upto_trans in auto)
  have one: "upto_arg i s i s'" if "nulled s' = insert i (nulled s)" for s'
    using that by (auto simp: upto_arg_def)
  have two: "upto_arg i s (Suc i) s'" if "nulled s' = insert (Suc i) (insert i (nulled s))" for s'
    using that by (auto simp: upto_arg_def)
  show ?case
    by (auto simp: Let_def long_value_def take_next_def Cons.IH split: option.split
        intro!: wp_parse_arg_same rec intro: one two)
qed auto

lemma long_option_upto:
  "if_returns (long_option E a i s) (\<lambda>(b, i', p, s'). upto_arg i s i' s' \<and> (b \<and> \<not> p \<longrightarrow> nulled s' = nulled s))"
proof -
  define Q where "Q s i = (\<lambda>(b, i', p, s'). upto_arg i s i' s' \<and> (b \<and> \<not> p \<longrightarrow> nulled s' = nulled s))" for s i
  have opt: "if_returns (parse_long_option E g a al i False s) (Q s i)" for g a al i s
    unfolding parse_long_option_def by (rule if_returns_mono [OF long_entries_upto]) (auto simp: Q_def)
  have tr: "Q s i r" if "Q s i (True, i', False, s')" "Q s' i' r" for i i' s s' r
    using that upto_trans by (cases r) (auto simp: Q_def)
  have chain: "if_returns m (Q s i)" if "Q s i (True, i', False, s')" "if_returns m (Q s' i')" for i i' s s' m
    by (rule if_returns_mono [OF that(2)]) (use that(1) tr in auto)
  have long: "if_returns (long_groups E gs a i s) (Q s i)" for gs i s
  proof (induction gs arbitrary: i s)
    case (Cons g gs)
    show ?case
      by (auto intro!: if_returns_mono [OF opt] intro: chain [OF _ Cons.IH])
  qed (simp add: Q_def)
  have ali: "if_returns (alias_groups E gs pre a i s) (Q s i)" for gs pre a i s
  proof (induction gs arbitrary: i s)
    case (Cons g gs)
    show ?case
      by (auto intro!: if_returns_mono [OF opt] Cons.IH intro: chain [OF _ Cons.IH] split: option.split)
  qed (simp add: Q_def)
  have "if_returns (long_option E a i s) (Q s i)"
    unfolding long_option_def
    by (auto split: option.split prod.split intro!: if_returns_mono [OF opt] if_returns_mono [OF long]
        intro: tr chain [OF tr ali] chain [OF _ ali])
  then show ?thesis by (simp add: Q_def)
qed

text \<open>Short options of one argument: at most the argument after it is consumed.\<close>

lemma wp_short_value_upto:
  assumes "upto_arg i t k s" "k \<le> Suc i" "\<And>b v k' s'. upto_arg i t k' s' \<Longrightarrow> k' \<le> Suc i \<Longrightarrow> Q (b, v, k', s')"
  shows "if_returns (short_value e i k n s) Q"
  using assms(1,2) upto_next [OF assms(1,2)]
  by (auto simp: short_value_def take_next_def Let_def split: option.split intro!: assms(3))

lemma wp_parse_arg_upto:
  assumes "upto_arg i t k s" "\<And>b s'. upto_arg i t k s' \<Longrightarrow> Q (b, s')"
  shows "if_returns (parse_arg E u e v n s) Q"
  by (rule wp_parse_arg_same) (use assms upto_same in blast)

lemma short_entries_upto:
  "upto_arg i t k s \<Longrightarrow> k \<le> Suc i \<Longrightarrow>
   if_returns (short_entries E u es i c k p s) (\<lambda>(b, k', p', s'). upto_arg i t k' s' \<and> k' \<le> Suc i)"
  by (induction es arbitrary: k p s) (auto simp: Let_def intro!: wp_short_value_upto [of i t] wp_parse_arg_upto [of i t])

lemma short_groups_upto:
  "upto_arg i t k s \<Longrightarrow> k \<le> Suc i \<Longrightarrow>
   if_returns (short_groups E gs i c k s) (\<lambda>(b, k', p', s'). upto_arg i t k' s' \<and> k' \<le> Suc i)"
  by (induction gs arbitrary: k s)
     (auto simp: parse_short_option_def intro!: if_returns_mono [OF short_entries_upto [of i t]])

lemma short_option_upto:
  "upto_arg i t k s \<Longrightarrow> k \<le> Suc i \<Longrightarrow>
   if_returns (short_option E i c k s) (\<lambda>(b, k', p', s'). upto_arg i t k' s' \<and> k' \<le> Suc i)"
  by (auto simp: short_option_def parse_short_option_def split: option.split
      intro!: if_returns_mono [OF short_entries_upto [of i t]] if_returns_mono [OF short_groups_upto [of i t]])

lemma short_chars_upto:
  "upto_arg i t k s \<Longrightarrow> k \<le> Suc i \<Longrightarrow>
   if_returns (short_chars E i cs k p ns s) (\<lambda>(b, k', p', ns', s'). upto_arg i t k' s' \<and> k' \<le> Suc i)"
  by (induction cs arbitrary: k p ns s) (auto intro!: if_returns_mono [OF short_option_upto [of i t]])

text \<open>Without an option for the remaining arguments, these stay.\<close>

definition rest_option :: "opt \<Rightarrow> bool" where
  "rest_option s \<longleftrightarrow> (\<exists>g \<in> set_option (main_group s). \<exists>e \<in> set (entries g). long_name e = [])"

lemma remaining_arg_same:
  assumes "\<not> rest_option s"
  shows "if_returns (remaining_arg E i a sc s) (\<lambda>(b, i', sc', s').
     i' = i \<and> s' = s \<and> separator_pos sc' \<in> {0, separator_pos sc})"
proof -
  have rest: "if_returns (remaining_entries E u es i p s) (\<lambda>(b, p', s'). s' = s)" if "\<forall>e \<in> set es. long_name e \<noteq> []" for u es p
    using that by (induction es) auto
  then show ?thesis
    using assms by (auto simp: remaining_arg_def parse_remaining_arg_def rest_option_def split: option.split
        intro!: if_returns_mono [OF rest])
qed

text \<open>The removed arguments come in blocks that begin with an option or with \<open>--\<close>.\<close>

definition opens_block :: "string option \<Rightarrow> bool" where
  "opens_block a \<longleftrightarrow> looks_like_option a \<or> a = Some ''--''"

definition option_blocks :: "opt \<Rightarrow> bool" where
  "option_blocks s \<longleftrightarrow> (\<forall>k \<in> nulled s. \<exists>j \<le> k. 1 \<le> j \<and> {j..k} \<subseteq> nulled s \<and> opens_block (argv s ! j))"

definition separator_dashes :: "scan \<Rightarrow> opt \<Rightarrow> bool" where
  "separator_dashes sc s \<longleftrightarrow> separator_pos sc = 0 \<or> argv s ! separator_pos sc = Some ''--''"

lemma long_arg_upto:
  assumes "\<not> ignore_unknown s" "d \<noteq> []"
  shows "if_returns (long_arg E i d sc s) (\<lambda>(b, i', sc', s'). b \<longrightarrow> upto_arg i s i' s' \<and> separator_pos sc' = separator_pos sc)"
proof -
  have "if_returns (long_option E d i s) (\<lambda>(b, i', p, s'). upto_arg i s i' s' \<and> \<not> ignore_unknown s')"
    using long_option_upto [of E d i s] frame_long_option [of 0 s s i E d] assms(1)
    by (fastforce simp: if_returns_def dest: frame_ignore)
  then show ?thesis
    using assms(2) by (auto simp: long_arg_def intro!: if_returns_mono [OF frame_long_help] elim!: if_returns_mono)
qed

lemma upto_insert: "upto_arg i s k s1 \<Longrightarrow> upto_arg i s k (add_pending_null i v s1)"
  by (auto simp: upto_arg_def)

lemma short_arg_upto:
  assumes "\<not> ignore_unknown s"
  shows "if_returns (short_arg E i d sc s) (\<lambda>(b, i', sc', s'). b \<longrightarrow> upto_arg i s i' s' \<and> separator_pos sc' = separator_pos sc)"
proof -
  have "if_returns (short_chars E i d i False [] s) (\<lambda>(b, k, p, ns, s'). upto_arg i s k s' \<and> \<not> ignore_unknown s')"
    using short_chars_upto [OF upto_start, of i E d False "[]" s] frame_short_chars [of 0 s s i i] assms
    by (fastforce simp: if_returns_def dest: frame_ignore)
  then show ?thesis
    unfolding short_arg_def
    by (rule if_returns_andthenI) (auto simp: Let_def intro: upto_insert split: if_splits)
qed

lemma parse_step_upto:
  assumes "\<not> ignore_unknown s" "\<not> rest_option s"
  shows "if_returns (parse_step E i sc s) (\<lambda>(b, i', sc', s'). b \<longrightarrow>
     (nulled s' = nulled s \<or> opens_block (argv s ! i) \<and> upto_arg i s i' s' \<and> {i..i'} \<subseteq> nulled s')
     \<and> (separator_pos sc' \<in> {0, separator_pos sc} \<or> separator_pos sc' = i \<and> argv s ! i = Some ''--''))"
proof (cases "argv s ! i")
  case None
  then show ?thesis by (simp add: parse_step_def)
next
  case (Some a)
  show ?thesis
  proof (cases "starts_with_dash a \<and> drop 1 a \<noteq> [] \<and> \<not> stop_parsing sc")
    case False
    with Some show ?thesis
      using remaining_arg_same [OF assms(2), of E i a sc]
      by (auto simp: parse_step_def elim!: if_returns_mono)
  next
    case True
    then have op: "opens_block (argv s ! i)" using Some by (auto simp: opens_block_def looks_like_option_def)
    have block: "{i..i'} \<subseteq> A \<longleftrightarrow> {i<..i'} \<subseteq> A \<and> (i \<le> i' \<longrightarrow> i \<in> A)" for i' A
      by (auto simp: subset_eq le_less)
    have both: "if_returns m P \<Longrightarrow> if_returns m Q \<Longrightarrow> (\<And>x. P x \<Longrightarrow> Q x \<Longrightarrow> R x) \<Longrightarrow> if_returns m R"
      for m :: "(bool \<times> nat \<times> scan \<times> opt) run" and P Q R by (auto simp: if_returns_def)
    have e: "long_arg E i [] sc s = Inr (True, i, sc\<lparr>separator_pos := i, stop_parsing := True\<rparr>, s)"
      by (simp add: long_arg_def)
    have l: "if_returns (long_arg E i d sc s) (\<lambda>(b, i', sc', s'). b \<longrightarrow> upto_arg i s i' s' \<and> {i..i'} \<subseteq> nulled s'
        \<and> separator_pos sc' = separator_pos sc)" if "d \<noteq> []" for d
      by (rule both [OF long_arg_done [OF assms(1)] long_arg_upto [OF assms(1) that]])
         (use that in \<open>simp add: block case_prod_beta\<close>)
    have s: "if_returns (short_arg E i d sc s) (\<lambda>(b, i', sc', s'). b \<longrightarrow> upto_arg i s i' s' \<and> {i..i'} \<subseteq> nulled s'
        \<and> separator_pos sc' = separator_pos sc)" for d
      by (rule both [OF short_arg_done [OF assms(1)] short_arg_upto [OF assms(1)]]) (simp add: block case_prod_beta)
    show ?thesis
    proof (cases "a ! 1 = CHR ''-''")
      case False
      with True Some s [of "drop 1 a"] op show ?thesis
        by (auto simp: parse_step_def elim!: if_returns_mono)
    next
      case dd: True
      show ?thesis
      proof (cases "drop 2 a = []")
        case False
        with True Some dd l [of "drop 2 a"] op show ?thesis
          by (auto simp: parse_step_def elim!: if_returns_mono)
      next
        case nil: True
        with True dd have "a = ''--''" using two_dashes by blast
        with True Some dd nil e show ?thesis by (simp add: parse_step_def)
      qed
    qed
  qed
qed

lemma option_blocks_step:
  assumes "option_blocks s" "argv s' = argv s" "1 \<le> i"
    and "nulled s' = nulled s \<or> opens_block (argv s ! i) \<and> upto_arg i s i' s' \<and> {i..i'} \<subseteq> nulled s' \<and> nulled s \<subseteq> nulled s'"
  shows "option_blocks s'"
proof (cases "nulled s' = nulled s")
  case True
  then show ?thesis using assms(1,2) by (simp add: option_blocks_def)
next
  case False
  then have n: "opens_block (argv s ! i)" "nulled s' \<subseteq> nulled s \<union> {i..i'}" "{i..i'} \<subseteq> nulled s'" "nulled s \<subseteq> nulled s'"
    using assms(4) by (auto simp: upto_arg_def)
  show ?thesis
    unfolding option_blocks_def
  proof
    fix k
    assume "k \<in> nulled s'"
    then consider "k \<in> nulled s" | "k \<in> {i..i'}" using n(2) by blast
    then show "\<exists>j \<le> k. 1 \<le> j \<and> {j..k} \<subseteq> nulled s' \<and> opens_block (argv s' ! j)"
    proof cases
      case 1
      then show ?thesis using assms(1,2) n(4) by (fastforce simp: option_blocks_def)
    next
      case 2
      then have "{i..k} \<subseteq> nulled s'" using n(3) by (auto dest: subsetD)
      then show ?thesis using 2 n(1) assms(2,3) by auto
    qed
  qed
qed

lemma parse_args_blocks:
  assumes "\<not> ignore_unknown s" "\<not> rest_option s" "option_blocks s" "separator_dashes sc s" "1 \<le> i"
  shows "if_returns (parse_args E i sc s) (\<lambda>(b, sc', s'). b \<longrightarrow> option_blocks s' \<and> separator_dashes sc' s')"
  using assms
proof (induction E i sc s rule: parse_args.induct)
  case (1 E i sc s)
  show ?case
  proof (cases "i < argc s")
    case True
    have "if_returns (case x of (okay, i, sc, s) \<Rightarrow> if okay then parse_args E (Suc i) sc s else Inr (False, sc, s))
        (\<lambda>(b, sc', s'). b \<longrightarrow> option_blocks s' \<and> separator_dashes sc' s')"
      if x: "parse_step E i sc s = Inr x" for x
    proof -
      obtain b i' sc' s' where xx: "x = (b, i', sc', s')" by (cases x)
      have st: "static s s'" "i \<le> i'"
        using frame_parse_step [OF True, of E sc] x xx by (auto dest: static_step)
      have "if_returns (parse_args E (Suc i') sc' s') (\<lambda>(b, sc2, s2). b \<longrightarrow> option_blocks s2 \<and> separator_dashes sc2 s2)" if b
      proof (rule 1(1) [OF True x xx [symmetric] refl refl that])
        have d: "nulled s \<subseteq> nulled s'"
          using parse_step_done [OF 1(2), of E i sc] x xx that by simp
        have u: "(nulled s' = nulled s \<or> opens_block (argv s ! i) \<and> upto_arg i s i' s' \<and> {i..i'} \<subseteq> nulled s')
            \<and> (separator_pos sc' \<in> {0, separator_pos sc} \<or> separator_pos sc' = i \<and> argv s ! i = Some ''--'')"
          using parse_step_upto [OF 1(2,3), of E i sc] x xx that by simp
        show "option_blocks s'"
          by (rule option_blocks_step [OF 1(4) _ 1(6)]) (use st u d in \<open>auto simp: static_def\<close>)
        show "separator_dashes sc' s'"
          using u 1(5) st by (auto simp: separator_dashes_def static_def)
      qed (use st 1(2,3) in \<open>auto simp: static_def rest_option_def\<close>)
      then show ?thesis using xx by simp
    qed
    then show ?thesis
      unfolding parse_args.simps [of E i sc s] if_P [OF True] by (rule if_returns_bindI)
  next
    case False
    with 1(4,5) show ?thesis by (auto simp: parse_args.simps [of E i sc s])
  qed
qed

section \<open>The whole parse\<close>

text \<open>Hooks only add to what was called, warned about or reported.\<close>

definition but_log :: "opt \<Rightarrow> opt" where
  "but_log s = s\<lparr>gcalls := [], gerror := None, g_warnings := []\<rparr>"

lemma but_logD:
  "but_log s' = but_log s \<Longrightarrow> static s s' \<and> pending_nulls s' = pending_nulls s \<and> changes s' = changes s
     \<and> int_at s' = int_at s \<and> ptr_at s' = ptr_at s \<and> blocks s' = blocks s \<and> next_block s' = next_block s"
  by (cases s; cases s') (simp add: but_log_def static_def)

lemma but_log_run_hooks: "but_log (snd (run_hooks E h gs s)) = but_log s"
  by (induction gs arbitrary: s)
     (auto simp: but_log_def g_set_error_def Let_def split: option.split prod.split)

lemma run_hooks_keeps:
  assumes "run_hooks E h gs s = (b, s')"
  shows "but_log s' = but_log s"
  using but_log_run_hooks [of E h gs s] assms by simp

lemma perform_nulls_None:
  "\<forall>n \<in> set ns. null_value n = None \<Longrightarrow>
   perform_nulls ns s = Inr (s\<lparr>argv := map (\<lambda>k. if k \<in> null_ptr ` set ns then None else argv s ! k) [0..<length (argv s)]\<rparr>)"
proof (induction ns arbitrary: s)
  case Nil
  then show ?case by (simp add: map_nth)
next
  case (Cons n ns)
  then show ?case by (auto intro!: arg_cong [of _ _ "\<lambda>v. s\<lparr>argv := v\<rparr>"] nth_equalityI simp: nth_list_update)
qed

text \<open>On failure the variables are put back, the arguments are never touched.\<close>

lemma static_fields [simp]:
  "static t (s\<lparr>int_at := x\<rparr>) = static t s" "static t (s\<lparr>ptr_at := p\<rparr>) = static t s"
  "static t (s\<lparr>blocks := b\<rparr>) = static t s" "static t (s\<lparr>changes := c\<rparr>) = static t s"
  "static t (s\<lparr>pending_nulls := n\<rparr>) = static t s" "static t (run_error_hooks s) = static t s"
  by (simp_all add: static_def run_error_hooks_def)

lemma static_free: "static t s \<Longrightarrow> if_returns (g_free_block p s) (static t)"
  by (auto simp: g_free_block_def split: option.split)

lemma static_free_all: "static t s \<Longrightarrow> if_returns (g_free_all ps s) (static t)"
proof (induction ps arbitrary: s)
  case (Cons p ps)
  then show ?case by (cases p) (auto intro!: if_returns_mono [OF static_free])
qed simp

lemma static_revert_changes: "static t s \<Longrightarrow> if_returns (revert_changes cs s) (static t)"
proof (induction cs arbitrary: s)
  case (Cons c cs)
  have v: "if_returns (g_strfreev p s) (static t)" for p
    using Cons.prems unfolding g_strfreev_def
    by (auto split: option.split block.split intro!: if_returns_mono [OF static_free_all] static_free)
  have i: "if_returns (revert_integer c s) (static t)"
    using Cons.prems by (auto simp: revert_integer_def intro!: readers_return)
  have p: "if_returns (revert_pointer c s') (static t)" if "static t s'" for s'
    using that by (auto simp: revert_pointer_def intro!: readers_return)
  have "if_returns (revert_str c s) (static t)" "if_returns (revert_array c s) (static t)"
    using Cons.prems p unfolding revert_str_def revert_array_def
    by (auto intro!: readers_return if_returns_mono [OF static_free] if_returns_mono [OF v])
  with i have "if_returns (revert_change c s) (static t)"
    by (simp add: revert_change_def split: GOptionArg.split)
  then show ?case by (auto intro: if_returns_mono Cons.IH)
qed simp

lemma parse_fail_keeps:
  "if_returns (parse_fail s) (\<lambda>(b, s'). \<not> b \<and> static s s' \<and> changes s' = [] \<and> pending_nulls s' = [])"
proof -
  have "static s s" by (simp add: static_def)
  then show ?thesis
    by (auto simp: parse_fail_def free_changes_list_def free_pending_nulls_def
        intro!: if_returns_mono [OF static_revert_changes [of s]])
qed

lemma set_prgname_keeps: "if_returns (set_prgname E s) (\<lambda>s'. static s s' \<and> pending_nulls s' = pending_nulls s)"
  by (auto simp: set_prgname_def static_def split: option.split)

lemma parse_finish_result:
  assumes "\<forall>n \<in> set (pending_nulls s). null_value n = None \<and> 1 \<le> null_ptr n" "1 \<le> argc s" "argc s \<le> length (argv s)"
  shows "ok (parse_finish s) (\<lambda>(b, s'). b \<and> argc s' \<le> length (argv s')
     \<and> take (argc s') (argv s') = map ((!) (argv s)) (filter (\<lambda>k. k = 0 \<or> k \<notin> nulled s \<and> argv s ! k \<noteq> None) [0..<argc s]))"
proof -
  let ?v = "map (\<lambda>k. if k \<in> null_ptr ` set (pending_nulls s) then None else argv s ! k) [0..<length (argv s)]"
  obtain n v where c: "compact 1 (argc s) ?v = (n, v)" by fastforce
  have k: "n \<le> argc s" "length v = length ?v" "take n v = take 1 ?v @ filter (\<lambda>x. x \<noteq> None) (drop 1 (take (argc s) ?v))"
    using compact_keeps [of 1 "argc s" ?v n v] assms c by simp_all
  have "take (argc s) ?v = map (\<lambda>k. if k \<in> nulled s then None else argv s ! k) (0 # [1..<argc s])"
    using assms(2,3) by (simp add: take_map nulled_def upt_conv_Cons [of 0])
  moreover have "filter (\<lambda>x. x \<noteq> None) (map (\<lambda>k. if k \<in> nulled s then None else argv s ! k) ks)
      = map ((!) (argv s)) (filter (\<lambda>k. k \<notin> nulled s \<and> argv s ! k \<noteq> None) ks)" for ks
    by (induction ks) auto
  moreover have hd: "take 1 ?v = [argv s ! 0]"
  proof -
    have "0 \<notin> null_ptr ` set (pending_nulls s)" using assms(1) by auto
    then show ?thesis using assms(2,3) by (simp add: take_map)
  qed
  moreover have "filter (\<lambda>k. k = 0 \<or> P k) [1..<m] = filter P [1..<m]" for P and m :: nat
    by (rule filter_cong) auto
  ultimately have "take n v = map ((!) (argv s)) (filter (\<lambda>k. k = 0 \<or> k \<notin> nulled s \<and> argv s ! k \<noteq> None) (0 # [1..<argc s]))"
    using k(3) assms(2,3) hd by (simp del: upt_Suc)
  then show ?thesis
    using assms c k perform_nulls_None [of "pending_nulls s" s]
    by (simp add: parse_finish_def free_pending_nulls_def upt_conv_Cons [of 0])
qed

text \<open>The outline of \<open>g_option_context_parse\<close>: it ends in \<open>parse_fail\<close>, or in \<open>parse_finish\<close> with every option
  dealt with.\<close>

lemma static_trans: "static s s' \<Longrightarrow> static s' s'' \<Longrightarrow> static s s''"
  by (simp add: static_def)

lemma nulls_ok_separator:
  assumes "nulls_ok i s" "separator_ok i sc s"
  shows "nulls_ok i (if separator_pos sc > 0 then add_pending_null (separator_pos sc) None s else s)"
  using assms by (auto simp: nulls_ok_def separator_ok_def add_pending_null_def)

text \<open>What is removed, when unknown options are refused.\<close>

definition removed_ok :: "opt \<Rightarrow> opt \<Rightarrow> bool" where
  "removed_ok s s2 \<longleftrightarrow> options_done (argc s) s2 \<and> (rest_option s \<or> option_blocks s2)"

lemma removed_ok_separator:
  assumes "removed_ok s s3" "rest_option s \<or> separator_dashes sc s3"
  shows "removed_ok s (if separator_pos sc > 0 then add_pending_null (separator_pos sc) None s3 else s3)"
proof (cases "separator_pos sc > 0")
  case True
  let ?i = "separator_pos sc" and ?s = "add_pending_null (separator_pos sc) None s3"
  have "options_done (argc s) ?s"
    using assms(1) by (auto simp: removed_ok_def options_done_def add_pending_null_def nulled_def)
  moreover have "argv ?s = argv s3" by (simp add: add_pending_null_def)
  then have "option_blocks ?s" if "option_blocks s3" "separator_dashes sc s3"
    using that(2) True
    by (intro option_blocks_step [where i = ?i and i' = ?i, OF that(1)])
       (auto simp: separator_dashes_def opens_block_def upto_arg_def)
  ultimately show ?thesis using assms True by (auto simp: removed_ok_def)
qed (use assms in simp)

lemma nulls_ok_log: "but_log s' = but_log s \<Longrightarrow> nulls_ok i s' = nulls_ok i s \<and> removed_ok t s' = removed_ok t s"
  by (drule but_logD) (simp add: nulls_ok_def removed_ok_def options_done_def option_blocks_def nulled_def static_def)

lemma static_hooks: "run_hooks E h gs s = (b, s') \<Longrightarrow> static s s' \<and> pending_nulls s' = pending_nulls s"
  using run_hooks_keeps but_logD by blast

lemma wp_parse_end:
  assumes a: "static s s3" "nulls_ok i s3" "separator_ok i sc s3" "\<not> ignore_unknown s \<longrightarrow> removed_ok s s3 \<and> (rest_option s \<or> separator_dashes sc s3)"
    and "\<And>s1. static s s1 \<Longrightarrow> if_returns (parse_fail s1) Q"
    and "\<And>s2 i. static s s2 \<Longrightarrow> nulls_ok i s2 \<Longrightarrow> (\<not> ignore_unknown s \<longrightarrow> removed_ok s s2) \<Longrightarrow> if_returns (parse_finish s2) Q"
  shows "if_returns (parse_end E sc s3) Q"
proof -
  define s4 where "s4 = (if separator_pos sc > 0 then add_pending_null (separator_pos sc) None s3 else s3)"
  obtain b s5 where h: "run_hooks E post_parse_func (all_groups s4) s4 = (b, s5)" by fastforce
  have "static s s5"
    using static_hooks [OF h] a(1) by (auto simp: s4_def static_def add_pending_null_def)
  moreover have "nulls_ok i s5"
    using nulls_ok_separator [OF a(2,3)] nulls_ok_log [OF run_hooks_keeps [OF h]] by (simp add: s4_def)
  moreover have "\<not> ignore_unknown s \<longrightarrow> removed_ok s s5"
    using nulls_ok_log [OF run_hooks_keeps [OF h]] removed_ok_separator a(4) by (auto simp: s4_def)
  ultimately show ?thesis
    unfolding parse_end_def s4_def [symmetric] Let_def h using assms(4-6) by auto
qed

lemma wp_parse:
  assumes "pending_nulls s = []" "\<And>s1. static s s1 \<Longrightarrow> if_returns (parse_fail s1) Q"
    and "\<And>s2 i. static s s2 \<Longrightarrow> nulls_ok i s2 \<Longrightarrow> (\<not> ignore_unknown s \<longrightarrow> removed_ok s s2) \<Longrightarrow> if_returns (parse_finish s2) Q"
  shows "if_returns (g_option_context_parse E s) Q"
  unfolding g_option_context_parse_def
proof (rule if_returns_andthenI [OF set_prgname_keeps])
  fix s1
  assume s1: "static s s1 \<and> pending_nulls s1 = pending_nulls s"
  obtain b s2 where h: "run_hooks E pre_parse_func (all_groups s1) s1 = (b, s2)" by fastforce
  note s2 = static_hooks [OF h]
  let ?sc = "\<lparr>stop_parsing = False, has_unknown = False, separator_pos = 0\<rparr>"
  have st: "static s s2" using s1 s2 static_trans by blast
  have start: "nulls_ok 1 s2" "separator_ok 1 ?sc s2" "options_done 1 s2" "stop_seen 1 ?sc s2"
    using s1 s2 assms(1) by (simp_all add: nulls_ok_def separator_ok_def options_done_def stop_seen_def)
  have start': "option_blocks s2" "separator_dashes ?sc s2"
    using s1 s2 assms(1) by (simp_all add: option_blocks_def separator_dashes_def nulled_def)
  have "if_returns (parse_args E 1 ?sc s2) (\<lambda>(b, sc, s3). static s2 s3 \<and> (b \<longrightarrow> (\<exists>i. nulls_ok i s3 \<and> separator_ok i sc s3
      \<and> (\<not> ignore_unknown s2 \<longrightarrow> removed_ok s2 s3 \<and> (rest_option s2 \<or> separator_dashes sc s3)))))"
    using parse_args_nulls [OF _ start(1,2), of E] parse_args_done [OF _ start(3,4), of E]
      parse_args_blocks [OF _ _ start', of 1 E]
    by (fastforce simp: if_returns_def removed_ok_def)
  then have "if_returns (parse_args E 1 ?sc s2) (\<lambda>(b, sc, s3). static s s3 \<and> (b \<longrightarrow> (\<exists>i. nulls_ok i s3 \<and> separator_ok i sc s3
      \<and> (\<not> ignore_unknown s \<longrightarrow> removed_ok s s3 \<and> (rest_option s \<or> separator_dashes sc s3)))))"
    by (rule if_returns_mono) (use st in \<open>auto simp: static_def removed_ok_def rest_option_def\<close>)
  then have "if_returns (andthen (parse_args E 1 ?sc s2) (\<lambda>(okay, sc, s). if \<not> okay then parse_fail s else parse_end E sc s)) Q"
    by (rule if_returns_andthenI) (auto intro!: wp_parse_end [OF _ _ _ _ assms(2,3)] assms(2))
  then show "if_returns (let (okay, s) = run_hooks E pre_parse_func (all_groups s1) s1
        in if \<not> okay then parse_fail s
           else andthen (parse_args E 1 ?sc s) (\<lambda>(okay, sc, s). if \<not> okay then parse_fail s else parse_end E sc s)) Q"
    unfolding h Let_def prod.case using st assms(2) by simp
qed

section \<open>An example context\<close>

text \<open>Two options, a string and a number, and the argument vector of a call.\<close>

definition example_env :: glib_env where
  "example_env = \<lparr>locale_to_utf8 = Inr, path_get_basename = (\<lambda>t. t), call_arg_func = (\<lambda>_ _ _ _. (True, None)),
     call_hook = (\<lambda>_ _. (True, None))\<rparr>"

definition example_entries :: "GOptionEntry list" where
  "example_entries =
     [\<lparr>long_name = ''stun'', short_name = CHR ''s'', flags = 0, arg = G_OPTION_ARG_STRING, arg_data = 1,
       description = None, arg_description = None\<rparr>,
      \<lparr>long_name = ''port'', short_name = CHR ''p'', flags = 0, arg = G_OPTION_ARG_INT, arg_data = 2,
       description = None, arg_description = None\<rparr>]"

definition example_memory :: "string list \<Rightarrow> opt" where
  "example_memory args =
     \<lparr>groups = [], parameter_string = None, help_enabled = True, ignore_unknown = False, main_group = None,
      changes = [], pending_nulls = [], int_at = (\<lambda>_. 0), ptr_at = (\<lambda>_. None), blocks = (\<lambda>_. None), next_block = 0,
      argc = length args, argv = map Some args, gerror = None, gcalls = [], g_out = [], g_warnings = [], g_prgname = []\<rparr>"

definition example_context :: "string list \<Rightarrow> opt" where
  "example_context args = g_option_context_add_main_entries example_entries (g_option_context_new None (example_memory args))"

definition parse_gives :: "bool \<Rightarrow> (bool \<times> opt) run \<Rightarrow> bool" where
  "parse_gives b m = (case m of Inl _ \<Rightarrow> False | Inr (c, s) \<Rightarrow> c = b)"

lemma parse_givesD: "parse_gives b m \<Longrightarrow> \<exists>s. m = Inr (b, s)"
  by (auto simp: parse_gives_def split: sum.splits)

lemma example_context_facts [simp]:
  "pending_nulls (example_context args) = []" "argc (example_context args) = length args"
  "argv (example_context args) = map Some args" "\<not> ignore_unknown (example_context args)"
  by (simp_all add: example_context_def g_option_context_add_main_entries_def g_option_context_new_def example_memory_def)

lemma example_bad_port: "parse_gives False (g_option_context_parse example_env (example_context [''cli'', ''-s'', ''host'', ''--port=70x'']))"
  by code_simp

lemma example_good: "parse_gives True (g_option_context_parse example_env (example_context [''cli'', ''-s'', ''host'', ''sip:a'', ''--'', ''-z'']))"
  by code_simp

section \<open>Properties\<close>

text \<open>
  A failed parse (C15). Whatever made it fail (a hook, an unknown option, a bad or missing value), the
  arguments and their number are as before, and no change and no pending removal is left in the context.
\<close>

theorem failed_parse_keeps_arguments:
  assumes "g_option_context_parse E s = Inr (False, s')" "pending_nulls s = []"
  shows "argv s' = argv s \<and> argc s' = argc s \<and> changes s' = [] \<and> pending_nulls s' = []"
proof -
  have "if_returns (g_option_context_parse E s) (\<lambda>(b, s'). \<not> b \<longrightarrow> static s s' \<and> changes s' = [] \<and> pending_nulls s' = [])"
  proof (rule wp_parse [OF assms(2)])
    show "if_returns (parse_fail s1) (\<lambda>(b, s'). \<not> b \<longrightarrow> static s s' \<and> changes s' = [] \<and> pending_nulls s' = [])"
      if "static s s1" for s1
      by (rule if_returns_mono [OF parse_fail_keeps]) (use that in \<open>auto dest: static_trans\<close>)
  qed (auto simp: parse_finish_def Let_def intro!: if_returns_all split: prod.split)
  with assms(1) show ?thesis by (simp add: static_def)
qed

theorem failed_parse_keeps_arguments_witness:
  "\<exists>s'. g_option_context_parse example_env (example_context [''cli'', ''-s'', ''host'', ''--port=70x'']) = Inr (False, s')
     \<and> argv s' = [Some ''cli'', Some ''-s'', Some ''host'', Some ''--port=70x''] \<and> changes s' = []"
proof -
  obtain s' where s': "g_option_context_parse example_env (example_context [''cli'', ''-s'', ''host'', ''--port=70x'']) = Inr (False, s')"
    using parse_givesD [OF example_bad_port] ..
  from failed_parse_keeps_arguments [OF this] show ?thesis using s' by simp
qed



end
