(* ===== verification/Goption_Heap.thy ===== *)
theory Goption_Heap
  imports Goption_Args
begin

text \<open>
  Ownership of memory in the option parser (replace_goption.c). The record of a changed variable owns the
  strings and vectors that were allocated for it. \<open>heap_ok\<close>: no block is owned twice, all are live, and the unions of
  every record hold members of its type (\<open>unions_ok\<close>); \<open>kinds\<close>: the type of every record is of the kind of its variable;
  \<open>vars_live\<close>: every variable is \<open>NULL\<close> or points to a live block that no other variable's record owns.
  Setting a text and appending to a vector keep both and never free or use a block wrongly.
\<close>

section \<open>Running without a crash\<close>

text \<open>\<open>safe m Q\<close>: \<open>m\<close> does not crash, and if it returns its value satisfies \<open>Q\<close>. It may end the program.\<close>

definition safe :: "'a run \<Rightarrow> ('a \<Rightarrow> bool) \<Rightarrow> bool" where
  "safe m Q \<longleftrightarrow> (case m of Inl (Crash _) \<Rightarrow> False | Inl (Exit _ _) \<Rightarrow> True | Inr x \<Rightarrow> Q x)"

lemma safe_simps [simp]:
  "safe (Inl (Crash c)) Q = False" "safe (Inl (Exit n t)) Q" "safe (Inr x) Q = Q x"
  "safe (andthen m f) Q = safe m (\<lambda>x. safe (f x) Q)"
  by (auto simp: safe_def split: sum.split halt.split)

lemma safe_split [simp]:
  "safe (if b then m else n) Q = (if b then safe m Q else safe n Q)"
  "safe (case x of None \<Rightarrow> m | Some y \<Rightarrow> f y) Q = (case x of None \<Rightarrow> safe m Q | Some y \<Rightarrow> safe (f y) Q)"
  "safe (case p of (a, b) \<Rightarrow> g a b) Q = (case p of (a, b) \<Rightarrow> safe (g a b) Q)"
  by (simp_all split: option.split prod.split)

lemma safe_mono: "safe m P \<Longrightarrow> (\<And>x. P x \<Longrightarrow> Q x) \<Longrightarrow> safe m Q"
  by (auto simp: safe_def split: sum.splits halt.splits)

lemma safe_conj: "safe m P \<Longrightarrow> if_returns m Q \<Longrightarrow> safe m (\<lambda>x. P x \<and> Q x)"
  by (auto simp: safe_def if_returns_def split: sum.splits halt.splits)

lemma safe_andthenI: "safe m P \<Longrightarrow> (\<And>x. P x \<Longrightarrow> safe (f x) Q) \<Longrightarrow> safe (andthen m f) Q"
  by (auto elim: safe_mono)

section \<open>The blocks a context owns\<close>

text \<open>What the members of the union \<open>allocated\<close> hold, when they are the ones last written.\<close>

definition alloc_str :: "Change \<Rightarrow> nat option" where
  "alloc_str c = (case change_allocated c of Allocated_str p \<Rightarrow> p | _ \<Rightarrow> None)"

definition alloc_data :: "Change \<Rightarrow> nat option" where
  "alloc_data c = (case change_allocated c of Allocated_array _ a \<Rightarrow> Some a | _ \<Rightarrow> None)"

lemma alloc_simps [simp]:
  "alloc_str (c\<lparr>change_prev := p\<rparr>) = alloc_str c" "alloc_data (c\<lparr>change_prev := p\<rparr>) = alloc_data c"
  "alloc_str (c\<lparr>change_allocated := Allocated_str q\<rparr>) = q" "alloc_data (c\<lparr>change_allocated := Allocated_str q\<rparr>) = None"
  "alloc_str (c\<lparr>change_allocated := Allocated_array n a\<rparr>) = None"
  "alloc_data (c\<lparr>change_allocated := Allocated_array n a\<rparr>) = Some a"
  "change_allocated c = Allocated_zero \<Longrightarrow> alloc_str c = None" "change_allocated c = Allocated_zero \<Longrightarrow> alloc_data c = None"
  by (simp_all add: alloc_str_def alloc_data_def)

text \<open>The kind of variable an option type is for, and a record whose unions are used as its type says.\<close>

datatype var_kind = Int_var | Text_var | Vector_var | No_var

fun kind_of :: "GOptionArg \<Rightarrow> var_kind" where
  "kind_of G_OPTION_ARG_NONE = Int_var"
| "kind_of G_OPTION_ARG_INT = Int_var"
| "kind_of G_OPTION_ARG_STRING = Text_var"
| "kind_of G_OPTION_ARG_FILENAME = Text_var"
| "kind_of G_OPTION_ARG_STRING_ARRAY = Vector_var"
| "kind_of G_OPTION_ARG_FILENAME_ARRAY = Vector_var"
| "kind_of G_OPTION_ARG_CALLBACK = No_var"

definition unions_ok :: "Change \<Rightarrow> bool" where
  "unions_ok c =
     (case kind_of (change_type c) of
        Int_var \<Rightarrow> (\<forall>p. change_prev c \<noteq> Prev_pointer p) \<and> change_allocated c = Allocated_zero
      | Text_var \<Rightarrow> (\<forall>i. change_prev c \<noteq> Prev_integer i) \<and> (\<forall>n a. change_allocated c \<noteq> Allocated_array n a)
      | Vector_var \<Rightarrow> (\<forall>i. change_prev c \<noteq> Prev_integer i) \<and> (\<forall>p. change_allocated c \<noteq> Allocated_str p)
      | No_var \<Rightarrow> False)"

lemma unions_readers:
  assumes "unions_ok c"
  shows "kind_of (change_type c) = Int_var \<Longrightarrow> \<exists>i. prev_integer c = Inr i"
    and "kind_of (change_type c) \<noteq> Int_var \<Longrightarrow> \<exists>p. prev_pointer c = Inr p"
    and "kind_of (change_type c) = Text_var \<Longrightarrow> allocated_str c = Inr (alloc_str c)"
    and "kind_of (change_type c) = Vector_var \<Longrightarrow> \<exists>n. allocated_array c = Inr (n, alloc_data c) \<and> (alloc_data c = None \<longrightarrow> n = 0)"
  using assms
  by (auto simp: unions_ok_def prev_integer_def prev_pointer_def allocated_str_def allocated_array_def alloc_str_def
      alloc_data_def split: var_kind.splits prev_union.split allocated_union.split)

fun strs :: "nat option list \<Rightarrow> nat list" where
  "strs (Some a # as) = a # strs as"
| "strs _ = []"

definition owned :: "(nat \<rightharpoonup> block) \<Rightarrow> Change \<Rightarrow> nat list" where
  "owned h c = (case alloc_str c of None \<Rightarrow> [] | Some a \<Rightarrow> [a])
     @ (case alloc_data c of None \<Rightarrow> []
        | Some a \<Rightarrow> a # (case h a of Some (Strv ps) \<Rightarrow> strs ps | _ \<Rightarrow> []))"

definition change_ok :: "(nat \<rightharpoonup> block) \<Rightarrow> Change \<Rightarrow> bool" where
  "change_ok h c \<longleftrightarrow> unions_ok c \<and> distinct (owned h c) \<and> set (owned h c) \<subseteq> dom h
     \<and> (\<forall>a. alloc_data c = Some a \<longrightarrow> (\<exists>ps. h a = Some (Strv ps)))"

text \<open>Every change owns live blocks, and no block is owned twice.\<close>

fun own_ok :: "(nat \<rightharpoonup> block) \<Rightarrow> Change list \<Rightarrow> bool" where
  "own_ok h [] = True"
| "own_ok h (c # cs) \<longleftrightarrow> change_ok h c \<and> own_ok h cs
     \<and> (\<forall>d \<in> set cs. change_data d \<noteq> change_data c \<and> set (owned h d) \<inter> set (owned h c) = {})"

lemma owned_cong:
  assumes "\<And>a. a \<in> set (owned h c) \<Longrightarrow> h' a = h a"
  shows "owned h' c = owned h c" "change_ok h c \<Longrightarrow> change_ok h' c"
proof -
  have "h' a = h a" if "alloc_data c = Some a" for a
    using assms that by (simp add: owned_def)
  then show o: "owned h' c = owned h c" by (auto simp: owned_def split: option.split)
  assume "change_ok h c"
  then show "change_ok h' c"
    using assms \<open>\<And>a. alloc_data c = Some a \<Longrightarrow> h' a = h a\<close> unfolding change_ok_def o by fastforce
qed

lemma own_ok_cong:
  assumes "own_ok h cs" "\<And>c a. c \<in> set cs \<Longrightarrow> a \<in> set (owned h c) \<Longrightarrow> h' a = h a"
  shows "own_ok h' cs"
  using assms
proof (induction cs)
  case (Cons c cs)
  have "owned h' d = owned h d" if "d \<in> set (c # cs)" for d
    using owned_cong(1) [of h d h'] Cons.prems(2) that by blast
  then show ?case using Cons owned_cong(2) [of h c h'] by auto
qed simp

lemma own_ok_live: "own_ok h cs \<Longrightarrow> c \<in> set cs \<Longrightarrow> change_ok h c"
  by (induction cs) auto

lemma own_ok_disjoint:
  "own_ok h cs \<Longrightarrow> c \<in> set cs \<Longrightarrow> d \<in> set cs \<Longrightarrow> change_data c \<noteq> change_data d \<Longrightarrow> set (owned h c) \<inter> set (owned h d) = {}"
  by (induction cs) auto

lemma own_ok_unique: "own_ok h cs \<Longrightarrow> c \<in> set cs \<Longrightarrow> d \<in> set cs \<Longrightarrow> change_data c = change_data d \<Longrightarrow> c = d"
  by (induction cs) auto

text \<open>A change is replaced by one for the same variable that owns nothing another one owns.\<close>

lemma own_ok_replace:
  assumes "own_ok h cs" "change_ok h' c'" "\<And>d a. d \<in> set cs \<Longrightarrow> change_data d \<noteq> change_data c' \<Longrightarrow> a \<in> set (owned h d) \<Longrightarrow>
      h' a = h a \<and> a \<notin> set (owned h' c')"
  shows "own_ok h' (map (\<lambda>d. if change_data d = change_data c' then c' else d) cs)"
  using assms(1,3)
proof (induction cs)
  case (Cons c cs)
  have o: "\<forall>d \<in> set (c # cs). change_data d \<noteq> change_data c' \<longrightarrow>
      owned h' d = owned h d \<and> set (owned h d) \<inter> set (owned h' c') = {}"
    using owned_cong(1) [of h _ h'] Cons.prems(2) by (auto simp: disjoint_iff)
  have IH: "own_ok h' (map (\<lambda>d. if change_data d = change_data c' then c' else d) cs)"
    by (rule Cons.IH) (use Cons.prems in auto)
  have c: "change_ok h' (if change_data c = change_data c' then c' else c)"
    using assms(2) Cons.prems owned_cong(2) [of h c h'] by auto
  show ?case
    using IH c Cons.prems(1) o by (auto simp: disjoint_iff)
qed simp

section \<open>The invariant\<close>

text \<open>Every record's type is of the kind of its variable.\<close>

definition kinds :: "(nat \<Rightarrow> var_kind) \<Rightarrow> opt \<Rightarrow> bool" where
  "kinds K s \<longleftrightarrow> (\<forall>c \<in> set (changes s). kind_of (change_type c) = K (change_data c))"

lemma kinds_fields [simp]:
  "kinds K (s\<lparr>int_at := x\<rparr>) = kinds K s" "kinds K (s\<lparr>ptr_at := p\<rparr>) = kinds K s" "kinds K (s\<lparr>gcalls := y\<rparr>) = kinds K s"
  "kinds K (s\<lparr>blocks := h\<rparr>) = kinds K s" "kinds K (g_set_error code msg s) = kinds K s"
  by (auto simp: kinds_def g_set_error_def split: option.split)

lemma kinds_put: "kinds K s \<Longrightarrow> kind_of (change_type c) = K (change_data c) \<Longrightarrow> kinds K (put_change c s)"
  by (auto simp: kinds_def put_change_def)

lemma kinds_get_change:
  assumes "kinds K s" "get_change ty d s = (c, s')" "kind_of ty = K d"
  shows "kinds K s'" "kind_of (change_type c) = K d" "change_data c = d"
  using assms by (auto simp: get_change_def Let_def kinds_def find_Some_iff split: option.splits)

lemma kinds_strdup: "g_strdup v s = (p, s') \<Longrightarrow> kinds K s' = kinds K s"
  by (auto simp: g_strdup_def g_malloc_def kinds_def split: option.splits)

definition heap_ok :: "opt \<Rightarrow> bool" where
  "heap_ok s \<longleftrightarrow> own_ok (blocks s) (changes s) \<and> (\<forall>a \<in> dom (blocks s). a < next_block s)"

lemma heap_ok_fields [simp]:
  "heap_ok (s\<lparr>int_at := x\<rparr>) = heap_ok s" "heap_ok (s\<lparr>ptr_at := p\<rparr>) = heap_ok s" "heap_ok (s\<lparr>gcalls := y\<rparr>) = heap_ok s"
  "heap_ok (g_set_error code msg s) = heap_ok s" "heap_ok (add_pending_null i v s) = heap_ok s"
  "heap_ok (g_critical m s) = heap_ok s" "heap_ok (unknown_option i s) = heap_ok s"
  by (auto simp: heap_ok_def g_set_error_def add_pending_null_def g_critical_def unknown_option_def split: option.split)

text \<open>A block that nobody owns yet does no harm.\<close>

lemma heap_ok_malloc:
  assumes "heap_ok s" "g_malloc b s = (a, s')"
  shows "heap_ok s'" "changes s' = changes s" "blocks s' = (blocks s)(a \<mapsto> b)" "blocks s a = None" "ptr_at s' = ptr_at s"
proof -
  have a: "a = next_block s" "s' = s\<lparr>blocks := (blocks s)(a \<mapsto> b), next_block := Suc a\<rparr>"
    using assms(2) by (auto simp: g_malloc_def)
  show new: "blocks s a = None"
    using assms(1) a(1) by (metis domIff heap_ok_def less_irrefl)
  have own: "own_ok (blocks s) (changes s)" using assms(1) by (simp add: heap_ok_def)
  have "x \<noteq> a" if "c \<in> set (changes s)" "x \<in> set (owned (blocks s) c)" for c x
  proof -
    have "x \<in> dom (blocks s)" using own_ok_live [OF own that(1)] that(2) by (auto simp: change_ok_def)
    then show ?thesis using new by auto
  qed
  then have "own_ok ((blocks s)(a \<mapsto> b)) (changes s)"
    by (intro own_ok_cong [OF own]) simp
  moreover have "\<forall>x \<in> insert a (dom (blocks s)). x < Suc a"
    using assms(1) a(1) by (auto simp: heap_ok_def intro: less_SucI)
  ultimately show "heap_ok s'" using a(2) by (simp add: heap_ok_def)
  show "changes s' = changes s" "blocks s' = (blocks s)(a \<mapsto> b)" "ptr_at s' = ptr_at s" using a(2) by simp_all
qed

text \<open>A fresh string is owned by no change.\<close>

definition unowned :: "opt \<Rightarrow> nat option \<Rightarrow> bool" where
  "unowned s p \<longleftrightarrow> (\<forall>a. p = Some a \<longrightarrow> a \<in> dom (blocks s) \<and> (\<forall>c \<in> set (changes s). a \<notin> set (owned (blocks s) c)))"

lemma heap_ok_strdup:
  assumes "heap_ok s" "g_strdup v s = (p, s')"
  shows "heap_ok s' \<and> unowned s' p"
proof (cases v)
  case None
  then show ?thesis using assms by (simp add: g_strdup_def unowned_def)
next
  case (Some t)
  then obtain a where g: "g_malloc (Chars t) s = (a, s')" "p = Some a"
    using assms(2) by (auto simp: g_strdup_def split: prod.splits)
  note m = heap_ok_malloc [OF assms(1) g(1)]
  have "a \<notin> set (owned (blocks s') c)" if "c \<in> set (changes s')" for c
  proof -
    have c: "change_ok (blocks s) c" using that assms(1) m(2) own_ok_live by (auto simp: heap_ok_def)
    then have "a \<notin> set (owned (blocks s) c)" using m(4) by (auto simp: change_ok_def)
    moreover have "owned (blocks s') c = owned (blocks s) c"
      using c m(3,4) by (intro owned_cong) (auto simp: change_ok_def)
    ultimately show ?thesis by simp
  qed
  with m g(2) show ?thesis by (simp add: unowned_def)
qed

lemma heap_ok_get_change:
  assumes "heap_ok s" "get_change ty d s = (c, s')" "ty \<noteq> G_OPTION_ARG_CALLBACK"
  shows "heap_ok s'" "c \<in> set (changes s')" "change_data c = d" "unowned s p \<Longrightarrow> unowned s' p" "blocks s' = blocks s"
proof -
  have "heap_ok s' \<and> c \<in> set (changes s') \<and> change_data c = d \<and> (unowned s p \<longrightarrow> unowned s' p) \<and> blocks s' = blocks s"
  proof (cases "find (\<lambda>c. change_data c = d) (changes s)")
    case None
    then have "\<forall>c \<in> set (changes s). change_data c \<noteq> d" by (simp add: find_None_iff)
    moreover let ?c = "\<lparr>change_type = ty, change_data = d, change_prev = Prev_zero, change_allocated = Allocated_zero\<rparr>"
    have "owned h ?c = []" "alloc_data ?c = None" for h
      by (simp_all add: owned_def)
    moreover have "unions_ok ?c"
      using assms(3) by (cases ty) (simp_all add: unions_ok_def)
    ultimately show ?thesis
      using None assms by (auto simp: get_change_def Let_def heap_ok_def change_ok_def unowned_def)
  next
    case (Some x)
    then have "x \<in> set (changes s)" "change_data x = d" by (auto simp: find_Some_iff)
    then show ?thesis using Some assms by (simp add: get_change_def)
  qed
  then show "heap_ok s'" "c \<in> set (changes s')" "change_data c = d" "unowned s p \<Longrightarrow> unowned s' p" "blocks s' = blocks s"
    by auto
qed

lemma heap_ok_put:
  assumes "own_ok h (changes s)" "c \<in> set (changes s)" "change_data c' = change_data c" "change_ok (blocks s) c'"
    and "\<And>x. x \<in> set (owned (blocks s) c') \<Longrightarrow> x \<in> set (owned h c) \<or> (\<forall>d \<in> set (changes s). x \<notin> set (owned h d))"
    and "\<And>x. x \<in> dom h \<Longrightarrow> x \<notin> set (owned h c) \<Longrightarrow> blocks s x = h x" "\<forall>x \<in> dom (blocks s). x < next_block s"
  shows "heap_ok (put_change c' s)"
proof -
  have "blocks s x = h x \<and> x \<notin> set (owned (blocks s) c')"
    if d: "d \<in> set (changes s)" "change_data d \<noteq> change_data c'" "x \<in> set (owned h d)" for d x
  proof -
    have "x \<notin> set (owned h c)" using own_ok_disjoint [OF assms(1) d(1) assms(2)] d assms(3) by auto
    moreover have "x \<in> dom h" using own_ok_live [OF assms(1) d(1)] d(3) by (auto simp: change_ok_def)
    ultimately show ?thesis using assms(5,6) d by blast
  qed
  then show ?thesis
    using own_ok_replace [OF assms(1,4)] assms(7) by (simp add: heap_ok_def put_change_def)
qed

section \<open>Variables\<close>

definition live_vars :: "(nat \<Rightarrow> nat option) \<Rightarrow> (nat \<rightharpoonup> block) \<Rightarrow> Change list \<Rightarrow> bool" where
  "live_vars p h cs \<longleftrightarrow> (\<forall>d a. p d = Some a \<longrightarrow> a \<in> dom h \<and> (\<forall>c \<in> set cs. a \<in> set (owned h c) \<longrightarrow> change_data c = d))"

definition vars_live :: "opt \<Rightarrow> bool" where
  "vars_live s \<longleftrightarrow> live_vars (ptr_at s) (blocks s) (changes s)"

text \<open>A block nobody has seen yet.\<close>

definition fresh :: "opt \<Rightarrow> nat option \<Rightarrow> bool" where
  "fresh s p \<longleftrightarrow> (\<forall>d a. p = Some a \<longrightarrow> ptr_at s d \<noteq> Some a)"

lemma live_vars_put:
  assumes own: "own_ok h cs" "c \<in> set cs" "live_vars p h cs" and c': "change_data c' = change_data c"
    and new: "\<And>x. x \<in> set (owned h' c') \<Longrightarrow> x \<in> set (owned h c) \<or> (\<forall>d. p d \<noteq> Some x)"
    and same: "\<And>x. x \<in> dom h \<Longrightarrow> x \<notin> set (owned h c) \<Longrightarrow> h' x = h x"
    and q: "\<And>x. q = Some x \<Longrightarrow> x \<in> dom h' \<and> (\<forall>d \<in> set cs. x \<notin> set (owned h d))"
  shows "live_vars (p(change_data c := q)) h' (map (\<lambda>d. if change_data d = change_data c' then c' else d) cs)"
proof -
  have other: "owned h' e = owned h e" if "e \<in> set cs" "change_data e \<noteq> change_data c" for e
  proof (rule owned_cong)
    fix a
    assume "a \<in> set (owned h e)"
    then show "h' a = h a"
      using own_ok_disjoint [OF own(1) that(1) own(2) that(2)] own_ok_live [OF own(1) that(1)]
      by (intro same) (auto simp: change_ok_def)
  qed
  have live: "a \<in> dom h' \<and> a \<notin> set (owned h' c') \<and> (\<forall>e \<in> set cs. a \<in> set (owned h e) \<longrightarrow> change_data e = d)"
    if "p d = Some a" "d \<noteq> change_data c" for d a
  proof -
    have a: "a \<in> dom h" "a \<notin> set (owned h c)" "\<forall>e \<in> set cs. a \<in> set (owned h e) \<longrightarrow> change_data e = d"
      using own(2,3) that by (auto simp: live_vars_def)
    moreover have "a \<notin> set (owned h' c')" using new [of a] a(2) that(1) by blast
    ultimately show ?thesis using same [OF a(1,2)] by auto
  qed
  show ?thesis
    unfolding live_vars_def using q live c' other by (auto split: if_splits)
qed

lemma vars_live_strdup:
  assumes "heap_ok s" "vars_live s" "g_strdup v s = (p, s')"
  shows "vars_live s'" "fresh s' p"
proof -
  have "vars_live s' \<and> fresh s' p"
  proof (cases v)
    case None
    then show ?thesis using assms by (simp add: g_strdup_def fresh_def)
  next
    case (Some t)
    then obtain a where g: "g_malloc (Chars t) s = (a, s')" "p = Some a"
      using assms(3) by (auto simp: g_strdup_def split: prod.splits)
    note m = heap_ok_malloc [OF assms(1) g(1)]
    have "owned (blocks s') c = owned (blocks s) c" if "c \<in> set (changes s)" for c
      using own_ok_live [of "blocks s" "changes s" c] assms(1) that m(3,4)
      by (intro owned_cong) (auto simp: change_ok_def heap_ok_def)
    moreover have "ptr_at s d \<noteq> Some a" for d
      using assms(2) m(4) by (auto simp: vars_live_def live_vars_def)
    ultimately show ?thesis
      using assms(2) g(2) m by (auto simp: vars_live_def live_vars_def fresh_def)
  qed
  then show "vars_live s'" "fresh s' p" by auto
qed

lemma vars_live_get_change:
  assumes "get_change ty d s = (c, s')"
  shows "vars_live s' = vars_live s" "ptr_at s' = ptr_at s"
proof -
  have "owned h \<lparr>change_type = ty, change_data = d, change_prev = Prev_zero, change_allocated = Allocated_zero\<rparr> = []" for h
    by (simp add: owned_def)
  then show "vars_live s' = vars_live s" "ptr_at s' = ptr_at s"
    using assms
    by (cases "find (\<lambda>c. change_data c = d) (changes s)", force simp: get_change_def Let_def vars_live_def live_vars_def,
        simp add: get_change_def, auto simp: get_change_def Let_def split: option.splits)
qed

text \<open>The two halves of what a change owns.\<close>

definition owned_vector :: "(nat \<rightharpoonup> block) \<Rightarrow> Change \<Rightarrow> nat list" where
  "owned_vector h c = (case alloc_data c of None \<Rightarrow> []
     | Some a \<Rightarrow> a # (case h a of Some (Strv ps) \<Rightarrow> strs ps | _ \<Rightarrow> []))"

lemma owned_halves: "owned h c = (case alloc_str c of None \<Rightarrow> [] | Some a \<Rightarrow> [a]) @ owned_vector h c"
  by (simp add: owned_def owned_vector_def)

lemma owned_vector_cong:
  "(\<And>a. a \<in> set (owned_vector h c) \<Longrightarrow> h' a = h a) \<Longrightarrow> owned_vector h' c = owned_vector h c"
  by (auto simp: owned_vector_def split: option.split)

lemma change_ok_halves:
  "change_ok h c \<longleftrightarrow> unions_ok c \<and> distinct (owned_vector h c) \<and> set (owned_vector h c) \<subseteq> dom h
     \<and> (\<forall>a. alloc_str c = Some a \<longrightarrow> a \<in> dom h \<and> a \<notin> set (owned_vector h c))
     \<and> (\<forall>a. alloc_data c = Some a \<longrightarrow> (\<exists>ps. h a = Some (Strv ps)))"
  by (auto simp: change_ok_def owned_halves split: option.split)

text \<open>The heap after the old string of a change is freed, and the change with a new string.\<close>

definition without_str :: "(nat \<rightharpoonup> block) \<Rightarrow> Change \<Rightarrow> nat \<rightharpoonup> block" where
  "without_str h c = (case alloc_str c of None \<Rightarrow> h | Some a \<Rightarrow> h(a := None))"

lemma without_str_same: "alloc_str c \<noteq> Some x \<Longrightarrow> without_str h c x = h x"
  by (auto simp: without_str_def split: option.split)

lemma change_ok_new_str:
  assumes c: "change_ok h c" "kind_of (change_type c) = Text_var"
    and new: "\<And>a. data = Some a \<Longrightarrow> a \<notin> set (owned h c) \<and> a \<in> dom h"
  shows "change_ok (without_str h c) (c\<lparr>change_prev := Prev_pointer p, change_allocated := Allocated_str data\<rparr>)"
    and "owned_vector h' (c\<lparr>change_prev := Prev_pointer p, change_allocated := Allocated_str data\<rparr>) = []"
proof -
  let ?h = "without_str h c" and ?c = "c\<lparr>change_prev := Prev_pointer p, change_allocated := Allocated_str data\<rparr>"
  show v: "owned_vector h' ?c = []" for h' by (simp add: owned_vector_def)
  have "a \<in> dom ?h" if "data = Some a" for a
    using new [OF that] without_str_same [of c a h] by (auto simp: owned_halves split: option.splits)
  moreover have "unions_ok ?c" using c by (simp add: change_ok_def unions_ok_def)
  ultimately show "change_ok ?h ?c"
    unfolding change_ok_halves v by simp
qed

lemma safe_arg_string:
  assumes "heap_ok s" "kinds K s" "kind_of ty = Text_var" "K (arg_data e) = Text_var"
  shows "safe (arg_string ty e v s) (\<lambda>s'. heap_ok s' \<and> kinds K s' \<and> (vars_live s \<longrightarrow> vars_live s'))"
proof -
  obtain data s1 where g1: "g_strdup v s = (data, s1)" by fastforce
  obtain c s2 where g2: "get_change ty (arg_data e) s1 = (c, s2)" by fastforce
  have h1: "heap_ok s1" "unowned s1 data" using heap_ok_strdup [OF assms(1) g1] by auto
  have ty: "ty \<noteq> G_OPTION_ARG_CALLBACK" using assms(3) by auto
  note h2 = heap_ok_get_change [OF h1(1) g2 ty]
  have k1: "kinds K s1" using assms(2) kinds_strdup [OF g1] by simp
  note k2 = kinds_get_change [OF k1 g2, unfolded assms(3,4), OF refl]
  have own: "own_ok (blocks s2) (changes s2)" and lim: "\<forall>x \<in> dom (blocks s2). x < next_block s2"
    using h2(1) by (simp_all add: heap_ok_def)
  have un: "unowned s2 data" using h2(4) h1(2) by simp
  have c: "change_ok (blocks s2) c" by (rule own_ok_live [OF own h2(2)])
  define s3 where "s3 = s2\<lparr>blocks := without_str (blocks s2) c\<rparr>"
  have old: "allocated_str c = Inr (alloc_str c)"
    using c k2(2) unions_readers(3) by (simp add: change_ok_def)
  have free: "g_free_block (alloc_str c) s2 = Inr s3"
    using c by (auto simp: g_free_block_def without_str_def s3_def change_ok_halves split: option.split)
  define c' where "c' = c\<lparr>change_prev := Prev_pointer (ptr_at s3 (arg_data e)), change_allocated := Allocated_str data\<rparr>"
  have nd: "a \<notin> set (owned (blocks s2) c) \<and> a \<in> dom (blocks s2)" if "data = Some a" for a
    using un h2(2) that by (auto simp: unowned_def)
  have c': "change_ok (blocks s3) c'" "owned_vector h c' = []" for h
    unfolding s3_def c'_def using change_ok_new_str [OF c k2(2) nd] by simp_all
  have "heap_ok (put_change c' s3)"
  proof (rule heap_ok_put [of "blocks s2" _ c])
    show "x \<in> set (owned (blocks s2) c) \<or> (\<forall>d \<in> set (changes s3). x \<notin> set (owned (blocks s2) d))"
      if "x \<in> set (owned (blocks s3) c')" for x
      using that c'(2) un by (auto simp: s3_def c'_def owned_halves unowned_def split: option.splits)
    show "blocks s3 x = blocks s2 x" if "x \<notin> set (owned (blocks s2) c)" for x
      using that by (auto simp: s3_def owned_halves intro!: without_str_same)
  qed (use own h2 lim c' in \<open>auto simp: s3_def c'_def without_str_def split: option.splits if_splits\<close>)
  moreover have "live_vars ((ptr_at s3)(arg_data e := data)) (blocks s3) (changes (put_change c' s3))" if "vars_live s"
  proof -
    note l1 = vars_live_strdup [OF assms(1) that g1] and l2 = vars_live_get_change [OF g2]
    have fr: "ptr_at s2 d \<noteq> Some x" if "data = Some x" for d x
      using l1(2) l2(2) that by (simp add: fresh_def)
    have "live_vars ((ptr_at s2)(change_data c := data)) (blocks s3)
        (map (\<lambda>d. if change_data d = change_data c' then c' else d) (changes s2))"
    proof (rule live_vars_put [OF own h2(2)])
      show "x \<in> set (owned (blocks s2) c) \<or> (\<forall>d. ptr_at s2 d \<noteq> Some x)" if "x \<in> set (owned (blocks s3) c')" for x
        using that c'(2) fr by (auto simp: s3_def c'_def owned_halves split: option.splits)
      show "blocks s3 x = blocks s2 x" if "x \<notin> set (owned (blocks s2) c)" for x
        using that by (auto simp: s3_def owned_halves intro!: without_str_same)
      show "x \<in> dom (blocks s3) \<and> (\<forall>d \<in> set (changes s2). x \<notin> set (owned (blocks s2) d))" if "data = Some x" for x
        using that un c'(1) by (auto simp: unowned_def change_ok_halves s3_def c'_def)
    qed (use l1 l2 in \<open>simp_all add: vars_live_def c'_def\<close>)
    then show ?thesis using h2(3) by (simp add: put_change_def s3_def)
  qed
  moreover have "kinds K (put_change c' s3)"
    by (rule kinds_put) (use k2 assms(4) in \<open>simp_all add: s3_def c'_def\<close>)
  ultimately show ?thesis
    using old free unfolding arg_string_def g1 Let_def prod.case g2 by (simp add: c'_def vars_live_def put_change_def)
qed

lemma strs_snoc:
  "set (strs (ps @ [v])) \<subseteq> set (strs ps) \<union> set_option v"
  "distinct (strs ps) \<Longrightarrow> (\<And>x. v = Some x \<Longrightarrow> x \<notin> set (strs ps)) \<Longrightarrow> distinct (strs (ps @ [v]))"
proof -
  show sub: "set (strs (ps @ [v])) \<subseteq> set (strs ps) \<union> set_option v" for ps
  proof (induction ps)
    case Nil
    then show ?case by (cases v) auto
  next
    case (Cons p ps)
    then show ?case by (cases p) auto
  qed
  show "distinct (strs ps) \<Longrightarrow> (\<And>x. v = Some x \<Longrightarrow> x \<notin> set (strs ps)) \<Longrightarrow> distinct (strs (ps @ [v]))"
  proof (induction ps)
    case Nil
    then show ?case by (cases v) auto
  next
    case (Cons p ps)
    then show ?case using sub [of ps] by (cases p) fastforce+
  qed
qed

text \<open>The old vector of a change, and the heap without it.\<close>

definition old_vector :: "(nat \<rightharpoonup> block) \<Rightarrow> Change \<Rightarrow> nat option list \<Rightarrow> (nat \<rightharpoonup> block) \<Rightarrow> bool" where
  "old_vector h c old h1 \<longleftrightarrow> old = [] \<and> h1 = h
     \<or> (\<exists>b. alloc_data c = Some b \<and> h b = Some (Strv old) \<and> h1 = h(b := None))"

lemma change_ok_new_vector:
  assumes c: "change_ok h c" "old_vector h c old h1" "a \<notin> dom h"
    and new: "\<And>x. new = Some x \<Longrightarrow> x \<notin> set (owned h c) \<and> x \<in> dom h"
    and c': "alloc_str c = None" "alloc_str c' = None" "unions_ok c'" "alloc_data c' = Some a"
  defines "h' \<equiv> h1(a \<mapsto> Strv (old @ [new]))"
  shows "change_ok h' c'" "set (owned h' c') \<subseteq> insert a (set (owned h c) \<union> set_option new)"
    and "\<And>x. x \<in> dom h \<Longrightarrow> x \<notin> set (owned h c) \<Longrightarrow> h' x = h x"
proof -
  have v: "owned_vector h' c' = a # strs (old @ [new])"
    using c'(4) by (simp add: owned_vector_def h'_def)
  have old: "distinct (strs old)" "set (strs old) \<subseteq> set (owned_vector h c)"
    using c(1,2) by (auto simp: change_ok_halves old_vector_def owned_vector_def)
  have h1: "h1 x = h x" if "x \<in> set (strs old) \<or> x \<notin> set (owned_vector h c)" for x
    using that c(1,2) by (auto simp: change_ok_halves old_vector_def owned_vector_def)
  have d: "distinct (strs (old @ [new]))"
    by (rule strs_snoc(2) [OF old(1)]) (use new old in \<open>auto simp: owned_halves\<close>)
  have s: "set (strs (old @ [new])) \<subseteq> set (strs old) \<union> set_option new"
    by (rule strs_snoc(1))
  have vec: "set (owned_vector h c) \<subseteq> dom h" using c(1) by (simp add: change_ok_halves)
  have nv: "x \<in> dom h \<and> x \<notin> set (owned_vector h c) \<and> alloc_str c \<noteq> Some x" if "new = Some x" for x
    using new [OF that] by (auto simp: owned_halves)
  have live: "x \<in> dom h \<and> h1 x = h x" if "x \<in> set (strs (old @ [new]))" for x
  proof -
    from that s consider "x \<in> set (strs old)" | "new = Some x" by auto
    then show ?thesis using old(2) vec h1 [of x] nv [of x] by cases auto
  qed
  have a: "a \<notin> set (strs (old @ [new]))" using live [of a] c(3) by auto
  show "change_ok h' c'"
  proof -
    have "set (strs (old @ [new])) \<subseteq> dom h'" using live by (fastforce simp: h'_def)
    then show ?thesis
      unfolding change_ok_halves v using c(1) c' d a by (auto simp: h'_def change_ok_halves)
  qed
  show "set (owned h' c') \<subseteq> insert a (set (owned h c) \<union> set_option new)"
    using s old(2) c'(2) by (auto simp: owned_halves v)
  show "\<And>x. x \<in> dom h \<Longrightarrow> x \<notin> set (owned h c) \<Longrightarrow> h' x = h x"
    using h1 c(3) by (auto simp: h'_def owned_halves)
qed

lemma heap_ok_new_vector:
  assumes own: "own_ok h (changes s)" "c \<in> set (changes s)" "old_vector h c old h1" "\<forall>x \<in> dom h. x < next_block s"
    and s: "blocks s = h1" "unowned (s\<lparr>blocks := h\<rparr>) new" and m: "g_malloc (Strv (old @ [new])) s = (a, s')"
    and c': "alloc_str c = None" "alloc_str c' = None" "unions_ok c'" "alloc_data c' = Some a" "change_data c' = change_data c"
  shows "heap_ok (put_change c' s')"
    and "live_vars p h (changes s) \<Longrightarrow> (\<And>x d. new = Some x \<Longrightarrow> p d \<noteq> Some x) \<Longrightarrow>
      live_vars (p(change_data c := Some a)) (blocks s') (changes (put_change c' s'))"
proof -
  have s': "a = next_block s" "blocks s' = h1(a \<mapsto> Strv (old @ [new]))" "changes s' = changes s" "next_block s' = Suc a"
    using m s(1) by (auto simp: g_malloc_def)
  have a: "a \<notin> dom h" using own(4) s'(1) by auto
  have un: "x \<notin> set (owned h d) \<and> x \<in> dom h" if "new = Some x" "d \<in> set (changes s)" for x d
    using s(2) that by (simp add: unowned_def)
  note n = change_ok_new_vector [where new = new, OF own_ok_live [OF own(1,2)] own(3) a un [OF _ own(2)] c'(1-4), folded s'(2)]
  have ao: "a \<notin> set (owned h d)" if "d \<in> set (changes s)" for d
    using own_ok_live [OF own(1) that] a by (auto simp: change_ok_def)
  show "heap_ok (put_change c' s')"
  proof (rule heap_ok_put [of h _ c])
    show "x \<in> set (owned h c) \<or> (\<forall>d \<in> set (changes s'). x \<notin> set (owned h d))" if "x \<in> set (owned (blocks s') c')" for x
      using n(2) that un ao by (auto simp: s'(3))
    show "\<forall>x \<in> dom (blocks s'). x < next_block s'"
      using own(3,4) s'(1) unfolding s'(2,4) by (auto simp: old_vector_def less_Suc_eq split: if_splits)
  qed (use own n c' s' in auto)
  assume live: "live_vars p h (changes s)" and fr: "\<And>x d. new = Some x \<Longrightarrow> p d \<noteq> Some x"
  have "live_vars (p(change_data c := Some a)) (blocks s') (map (\<lambda>d. if change_data d = change_data c' then c' else d) (changes s))"
  proof (rule live_vars_put [OF own(1,2) live c'(5)])
    show "x \<in> set (owned h c) \<or> (\<forall>d. p d \<noteq> Some x)" if "x \<in> set (owned (blocks s') c')" for x
      using n(2) that fr [of x] live a by (auto simp: live_vars_def)
    show "x \<in> dom (blocks s') \<and> (\<forall>d \<in> set (changes s). x \<notin> set (owned h d))" if "Some a = Some x" for x
      using that ao s'(2) by auto
  qed (rule n(3))
  then show "live_vars (p(change_data c := Some a)) (blocks s') (changes (put_change c' s'))"
    by (simp add: put_change_def s'(3))
qed

lemma safe_arg_array:
  assumes "heap_ok s" "kinds K s" "K (arg_data e) = Vector_var"
  shows "safe (arg_array e v s) (\<lambda>s'. heap_ok s' \<and> kinds K s' \<and> (vars_live s \<longrightarrow> vars_live s'))"
proof -
  obtain new s1 where g1: "g_strdup v s = (new, s1)" by fastforce
  obtain c s2 where g2: "get_change G_OPTION_ARG_STRING_ARRAY (arg_data e) s1 = (c, s2)" by fastforce
  have h1: "heap_ok s1" "unowned s1 new" using heap_ok_strdup [OF assms(1) g1] by auto
  note h2 = heap_ok_get_change [OF h1(1) g2, simplified]
  have k1: "kinds K s1" using assms(2) kinds_strdup [OF g1] by simp
  have k2: "kinds K s2" "kind_of (change_type c) = Vector_var" "change_data c = arg_data e"
    using kinds_get_change [OF k1 g2] assms(3) by simp_all
  have own: "own_ok (blocks s2) (changes s2)" and lim: "\<forall>x \<in> dom (blocks s2). x < next_block s2"
    using h2(1) by (simp_all add: heap_ok_def)
  have un: "unowned s2 new" using h2(4) h1(2) by simp
  have u: "unions_ok c" using own_ok_live [OF own h2(2)] by (simp add: change_ok_def)
  obtain n where n: "allocated_array c = Inr (n, alloc_data c)" "alloc_data c = None \<longrightarrow> n = 0"
    using unions_readers(4) [OF u k2(2)] by (elim exE conjE)
  have no_str: "alloc_str c = None"
    using u k2(2) by (auto simp: unions_ok_def alloc_str_def split: allocated_union.split)
  define c1 where "c1 = (if n = 0 then c\<lparr>change_prev := Prev_pointer (ptr_at s2 (arg_data e))\<rparr> else c)"
  have u1: "unions_ok (c1\<lparr>change_allocated := Allocated_array (Suc n) a\<rparr>)" for a
    using u k2(2) by (simp add: c1_def unions_ok_def)
  define m where "m = (if n = 0 then Inr ([], s2)
         else (case alloc_data c of
                 None \<Rightarrow> Inl (Crash Null_deref)
               | Some a \<Rightarrow>
                   (case blocks s2 a of
                      Some (Strv ps) \<Rightarrow> andthen (g_free_block (Some a) s2) (\<lambda>s. Inr (ps, s))
                    | _ \<Rightarrow> Inl (Crash Use_after_free))))"
  have "safe m (\<lambda>(old, s3). old_vector (blocks s2) c old (blocks s3) \<and> s3\<lparr>blocks := blocks s2\<rparr> = s2)"
    using own_ok_live [OF own h2(2)] n(2)
    by (auto simp: m_def change_ok_def old_vector_def g_free_block_def split: option.splits)
  then have "safe (andthen m (\<lambda>(old, s). let (a, s) = g_malloc (Strv (old @ [new])) s;
      s = put_change (c1\<lparr>change_allocated := Allocated_array (Suc n) a\<rparr>) s
      in Inr (s\<lparr>ptr_at := (ptr_at s)(arg_data e := Some a)\<rparr>)))
      (\<lambda>s'. heap_ok s' \<and> kinds K s' \<and> (vars_live s \<longrightarrow> vars_live s'))"
  proof (rule safe_andthenI)
    fix x :: "nat option list \<times> opt"
    assume "case x of (old, s3) \<Rightarrow> old_vector (blocks s2) c old (blocks s3) \<and> s3\<lparr>blocks := blocks s2\<rparr> = s2"
    then obtain old s3 where x: "x = (old, s3)" "old_vector (blocks s2) c old (blocks s3)" "s3\<lparr>blocks := blocks s2\<rparr> = s2"
      by (cases x) auto
    have f: "changes s3 = changes s2" "next_block s3 = next_block s2" "ptr_at s3 = ptr_at s2"
      using arg_cong [OF x(3), of changes] arg_cong [OF x(3), of next_block] arg_cong [OF x(3), of ptr_at] by simp_all
    obtain a s4 where g: "g_malloc (Strv (old @ [new])) s3 = (a, s4)" by fastforce
    have s4: "changes s4 = changes s2" "ptr_at s4 = ptr_at s2" using g f by (auto simp: g_malloc_def)
    let ?c = "c1\<lparr>change_allocated := Allocated_array (Suc n) a\<rparr>"
    have un3: "unowned (s3\<lparr>blocks := blocks s2\<rparr>) new" using un x(3) by simp
    have c1: "change_type ?c = change_type c" "change_data ?c = change_data c" by (simp_all add: c1_def)
    note nv = heap_ok_new_vector [where c' = ?c, OF own [folded f(1)] _ x(2) lim [folded f(2)] refl un3 g no_str _ u1 _ c1(2)]
    have hp: "heap_ok (put_change ?c s4)"
      by (rule nv) (use h2 f in simp_all)
    have kp: "kinds K (put_change ?c s4)"
      by (rule kinds_put) (use k2 assms(3) c1 s4 in \<open>simp_all add: kinds_def\<close>)
    have lv: "vars_live (put_change ?c (s4\<lparr>ptr_at := (ptr_at s4)(arg_data e := Some a)\<rparr>))" if "vars_live s"
    proof -
      note l1 = vars_live_strdup [OF assms(1) that g1] and l2 = vars_live_get_change [OF g2]
      have "live_vars ((ptr_at s2)(change_data c := Some a)) (blocks s4) (changes (put_change ?c s4))"
        by (rule nv(2)) (use h2 f l1 l2 in \<open>auto simp: vars_live_def fresh_def\<close>)
      then show ?thesis using h2(3) s4 by (simp add: vars_live_def put_change_def)
    qed
    from hp kp show "safe (case x of (old, s) \<Rightarrow> let (a, s) = g_malloc (Strv (old @ [new])) s;
        s = put_change (c1\<lparr>change_allocated := Allocated_array (Suc n) a\<rparr>) s
        in Inr (s\<lparr>ptr_at := (ptr_at s)(arg_data e := Some a)\<rparr>))
        (\<lambda>s'. heap_ok s' \<and> kinds K s' \<and> (vars_live s \<longrightarrow> vars_live s'))"
      using lv by (simp add: x(1) g Let_def vars_live_def put_change_def)
  qed
  then show ?thesis
    using n(1) unfolding arg_array_def g1 Let_def prod.case g2 c1_def m_def by simp
qed

end
