(* ===== verification/Goption_Safe.thy ===== *)
theory Goption_Safe
  imports Goption_Heap
begin

text \<open>
  Memory safety of the option parser (replace_goption.c). The locale \<open>parse_invariant\<close> states what an invariant of
  the memory has to satisfy; in it, every step of the parser and the whole parse are shown to keep the invariant
  and not to crash. For every assignment of kinds to variables it is interpreted with \<open>heap_ok\<close> and \<open>kinds\<close>, and with
  \<open>vars_live\<close> and \<open>texts\<close> added to them.
\<close>

section \<open>Contexts the parser can run on\<close>

text \<open>An option that takes a converted value must not have it optional: without a value, \<open>strtol\<close> and
  \<open>g_locale_to_utf8\<close> would be given \<open>NULL\<close>. The groups have names and the arguments are there. Options that
  share a variable have types of one kind: the record of the variable is of the first one's type, and its unions
  are read as that type says.\<close>

definition entry_ok :: "GOptionEntry \<Rightarrow> bool" where
  "entry_ok e \<longleftrightarrow> has_flag e G_OPTION_FLAG_OPTIONAL_ARG \<longrightarrow>
     arg e \<notin> {G_OPTION_ARG_INT, G_OPTION_ARG_STRING, G_OPTION_ARG_STRING_ARRAY}"

definition shares_kind :: "GOptionEntry \<Rightarrow> GOptionEntry \<Rightarrow> bool" where
  "shares_kind e d \<longleftrightarrow> arg e = G_OPTION_ARG_CALLBACK \<or> arg d = G_OPTION_ARG_CALLBACK \<or> arg_data e \<noteq> arg_data d
     \<or> kind_of (arg e) = kind_of (arg d)"

definition all_entries :: "opt \<Rightarrow> GOptionEntry list" where
  "all_entries s = concat (map entries (all_groups s))"

definition context_ok :: "opt \<Rightarrow> bool" where
  "context_ok s \<longleftrightarrow> (\<forall>g \<in> set (all_groups s). \<forall>e \<in> set (entries g). entry_ok e)
     \<and> (\<forall>e \<in> set (all_entries s). \<forall>d \<in> set (all_entries s). shares_kind e d)
     \<and> (\<forall>g \<in> set (groups s). g_name g \<noteq> None) \<and> argc s \<le> length (argv s) \<and> (\<forall>k < argc s. argv s ! k \<noteq> None)"

definition value_ok :: "GOptionEntry \<Rightarrow> string option \<Rightarrow> bool" where
  "value_ok e v \<longleftrightarrow> v \<noteq> None \<or> arg e \<in> {G_OPTION_ARG_NONE, G_OPTION_ARG_FILENAME, G_OPTION_ARG_FILENAME_ARRAY}
     \<or> arg e = G_OPTION_ARG_CALLBACK \<and> (has_flag e G_OPTION_FLAG_OPTIONAL_ARG \<or> has_flag e G_OPTION_FLAG_NO_ARG)"

text \<open>Contexts whose options all satisfy \<open>U\<close>.\<close>

definition context_for :: "(GOptionEntry \<Rightarrow> bool) \<Rightarrow> opt \<Rightarrow> bool" where
  "context_for U s \<longleftrightarrow> context_ok s \<and> (\<forall>g \<in> set (all_groups s). \<forall>e \<in> set (entries g). U e)"

text \<open>The options of a context agree on the kinds of the variables.\<close>

definition of_kind :: "(nat \<Rightarrow> var_kind) \<Rightarrow> GOptionEntry \<Rightarrow> bool" where
  "of_kind K e \<longleftrightarrow> arg e \<noteq> G_OPTION_ARG_CALLBACK \<longrightarrow> kind_of (arg e) = K (arg_data e)"

lemma common_kinds:
  assumes "context_for U s"
  obtains K where "context_for (\<lambda>e. of_kind K e \<and> U e) s"
proof -
  let ?D = "\<lambda>d e. e \<in> set (all_entries s) \<and> arg e \<noteq> G_OPTION_ARG_CALLBACK \<and> arg_data e = d"
  define K where "K d = kind_of (arg (SOME e. ?D d e))" for d
  have "of_kind K e" if "e \<in> set (all_entries s)" for e
  proof (cases "arg e = G_OPTION_ARG_CALLBACK")
    case False
    then have e: "?D (arg_data e) e" using that by simp
    then have "?D (arg_data e) (SOME d. ?D (arg_data e) d)" by (rule someI)
    with e have "shares_kind e (SOME d. ?D (arg_data e) d)"
      using assms by (simp add: context_for_def context_ok_def)
    with \<open>?D (arg_data e) (SOME d. ?D (arg_data e) d)\<close> False show ?thesis
      by (auto simp: of_kind_def K_def shares_kind_def)
  qed (simp add: of_kind_def)
  then have "context_for (\<lambda>e. of_kind K e \<and> U e) s"
    using assms by (auto simp: context_for_def all_entries_def)
  then show thesis by (rule that)
qed

lemma context_for_True [simp]: "context_for (\<lambda>_. True) s = context_ok s"
  by (simp add: context_for_def)

text \<open>A state during the parse that started in \<open>t\<close>, with an invariant \<open>I\<close> of the memory.\<close>

definition good :: "(opt \<Rightarrow> bool) \<Rightarrow> opt \<Rightarrow> opt \<Rightarrow> bool" where
  "good I t s \<longleftrightarrow> I s \<and> static t s"

lemma frame_static: "frame j s s' \<Longrightarrow> static s s'"
  by (simp add: frame_def static_def)

lemma owned_prev [simp]: "owned h (c\<lparr>change_prev := p\<rparr>) = owned h c"
  by (simp add: owned_def)

lemma heap_ok_get_put:
  assumes "heap_ok s" "kinds K s" "get_change ty d s = (c, s')" "kind_of ty = Int_var" "K d = Int_var"
  shows "heap_ok (put_change (c\<lparr>change_prev := Prev_integer i\<rparr>) s')"
    and "kinds K (put_change (c\<lparr>change_prev := Prev_integer i\<rparr>) s')"
proof -
  have ty: "ty \<noteq> G_OPTION_ARG_CALLBACK" using assms(4) by auto
  note g = heap_ok_get_change [OF assms(1,3) ty]
  have k: "kinds K s'" "kind_of (change_type c) = Int_var"
    using kinds_get_change [OF assms(2,3)] assms(4,5) by simp_all
  have own: "own_ok (blocks s') (changes s')" using g(1) by (simp add: heap_ok_def)
  have "change_ok (blocks s') (c\<lparr>change_prev := Prev_integer i\<rparr>)"
    using own_ok_live [OF own g(2)] k(2) by (simp add: change_ok_def unions_ok_def)
  then show "heap_ok (put_change (c\<lparr>change_prev := Prev_integer i\<rparr>) s')"
    using g own by (intro heap_ok_put [of "blocks s'" _ c]) (auto simp: heap_ok_def)
  show "kinds K (put_change (c\<lparr>change_prev := Prev_integer i\<rparr>) s')"
    by (rule kinds_put [OF k(1)]) (use g(3) k assms(5) in simp)
qed

lemma vars_live_simps [simp]:
  "vars_live (s\<lparr>int_at := x\<rparr>) = vars_live s" "vars_live (s\<lparr>gcalls := y\<rparr>) = vars_live s"
  "vars_live (g_set_error code msg s) = vars_live s"
  by (simp_all add: vars_live_def g_set_error_def split: option.split)

lemma live_vars_map:
  assumes "\<And>d. d \<in> set cs \<Longrightarrow> owned h (f d) = owned h d \<and> change_data (f d) = change_data d"
  shows "live_vars p h (map f cs) = live_vars p h cs"
  using assms by (simp add: live_vars_def)

lemma vars_live_put_int:
  assumes "heap_ok s" "c \<in> set (changes s)"
  shows "vars_live (put_change (c\<lparr>change_prev := i\<rparr>) s) = vars_live s"
proof -
  let ?f = "\<lambda>d. if change_data d = change_data c then c\<lparr>change_prev := i\<rparr> else d"
  have "owned h (?f d) = owned h d \<and> change_data (?f d) = change_data d" if "d \<in> set (changes s)" for d h
  proof -
    have "change_data d = change_data c \<Longrightarrow> d = c"
      using assms own_ok_unique that by (auto simp: heap_ok_def)
    then show ?thesis by auto
  qed
  then have "live_vars p h (map ?f (changes s)) = live_vars p h (changes s)" for p h
    by (intro live_vars_map) blast
  then show ?thesis by (simp add: vars_live_def put_change_def)
qed

lemma safe_parse_arg_heap:
  assumes "heap_ok s" "kinds K s" "value_ok e v" "of_kind K e"
  shows "safe (parse_arg E u e v n s) (\<lambda>(b, s'). heap_ok s' \<and> kinds K s' \<and> (vars_live s \<longrightarrow> vars_live s'))"
proof (cases "arg e")
  case G_OPTION_ARG_NONE
  obtain c s' where "get_change G_OPTION_ARG_NONE (arg_data e) s = (c, s')" by fastforce
  then show ?thesis
    using G_OPTION_ARG_NONE heap_ok_get_change(1) [OF assms(1)] kinds_get_change(1) [OF assms(2)] assms(4) vars_live_get_change(1)
    by (simp add: parse_arg_def arg_none_def Let_def of_kind_def)
next
  case G_OPTION_ARG_STRING
  then show ?thesis
    using assms by (auto simp: parse_arg_def g_locale_to_utf8_def value_ok_def of_kind_def
        split: sum.split prod.split option.splits intro!: safe_mono [OF safe_arg_string [where K = K]])
next
  case G_OPTION_ARG_STRING_ARRAY
  then show ?thesis
    using assms by (auto simp: parse_arg_def g_locale_to_utf8_def value_ok_def of_kind_def
        split: sum.split prod.split option.splits intro!: safe_mono [OF safe_arg_array [where K = K]])
next
  case G_OPTION_ARG_FILENAME
  then show ?thesis
    using assms by (auto simp: parse_arg_def of_kind_def intro!: safe_mono [OF safe_arg_string [where K = K]])
next
  case G_OPTION_ARG_FILENAME_ARRAY
  then show ?thesis
    using assms by (auto simp: parse_arg_def of_kind_def intro!: safe_mono [OF safe_arg_array [where K = K]])
next
  case G_OPTION_ARG_INT
  obtain c s' where g: "get_change G_OPTION_ARG_INT (arg_data e) s = (c, s')" by fastforce
  obtain t where v: "v = Some t" using assms(3) G_OPTION_ARG_INT by (auto simp: value_ok_def)
  have "K (arg_data e) = Int_var" using assms(4) G_OPTION_ARG_INT by (simp add: of_kind_def)
  then show ?thesis
    using G_OPTION_ARG_INT heap_ok_get_put [OF assms(1,2) g] assms(1,2) v g vars_live_get_change(1) [OF g]
      vars_live_put_int [OF heap_ok_get_change(1,2) [OF assms(1) g]]
    by (auto simp: parse_arg_def arg_int_def parse_int_def Let_def split: prod.split)
next
  case G_OPTION_ARG_CALLBACK
  have "safe (if v = None \<and> has_flag e G_OPTION_FLAG_OPTIONAL_ARG then Inr (None, s)
        else if has_flag e G_OPTION_FLAG_NO_ARG then Inr (None, s)
        else if has_flag e G_OPTION_FLAG_FILENAME then Inr (v, s)
        else g_locale_to_utf8 E v s) (\<lambda>(d, s'). heap_ok s' \<and> kinds K s' \<and> (vars_live s \<longrightarrow> vars_live s'))"
    using assms G_OPTION_ARG_CALLBACK
    by (auto simp: g_locale_to_utf8_def value_ok_def split: sum.split prod.split option.split)
  then have "safe (arg_callback E u e v n s) (\<lambda>(b, s'). heap_ok s' \<and> kinds K s' \<and> (vars_live s \<longrightarrow> vars_live s'))"
    unfolding arg_callback_def
    by (rule safe_andthenI) (auto simp: Let_def split: prod.split option.split)
  with G_OPTION_ARG_CALLBACK show ?thesis by (simp add: parse_arg_def)
qed

section \<open>The end of a parse\<close>

lemma safe_print_help [simp]: "safe (print_help b k s) Q"
  by (simp add: print_help_def Let_def)

lemma safe_free_all:
  "distinct (strs ps) \<Longrightarrow> set (strs ps) \<subseteq> dom (blocks s) \<Longrightarrow>
   safe (g_free_all ps s) (\<lambda>s'. \<forall>x. x \<notin> set (strs ps) \<longrightarrow> blocks s' x = blocks s x)"
proof (induction ps arbitrary: s)
  case (Cons p ps)
  show ?case
  proof (cases p)
    case (Some a)
    let ?s = "s\<lparr>blocks := (blocks s)(a := None)\<rparr>"
    have "safe (g_free_all ps ?s) (\<lambda>s'. \<forall>x. x \<notin> set (strs ps) \<longrightarrow> blocks s' x = blocks ?s x)"
      by (rule Cons.IH) (use Cons.prems Some in auto)
    then show ?thesis
      using Cons.prems Some by (auto simp: g_free_block_def elim!: safe_mono)
  qed simp
qed simp

lemma safe_revert_change:
  assumes "change_ok (blocks s) c"
  shows "safe (revert_change c s) (\<lambda>s'. \<forall>x. x \<notin> set (owned (blocks s) c) \<longrightarrow> blocks s' x = blocks s x)"
proof -
  let ?Q = "\<lambda>s'. \<forall>x. x \<notin> set (owned (blocks s) c) \<longrightarrow> blocks s' x = blocks s x"
  have u: "unions_ok c" using assms by (simp add: change_ok_def)
  have f: "safe (g_free_block (alloc_str c) s) ?Q"
    using assms by (auto simp: g_free_block_def change_ok_halves owned_halves split: option.split)
  have v: "safe (g_strfreev (alloc_data c) s) ?Q"
  proof (cases "alloc_data c")
    case None
    then show ?thesis by (simp add: g_strfreev_def)
  next
    case (Some a)
    then obtain ps where ps: "blocks s a = Some (Strv ps)" using assms by (auto simp: change_ok_def)
    then have o: "owned_vector (blocks s) c = a # strs ps" using Some by (simp add: owned_vector_def)
    then have d: "distinct (a # strs ps)" "set (a # strs ps) \<subseteq> dom (blocks s)"
      using assms by (auto simp: change_ok_halves)
    have "safe (g_free_all ps s) (\<lambda>s'. \<forall>x. x \<notin> set (strs ps) \<longrightarrow> blocks s' x = blocks s x)"
      by (rule safe_free_all) (use d in auto)
    then show ?thesis
      using d Some ps o by (auto simp: g_strfreev_def g_free_block_def owned_halves elim!: safe_mono)
  qed
  have p: "safe (revert_pointer c s') ?Q" if "kind_of (change_type c) \<noteq> Int_var" "?Q s'" for s'
    using unions_readers(2) [OF u that(1)] that(2) by (auto simp: revert_pointer_def)
  have "safe (revert_integer c s) ?Q" if "kind_of (change_type c) = Int_var"
    using unions_readers(1) [OF u that] by (auto simp: revert_integer_def)
  moreover have "safe (revert_str c s) ?Q" if k: "kind_of (change_type c) = Text_var"
    using safe_mono [OF f p] unions_readers(3) [OF u k] k by (simp add: revert_str_def)
  moreover have "safe (revert_array c s) ?Q" if k: "kind_of (change_type c) = Vector_var"
    using safe_mono [OF v p] unions_readers(4) [OF u k] k by (auto simp: revert_array_def)
  ultimately show ?thesis
    using u by (cases "change_type c") (simp_all add: revert_change_def unions_ok_def)
qed

lemma safe_revert_changes: "own_ok (blocks s) cs \<Longrightarrow> safe (revert_changes cs s) (\<lambda>_. True)"
proof (induction cs arbitrary: s)
  case (Cons c cs)
  have "safe (revert_changes cs s') (\<lambda>_. True)"
    if "\<forall>x. x \<notin> set (owned (blocks s) c) \<longrightarrow> blocks s' x = blocks s x" for s'
    by (rule Cons.IH) (rule own_ok_cong [of "blocks s"], use Cons.prems that in \<open>auto simp: disjoint_iff\<close>)
  then show ?case
    using safe_mono [OF safe_revert_change [of s c]] Cons.prems by simp
qed simp

lemma safe_parse_fail:
  assumes "heap_ok s"
  shows "safe (parse_fail s) (\<lambda>_. True)"
proof -
  have "own_ok (blocks (run_error_hooks s)) (changes s)" "changes (run_error_hooks s) = changes s"
    using assms by (simp_all add: heap_ok_def run_error_hooks_def)
  then show ?thesis
    by (auto simp: parse_fail_def free_changes_list_def free_pending_nulls_def intro!: safe_mono [OF safe_revert_changes])
qed

text \<open>States that differ only in the arguments, the pending removals and what was called or reported.\<close>

definition same_memory :: "opt \<Rightarrow> opt \<Rightarrow> bool" where
  "same_memory s s' \<longleftrightarrow> ptr_at s' = ptr_at s \<and> blocks s' = blocks s \<and> next_block s' = next_block s \<and> changes s' = changes s"

lemma same_memory_simps [simp]: "same_memory (s\<lparr>argv := v\<rparr>) = same_memory s" "same_memory s s"
  by (simp_all add: fun_eq_iff same_memory_def)

lemma safe_perform_nulls:
  "rewrites_last ns \<Longrightarrow> \<forall>n \<in> set ns. null_value n \<noteq> None \<longrightarrow> null_ptr n < length (argv s) \<and> argv s ! null_ptr n \<noteq> None
   \<Longrightarrow> safe (perform_nulls ns s) (same_memory s)"
proof (induction ns arbitrary: s)
  case (Cons n ns)
  show ?case
  proof (cases "null_value n")
    case None
    have "safe (perform_nulls ns (s\<lparr>argv := (argv s)[null_ptr n := None]\<rparr>)) (same_memory s)"
      by (rule Cons.IH [of "s\<lparr>argv := _\<rparr>", simplified]) (use Cons.prems in \<open>auto simp: nth_list_update\<close>)
    with None show ?thesis by simp
  next
    case (Some v)
    have "safe (perform_nulls ns (s\<lparr>argv := (argv s)[null_ptr n := Some (CHR ''-'' # v)]\<rparr>))
        (same_memory s)"
      by (rule Cons.IH [of "s\<lparr>argv := _\<rparr>", simplified]) (use Cons.prems in \<open>auto simp: nth_list_update\<close>)
    with Some Cons.prems show ?thesis by (auto split: option.split)
  qed
qed simp

lemma hooks_memory: "run_hooks E h gs s = (b, s') \<Longrightarrow> same_memory s s'"
  using run_hooks_keeps [of E h gs s b s'] but_logD [of s' s] by (simp add: same_memory_def)

section \<open>Invariants of the memory\<close>

text \<open>What parsing keeps of the memory: an invariant of the variables, the blocks and the records of changes that
  implies \<open>heap_ok\<close> and that \<open>parse_arg\<close>, the only function that writes them, keeps. Everything above
  \<open>parse_arg\<close> keeps it too, and does not crash.\<close>

locale parse_invariant =
  fixes I :: "opt \<Rightarrow> bool" and U :: "GOptionEntry \<Rightarrow> bool"
  assumes heap: "I s \<Longrightarrow> heap_ok s"
    and memory: "same_memory s s' \<Longrightarrow> I s' = I s"
    and arg_keeps: "I s \<Longrightarrow> value_ok e v \<Longrightarrow> U e \<Longrightarrow> safe (parse_arg E u e v n s) (\<lambda>(b, s'). I s')"
begin

lemma good_simps [simp]:
  "good I t (g_set_error code msg s) = good I t s" "good I t (add_pending_null i v s) = good I t s"
  "good I t (unknown_option i s) = good I t s" "good I t (g_critical m s) = good I t s"
proof -
  have log: "good I t s' = good I t s" if "same_memory s s'" "static s s'" for s'
    using memory [OF that(1)] that(2) by (auto simp: good_def static_def)
  show "good I t (g_set_error code msg s) = good I t s" "good I t (add_pending_null i v s) = good I t s"
    "good I t (unknown_option i s) = good I t s" "good I t (g_critical m s) = good I t s"
    by (rule log; simp add: same_memory_def static_def g_set_error_def add_pending_null_def unknown_option_def g_critical_def split: option.split)+
qed

lemma safe_parse_arg:
  assumes "good I t s" "value_ok e v" "U e" "\<And>b s'. good I t s' \<Longrightarrow> Q (b, s')"
  shows "safe (parse_arg E u e v n s) Q"
proof -
  have "safe (parse_arg E u e v n s) (\<lambda>x. (case x of (b, s') \<Rightarrow> I s') \<and> (case x of (b, s') \<Rightarrow> frame 0 s s'))"
    using assms(1-3) by (intro safe_conj arg_keeps frame_parse_arg) (simp_all add: good_def)
  then show ?thesis
    by (rule safe_mono) (use assms(1,4) in \<open>auto simp: good_def dest: frame_static static_trans\<close>)
qed

lemma good_argv: "good I t s \<Longrightarrow> context_for U t \<Longrightarrow> k < argc s \<Longrightarrow> \<exists>a. argv s ! k = Some a"
  by (auto simp: good_def static_def context_for_def context_ok_def)

lemma safe_short_value:
  assumes "good I t s" "context_for U t" "\<And>b v' k' s'. good I t s' \<Longrightarrow> (b \<Longrightarrow> value_ok e v') \<Longrightarrow> Q (b, v', k', s')"
  shows "safe (short_value e i k n s) Q"
proof -
  have "Suc i < argc s \<Longrightarrow> \<exists>a. argv s ! Suc i = Some a" using good_argv [OF assms(1,2)] by blast
  then show ?thesis
    using assms(1)
    by (auto simp: short_value_def take_next_def Let_def NO_ARG_def OPTIONAL_ARG_def value_ok_def intro!: assms(3))
qed

lemma safe_short_entries:
  "good I t s \<Longrightarrow> context_for U t \<Longrightarrow> \<forall>e \<in> set es. U e \<Longrightarrow> safe (short_entries E u es i c k p s) (\<lambda>(b, k', p', s'). good I t s')"
  by (induction es arbitrary: k p s) (auto simp: Let_def intro!: safe_short_value [of t] safe_parse_arg [of t])

lemma safe_long_value:
  assumes "good I t s" "context_for U t" "entry_ok e"
    and "\<And>v' i' b st s'. good I t s' \<Longrightarrow> (b \<Longrightarrow> value_ok e v') \<Longrightarrow> Q (v', i', b, st, s')"
  shows "safe (long_value e a i n s) Q"
proof -
  have "Suc i < argc s \<Longrightarrow> \<exists>a. argv s ! Suc i = Some a" using good_argv [OF assms(1,2)] by blast
  moreover have "has_flag e G_OPTION_FLAG_OPTIONAL_ARG \<Longrightarrow> value_ok e None"
    using assms(3) by (cases "arg e") (auto simp: entry_ok_def value_ok_def)
  moreover have "value_ok e (Some v)" for v by (simp add: value_ok_def)
  ultimately show ?thesis
    using assms(1) by (auto simp: long_value_def take_next_def Let_def intro!: assms(4))
qed

lemma safe_long_entries:
  "good I t s \<Longrightarrow> context_for U t \<Longrightarrow> \<forall>e \<in> set es. entry_ok e \<and> U e \<Longrightarrow>
   safe (long_entries E u es a al i p s) (\<lambda>(b, i', p', s'). good I t s')"
proof (induction es arbitrary: a al i p s)
  case (Cons e es)
  have "NO_ARG e \<Longrightarrow> value_ok e None" by (auto simp: NO_ARG_def value_ok_def)
  with Cons.prems show ?case
    by (auto simp: Let_def intro!: safe_long_value [of t] safe_parse_arg [of t] Cons.IH)
qed simp

lemma safe_remaining_entries:
  "good I t s \<Longrightarrow> context_for U t \<Longrightarrow> \<forall>e \<in> set es. U e \<Longrightarrow> safe (remaining_entries E u es i p s) (\<lambda>(b, p', s'). good I t s')"
proof (induction es)
  case (Cons e es)
  have "i < argc s \<Longrightarrow> value_ok e (argv s ! i)" using good_argv [OF Cons.prems(1,2)] by (auto simp: value_ok_def)
  with Cons show ?case by (auto intro!: safe_parse_arg [of t])
qed simp

lemma good_groups: "good I t s \<Longrightarrow> groups s = groups t \<and> main_group s = main_group t"
  by (simp add: good_def static_def)

lemma main_entries: "good I t s \<Longrightarrow> context_for U t \<Longrightarrow> main_group s = Some g \<Longrightarrow> e \<in> set (entries g) \<Longrightarrow> U e"
  by (auto simp: good_def static_def context_for_def all_groups_def)

lemma safe_long_option:
  assumes "good I t s" "context_for U t"
  shows "safe (long_option E a i s) (\<lambda>(b, i', p, s'). good I t s')"
proof -
  have opt: "safe (parse_long_option E g a al i p s) (\<lambda>(b, i', p', s'). good I t s')"
    if "g \<in> set (all_groups t)" "good I t s" for g a al i p s
    unfolding parse_long_option_def
    by (rule safe_long_entries [OF that(2) assms(2)]) (use assms(2) that(1) in \<open>auto simp: context_for_def context_ok_def\<close>)
  have lg: "safe (long_groups E gs a i s) (\<lambda>(b, i', p', s'). good I t s')"
    if "set gs \<subseteq> set (all_groups t)" "good I t s" for gs i s
    using that by (induction gs arbitrary: i s) (auto intro!: safe_mono [OF opt])
  have ag: "safe (alias_groups E gs pre a i s) (\<lambda>(b, i', p', s'). good I t s')"
    if "set gs \<subseteq> set (groups t)" "good I t s" for gs pre a i s
    using that
  proof (induction gs arbitrary: i s)
    case (Cons g gs)
    then obtain n where "g_name g = Some n" using assms(2) by (auto simp: context_for_def context_ok_def)
    moreover have "g \<in> set (all_groups t)" using Cons.prems by (auto simp: all_groups_def)
    ultimately show ?case using Cons by (auto intro!: safe_mono [OF opt])
  qed simp
  show ?thesis
    unfolding long_option_def
    using assms(1) good_groups
    by (auto simp: all_groups_def split: option.split prod.split intro!: safe_mono [OF opt] safe_mono [OF lg] ag)
qed

lemma safe_short_chars:
  assumes "context_for U t"
  shows "good I t s \<Longrightarrow> safe (short_chars E i cs k p ns s) (\<lambda>(b, k', p', ns', s'). good I t s')"
proof -
  have gr: "safe (short_groups E gs i c k s) (\<lambda>(b, k', p', s'). good I t s')"
    if "set gs \<subseteq> set (all_groups t)" "good I t s" for gs c k s
    using that
  proof (induction gs arbitrary: k s)
    case (Cons g gs)
    then have "\<forall>e \<in> set (entries g). U e" using assms by (auto simp: context_for_def)
    with Cons show ?case
      by (auto simp: parse_short_option_def intro!: safe_mono [OF safe_short_entries [OF Cons.prems(2) assms]])
  qed simp
  have opt: "safe (short_option E i c k s) (\<lambda>(b, k', p', s'). good I t s')" if "good I t s" for c k s
    using that assms good_groups
    by (auto simp: short_option_def parse_short_option_def context_for_def all_groups_def split: option.split
        intro!: safe_mono [OF safe_short_entries [of t]] gr)
  show "good I t s \<Longrightarrow> safe (short_chars E i cs k p ns s) (\<lambda>(b, k', p', ns', s'). good I t s')"
    by (induction cs arbitrary: k p ns s) (auto intro!: safe_mono [OF opt])
qed

lemma safe_long_help:
  assumes "context_for U t" "good I t s"
  shows "safe (long_help a s) (\<lambda>s'. s' = s)"
proof -
  have "safe (help_group n k gs s) (\<lambda>s'. s' = s)" if "set gs \<subseteq> set (groups t)" for n k gs
    using that assms(1) by (induction gs arbitrary: k) (auto simp: context_for_def context_ok_def split: option.split)
  then show ?thesis using good_groups [OF assms(2)] by (simp add: long_help_def)
qed

lemma safe_parse_step:
  assumes "good I t s" "context_for U t" "i < argc s"
  shows "safe (parse_step E i sc s) (\<lambda>(b, i', sc', s'). good I t s')"
proof -
  obtain a where a: "argv s ! i = Some a" using good_argv [OF assms] by blast
  have "safe (long_arg E i d sc s) (\<lambda>(b, i', sc', s'). good I t s')" for d
    using assms(1,2)
    by (auto simp: long_arg_def intro!: safe_mono [OF safe_long_help [of t]] safe_mono [OF safe_long_option [of t]])
  moreover have "safe (short_arg E i d sc s) (\<lambda>(b, i', sc', s'). good I t s')" for d
    using assms(1,2) by (auto simp: short_arg_def Let_def intro!: safe_mono [OF safe_short_chars [of t]])
  moreover have "safe (remaining_arg E i a sc s) (\<lambda>(b, i', sc', s'). good I t s')"
    using assms(1,2) by (auto simp: remaining_arg_def parse_remaining_arg_def split: option.split
        intro!: safe_mono [OF safe_remaining_entries [of t]] intro: main_entries)
  ultimately show ?thesis by (simp add: parse_step_def a)
qed

lemma safe_parse_args:
  assumes "good I t s" "context_for U t"
  shows "safe (parse_args E i sc s) (\<lambda>(b, sc', s'). good I t s')"
  using assms(1)
proof (induction E i sc s rule: parse_args.induct)
  case (1 E i sc s)
  show ?case
  proof (cases "i < argc s")
    case True
    have "safe (parse_step E i sc s) (\<lambda>x. (case x of (b, i', sc', s') \<Rightarrow> good I t s') \<and> parse_step E i sc s = Inr x)"
      by (rule safe_conj [OF safe_parse_step [OF 1(2) assms(2) True]]) (simp add: if_returns_def)
    then have "safe (andthen (parse_step E i sc s) (\<lambda>(okay, i, sc, s).
        if okay then parse_args E (Suc i) sc s else Inr (False, sc, s))) (\<lambda>(b, sc', s'). good I t s')"
      by (rule safe_andthenI) (use 1(1) [OF True] in auto)
    with True show ?thesis by (simp add: parse_args.simps [of E i sc s])
  next
    case False
    then show ?thesis using 1(2) by (simp add: parse_args.simps [of E i sc s])
  qed
qed

lemma fail:
  assumes "good I t s"
  shows "safe (parse_fail s) (\<lambda>(b, s'). b \<longrightarrow> I s')"
proof -
  have "heap_ok s" using assms heap by (simp add: good_def)
  then have "safe (parse_fail s) (\<lambda>x. True \<and> (case x of (b, s') \<Rightarrow> \<not> b \<and> static s s' \<and> changes s' = [] \<and> pending_nulls s' = []))"
    by (intro safe_conj safe_parse_fail parse_fail_keeps)
  then show ?thesis by (rule safe_mono) auto
qed

lemma safe_parse_finish:
  assumes "good I t s" "context_for U t" "nulls_ok i s"
  shows "safe (parse_finish s) (\<lambda>(b, s'). I s')"
proof -
  have "safe (perform_nulls (pending_nulls s) s) (same_memory s)"
    by (rule safe_perform_nulls) (use assms in \<open>fastforce simp: nulls_ok_def static_def context_for_def context_ok_def good_def\<close>)+
  moreover have "I (s'\<lparr>pending_nulls := [], argc := n, argv := v\<rparr>)" if "same_memory s s'" for s' n v
    using memory [of s "s'\<lparr>pending_nulls := [], argc := n, argv := v\<rparr>"] that assms(1) by (simp add: same_memory_def good_def)
  ultimately show ?thesis
    by (auto simp: parse_finish_def free_pending_nulls_def Let_def split: prod.split elim!: safe_mono)
qed

lemma safe_parse_end:
  assumes "good I t s" "context_for U t" "nulls_ok i s" "separator_ok i sc s"
  shows "safe (parse_end E sc s) (\<lambda>(b, s'). b \<longrightarrow> I s')"
proof -
  define s4 where "s4 = (if separator_pos sc > 0 then add_pending_null (separator_pos sc) None s else s)"
  have g: "good I t s4" "nulls_ok i s4"
    using assms nulls_ok_separator [OF assms(3,4)] by (simp_all add: s4_def)
  obtain b s5 where h: "run_hooks E post_parse_func (all_groups s4) s4 = (b, s5)" by fastforce
  have s5: "good I t s5" "nulls_ok i s5"
    using g static_hooks [OF h] memory [OF hooks_memory [OF h]] nulls_ok_log [OF run_hooks_keeps [OF h]] static_trans
    by (auto simp: good_def)
  show ?thesis
    unfolding parse_end_def s4_def [symmetric] Let_def h
    using fail [OF s5(1)] safe_mono [OF safe_parse_finish [OF s5(1) assms(2) s5(2)]] by auto
qed

lemma safe_parse:
  assumes "context_for U s" "I s" "pending_nulls s = []"
  shows "safe (g_option_context_parse E s) (\<lambda>(b, s'). b \<longrightarrow> I s')"
proof -
  have "safe (set_prgname E s) (\<lambda>s1. same_memory s s1 \<and> static s s1 \<and> pending_nulls s1 = [])"
    using assms by (auto simp: set_prgname_def context_for_def context_ok_def static_def same_memory_def split: option.split)
  then show ?thesis
    unfolding g_option_context_parse_def
  proof (rule safe_andthenI)
    fix s1
    assume s1: "same_memory s s1 \<and> static s s1 \<and> pending_nulls s1 = []"
    obtain b s2 where h: "run_hooks E pre_parse_func (all_groups s1) s1 = (b, s2)" by fastforce
    have s2: "good I s s2" "pending_nulls s2 = []"
      using s1 static_hooks [OF h] memory [OF hooks_memory [OF h]] memory [of s s1] assms(2) static_trans
      by (auto simp: good_def)
    let ?sc = "\<lparr>stop_parsing = False, has_unknown = False, separator_pos = 0\<rparr>"
    have n: "nulls_ok 1 s2" "separator_ok 1 ?sc s2" using s2(2) by (simp_all add: nulls_ok_def separator_ok_def)
    have "safe (parse_args E 1 ?sc s2) (\<lambda>x. (case x of (b, sc, s3) \<Rightarrow> good I s s3)
        \<and> (case x of (b, sc, s3) \<Rightarrow> static s2 s3 \<and> (\<exists>i'. nulls_ok i' s3 \<and> separator_ok i' sc s3)))"
      by (intro safe_conj safe_parse_args [OF s2(1) assms(1)] parse_args_nulls n) simp
    then have "safe (andthen (parse_args E 1 ?sc s2) (\<lambda>(okay, sc, s). if \<not> okay then parse_fail s else parse_end E sc s))
        (\<lambda>(b, s'). b \<longrightarrow> I s')"
      by (rule safe_andthenI) (auto intro: fail safe_parse_end [OF _ assms(1)])
    then show "safe (let (okay, s) = run_hooks E pre_parse_func (all_groups s1) s1
        in if \<not> okay then parse_fail s
           else andthen (parse_args E 1 ?sc s) (\<lambda>(okay, sc, s). if \<not> okay then parse_fail s else parse_end E sc s))
        (\<lambda>(b, s'). b \<longrightarrow> I s')"
      unfolding h Let_def prod.case using fail [OF s2(1)] by simp
  qed
qed

end

interpretation owned_blocks: parse_invariant "\<lambda>s. heap_ok s \<and> kinds K s" "of_kind K" for K
proof unfold_locales
  show "(heap_ok s' \<and> kinds K s') = (heap_ok s \<and> kinds K s)" if "same_memory s s'" for s s'
    using that by (simp add: same_memory_def heap_ok_def kinds_def)
  show "safe (parse_arg E u e v n s) (\<lambda>(b, s'). heap_ok s' \<and> kinds K s')"
    if "heap_ok s \<and> kinds K s" "value_ok e v" "of_kind K e" for s e v E u n
    by (rule safe_mono [OF safe_parse_arg_heap]) (use that in auto)
qed simp

interpretation live_variables: parse_invariant "\<lambda>s. (heap_ok s \<and> kinds K s) \<and> vars_live s" "of_kind K" for K
proof unfold_locales
  show "((heap_ok s' \<and> kinds K s') \<and> vars_live s') = ((heap_ok s \<and> kinds K s) \<and> vars_live s)" if "same_memory s s'" for s s'
    using that by (simp add: same_memory_def heap_ok_def kinds_def vars_live_def)
  show "safe (parse_arg E u e v n s) (\<lambda>(b, s'). (heap_ok s' \<and> kinds K s') \<and> vars_live s')"
    if "(heap_ok s \<and> kinds K s) \<and> vars_live s" "value_ok e v" "of_kind K e" for s e v E u n
    by (rule safe_mono [OF safe_parse_arg_heap]) (use that in auto)
qed simp

text \<open>Without vector options, the allocated blocks are texts.\<close>

definition no_vector :: "GOptionEntry \<Rightarrow> bool" where
  "no_vector e \<longleftrightarrow> arg e \<notin> {G_OPTION_ARG_STRING_ARRAY, G_OPTION_ARG_FILENAME_ARRAY}"

definition texts :: "opt \<Rightarrow> bool" where
  "texts s \<longleftrightarrow> (\<forall>a ps. blocks s a \<noteq> Some (Strv ps))"

lemma texts_simps [simp]:
  "texts (s\<lparr>int_at := x\<rparr>) = texts s" "texts (s\<lparr>ptr_at := p\<rparr>) = texts s" "texts (s\<lparr>gcalls := y\<rparr>) = texts s"
  "texts (g_set_error code msg s) = texts s" "texts (put_change c s) = texts s" "texts (snd (get_change ty d s)) = texts s"
  by (simp_all add: texts_def g_set_error_def put_change_def get_change_def Let_def split: option.split)

lemma texts_get_change: "get_change ty d s = (c, s') \<Longrightarrow> texts s' = texts s"
  using texts_simps(6) [of ty d s] by simp

lemma texts_arg_string: "texts s \<Longrightarrow> if_returns (arg_string ty e v s) texts"
proof -
  assume "texts s"
  moreover have "if_returns (g_free_block p s) texts" if "texts s" for p s
    using that by (auto simp: g_free_block_def texts_def split: option.split)
  moreover have "texts (snd (g_strdup v s))" if "texts s" for s
    using that by (auto simp: g_strdup_def g_malloc_def texts_def split: option.split)
  ultimately show ?thesis
    by (auto simp: arg_string_def Let_def case_prod_beta intro!: readers_return elim!: if_returns_mono)
qed

lemma texts_parse_arg:
  assumes "texts s" "no_vector e"
  shows "if_returns (parse_arg E u e v n s) (\<lambda>(b, s'). texts s')"
proof (cases "arg e")
  case G_OPTION_ARG_CALLBACK
  then show ?thesis
    using assms(1) by (auto simp: parse_arg_def arg_callback_def g_locale_to_utf8_def Let_def
        split: option.split sum.split prod.split)
qed (use assms in \<open>auto simp: parse_arg_def arg_none_def arg_int_def parse_int_def g_locale_to_utf8_def Let_def no_vector_def
       texts_get_change split: option.split sum.split prod.split intro!: if_returns_mono [OF texts_arg_string]\<close>)

interpretation text_variables: parse_invariant "\<lambda>s. ((heap_ok s \<and> kinds K s) \<and> vars_live s) \<and> texts s"
  "\<lambda>e. of_kind K e \<and> no_vector e" for K
proof unfold_locales
  show "(((heap_ok s' \<and> kinds K s') \<and> vars_live s') \<and> texts s') = (((heap_ok s \<and> kinds K s) \<and> vars_live s) \<and> texts s)"
    if "same_memory s s'" for s s'
    using that live_variables.memory [OF that] by (simp add: same_memory_def texts_def)
  show "safe (parse_arg E u e v n s) (\<lambda>(b, s'). ((heap_ok s' \<and> kinds K s') \<and> vars_live s') \<and> texts s')"
    if "((heap_ok s \<and> kinds K s) \<and> vars_live s) \<and> texts s" "value_ok e v" "of_kind K e \<and> no_vector e" for s e v E u n
  proof -
    have "safe (parse_arg E u e v n s)
        (\<lambda>x. (case x of (b, s') \<Rightarrow> (heap_ok s' \<and> kinds K s') \<and> vars_live s') \<and> (case x of (b, s') \<Rightarrow> texts s'))"
      using that by (intro safe_conj live_variables.arg_keeps texts_parse_arg) auto
    then show ?thesis by (rule safe_mono) auto
  qed
qed simp

section \<open>Property\<close>

text \<open>
  No crash (C5). Started on a context whose groups are named, whose options with a converted value do not have
  it optional and in which options that share a variable have types of one kind (flag or integer, text, vector of
  texts), with an argument vector without \<open>NULL\<close> and nothing recorded yet, the parser returns (or prints
  the help and exits): it frees no block twice, uses none after it was freed, reads no \<open>NULL\<close> pointer and reads
  no union through a member other than the one written, whatever texts the arguments are and whatever the
  conversion and the callbacks answer.
\<close>

theorem parse_never_crashes:
  assumes "context_ok s" "changes s = []" "\<forall>a \<in> dom (blocks s). a < next_block s" "pending_nulls s = []"
  shows "g_option_context_parse E s \<noteq> Inl (Crash c)"
proof -
  obtain K where K: "context_for (of_kind K) s"
    using common_kinds [of "\<lambda>_. True" s] assms(1) by auto
  have "heap_ok s \<and> kinds K s" using assms(2,3) by (simp add: heap_ok_def kinds_def)
  from owned_blocks.safe_parse [OF K this assms(4), of E] show ?thesis by (auto simp: safe_def)
qed

theorem parse_never_crashes_witness:
  "\<forall>c. g_option_context_parse example_env (example_context [''cli'', ''-s'', ''a'', ''-s'', ''b'', ''--port'', ''x'']) \<noteq> Inl (Crash c)"
proof (rule allI, rule parse_never_crashes)
  show "context_ok (example_context [''cli'', ''-s'', ''a'', ''-s'', ''b'', ''--port'', ''x''])" by code_simp
qed (simp_all add: example_context_def g_option_context_add_main_entries_def g_option_context_new_def example_memory_def)

text \<open>
  The variables after a parse. If every text variable is \<open>NULL\<close> or points to live memory before, then after a
  successful parse every one still does, also when an option was given several times and its earlier text
  was freed.
\<close>

theorem parsed_variables_live:
  assumes "g_option_context_parse E s = Inr (True, s')" "context_ok s" "changes s = []" "pending_nulls s = []"
    and "\<forall>a \<in> dom (blocks s). a < next_block s" "\<forall>d a. ptr_at s d = Some a \<longrightarrow> a \<in> dom (blocks s)"
  shows "ptr_at s' d = Some a \<Longrightarrow> a \<in> dom (blocks s')"
proof -
  obtain K where K: "context_for (of_kind K) s"
    using common_kinds [of "\<lambda>_. True" s] assms(2) by auto
  have "(heap_ok s \<and> kinds K s) \<and> vars_live s"
    using assms(3,5,6) by (simp add: heap_ok_def kinds_def vars_live_def live_vars_def)
  from live_variables.safe_parse [OF K this assms(4), of E]
  show "ptr_at s' d = Some a \<Longrightarrow> a \<in> dom (blocks s')" by (simp add: assms(1) vars_live_def live_vars_def)
qed

lemma example_repeated: "parse_gives True (g_option_context_parse example_env (example_context [''cli'', ''-s'', ''a'', ''-s'', ''b'']))"
  by code_simp

theorem parsed_variables_live_witness:
  "\<exists>s'. g_option_context_parse example_env (example_context [''cli'', ''-s'', ''a'', ''-s'', ''b'']) = Inr (True, s')
     \<and> (\<forall>d a. ptr_at s' d = Some a \<longrightarrow> a \<in> dom (blocks s'))"
proof -
  obtain s' where s': "g_option_context_parse example_env (example_context [''cli'', ''-s'', ''a'', ''-s'', ''b'']) = Inr (True, s')"
    using parse_givesD [OF example_repeated] ..
  have "context_ok (example_context [''cli'', ''-s'', ''a'', ''-s'', ''b''])" by code_simp
  from parsed_variables_live [OF s' this] have "ptr_at s' d = Some a \<Longrightarrow> a \<in> dom (blocks s')" for d a
    by (simp add: example_context_def g_option_context_add_main_entries_def g_option_context_new_def example_memory_def)
  with s' show ?thesis by blast
qed

end
