(* ===== verification/Goption_Values.thy ===== *)
theory Goption_Values
  imports Goption_Safe
begin

text \<open>
  Values of options (replace_goption.c): the integers \<open>parse_int\<close> accepts, and what the record of a changed
  variable restores when the parse fails later.
\<close>

section \<open>Integers\<close>

definition is_digit :: "char \<Rightarrow> bool" where
  "is_digit c \<longleftrightarrow> 48 \<le> (of_char c :: nat) \<and> (of_char c :: nat) \<le> 57"

lemma dec_digits: "\<forall>c \<in> set (dec n). is_digit c"
proof (induction n rule: dec.induct)
  case (1 n)
  then show ?case by (subst dec.simps) (auto simp: is_digit_def)
qed

lemma dec_not_empty [simp]: "dec n \<noteq> []"
  by (subst dec.simps) simp

lemma number_of_snoc: "number_of b (ds @ [d]) = b * number_of b ds + digit_value d"
  by (simp add: number_of_def)

lemma number_of_dec: "number_of 10 (dec n) = n"
proof (induction n rule: dec.induct)
  case (1 n)
  have d: "k < 10 \<Longrightarrow> digit_value (char_of (48 + k)) = k" for k :: nat
    by (simp add: digit_value_def)
  show ?case
  proof (cases "n < 10")
    case True
    then show ?thesis by (subst dec.simps) (simp add: number_of_def d)
  next
    case False
    then have "number_of 10 (dec n) = 10 * number_of 10 (dec (n div 10)) + digit_value (char_of (48 + n mod 10))"
      by (subst dec.simps) (simp add: number_of_snoc)
    also have "\<dots> = n" using 1 False d [of "n mod 10"] by simp
    finally show ?thesis .
  qed
qed

lemma dec_hd: "0 < n \<Longrightarrow> hd (dec n) \<noteq> CHR ''0''"
proof (induction n rule: dec.induct)
  case (1 n)
  show ?case
  proof (cases "n < 10")
    case True
    have "of_char (char_of (48 + n) :: char) \<noteq> (of_char (CHR ''0'') :: nat)" using 1 True by simp
    then show ?thesis using True by (subst dec.simps) (metis list.sel(1))
  next
    case False
    then show ?thesis using 1 by (subst dec.simps) (simp add: hd_append)
  qed
qed

lemma is_digit_facts:
  assumes "is_digit c"
  shows "\<not> c_isspace c" "c \<noteq> CHR ''-''" "c \<noteq> CHR ''+''" "c \<noteq> CHR ''x''" "c \<noteq> CHR ''X''" "digit_value c < 10"
  using assms by (auto simp: is_digit_def c_isspace_def digit_value_def Let_def)

lemma strtol_base_dec: "strtol_base (dec n) = (if n = 0 then 8 else 10, dec n)"
proof (cases "n = 0")
  case True
  have "char_of (48 :: nat) = CHR ''0''" by code_simp
  with True show ?thesis by (simp add: strtol_base_def dec.simps)
next
  case False
  obtain c cs where d: "dec n = c # cs" by (cases "dec n") simp_all
  have "c \<noteq> CHR ''0''" using dec_hd [of n] False d by simp
  moreover have "take 2 (dec n) \<notin> {''0x'', ''0X''}"
    using d calculation by (cases cs) auto
  ultimately show ?thesis using False d by (simp add: strtol_base_def)
qed

lemma strtol_dec:
  "strtol (dec n) = (if int n > LONG_MAX then (LONG_MAX, [], True) else (int n, [], False))"
  "strtol (CHR ''-'' # dec n) = (if - int n < LONG_MIN then (LONG_MIN, [], True) else (- int n, [], False))"
proof -
  obtain c cs where d: "dec n = c # cs" by (cases "dec n") simp_all
  have dig: "\<forall>x \<in> set (dec n). digit_value x < (if n = 0 then 8 else 10)"
  proof (cases "n = 0")
    case True
    then show ?thesis by (simp add: dec.simps digit_value_def)
  next
    case False
    then show ?thesis using dec_digits is_digit_facts(6) by auto
  qed
  have val: "number_of (if n = 0 then 8 else 10) (dec n) = n"
    using number_of_dec [of n] by (cases "n = 0") (simp_all add: dec.simps number_of_def digit_value_def)
  have "is_digit c" using dec_digits [of n] d by simp
  note c = is_digit_facts [OF this]
  have start: "dropWhile c_isspace (dec n) = dec n" "take (Suc 0) (dec n) \<noteq> ''-''" "take (Suc 0) (dec n) \<noteq> ''+''"
    using c d by simp_all
  obtain b where b: "strtol_base (dec n) = (b, dec n)" "\<forall>x \<in> set (dec n). digit_value x < b" "number_of b (dec n) = n"
    using strtol_base_dec dig val by blast
  have tw: "takeWhile (\<lambda>x. digit_value x < b) (dec n) = dec n" "dropWhile (\<lambda>x. digit_value x < b) (dec n) = []"
    using b(2) by (simp_all add: takeWhile_eq_all_conv)
  have r: "\<not> - int n > LONG_MAX" "\<not> int n < LONG_MIN"
    by (simp_all add: LONG_MAX_def LONG_MIN_def)
  have m: "\<not> c_isspace (CHR ''-'')" by (simp add: c_isspace_def)
  show "strtol (dec n) = (if int n > LONG_MAX then (LONG_MAX, [], True) else (int n, [], False))"
    using start r b by (simp add: strtol_def Let_def tw)
  show "strtol (CHR ''-'' # dec n) = (if - int n < LONG_MIN then (LONG_MIN, [], True) else (- int n, [], False))"
    using m r b by (simp add: strtol_def Let_def tw)
qed

lemma to_gint_id: "to_gint v = v \<longleftrightarrow> - (2 ^ 31) \<le> v \<and> v < 2 ^ 31"
  by (simp add: to_gint_def signed_take_bit_int_eq_self_iff)

lemma parse_int_fmt_d:
  "parse_int name (Some (fmt_d i)) s =
     (if - (2 ^ 31) \<le> i \<and> i < 2 ^ 31 then Inr (Some i, s)
      else Inr (None, g_set_error G_OPTION_ERROR_BAD_VALUE
             (concat [''Integer value '', [CHR 0x27], fmt_d i, [CHR 0x27], '' for '', name, '' out of range'']) s))"
proof -
  have st: "strtol (fmt_d i) =
      (if i > LONG_MAX then (LONG_MAX, [], True) else if i < LONG_MIN then (LONG_MIN, [], True) else (i, [], False))"
    using strtol_dec [of "nat i"] strtol_dec(2) [of "nat (- i)"]
    by (auto simp: fmt_d_def LONG_MAX_def LONG_MIN_def)
  moreover have "fmt_d i \<noteq> []" by (simp add: fmt_d_def)
  moreover have "i > LONG_MAX \<or> i < LONG_MIN \<Longrightarrow> \<not> (- (2 ^ 31) \<le> i \<and> i < 2 ^ 31)"
    by (auto simp: LONG_MAX_def LONG_MIN_def)
  ultimately show ?thesis
    using to_gint_id [of i] by (auto simp: parse_int_def)
qed

text \<open>
  Integers (C17). The decimal text of an integer is read back as that integer exactly if it fits a
  \<open>gint\<close>; every other integer, however long its text, is refused as out of range with the error
  \<open>G_OPTION_ERROR_BAD_VALUE\<close>.
\<close>

theorem parse_int_round_trip:
  "parse_int name (Some (fmt_d i)) s =
     (if - (2 ^ 31) \<le> i \<and> i < 2 ^ 31 then Inr (Some i, s)
      else Inr (None, g_set_error G_OPTION_ERROR_BAD_VALUE
             (concat [''Integer value '', [CHR 0x27], fmt_d i, [CHR 0x27], '' for '', name, '' out of range'']) s))"
  by (rule parse_int_fmt_d)

section \<open>Undoing\<close>

text \<open>An option given several times with integers, and then a failure elsewhere.\<close>

fun repeat_int :: "GOptionEntry \<Rightarrow> int list \<Rightarrow> string \<Rightarrow> opt \<Rightarrow> (bool \<times> opt) run" where
  "repeat_int e [] name s = Inr (True, s)"
| "repeat_int e (v # vs) name s =
     andthen (arg_int e (Some (fmt_d v)) name s) (\<lambda>(okay, s). if okay then repeat_int e vs name s else Inr (False, s))"

definition int_change :: "GOptionEntry \<Rightarrow> prev_union \<Rightarrow> Change" where
  "int_change e p = \<lparr>change_type = G_OPTION_ARG_INT, change_data = arg_data e,
     change_prev = p, change_allocated = Allocated_zero\<rparr>"

lemma parse_int_in_range:
  "- (2 ^ 31) \<le> i \<Longrightarrow> i < 2 ^ 31 \<Longrightarrow> parse_int name (Some (fmt_d i)) s = Inr (Some i, s)"
  by (simp add: parse_int_fmt_d)

lemma arg_int_change:
  assumes "- (2 ^ 31) \<le> v" "v < 2 ^ 31" "changes s = [] \<or> (\<exists>p. changes s = [int_change e p])"
  shows "arg_int e (Some (fmt_d v)) name s =
     Inr (True, s\<lparr>changes := [int_change e (Prev_integer (int_at s (arg_data e)))], int_at := (int_at s)(arg_data e := v)\<rparr>)"
  using assms by (auto simp: arg_int_def parse_int_in_range Let_def get_change_def put_change_def int_change_def)

lemma repeat_int_change:
  assumes "vs \<noteq> []" "\<forall>v \<in> set vs. - (2 ^ 31) \<le> v \<and> v < 2 ^ 31"
    and "changes s = [] \<or> (\<exists>p. changes s = [int_change e p])"
  shows "\<exists>s'. repeat_int e vs name s = Inr (True, s')
     \<and> changes s' = [int_change e (Prev_integer ((int_at s (arg_data e) # vs) ! (length vs - 1)))]"
  using assms
proof (induction vs arbitrary: s)
  case (Cons v vs)
  let ?s = "s\<lparr>changes := [int_change e (Prev_integer (int_at s (arg_data e)))], int_at := (int_at s)(arg_data e := v)\<rparr>"
  have step: "repeat_int e (v # vs) name s = repeat_int e vs name ?s"
    using Cons.prems by (simp add: arg_int_change)
  show ?case
  proof (cases "vs = []")
    case True
    then show ?thesis using step by (simp del: repeat_int.simps(2))
  next
    case False
    then obtain w ws where "vs = w # ws" by (cases vs) auto
    moreover have "changes ?s = [int_change e (Prev_integer (int_at s (arg_data e)))]" by simp
    ultimately show ?thesis
      using Cons.IH [of ?s] Cons.prems False step by (auto simp del: repeat_int.simps(2))
  qed
qed simp

text \<open>
  Undoing a repeated option. When an integer option was given \<open>n\<close> times and the parse then fails, its
  variable gets the value it had before the last occurrence: the value from before the parse if the option was
  given once, otherwise the value of the last but one occurrence, so the variable keeps a trace of the failed
  parse.
\<close>

theorem revert_repeated_int:
  assumes "vs \<noteq> []" "\<forall>v \<in> set vs. - (2 ^ 31) \<le> v \<and> v < 2 ^ 31" "changes s = []"
  shows "ok (andthen (repeat_int e vs name s) (\<lambda>(_, s). free_changes_list True s))
     (\<lambda>s'. int_at s' (arg_data e) = (int_at s (arg_data e) # vs) ! (length vs - 1))"
proof -
  obtain s' where "repeat_int e vs name s = Inr (True, s')"
      "changes s' = [int_change e (Prev_integer ((int_at s (arg_data e) # vs) ! (length vs - 1)))]"
    using repeat_int_change [OF assms(1,2)] assms(3) by blast
  then show ?thesis by (simp add: free_changes_list_def revert_change_def revert_integer_def prev_integer_def int_change_def)
qed

theorem revert_repeated_int_witness:
  "ok (andthen (repeat_int (example_entries ! 1) [5060, 5070] ''--port'' (example_context [''cli'']))
         (\<lambda>(_, s). free_changes_list True s)) (\<lambda>s'. int_at s' 2 = 5060)"
proof -
  have "changes (example_context [''cli'']) = []" by code_simp
  then have "ok (andthen (repeat_int (example_entries ! 1) [5060, 5070] ''--port'' (example_context [''cli'']))
         (\<lambda>(_, s). free_changes_list True s))
     (\<lambda>s'. int_at s' (arg_data (example_entries ! 1))
        = (int_at (example_context [''cli'']) (arg_data (example_entries ! 1)) # [5060, 5070]) ! (length [5060, 5070 :: int] - 1))"
    by (intro revert_repeated_int) simp_all
  then show ?thesis by (simp add: example_entries_def)
qed

text \<open>A flag is put back to \<open>FALSE\<close>, whatever it was: its earlier value is never recorded.\<close>

lemma revert_flag_clears:
  assumes "changes s = []"
  shows "ok (free_changes_list True (arg_none e s)) (\<lambda>s'. int_at s' (arg_data e) = 0)"
  using assms by (simp add: arg_none_def Let_def get_change_def free_changes_list_def revert_change_def revert_integer_def prev_integer_def
      revert_str_def revert_pointer_def prev_pointer_def allocated_str_def)

text \<open>
  Undoing a repeated text. When a text option was given twice and the parse then fails, its variable is
  left pointing at the text of the first occurrence, which is freed by then.
\<close>

theorem revert_repeated_string_dangles:
  assumes "changes s = []" "\<forall>a \<in> dom (blocks s). a < next_block s"
  shows "ok (andthen (arg_string G_OPTION_ARG_STRING e (Some v) s) (\<lambda>s.
             andthen (arg_string G_OPTION_ARG_STRING e (Some w) s) (free_changes_list True)))
     (\<lambda>s'. \<exists>a. ptr_at s' (arg_data e) = Some a \<and> blocks s' a = None)"
  using assms
  by (simp add: arg_string_def Let_def g_strdup_def g_malloc_def get_change_def put_change_def g_free_block_def
      free_changes_list_def revert_change_def revert_integer_def prev_integer_def
      revert_str_def revert_pointer_def prev_pointer_def allocated_str_def)

theorem revert_repeated_string_dangles_witness:
  "ok (andthen (arg_string G_OPTION_ARG_STRING (example_entries ! 0) (Some ''a'') (example_context [''cli''])) (\<lambda>s.
             andthen (arg_string G_OPTION_ARG_STRING (example_entries ! 0) (Some ''b'') s) (free_changes_list True)))
     (\<lambda>s'. \<exists>a. ptr_at s' (arg_data (example_entries ! 0)) = Some a \<and> blocks s' a = None)"
  by (rule revert_repeated_string_dangles)
     (simp_all add: example_context_def g_option_context_add_main_entries_def g_option_context_new_def example_memory_def)

end
