(* ===== verification/Goption_Errors.thy ===== *)
theory Goption_Errors
  imports Goption_Values
begin

text \<open>
  Error reports of the option parser (replace_goption.c): when no option is a callback and no hook is installed,
  every way to fail goes through \<open>g_set_error\<close>, so the caller of \<open>g_option_context_parse\<close> finds an error to
  print. (A callback or a hook may return \<open>FALSE\<close> without one.)
\<close>

section \<open>Options that report\<close>

text \<open>The entry with the empty name takes the arguments that are left, into a vector.\<close>

definition reports :: "GOptionEntry \<Rightarrow> bool" where
  "reports e \<longleftrightarrow> arg e \<noteq> G_OPTION_ARG_CALLBACK
     \<and> (long_name e = [] \<longrightarrow> arg e \<in> {G_OPTION_ARG_STRING_ARRAY, G_OPTION_ARG_FILENAME_ARRAY})"

definition reporting :: "opt \<Rightarrow> bool" where
  "reporting s \<longleftrightarrow> (\<forall>g \<in> set (all_groups s). \<forall>e \<in> set (entries g). reports e)"

definition has_error :: "opt \<Rightarrow> bool" where
  "has_error s \<longleftrightarrow> gerror s \<noteq> None"

text \<open>What holds of a step that started from groups like those of \<open>t\<close>: it succeeded, or left an error.\<close>

definition reported :: "opt \<Rightarrow> bool \<Rightarrow> opt \<Rightarrow> bool" where
  "reported t b s \<longleftrightarrow> static t s \<and> (b \<or> has_error s)"

lemma g_set_error_sets [simp]: "has_error (g_set_error c m s)"
  by (simp add: has_error_def g_set_error_def split: option.split)

lemma reported_simps [simp]:
  "reported t True s = static t s" "reported t b (g_set_error c m s) = static t s"
  "reported t b (unknown_option i s) = static t s" "reported t b (add_pending_null i v s) = reported t b s"
  "static t (g_set_error c m s) = static t s" "static t (add_pending_null i v s) = static t s"
  by (auto simp: reported_def has_error_def static_def g_set_error_def unknown_option_def add_pending_null_def split: option.split)

lemma reported_static: "reported t b s \<Longrightarrow> static t s"
  by (simp add: reported_def)

lemma parse_arg_reports:
  assumes "arg e \<noteq> G_OPTION_ARG_CALLBACK"
  shows "if_returns (parse_arg E u e v n s) (\<lambda>(b, s'). b \<or> has_error s')"
  using assms
  by (cases "arg e") (auto simp: parse_arg_def g_locale_to_utf8_def arg_int_def parse_int_def Let_def
      split: option.split sum.split prod.split intro!: if_returns_all)

lemma wp_parse_arg_reports:
  assumes "static t s" "arg e \<noteq> G_OPTION_ARG_CALLBACK" "\<And>b s'. reported t b s' \<Longrightarrow> Q (b, s')"
  shows "if_returns (parse_arg E u e v n s) Q"
proof -
  have "Q x" if x: "parse_arg E u e v n s = Inr x" for x
  proof -
    obtain b s' where "x = (b, s')" by fastforce
    then have "frame 0 s s'" "b \<or> has_error s'"
      using x frame_parse_arg [of E u e v n s 0] parse_arg_reports [OF assms(2), of E u v n s]
      by (auto simp: if_returns_def)
    then show ?thesis
      using assms(1,3) \<open>x = (b, s')\<close> by (auto simp: reported_def dest: frame_static static_trans)
  qed
  then show ?thesis by (simp add: if_returns_def)
qed

lemma short_value_reports:
  assumes "static t s" "\<And>b v' k' s'. reported t b s' \<Longrightarrow> Q (b, v', k', s')"
  shows "if_returns (short_value e i k n s) Q"
  using assms by (auto simp: short_value_def take_next_def Let_def split: option.split)

lemma long_value_reports:
  assumes "static t s" "\<And>v' i' b st s'. reported t b s' \<Longrightarrow> Q (v', i', b, st, s')"
  shows "if_returns (long_value e a i n s) Q"
  using assms by (auto simp: long_value_def take_next_def Let_def split: option.split)

section \<open>The search for an option\<close>

lemma short_entries_report:
  "static t s \<Longrightarrow> \<forall>e \<in> set es. reports e \<Longrightarrow> if_returns (short_entries E u es i c k p s) (\<lambda>(b, k', p', s'). reported t b s')"
  by (induction es arbitrary: k p s)
     (auto simp: Let_def reports_def intro!: short_value_reports [of t] wp_parse_arg_reports [of t] dest: reported_static)

lemma long_entries_report:
  "static t s \<Longrightarrow> \<forall>e \<in> set es. reports e \<Longrightarrow> if_returns (long_entries E u es a al i p s) (\<lambda>(b, i', p', s'). reported t b s')"
proof (induction es arbitrary: a al i p s)
  case (Cons e es)
  then show ?case
    by (auto simp: Let_def reports_def intro!: long_value_reports [of t] wp_parse_arg_reports [of t] Cons.IH dest: reported_static)
qed simp

lemma remaining_entries_report:
  "static t s \<Longrightarrow> \<forall>e \<in> set es. reports e \<Longrightarrow> if_returns (remaining_entries E u es i p s) (\<lambda>(b, p', s'). reported t b s')"
  by (induction es) (auto simp: reports_def intro!: wp_parse_arg_reports [of t])

lemma long_groups_report:
  "static t s \<Longrightarrow> \<forall>g \<in> set gs. \<forall>e \<in> set (entries g). reports e \<Longrightarrow>
   if_returns (long_groups E gs a i s) (\<lambda>(b, i', p, s'). reported t b s')"
  by (induction gs arbitrary: i s)
     (auto simp: parse_long_option_def intro!: if_returns_mono [OF long_entries_report [of t]] dest: reported_static)

lemma alias_groups_report:
  "static t s \<Longrightarrow> \<forall>g \<in> set gs. \<forall>e \<in> set (entries g). reports e \<Longrightarrow>
   if_returns (alias_groups E gs pre a i s) (\<lambda>(b, i', p, s'). reported t b s')"
  by (induction gs arbitrary: i s)
     (auto simp: parse_long_option_def intro!: if_returns_mono [OF long_entries_report [of t]] dest: reported_static
        split: option.split)

lemma short_groups_report:
  "static t s \<Longrightarrow> \<forall>g \<in> set gs. \<forall>e \<in> set (entries g). reports e \<Longrightarrow>
   if_returns (short_groups E gs i c k s) (\<lambda>(b, k', p, s'). reported t b s')"
  by (induction gs arbitrary: k s)
     (auto simp: parse_short_option_def intro!: if_returns_mono [OF short_entries_report [of t]] dest: reported_static)

lemma static_groups:
  assumes "static t s" "reporting t"
  shows "groups s = groups t" "main_group s = main_group t" "\<forall>g \<in> set (groups t). \<forall>e \<in> set (entries g). reports e"
    and "main_group t = Some g \<Longrightarrow> \<forall>e \<in> set (entries g). reports e"
  using assms by (auto simp: static_def reporting_def all_groups_def)

lemma long_option_reports:
  assumes "static t s" "reporting t"
  shows "if_returns (long_option E a i s) (\<lambda>(b, i', p, s'). reported t b s')"
proof -
  note r = static_groups [OF _ assms(2)]
  have al: "if_returns (case strchr_split (CHR ''-'') a of
      None \<Rightarrow> Inr (True, i, False, s) | Some (prefix, dash) \<Rightarrow> alias_groups E (groups s) prefix (tl dash) i s)
      (\<lambda>(b, i', p, s'). reported t b s')" if "static t s" for i s
    using that r [OF that] by (auto intro!: alias_groups_report split: option.split)
  have gr: "if_returns (andthen (long_groups E (groups s) a i s) (\<lambda>(okay, i, parsed, s).
       if \<not> okay \<or> parsed then Inr (okay, i, parsed, s)
       else (case strchr_split (CHR ''-'') a of
            None \<Rightarrow> Inr (True, i, False, s)
          | Some (prefix, dash) \<Rightarrow> alias_groups E (groups s) prefix (tl dash) i s))) (\<lambda>(b, i', p, s'). reported t b s')"
    if "static t s" for i s
  proof (rule if_returns_andthenI [OF long_groups_report [OF that]])
    show "\<forall>g \<in> set (groups s). \<forall>e \<in> set (entries g). reports e" using r [OF that] by simp
  qed (use al reported_static in \<open>fastforce simp del: if_returns_split(2)\<close>)
  have "if_returns (case main_group s of None \<Rightarrow> Inr (True, i, False, s) | Some g \<Rightarrow> parse_long_option E g a False i False s)
      (\<lambda>(b, i', p, s'). reported t b s')"
    using assms(1) r [OF assms(1)] by (auto simp: parse_long_option_def intro!: long_entries_report split: option.split)
  then show ?thesis
    unfolding long_option_def
    by (rule if_returns_andthenI) (use gr reported_static in \<open>fastforce simp del: if_returns_simps(3)\<close>)
qed

lemma short_option_reports:
  assumes "static t s" "reporting t"
  shows "if_returns (short_option E i c k s) (\<lambda>(b, k', p, s'). reported t b s')"
proof -
  note r = static_groups [OF _ assms(2)]
  have gr: "if_returns (short_groups E (groups s) i c k s) (\<lambda>(b, k', p, s'). reported t b s')" if "static t s" for k s
    using that r [OF that] by (auto intro!: short_groups_report)
  have "if_returns (case main_group s of None \<Rightarrow> Inr (True, k, False, s) | Some g \<Rightarrow> parse_short_option E g i c k False s)
      (\<lambda>(b, k', p, s'). reported t b s')"
    using assms(1) r [OF assms(1)] by (auto simp: parse_short_option_def intro!: short_entries_report split: option.split)
  then show ?thesis
    unfolding short_option_def
    by (rule if_returns_andthenI) (use gr reported_static in \<open>fastforce\<close>)
qed

lemma short_chars_report:
  assumes "reporting t"
  shows "static t s \<Longrightarrow> if_returns (short_chars E i cs k p ns s) (\<lambda>(b, k', p', ns', s'). reported t b s')"
proof (induction cs arbitrary: k p ns s)
  case (Cons c cs)
  show ?case
    by (auto intro!: if_returns_mono [OF short_option_reports [OF Cons.prems assms]] Cons.IH dest: reported_static)
qed simp

section \<open>The whole parse\<close>

lemma parse_step_reports:
  assumes "static t s" "reporting t"
  shows "if_returns (parse_step E i sc s) (\<lambda>(b, i', sc', s'). reported t b s')"
proof -
  have "if_returns (long_arg E i a sc s) (\<lambda>(b, i', sc', s'). reported t b s')" for a
    using assms by (auto simp: long_arg_def dest: reported_static
        intro!: if_returns_mono [OF frame_long_help] if_returns_mono [OF long_option_reports [of t]])
  moreover have "if_returns (short_arg E i a sc s) (\<lambda>(b, i', sc', s'). reported t b s')" for a
    using assms by (auto simp: short_arg_def Let_def dest: reported_static intro!: if_returns_mono [OF short_chars_report [of t]])
  moreover have "if_returns (remaining_arg E i a sc s) (\<lambda>(b, i', sc', s'). reported t b s')" for a
    using assms static_groups [OF assms]
    by (auto simp: remaining_arg_def parse_remaining_arg_def split: option.split
        intro!: if_returns_mono [OF remaining_entries_report [of t]])
  ultimately show ?thesis by (simp add: parse_step_def split: option.split)
qed

lemma parse_args_report:
  assumes "reporting t"
  shows "static t s \<Longrightarrow> if_returns (parse_args E i sc s) (\<lambda>(b, sc', s'). reported t b s')"
proof (induction E i sc s rule: parse_args.induct)
  case (1 E i sc s)
  show ?case
  proof (cases "i < argc s")
    case True
    have "if_returns (andthen (parse_step E i sc s) (\<lambda>(okay, i, sc, s).
        if okay then parse_args E (Suc i) sc s else Inr (False, sc, s))) (\<lambda>(b, sc', s'). reported t b s')"
    proof (rule if_returns_bindI)
      fix x
      assume x: "parse_step E i sc s = Inr x"
      obtain b i' sc' s' where e: "x = (b, i', sc', s')" by (cases x)
      have "reported t b s'" using parse_step_reports [OF 1(2) assms, of E i sc] x e by (simp add: if_returns_def)
      then show "if_returns (case x of (okay, i, sc, s) \<Rightarrow>
          if okay then parse_args E (Suc i) sc s else Inr (False, sc, s)) (\<lambda>(b, sc', s'). reported t b s')"
        using 1(1) [OF True x] e by auto
    qed
    with True show ?thesis by (simp add: parse_args.simps [of E i sc s])
  next
    case False
    then show ?thesis using 1(2) by (simp add: parse_args.simps [of E i sc s])
  qed
qed

text \<open>Undoing does not touch the error.\<close>

lemma revert_changes_gerror: "if_returns (revert_changes cs s) (\<lambda>s'. gerror s' = gerror s)"
proof (induction cs arbitrary: s)
  case (Cons c cs)
  have free: "if_returns (g_free_block p s) (\<lambda>s'. gerror s' = gerror s)" for p s
    by (auto simp: g_free_block_def split: option.split)
  have all: "if_returns (g_free_all ps s) (\<lambda>s'. gerror s' = gerror s)" for ps s
  proof (induction ps arbitrary: s)
    case (Cons p ps)
    then show ?case by (cases p) (auto intro!: if_returns_mono [OF free] if_returns_mono [OF Cons.IH])
  qed simp
  have vec: "if_returns (g_strfreev p s) (\<lambda>s'. gerror s' = gerror s)" for p s
    by (auto simp: g_strfreev_def split: option.split block.split intro!: if_returns_mono [OF all] if_returns_mono [OF free])
  have p: "if_returns (revert_pointer c s) (\<lambda>s'. gerror s' = gerror s)" for s
    by (auto simp: revert_pointer_def intro!: readers_return)
  have "if_returns (revert_str c s) (\<lambda>s'. gerror s' = gerror s)" "if_returns (revert_array c s) (\<lambda>s'. gerror s' = gerror s)"
    unfolding revert_str_def revert_array_def
    by (auto intro!: readers_return if_returns_mono [OF free] if_returns_mono [OF vec] if_returns_mono [OF p])
  then have "if_returns (revert_change c s) (\<lambda>s'. gerror s' = gerror s)"
    by (auto simp: revert_change_def revert_integer_def split: GOptionArg.split intro!: readers_return)
  then show ?case
    by (auto elim!: if_returns_mono intro!: if_returns_mono [OF Cons.IH])
qed simp

lemma parse_fail_gerror: "if_returns (parse_fail s) (\<lambda>(b, s'). gerror s' = gerror s)"
proof -
  have "gerror (run_error_hooks s) = gerror s" by (simp add: run_error_hooks_def)
  then show ?thesis
    by (auto simp: parse_fail_def free_changes_list_def free_pending_nulls_def
        intro!: if_returns_mono [OF revert_changes_gerror])
qed

lemma run_hooks_none: "\<forall>g \<in> set gs. hook g = None \<Longrightarrow> run_hooks E hook gs s = (True, s)"
  by (induction gs) simp_all

lemma parse_end_reports:
  assumes "\<forall>g \<in> set (all_groups s). post_parse_func g = None"
  shows "if_returns (parse_end E sc s) (\<lambda>(b, s'). b)"
proof -
  define s4 where "s4 = (if separator_pos sc > 0 then add_pending_null (separator_pos sc) None s else s)"
  have "all_groups s4 = all_groups s" by (simp add: s4_def all_groups_def add_pending_null_def)
  then show ?thesis
    unfolding parse_end_def s4_def [symmetric] using assms
    by (simp add: run_hooks_none parse_finish_def if_returns_all Let_def split: prod.split)
qed

lemma parse_fails_with_error:
  assumes "g_option_context_parse E s = Inr (False, s')" "reporting s"
    and "\<forall>g \<in> set (all_groups s). pre_parse_func g = None \<and> post_parse_func g = None"
  shows "gerror s' \<noteq> None"
proof -
  let ?sc = "\<lparr>stop_parsing = False, has_unknown = False, separator_pos = 0\<rparr>"
  have "if_returns (g_option_context_parse E s) (\<lambda>(b, s'). b \<or> has_error s')"
    unfolding g_option_context_parse_def
  proof (rule if_returns_andthenI [OF set_prgname_keeps])
    fix s1
    assume s1: "static s s1 \<and> pending_nulls s1 = pending_nulls s"
    have h: "run_hooks E pre_parse_func (all_groups s1) s1 = (True, s1)"
      by (rule run_hooks_none) (use s1 assms(3) in \<open>simp add: static_def all_groups_def\<close>)
    have "if_returns (andthen (parse_args E 1 ?sc s1) (\<lambda>(okay, sc, s). if \<not> okay then parse_fail s else parse_end E sc s))
        (\<lambda>(b, s'). b \<or> has_error s')"
    proof (rule if_returns_andthenI [OF parse_args_report [OF assms(2)]])
      fix x :: "bool \<times> scan \<times> opt"
      assume x: "case x of (b, sc', s') \<Rightarrow> reported s b s'"
      obtain b sc s2 where e: "x = (b, sc, s2)" by (cases x)
      have "\<forall>g \<in> set (all_groups s2). post_parse_func g = None"
        using assms(3) x e by (simp add: reported_def static_def all_groups_def)
      then show "if_returns (case x of (okay, sc, s) \<Rightarrow> if \<not> okay then parse_fail s else parse_end E sc s)
          (\<lambda>(b, s'). b \<or> has_error s')"
        using x e by (auto simp: reported_def has_error_def intro!: if_returns_mono [OF parse_fail_gerror]
            if_returns_mono [OF parse_end_reports])
    qed (use s1 in simp)
    then show "if_returns (let (okay, s) = run_hooks E pre_parse_func (all_groups s1) s1
        in if \<not> okay then parse_fail s
           else andthen (parse_args E 1 ?sc s) (\<lambda>(okay, sc, s). if \<not> okay then parse_fail s else parse_end E sc s))
        (\<lambda>(b, s'). b \<or> has_error s')"
      by (simp add: h)
  qed
  with assms(1) show ?thesis by (simp add: has_error_def)
qed

section \<open>Property\<close>

text \<open>
  A failed parse says why. When no option is a callback and no group has a hook, a parse that returns
  \<open>FALSE\<close> has set the error: a caller may print its message.
\<close>

theorem failed_parse_sets_error:
  assumes "g_option_context_parse E s = Inr (False, s')" "reporting s"
    and "\<forall>g \<in> set (all_groups s). pre_parse_func g = None \<and> post_parse_func g = None"
  shows "gerror s' \<noteq> None"
  by (rule parse_fails_with_error [OF assms])

theorem failed_parse_sets_error_witness:
  "\<exists>s'. g_option_context_parse example_env (example_context [''cli'', ''-s'', ''host'', ''--port=70x'']) = Inr (False, s')
     \<and> gerror s' \<noteq> None"
proof -
  obtain s' where s': "g_option_context_parse example_env (example_context [''cli'', ''-s'', ''host'', ''--port=70x'']) = Inr (False, s')"
    using parse_givesD [OF example_bad_port] ..
  have "reporting (example_context [''cli'', ''-s'', ''host'', ''--port=70x''])" by code_simp
  moreover have "\<forall>g \<in> set (all_groups (example_context [''cli'', ''-s'', ''host'', ''--port=70x''])).
      pre_parse_func g = None \<and> post_parse_func g = None" by code_simp
  ultimately show ?thesis using failed_parse_sets_error [OF s'] s' by blast
qed

end
