(* ===== verification/Sofsip_Line.thy ===== *)
theory Sofsip_Line
  imports Ssc_Prelude
begin

text \<open>
  The beginning of \<open>sofsip_handle_input_cb\<close> (sofsip_cli.c): a typed line is cut into a command and its argument
  in place, with three indices into the buffer and NUL characters written over white space. \<open>split_line\<close> is that
  code, with every access checked against the buffer; \<open>words\<close> says what it is for.
\<close>

section \<open>The buffer\<close>

abbreviation NUL :: char where
  "NUL \<equiv> CHR 0x00"

definition is_ws :: "char \<Rightarrow> bool" where
  "is_ws c \<longleftrightarrow> c \<noteq> NUL \<and> c \<in> {CHR '' '', CHR 0x09, CHR 0x0D, CHR 0x0A}"

text \<open>The C string that starts at an index.\<close>

definition c_str :: "string \<Rightarrow> nat \<Rightarrow> string" where
  "c_str buf i = takeWhile (\<lambda>c. c \<noteq> NUL) (drop i buf)"

text \<open>\<open>while (n > 0 && is_ws(command[n - 1])) n--\<close>\<close>

fun trim_end :: "string \<Rightarrow> nat \<Rightarrow> nat" where
  "trim_end buf 0 = 0"
| "trim_end buf (Suc n) = (if is_ws (buf ! n) then trim_end buf n else Suc n)"

text \<open>\<open>while (is_ws( *command)) command++\<close>\<close>

function skip_ws :: "string \<Rightarrow> nat \<Rightarrow> nat res" where
  "skip_ws buf i =
     (if i \<ge> length buf then Inl Out_of_bounds
      else if is_ws (buf ! i) then skip_ws buf (Suc i) else Inr i)"
  by pat_completeness auto

termination
  by (relation "measure (\<lambda>(buf, i). length buf - i)") auto

text \<open>\<open>for (rest = command; *rest && !is_ws( *rest); rest++)\<close>\<close>

function skip_word :: "string \<Rightarrow> nat \<Rightarrow> nat res" where
  "skip_word buf i =
     (if i \<ge> length buf then Inl Out_of_bounds
      else if buf ! i \<noteq> NUL \<and> \<not> is_ws (buf ! i) then skip_word buf (Suc i) else Inr i)"
  by pat_completeness auto

termination
  by (relation "measure (\<lambda>(buf, i). length buf - i)") auto

text \<open>\<open>while (rest < command + n && is_ws( *rest)) *rest++ = 0\<close>\<close>

function zero_ws :: "nat \<Rightarrow> string \<Rightarrow> nat \<Rightarrow> (string \<times> nat) res" where
  "zero_ws limit buf i =
     (if i \<ge> limit then Inr (buf, i)
      else if i \<ge> length buf then Inl Out_of_bounds
      else if is_ws (buf ! i) then zero_ws limit (buf[i := NUL]) (Suc i) else Inr (buf, i))"
  by pat_completeness auto

termination
  by (relation "measure (\<lambda>(limit, buf, i). length buf - i)") auto

declare skip_ws.simps [simp del] skip_word.simps [simp del] zero_ws.simps [simp del]

text \<open>The buffer, where the command starts, and where its argument starts if it has one. \<open>n\<close> counts from the
  beginning of the buffer, but is used as if it counted from the command.\<close>

definition split_line :: "string \<Rightarrow> (string \<times> nat \<times> nat option) res" where
  "split_line input =
     (let buf = input @ [NUL];
          n = trim_end buf (length input);
          buf = buf[n := NUL] in
      andthen (skip_ws buf 0) (\<lambda>command.
      andthen (skip_word buf command) (\<lambda>rest.
      andthen (zero_ws (command + n) buf rest) (\<lambda>(buf, rest).
      if rest \<ge> command + n then Inr (buf, command, None)
      else if rest \<ge> length buf then Inl Out_of_bounds
      else Inr (buf, command, if buf ! rest = NUL then None else Some rest)))))"

section \<open>What it computes\<close>

definition strip :: "string \<Rightarrow> string" where
  "strip t = dropWhile is_ws (rev (dropWhile is_ws (rev t)))"

definition words :: "string \<Rightarrow> string \<times> string option" where
  "words t =
     (let t = strip t;
          arg = dropWhile is_ws (dropWhile (\<lambda>c. \<not> is_ws c) t)
      in (takeWhile (\<lambda>c. \<not> is_ws c) t, if arg = [] then None else Some arg))"

lemma trim_end_le: "trim_end buf n \<le> n"
  by (induction n) (auto intro: le_SucI)

lemma trim_end_append: "n \<le> length t \<Longrightarrow> trim_end (t @ u) n = trim_end t n"
  by (induction n) (auto simp: nth_append)

lemma trim_end_take:
  "n \<le> length t \<Longrightarrow> take (trim_end t n) t = rev (dropWhile is_ws (rev (take n t)))"
  by (induction n) (auto simp: take_Suc_conv_app_nth)

text \<open>Scanning a buffer that is known from the index on.\<close>

lemma skip_ws_scan:
  "buf = pre @ ws @ c # post \<Longrightarrow> \<forall>x \<in> set ws. is_ws x \<Longrightarrow> \<not> is_ws c \<Longrightarrow> skip_ws buf (length pre) = Inr (length pre + length ws)"
proof (induction ws arbitrary: pre)
  case Nil
  then show ?case by (subst skip_ws.simps) simp
next
  case (Cons x ws)
  then have "skip_ws buf (length (pre @ [x])) = Inr (length (pre @ [x]) + length ws)"
    by (intro Cons.IH) simp_all
  then show ?case using Cons.prems by (subst skip_ws.simps) simp
qed

lemma skip_word_scan:
  "buf = pre @ w @ c # post \<Longrightarrow> \<forall>x \<in> set w. x \<noteq> NUL \<and> \<not> is_ws x \<Longrightarrow> c = NUL \<or> is_ws c
   \<Longrightarrow> skip_word buf (length pre) = Inr (length pre + length w)"
proof (induction w arbitrary: pre)
  case Nil
  then show ?case by (subst skip_word.simps) auto
next
  case (Cons x w)
  then have "skip_word buf (length (pre @ [x])) = Inr (length (pre @ [x]) + length w)"
    by (intro Cons.IH) simp_all
  then show ?case using Cons.prems by (subst skip_word.simps) simp
qed

lemma zero_ws_scan:
  "length pre + length ws \<le> limit \<Longrightarrow> \<forall>x \<in> set ws. is_ws x \<Longrightarrow> \<not> is_ws c
   \<Longrightarrow> zero_ws limit (pre @ ws @ c # post) (length pre) = Inr (pre @ replicate (length ws) NUL @ c # post, length pre + length ws)"
proof (induction ws arbitrary: pre)
  case Nil
  then show ?case by (subst zero_ws.simps) simp
next
  case (Cons x ws)
  then have "zero_ws limit ((pre @ [NUL]) @ ws @ c # post) (length (pre @ [NUL]))
      = Inr ((pre @ [NUL]) @ replicate (length ws) NUL @ c # post, length (pre @ [NUL]) + length ws)"
    by (intro Cons.IH) simp_all
  then show ?case using Cons.prems by (subst zero_ws.simps) (simp add: replicate_app_Cons_same)
qed

lemma is_ws_NUL [simp]: "\<not> is_ws NUL"
  by (simp add: is_ws_def)

lemma takeWhile_until_NUL: "NUL \<notin> set a \<Longrightarrow> takeWhile (\<lambda>c. c \<noteq> NUL) (a @ NUL # b) = a"
  by (induction a) auto

text \<open>The pieces of a trimmed line: white space, a word, white space, and the argument.\<close>

lemma trimmed_pieces:
  fixes t defines "u \<equiv> rev (dropWhile is_ws (rev t))"
  obtains ws1 w ws2 a where "u = ws1 @ w @ ws2 @ a" "strip t = w @ ws2 @ a" "\<forall>x \<in> set ws1. is_ws x" "\<forall>x \<in> set w. \<not> is_ws x"
    "\<forall>x \<in> set ws2. is_ws x" "ws2 = [] \<longrightarrow> a = []" "\<forall>x b. a = x # b \<longrightarrow> \<not> is_ws x" "w = [] \<longrightarrow> ws2 @ a = []"
    "words t = (w, if a = [] then None else Some a)"
proof -
  define s where "s = dropWhile is_ws u"
  define r where "r = dropWhile (\<lambda>c. \<not> is_ws c) s"
  have r: "is_ws x" if "r = x # b" for x b
    using that hd_dropWhile [of "\<lambda>c. \<not> is_ws c" s] by (simp add: r_def)
  have s: "\<not> is_ws x" if "s = x # b" for x b
    using that hd_dropWhile [of is_ws u] by (simp add: s_def)
  show thesis
  proof (rule that [of "takeWhile is_ws u" "takeWhile (\<lambda>c. \<not> is_ws c) s" "takeWhile is_ws r" "dropWhile is_ws r"])
    show "u = takeWhile is_ws u @ takeWhile (\<lambda>c. \<not> is_ws c) s @ takeWhile is_ws r @ dropWhile is_ws r"
      by (simp add: s_def r_def)
    show "strip t = takeWhile (\<lambda>c. \<not> is_ws c) s @ takeWhile is_ws r @ dropWhile is_ws r"
      by (simp add: r_def s_def u_def strip_def)
    show "takeWhile is_ws r = [] \<longrightarrow> dropWhile is_ws r = []"
      using r by (cases r) simp_all
    show "\<forall>x b. dropWhile is_ws r = x # b \<longrightarrow> \<not> is_ws x"
      using hd_dropWhile [of is_ws r] by (metis list.discI list.sel(1))
    show "takeWhile (\<lambda>c. \<not> is_ws c) s = [] \<longrightarrow> takeWhile is_ws r @ dropWhile is_ws r = []"
    proof (cases s)
      case (Cons x b)
      then show ?thesis using s [OF Cons] by simp
    qed (simp add: r_def)
    show "words t = (takeWhile (\<lambda>c. \<not> is_ws c) s, if dropWhile is_ws r = [] then None else Some (dropWhile is_ws r))"
      unfolding words_def strip_def Let_def r_def s_def u_def by (rule refl)
  qed (auto dest: set_takeWhileD)
qed

lemma trimmed_buffer:
  assumes "n = trim_end (t @ [NUL]) (length t)"
  obtains post where "(t @ [NUL])[n := NUL] = rev (dropWhile is_ws (rev t)) @ NUL # post"
    "length (rev (dropWhile is_ws (rev t))) = n"
proof -
  have n: "n = trim_end t (length t)" using assms trim_end_append [of "length t" t "[NUL]"] by simp
  then have le: "n \<le> length t" using trim_end_le [of t "length t"] by simp
  have u: "take n t = rev (dropWhile is_ws (rev t))"
    using trim_end_take [of "length t" t] n by simp
  have "(t @ [NUL])[n := NUL] = take n t @ NUL # drop (Suc n) (t @ [NUL])"
    using le by (simp add: upd_conv_take_nth_drop)
  with u that le show thesis by (metis length_take min.absorb2)
qed

lemma split_line_words:
  assumes "NUL \<notin> set input"
  shows "ok (split_line input) (\<lambda>(buf, command, rest). (c_str buf command, map_option (c_str buf) rest) = words input)"
proof -
  define n where "n = trim_end (input @ [NUL]) (length input)"
  define u where "u = rev (dropWhile is_ws (rev input))"
  obtain post where buf: "(input @ [NUL])[n := NUL] = u @ NUL # post" and n: "length u = n"
    using trimmed_buffer [OF n_def] u_def by metis
  obtain ws1 w ws2 a where p: "u = ws1 @ w @ ws2 @ a" "strip input = w @ ws2 @ a" "\<forall>x \<in> set ws1. is_ws x" "\<forall>x \<in> set w. \<not> is_ws x"
    "\<forall>x \<in> set ws2. is_ws x" "ws2 = [] \<longrightarrow> a = []" "\<forall>x b. a = x # b \<longrightarrow> \<not> is_ws x" "w = [] \<longrightarrow> ws2 @ a = []"
    "words input = (w, if a = [] then None else Some a)"
    by (rule trimmed_pieces [of input, folded u_def])
  have "set u \<subseteq> set input" by (auto simp: u_def dest: set_dropWhileD)
  then have z: "NUL \<notin> set w" "NUL \<notin> set a" using assms p(1) by auto
  obtain c1 q1 where c1: "w @ ws2 @ a @ NUL # post = c1 # q1" "\<not> is_ws c1"
    using p(4,8) by (cases w) auto
  obtain c2 q2 where c2: "ws2 @ a @ NUL # post = c2 # q2" "c2 = NUL \<or> is_ws c2"
    using p(5,6) by (cases ws2) auto
  obtain c3 q3 where c3: "a @ NUL # post = c3 # q3" "\<not> is_ws c3" "c3 = NUL \<longleftrightarrow> a = []"
    using p(7) z(2) by (cases a) auto
  have s1: "skip_ws (u @ NUL # post) 0 = Inr (length ws1)"
    using skip_ws_scan [of "u @ NUL # post" "[]" ws1 c1 q1] p(1,3) c1 by simp
  have s2: "skip_word (u @ NUL # post) (length ws1) = Inr (length ws1 + length w)"
    using skip_word_scan [of "u @ NUL # post" ws1 w c2 q2] p(1,4) z(1) c2 by auto
  define b where "b = ws1 @ w @ replicate (length ws2) NUL @ a @ NUL # post"
  define r where "r = length ws1 + length w + length ws2"
  have s3: "zero_ws (length ws1 + n) (u @ NUL # post) (length ws1 + length w) = Inr (b, r)"
    using zero_ws_scan [of "ws1 @ w" ws2 "length ws1 + n" c3 q3] p(1,5) c3(1,2) n by (simp add: b_def r_def)
  have dr: "drop r b = a @ NUL # post" by (simp add: r_def b_def)
  have "r < length b" by (simp add: r_def b_def)
  moreover have "b ! r = c3"
    using c3(1) nth_append_length [of "ws1 @ w @ replicate (length ws2) NUL" c3 q3] by (simp add: ac_simps b_def r_def)
  moreover have "c_str b (length ws1) = w"
    using takeWhile_until_NUL [OF z(1)] p(6) by (cases ws2) (auto simp: c_str_def b_def)
  moreover have "c_str b r = a" unfolding c_str_def dr by (rule takeWhile_until_NUL [OF z(2)])
  moreover have "r \<ge> length ws1 + n \<Longrightarrow> length a = 0" using n p(1) by (simp add: r_def del: length_0_conv)
  ultimately show ?thesis
    unfolding split_line_def Let_def n_def [symmetric] buf
    using p(9) c3(3) by (simp add: s1 s2 s3)
qed

text \<open>
  Splitting a line (C13). For every line, the loops over indices stay inside the buffer, and the command and the
  argument they leave there are the first word of the line and what follows it without the white space around
  it (no argument when nothing follows).
\<close>

theorem split_line_correct:
  assumes "NUL \<notin> set input"
  shows "ok (split_line input) (\<lambda>(buf, command, rest). (c_str buf command, map_option (c_str buf) rest) = words input)"
  by (rule split_line_words [OF assms])

theorem split_line_correct_witness:
  "ok (split_line ('' bye  x y'' @ [CHR 0x0A])) (\<lambda>(buf, command, rest).
     (c_str buf command, map_option (c_str buf) rest) = (''bye'', Some ''x y''))"
proof -
  have w: "words ('' bye  x y'' @ [CHR 0x0A]) = (''bye'', Some ''x y'')" by code_simp
  have "NUL \<notin> set ('' bye  x y'' @ [CHR 0x0A])" by simp
  from split_line_correct [OF this] show ?thesis unfolding w .
qed

end
