(* ===== verification/Sofsip_Cli.thy ===== *)
theory Sofsip_Cli
  imports Ssc_Calls Ssc_Input Goption_Errors Sofsip_Line
begin

text \<open>
  The command line program: \<open>sofsip_cli.c\<close>. Start-up (\<open>sofsip_init\<close>) reads the environment and the command line
  into the configuration; the main loop then hands typed lines to \<open>sofsip_handle_input_cb\<close> and events of the
  stack to the client; \<open>main\<close> puts both together.

  \<^item> The variables of \<open>cli_conf\<close> that options point to are variables of the option parser's memory, at the
    addresses below. A text of the environment is a block of that memory which the parser does not own.
  \<^item> The three callbacks \<open>main\<close> installs only print, or stop the main loop: what they print appears in the
    output at the place where the client calls them.
  \<^item> \<open>cli_env\<close> is what the program finds outside: GLib, the environment variables, the option group of
    GStreamer (in a build with it), and whether the event loop can be created and standard input be watched.
\<close>

section \<open>Start-up\<close>

record cli_env =
  env_glib :: glib_env
  env_getenv :: "string \<Rightarrow> string option"
  env_gst_group :: "GOptionGroup option"
  env_main_loop :: bool
  env_root_register :: bool
  env_root_unregister :: bool
  env_strerror :: string

definition autoanswer_at :: nat where "autoanswer_at = 0"
definition register_at :: nat where "register_at = 1"
definition contact_at :: nat where "contact_at = 2"
definition media_addr_at :: nat where "media_addr_at = 3"
definition media_impl_at :: nat where "media_impl_at = 4"
definition registrar_at :: nat where "registrar_at = 5"
definition proxy_at :: nat where "proxy_at = 6"
definition stun_server_at :: nat where "stun_server_at = 7"
definition aor_at :: nat where "aor_at = 8"
definition certdir_at :: nat where "certdir_at = 9"

lemmas conf_addresses = autoanswer_at_def register_at_def contact_at_def media_addr_at_def media_impl_at_def
  registrar_at_def proxy_at_def stun_server_at_def aor_at_def certdir_at_def

definition flag_option :: "string \<Rightarrow> char \<Rightarrow> nat \<Rightarrow> string \<Rightarrow> GOptionEntry" where
  "flag_option long short at desc =
     \<lparr>long_name = long, short_name = short, flags = 0, arg = G_OPTION_ARG_NONE, arg_data = at,
      description = Some desc, arg_description = None\<rparr>"

definition text_option :: "string \<Rightarrow> char \<Rightarrow> nat \<Rightarrow> string \<Rightarrow> string \<Rightarrow> GOptionEntry" where
  "text_option long short at desc arg_desc =
     \<lparr>long_name = long, short_name = short, flags = 0, arg = G_OPTION_ARG_STRING, arg_data = at,
      description = Some desc, arg_description = Some arg_desc\<rparr>"

definition sofsip_options :: "GOptionEntry list" where
  "sofsip_options =
     [flag_option ''autoanswer'' (CHR ''a'') autoanswer_at ''Auto-answer to calls'',
      flag_option ''register'' (CHR ''R'') register_at ''Register at startup'',
      text_option ''contact'' (CHR ''c'') contact_at ''SIP contact, local address to bind to (optional)'' ''SIP-URI'',
      text_option ''media-addr'' (CHR ''m'') media_addr_at ''media address (optional)'' ''address'',
      text_option ''media-impl'' (CHR ''i'') media_impl_at ''media implementation to use'' ''dummy,gstreamer'',
      text_option ''registrar'' (CHR ''r'') registrar_at ''SIP registrar/server (optional)'' ''SIP-URI'',
      text_option ''proxy'' (CHR ''p'') proxy_at ''outbound proxy (optional)'' ''SIP-URI'',
      text_option ''stun-server'' (CHR ''s'') stun_server_at ''STUN server (optional)'' ''address'']"

text \<open>The memory at the start of \<open>main\<close>: the configuration is all zero.\<close>

definition start_memory :: "string list \<Rightarrow> opt" where
  "start_memory args =
     \<lparr>groups = [], parameter_string = None, help_enabled = False, ignore_unknown = False, main_group = None,
      changes = [], pending_nulls = [], int_at = (\<lambda>_. 0), ptr_at = (\<lambda>_. None), blocks = (\<lambda>_. None), next_block = 0,
      argc = length args, argv = map Some args, gerror = None, gcalls = [], g_out = [], g_warnings = [], g_prgname = []\<rparr>"

text \<open>\<open>conf->... = getenv(name)\<close>\<close>

definition from_environment :: "cli_env \<Rightarrow> string \<times> nat \<Rightarrow> opt \<Rightarrow> opt" where
  "from_environment X v s =
     (let (p, s) = g_strdup (env_getenv X (fst v)) s in s\<lparr>ptr_at := (ptr_at s)(snd v := p)\<rparr>)"

definition environment_variables :: "(string \<times> nat) list" where
  "environment_variables =
     [(''SOFSIP_ADDRESS'', aor_at), (''SOFSIP_PROXY'', proxy_at), (''SOFSIP_REGISTRAR'', registrar_at),
      (''SOFSIP_CERTDIR'', certdir_at), (''SOFSIP_STUN_SERVER'', stun_server_at)]"

definition init_context :: "cli_env \<Rightarrow> opt \<Rightarrow> opt" where
  "init_context X s =
     (let s = fold (from_environment X) environment_variables s;
          s = g_option_context_new (Some ''- sofsip_cli usage'') s;
          s = g_option_context_add_main_entries sofsip_options s
      in case env_gst_group X of None \<Rightarrow> s | Some g \<Rightarrow> g_option_context_add_group g s)"

text \<open>The first argument that is left and does not start with a dash.\<close>

fun address_argument :: "string option list \<Rightarrow> string option" where
  "address_argument [] = None"
| "address_argument (None # as) = address_argument as"
| "address_argument (Some a # as) = (if starts_with_dash a then address_argument as else Some a)"

text \<open>A text variable of the configuration, when it is used.\<close>

definition conf_text :: "nat \<Rightarrow> opt \<Rightarrow> string option run" where
  "conf_text d s =
     (case ptr_at s d of
        None \<Rightarrow> Inr None
      | Some a \<Rightarrow> (case blocks s a of Some (Chars t) \<Rightarrow> Inr (Some t) | _ \<Rightarrow> Inl (Crash Use_after_free)))"

definition conf_flag :: "nat \<Rightarrow> opt \<Rightarrow> bool" where
  "conf_flag d s \<longleftrightarrow> int_at s d \<noteq> 0"

definition read_conf :: "string option \<Rightarrow> opt \<Rightarrow> ssc_conf run" where
  "read_conf address s =
     andthen (case address of None \<Rightarrow> conf_text aor_at s | Some a \<Rightarrow> Inr (Some a)) (\<lambda>aor.
     andthen (conf_text certdir_at s) (\<lambda>certdir.
     andthen (conf_text contact_at s) (\<lambda>contact.
     andthen (conf_text media_addr_at s) (\<lambda>media_addr.
     andthen (conf_text media_impl_at s) (\<lambda>media_impl.
     andthen (conf_text proxy_at s) (\<lambda>proxy.
     andthen (conf_text registrar_at s) (\<lambda>registrar.
     andthen (conf_text stun_server_at s) (\<lambda>stun_server.
     Inr \<lparr>conf_aor = aor, conf_certdir = certdir, conf_contact = contact, conf_media_addr = media_addr,
          conf_media_impl = media_impl, conf_proxy = proxy, conf_registrar = registrar,
          conf_stun_server = stun_server, conf_autoanswer = conf_flag autoanswer_at s,
          conf_register = conf_flag register_at s\<rparr>))))))))"

text \<open>The result (0, or -1 when standard input cannot be watched), the configuration and \<open>cli_init\<close>.\<close>

definition sofsip_init :: "cli_env \<Rightarrow> opt \<Rightarrow> (int \<times> ssc_conf \<times> bool) run" where
  "sofsip_init X s =
     andthen (g_option_context_parse (env_glib X) (init_context X s)) (\<lambda>(okay, s).
     if \<not> okay then
       (case gerror s of
          None \<Rightarrow> Inl (Crash Null_deref)
        | Some (_, message) \<Rightarrow> Inl (Exit 1 (g_out s @ concat [''option parsing failed: '', message, nl])))
     else
       andthen (g_option_context_free s) (\<lambda>s.
       andthen (read_conf (address_argument (drop 1 (take (argc s) (argv s)))) s) (\<lambda>conf.
       Inr (if env_root_register X then (0, conf, True) else (-1, conf, False)))))"

section \<open>Commands\<close>

definition sofsip_help :: "cli \<Rightarrow> cli" where
  "sofsip_help c = cli_printf (fmt
     [''Synopsis:'', nl,
      tab, ''addr <my-sip-address-uri> (set public address)'', nl,
      tab, ''b (bye)'', nl,
      tab, ''c (cancel)'', nl,
      tab, ''hold <to-sip-address-uri> (hold) '', nl,
      tab, ''i <to-sip-address-uri> (invite) '', nl,
      tab, ''k <[method:'', [CHR 0x22], ''realm'', [CHR 0x22], '':user:]password> (authenticate)'', nl,
      tab, ''l (list operations)'', nl,
      tab, ''m <to-sip-address-uri> (message)'', nl,
      tab, ''o <to-sip-address-uri> (options)'', nl,
      tab, ''ref <to-sip-address-uri> (refer)'', nl,
      tab, ''r [sip-registrar-uri] (register)'', nl,
      tab, ''u (unregister)'', nl,
      tab, ''p [-] (publish) '', nl,
      tab, ''up (unpublish)'', nl,
      tab, ''set (print current settings)'', nl,
      tab, ''s <to-sip-address-uri> (subscribe)'', nl,
      tab, ''U (unsubscribe)'', nl,
      tab, ''z (zap operation)'', nl,
      tab, ''info'', nl,
      tab, ''e|q|x (exit)'', nl,
      tab, ''h|? (help)'', nl]) c"

text \<open>A call of the client.\<close>

definition with_ssc :: "(ssc \<Rightarrow> ssc res) \<Rightarrow> cli \<Rightarrow> cli res" where
  "with_ssc f c = andthen (f (cli_ssc c)) (\<lambda>s. Inr (c\<lparr>cli_ssc := s\<rparr>))"

text \<open>A line asked for with a prompt; at the end of the input the buffer keeps what it held.\<close>

definition ask :: "string \<Rightarrow> cli \<Rightarrow> string \<times> cli" where
  "ask prompt c =
     (let (r, c) = ssc_input_read_string 160 (ssc_input_set_prompt prompt c)
      in (case r of None \<Rightarrow> cli_junk c | Some t \<Rightarrow> takeWhile (\<lambda>x. x \<noteq> NUL) t, c))"

definition SOFSIP_PROMPT :: string where
  "SOFSIP_PROMPT = ''sofsip> ''"

text \<open>\<open>command[strcspn(command, " \\t\\n\\r=")] == '='\<close>\<close>

definition is_assignment :: "string \<Rightarrow> bool" where
  "is_assignment command \<longleftrightarrow>
     take 1 (dropWhile (\<lambda>c. c \<notin> {CHR '' '', CHR 0x09, CHR 0x0A, CHR 0x0D, CHR ''=''}) command) = ''=''"

text \<open>The if-chain, in the order of the source.\<close>

definition run_command :: "sofia_env \<Rightarrow> param_env \<Rightarrow> string \<Rightarrow> string option \<Rightarrow> cli \<Rightarrow> cli res" where
  "run_command E P command rest c =
     (let match = strcasecmp_eq command; exact = (\<lambda>t. command = t) in
      if match ''a'' \<or> match ''answer'' then with_ssc (ssc_answer E 200 ''OK'') c
      else if match ''addr'' then with_ssc (\<lambda>s. Inr (ssc_set_public_address rest s)) c
      else if match ''b'' \<or> match ''bye'' then with_ssc ssc_bye c
      else if match ''c'' \<or> match ''cancel'' then with_ssc ssc_cancel c
      else if exact ''d'' then with_ssc (ssc_answer E 480 ''Temporarily Unavailable'') c
      else if exact ''D'' then with_ssc (ssc_answer E 603 ''Decline'') c
      else if match ''h'' \<or> match ''help'' then Inr (sofsip_help c)
      else if match ''i'' \<or> match ''invite'' then with_ssc (ssc_invite E rest) c
      else if match ''info'' then
        (let (msg, c) = ask ''Enter INFO message> '' c in with_ssc (ssc_info rest msg) c)
      else if match ''hold'' then with_ssc (\<lambda>s. Inr (ssc_hold s)) c
      else if match ''unhold'' then with_ssc (\<lambda>s. Inr (ssc_hold s)) c
      else if match ''k'' \<or> match ''key'' then with_ssc (ssc_auth rest) c
      else if match ''l'' \<or> match ''list'' then with_ssc ssc_list c
      else if match ''m'' \<or> match ''message'' then
        (let (msg, c) = ask ''Enter message> '' c in with_ssc (ssc_message E rest msg) c)
      else if match ''set'' then with_ssc (\<lambda>s. Inr (ssc_print_settings s)) c
      else if match ''s'' \<or> match ''subscribe'' then with_ssc (ssc_subscribe E rest) c
      else if match ''w'' \<or> match ''watch'' then with_ssc (ssc_watch E rest) c
      else if match ''o'' \<or> match ''options'' then with_ssc (ssc_options E rest) c
      else if match ''p'' \<or> match ''publish'' then with_ssc (ssc_publish E rest) c
      else if match ''up'' \<or> match ''unpublish'' then with_ssc (ssc_unpublish E) c
      else if match ''r'' \<or> match ''register'' then with_ssc (ssc_register E rest) c
      else if exact ''u'' \<or> match ''unregister'' then with_ssc (ssc_unregister E rest) c
      else if match ''ref'' \<or> match ''refer'' then
        (let (msg, c) = ask ''Enter refer_to address: '' c in with_ssc (ssc_refer E rest msg) c)
      else if exact ''U'' \<or> match ''us'' \<or> match ''unsubscribe'' then with_ssc ssc_unsubscribe c
      else if match ''z'' \<or> match ''zap'' then with_ssc (ssc_zap E) c
      else if match ''q'' \<or> match ''x'' \<or> match ''exit'' then with_ssc (\<lambda>s. Inr (ssc_shutdown s)) c
      else if is_assignment command then
        (case strchr_split (CHR ''='') command of
           None \<Rightarrow> Inr c
         | Some (name, value) \<Rightarrow> with_ssc (\<lambda>s. Inr (ssc_param P name (tl value) s)) (c\<lparr>cli_prompt := False\<rparr>))
      else if match ''?'' \<or> match ''h'' \<or> match ''help'' then Inr (sofsip_help c)
      else Inr (cli_printf (fmt [''Unknown command. Type '', [CHR 0x22], ''help'', [CHR 0x22], '' for help'', nl]) c))"

definition sofsip_handle_input_cb :: "sofia_env \<Rightarrow> param_env \<Rightarrow> string option \<Rightarrow> cli \<Rightarrow> cli res" where
  "sofsip_handle_input_cb E P input c =
     (case input of
        None \<Rightarrow> with_ssc (\<lambda>s. Inr (ssc_shutdown s)) c
      | Some line \<Rightarrow>
          andthen (split_line line) (\<lambda>(buf, command, rest).
          let c = ssc_input_add_history (c_str buf command) c in
          andthen (run_command E P (c_str buf command) (map_option (c_str buf) rest) (c\<lparr>cli_prompt := False\<rparr>)) (\<lambda>c.
          Inr (ssc_input_set_prompt SOFSIP_PROMPT c))))"

definition sofsip_handle_input :: "sofia_env \<Rightarrow> param_env \<Rightarrow> cli \<Rightarrow> cli res" where
  "sofsip_handle_input E P c = ssc_input_read_char (sofsip_handle_input_cb E P) c"

section \<open>The main loop\<close>

definition sofsip_auth_req_cb :: "string option \<Rightarrow> string" where
  "sofsip_auth_req_cb scheme =
     fmt [''Please authenticate '', apos, pstr scheme, apos, '' with the '', apos, ''k'', apos, '' command (e.g. '', apos,
          ''k password'', apos, '', or '', apos, ''k [method:realm:username:]password'', apos, '')'', nl]"

definition sofsip_event_cb :: "cli \<Rightarrow> string" where
  "sofsip_event_cb c = in_prompt c"

definition sofsip_shutdown_cb :: "cli \<Rightarrow> cli" where
  "sofsip_shutdown_cb c = c\<lparr>cli_main := False\<rparr>"

text \<open>What a step of the client has written, with what the callbacks print in between.\<close>

definition callback_out :: "cli \<Rightarrow> out \<Rightarrow> out list" where
  "callback_out c x =
     (case x of
        Call_auth_req_cb scheme \<Rightarrow> [x, Print (sofsip_auth_req_cb scheme)]
      | Call_event_cb _ \<Rightarrow> [x, Print (sofsip_event_cb c)]
      | _ \<Rightarrow> [x])"

definition run_callbacks :: "out list \<Rightarrow> cli \<Rightarrow> cli" where
  "run_callbacks old c =
     (let new = drop (length old) (io_out (cli_ssc c));
          c = c\<lparr>cli_ssc := (cli_ssc c)\<lparr>io_out := old @ concat (map (callback_out c) new)\<rparr>\<rparr>
      in if Call_exit_cb \<in> set new then sofsip_shutdown_cb c else c)"

definition sofsip_signal_handler :: "int \<Rightarrow> cli \<Rightarrow> cli run" where
  "sofsip_signal_handler signo c =
     Inl (Exit (-1) (fmt [nl, nl, ''WARNING: The program has received signal ('', fmt_d signo, '') and will terminate.'', nl]))"

text \<open>What wakes the program up: typed characters, an event of the stack, or a signal.\<close>

datatype wakeup =
    Typed string
  | Stack nua_event int string handle "ptr option" "sip_t option" tags
  | Signal int

definition lift :: "'a res \<Rightarrow> 'a run" where
  "lift m = (case m of Inl e \<Rightarrow> Inl (Crash e) | Inr x \<Rightarrow> Inr x)"

fun wake :: "sofia_env \<Rightarrow> param_env \<Rightarrow> wakeup \<Rightarrow> cli \<Rightarrow> cli run" where
  "wake E P (Typed t) c = lift (sofsip_handle_input E P (c\<lparr>in_tty := in_tty c @ t\<rparr>))"
| "wake E P (Stack ev st ph nh op sip t) c =
     lift (andthen (with_ssc (priv_callback E ev st ph nh op sip t) c) (\<lambda>c'. Inr (run_callbacks (io_out (cli_ssc c)) c')))"
| "wake E P (Signal n) c = sofsip_signal_handler n c"

text \<open>The loop runs until the exit callback stops it; \<open>cli_main\<close> of the result tells whether it still waits.\<close>

fun sofsip_mainloop_run :: "sofia_env \<Rightarrow> param_env \<Rightarrow> wakeup list \<Rightarrow> cli \<Rightarrow> cli run" where
  "sofsip_mainloop_run E P [] c = Inr c"
| "sofsip_mainloop_run E P (w # ws) c =
     (if cli_main c then andthen (wake E P w c) (sofsip_mainloop_run E P ws) else Inr c)"

section \<open>The program\<close>

definition sofsip_mainloop_create :: "cli_env \<Rightarrow> unit run" where
  "sofsip_mainloop_create X = (if env_main_loop X then Inr () else Inl (Crash Assert_failed))"

definition sofsip_deinit :: "cli_env \<Rightarrow> cli \<Rightarrow> cli" where
  "sofsip_deinit X c =
     (if cli_init c then
        (let c = c\<lparr>cli_init := False\<rparr>;
             c = (if env_root_unregister X then c
                  else cli_printf (fmt [''su_root_unregister: '', env_strerror X, nl]) c)
         in ssc_input_remove_handler c)
      else c)"

text \<open>The state around a client, before the input handler is installed. A client that was released or never
  created leaves only its output.\<close>

definition cli_around :: "ssc \<Rightarrow> bool \<Rightarrow> cli" where
  "cli_around s init =
     \<lparr>cli_ssc = s, cli_init = init, cli_prompt = False, cli_main = True, cli_junk = [], in_handler = False,
      in_prompt = ''> '', in_tty = [], in_stdio = []\<rparr>"

definition no_client :: "io \<Rightarrow> ssc" where
  "no_client i = (zero_ssc [] [])\<lparr>io_out := io_out i\<rparr>"

text \<open>\<open>main\<close>: whether it has returned (or still waits in the main loop), and all output. \<open>got\<close>, \<open>launched\<close>,
  \<open>allocs\<close> and \<open>handles\<close> are the outcomes of allocations and of the stack, as in \<open>ssc_create\<close>.\<close>

definition enter :: "ssc \<Rightarrow> bool \<Rightarrow> cli" where
  "enter s init = ssc_input_install_handler SOFSIP_PROMPT (cli_around (install_callbacks True True True s) init)"

definition leave :: "cli_env \<Rightarrow> cli \<Rightarrow> cli" where
  "leave X c = ssc_input_clear_history (sofsip_deinit X c)"

definition main ::
  "cli_env \<Rightarrow> sofia_env \<Rightarrow> param_env \<Rightarrow> bool \<Rightarrow> bool \<Rightarrow> ptr option list \<Rightarrow> handle option list \<Rightarrow> string list \<Rightarrow> wakeup list
   \<Rightarrow> (bool \<times> out list) run" where
  "main X E P got launched allocs handles args ws =
     andthen (sofsip_mainloop_create X) (\<lambda>_.
     andthen (sofsip_init X (start_memory args)) (\<lambda>(res, conf, init).
     if res \<noteq> 0 then Inl (Crash Assert_failed)
     else
       andthen (lift (ssc_create E got launched allocs handles conf)) (\<lambda>(client, written).
       case client of
         None \<Rightarrow> Inr (True, io_out (cli_ssc (leave X (cli_around (no_client written) init))))
       | Some s \<Rightarrow>
           andthen (sofsip_mainloop_run E P ws (enter s init)) (\<lambda>c.
           if cli_main c then Inr (False, io_out (cli_ssc c))
           else Inr (True, io_out (cli_ssc (leave X (c\<lparr>cli_ssc := no_client (ssc_destroy (cli_ssc c))\<rparr>))))))))"

end
