(* ===== verification/Sofsip_Run.thy ===== *)
theory Sofsip_Run
  imports Sofsip_Cli
begin

text \<open>
  Properties of the command line program (sofsip_cli.c): which command does what, start-up, and what every state
  of the running program satisfies.
\<close>

section \<open>The commands as a table\<close>

text \<open>What a command word stands for: an action of the client, made from the argument and from a line asked for
  with a prompt, or the help text.\<close>

datatype effect = Do "string option" "string option \<Rightarrow> string \<Rightarrow> action" | Help

text \<open>A row: whether upper and lower case are told apart, the word, and its effect.\<close>

type_synonym row = "bool \<times> string \<times> effect"

definition command_rows :: "row list" where
  "command_rows =
     [(False, ''a'', Do None (\<lambda>_ _. Answer 200 ''OK'')), (False, ''answer'', Do None (\<lambda>_ _. Answer 200 ''OK'')),
      (False, ''addr'', Do None (\<lambda>r _. Set_address r)),
      (False, ''b'', Do None (\<lambda>_ _. Bye)), (False, ''bye'', Do None (\<lambda>_ _. Bye)),
      (False, ''c'', Do None (\<lambda>_ _. Cancel)), (False, ''cancel'', Do None (\<lambda>_ _. Cancel)),
      (True, ''d'', Do None (\<lambda>_ _. Answer 480 ''Temporarily Unavailable'')),
      (True, ''D'', Do None (\<lambda>_ _. Answer 603 ''Decline'')),
      (False, ''h'', Help), (False, ''help'', Help),
      (False, ''i'', Do None (\<lambda>r _. Invite r)), (False, ''invite'', Do None (\<lambda>r _. Invite r)),
      (False, ''info'', Do (Some ''Enter INFO message> '') Info),
      (False, ''hold'', Do None (\<lambda>_ _. Hold)), (False, ''unhold'', Do None (\<lambda>_ _. Hold)),
      (False, ''k'', Do None (\<lambda>r _. Auth r)), (False, ''key'', Do None (\<lambda>r _. Auth r)),
      (False, ''l'', Do None (\<lambda>_ _. List_handles)), (False, ''list'', Do None (\<lambda>_ _. List_handles)),
      (False, ''m'', Do (Some ''Enter message> '') Message), (False, ''message'', Do (Some ''Enter message> '') Message),
      (False, ''set'', Do None (\<lambda>_ _. Settings)),
      (False, ''s'', Do None (\<lambda>r _. Subscribe r)), (False, ''subscribe'', Do None (\<lambda>r _. Subscribe r)),
      (False, ''w'', Do None (\<lambda>r _. Watch r)), (False, ''watch'', Do None (\<lambda>r _. Watch r)),
      (False, ''o'', Do None (\<lambda>r _. Options r)), (False, ''options'', Do None (\<lambda>r _. Options r)),
      (False, ''p'', Do None (\<lambda>r _. Publish r)), (False, ''publish'', Do None (\<lambda>r _. Publish r)),
      (False, ''up'', Do None (\<lambda>_ _. Unpublish)), (False, ''unpublish'', Do None (\<lambda>_ _. Unpublish)),
      (False, ''r'', Do None (\<lambda>r _. Register r)), (False, ''register'', Do None (\<lambda>r _. Register r)),
      (True, ''u'', Do None (\<lambda>r _. Unregister r)), (False, ''unregister'', Do None (\<lambda>r _. Unregister r)),
      (False, ''ref'', Do (Some ''Enter refer_to address: '') Refer), (False, ''refer'', Do (Some ''Enter refer_to address: '') Refer),
      (True, ''U'', Do None (\<lambda>_ _. Unsubscribe)), (False, ''us'', Do None (\<lambda>_ _. Unsubscribe)),
      (False, ''unsubscribe'', Do None (\<lambda>_ _. Unsubscribe)),
      (False, ''z'', Do None (\<lambda>_ _. Zap)), (False, ''zap'', Do None (\<lambda>_ _. Zap)),
      (False, ''q'', Do None (\<lambda>_ _. Shutdown)), (False, ''x'', Do None (\<lambda>_ _. Shutdown)), (False, ''exit'', Do None (\<lambda>_ _. Shutdown))]"

definition row_matches :: "string \<Rightarrow> row \<Rightarrow> bool" where
  "row_matches command r = (case r of (exact, name, _) \<Rightarrow> if exact then command = name else strcasecmp_eq command name)"

definition effect_of :: "string \<Rightarrow> effect option" where
  "effect_of command = map_option (\<lambda>(_, _, e). e) (find (row_matches command) command_rows)"

fun perform_effect :: "sofia_env \<Rightarrow> param_env \<Rightarrow> string option \<Rightarrow> effect \<Rightarrow> cli \<Rightarrow> cli res" where
  "perform_effect E P rest Help c = Inr (sofsip_help c)"
| "perform_effect E P rest (Do None act) c = with_ssc (perform E P (act rest [])) c"
| "perform_effect E P rest (Do (Some prompt) act) c = (let (msg, c) = ask prompt c in with_ssc (perform E P (act rest msg)) c)"

text \<open>A word that is in no row: an assignment, a question mark, or nothing known.\<close>

definition other_command :: "param_env \<Rightarrow> string \<Rightarrow> cli \<Rightarrow> cli res" where
  "other_command P command c =
     (if CHR ''='' \<in> set command then
        with_ssc (\<lambda>s. Inr (ssc_param P (takeWhile (\<lambda>x. x \<noteq> CHR ''='') command)
                              (tl (dropWhile (\<lambda>x. x \<noteq> CHR ''='') command)) s)) (c\<lparr>cli_prompt := False\<rparr>)
      else if command = ''?'' then Inr (sofsip_help c)
      else Inr (cli_printf (fmt [''Unknown command. Type '', [CHR 0x22], ''help'', [CHR 0x22], '' for help'', nl]) c))"

lemma perform_fun_eqs:
  "perform E P (Answer st ph) = ssc_answer E st ph" "perform E P Bye = ssc_bye" "perform E P Cancel = ssc_cancel"
  "perform E P (Set_address a) = (\<lambda>s. Inr (ssc_set_public_address a s))"
  "perform E P (Invite d) = ssc_invite E d" "perform E P (Info d m) = ssc_info d m" "perform E P Hold = (\<lambda>s. Inr (ssc_hold s))"
  "perform E P (Auth d) = ssc_auth d" "perform E P List_handles = ssc_list" "perform E P (Message d m) = ssc_message E d m"
  "perform E P Settings = (\<lambda>s. Inr (ssc_print_settings s))" "perform E P (Subscribe d) = ssc_subscribe E d"
  "perform E P (Watch d) = ssc_watch E d" "perform E P (Options d) = ssc_options E d" "perform E P (Publish d) = ssc_publish E d"
  "perform E P Unpublish = ssc_unpublish E" "perform E P (Register d) = ssc_register E d"
  "perform E P (Unregister d) = ssc_unregister E d" "perform E P (Refer d to) = ssc_refer E d to"
  "perform E P Unsubscribe = ssc_unsubscribe" "perform E P Zap = ssc_zap E" "perform E P Shutdown = (\<lambda>s. Inr (ssc_shutdown s))"
  by (simp_all add: fun_eq_iff)

lemma if_disj: "(if a \<or> b then x else y) = (if a then x else if b then x else y)"
  by simp

lemma case_if_None: "(case (if b then Some e else r) of None \<Rightarrow> n | Some x \<Rightarrow> f x) = (if b then f e else case r of None \<Rightarrow> n | Some x \<Rightarrow> f x)"
  by simp

lemma map_option_if: "map_option f (if b then Some x else r) = (if b then Some (f x) else map_option f r)"
  by simp

lemma run_command_chain:
  "run_command E P command rest c =
     (case effect_of command of
        Some e \<Rightarrow> perform_effect E P rest e c
      | None \<Rightarrow>
          (if is_assignment command then
             (case strchr_split (CHR ''='') command of
                None \<Rightarrow> Inr c
              | Some (name, value) \<Rightarrow> with_ssc (\<lambda>s. Inr (ssc_param P name (tl value) s)) (c\<lparr>cli_prompt := False\<rparr>))
           else if strcasecmp_eq command ''?'' \<or> strcasecmp_eq command ''h'' \<or> strcasecmp_eq command ''help'' then Inr (sofsip_help c)
           else Inr (cli_printf (fmt [''Unknown command. Type '', [CHR 0x22], ''help'', [CHR 0x22], '' for help'', nl]) c)))"
  unfolding run_command_def effect_of_def command_rows_def find.simps row_matches_def prod.case if_True if_False Let_def
    map_option_if option.map case_if_None option.case perform_effect.simps perform_fun_eqs if_disj
  by (rule refl)

text \<open>No word is in two rows, so their order does not matter.\<close>

lemma filter_at_most_one:
  "sorted_wrt R xs \<Longrightarrow> (\<And>x y. R x y \<Longrightarrow> m x \<Longrightarrow> \<not> m y) \<Longrightarrow> length (filter m xs) \<le> 1"
proof (induction xs)
  case (Cons x xs)
  show ?case
  proof (cases "m x")
    case True
    then have "filter m xs = []" using Cons.prems by (fastforce simp: filter_empty_conv)
    then show ?thesis by simp
  qed (use Cons in simp)
qed simp

text \<open>The words with their lower-case form.\<close>

definition row_key :: "row \<Rightarrow> bool \<times> string \<times> string" where
  "row_key r = (case r of (e, n, _) \<Rightarrow> (e, n, map c_tolower n))"

definition keys_differ :: "bool \<times> string \<times> string \<Rightarrow> bool \<times> string \<times> string \<Rightarrow> bool" where
  "keys_differ r q = (case r of (e, n, k) \<Rightarrow> case q of (f, m, l) \<Rightarrow> if e \<and> f then n \<noteq> m else k \<noteq> l)"

lemma row_keys:
  "map row_key command_rows =
     [(False, ''a'', ''a''), (False, ''answer'', ''answer''), (False, ''addr'', ''addr''), (False, ''b'', ''b''),
      (False, ''bye'', ''bye''), (False, ''c'', ''c''), (False, ''cancel'', ''cancel''), (True, ''d'', ''d''),
      (True, ''D'', ''d''), (False, ''h'', ''h''), (False, ''help'', ''help''), (False, ''i'', ''i''),
      (False, ''invite'', ''invite''), (False, ''info'', ''info''), (False, ''hold'', ''hold''),
      (False, ''unhold'', ''unhold''), (False, ''k'', ''k''), (False, ''key'', ''key''), (False, ''l'', ''l''),
      (False, ''list'', ''list''), (False, ''m'', ''m''), (False, ''message'', ''message''),
      (False, ''set'', ''set''), (False, ''s'', ''s''), (False, ''subscribe'', ''subscribe''), (False, ''w'', ''w''),
      (False, ''watch'', ''watch''), (False, ''o'', ''o''), (False, ''options'', ''options''), (False, ''p'', ''p''),
      (False, ''publish'', ''publish''), (False, ''up'', ''up''), (False, ''unpublish'', ''unpublish''),
      (False, ''r'', ''r''), (False, ''register'', ''register''), (True, ''u'', ''u''),
      (False, ''unregister'', ''unregister''), (False, ''ref'', ''ref''), (False, ''refer'', ''refer''),
      (True, ''U'', ''u''), (False, ''us'', ''us''), (False, ''unsubscribe'', ''unsubscribe''),
      (False, ''z'', ''z''), (False, ''zap'', ''zap''), (False, ''q'', ''q''), (False, ''x'', ''x''),
      (False, ''exit'', ''exit'')]"
  by code_simp

lemma command_keys_differ: "sorted_wrt keys_differ (map row_key command_rows)"
  unfolding row_keys by (simp add: keys_differ_def)

lemma keys_differ_match: "keys_differ (row_key r) (row_key q) \<Longrightarrow> row_matches w r \<Longrightarrow> \<not> row_matches w q"
  by (cases r; cases q) (auto simp: keys_differ_def row_key_def row_matches_def strcasecmp_eq_def split: if_splits)

lemma one_row: "length (filter (row_matches w) command_rows) \<le> 1"
  by (rule filter_at_most_one [OF command_keys_differ [unfolded sorted_wrt_map] keys_differ_match])

lemma effect_ofI:
  assumes "(e, n, x) \<in> set command_rows" "row_matches w (e, n, x)"
  shows "effect_of w = Some x"
proof -
  have "(e, n, x) \<in> set (filter (row_matches w) command_rows)" using assms by simp
  then have "filter (row_matches w) command_rows = [(e, n, x)]"
    using one_row [of w] by (cases "filter (row_matches w) command_rows") auto
  moreover have "filter P xs = [y] \<Longrightarrow> find P xs = Some y" for P and y :: row and xs
    by (induction xs) (auto split: if_splits)
  ultimately show ?thesis by (simp add: effect_of_def)
qed

lemma effect_of_None: "effect_of w = None \<Longrightarrow> \<not> strcasecmp_eq w ''h'' \<and> \<not> strcasecmp_eq w ''help''"
proof -
  have "(False, ''h'', Help) \<in> set command_rows" "(False, ''help'', Help) \<in> set command_rows"
    by (simp_all add: command_rows_def)
  from effect_ofI [OF this(1), of w] effect_ofI [OF this(2), of w]
  show "effect_of w = None \<Longrightarrow> \<not> strcasecmp_eq w ''h'' \<and> \<not> strcasecmp_eq w ''help''"
    by (auto simp: row_matches_def)
qed

lemma question_mark: "strcasecmp_eq w ''?'' \<longleftrightarrow> w = ''?''"
proof -
  have up: "char_of (of_char x + 32 :: nat) \<noteq> CHR ''?''" if "65 \<le> (of_char x :: nat)" "(of_char x :: nat) \<le> 90" for x
  proof
    assume "char_of (of_char x + 32 :: nat) = CHR ''?''"
    then have "of_char (char_of (of_char x + 32 :: nat) :: char) = (63 :: nat)" by simp
    with that show False by simp
  qed
  have lower: "c_tolower x = CHR ''?'' \<longleftrightarrow> x = CHR ''?''" for x
  proof (cases "65 \<le> (of_char x :: nat) \<and> (of_char x :: nat) \<le> 90")
    case True
    then have "c_tolower x \<noteq> CHR ''?''" using up [of x] unfolding c_tolower_def Let_def by simp
    moreover have "x \<noteq> CHR ''?''" using True by auto
    ultimately show ?thesis by simp
  next
    case False
    then have "c_tolower x = x" unfolding c_tolower_def Let_def by auto
    then show ?thesis by simp
  qed
  have "map c_tolower ''?'' = ''?''" by code_simp
  then have "strcasecmp_eq w ''?'' \<longleftrightarrow> map c_tolower w = ''?''" by (simp only: strcasecmp_eq_def)
  also have "\<dots> \<longleftrightarrow> w = ''?''"
  proof (cases w)
    case (Cons x xs)
    then show ?thesis using lower [of x] by (cases xs) simp_all
  qed simp
  finally show ?thesis .
qed

lemma is_assignment_word:
  assumes "\<forall>x \<in> set w. \<not> is_ws x"
  shows "is_assignment w \<longleftrightarrow> CHR ''='' \<in> set w"
  using assms by (induction w) (auto simp: is_assignment_def is_ws_def)

section \<open>The client behind the commands\<close>

lemma wf_cli_printf [simp]: "wf_ssc (cli_ssc (cli_printf t c)) = wf_ssc (cli_ssc c)"
  by (simp add: cli_printf_def emit_def)

lemma wf_refresh [simp]: "wf_ssc (cli_ssc (ssc_input_refresh c)) = wf_ssc (cli_ssc c)"
  by (simp add: ssc_input_refresh_def)

lemma wf_set_prompt [simp]: "wf_ssc (cli_ssc (ssc_input_set_prompt p c)) = wf_ssc (cli_ssc c)"
  by (simp add: ssc_input_set_prompt_def Let_def)

lemma wf_help [simp]: "wf_ssc (cli_ssc (sofsip_help c)) = wf_ssc (cli_ssc c)"
  by (simp add: sofsip_help_def)

lemma read_string_ssc: "ssc_input_read_string n c = (r, c') \<Longrightarrow> cli_ssc c' = cli_ssc c"
  using stdio_fill_sound [of "n - 1" c] by (auto simp: ssc_input_read_string_def Let_def split: if_splits)

lemma wf_ask: "ask p c = (m, c') \<Longrightarrow> wf_ssc (cli_ssc c') = wf_ssc (cli_ssc c)"
  using read_string_ssc [of 160 "ssc_input_set_prompt p c"] by (auto simp: ask_def split: prod.splits)

lemma ok_with_ssc: "ok (f (cli_ssc c)) wf_ssc \<Longrightarrow> ok (with_ssc f c) (\<lambda>c. wf_ssc (cli_ssc c))"
  by (simp add: with_ssc_def)

lemma if_returns_with_ssc: "if_returns (f (cli_ssc c)) wf_ssc \<Longrightarrow> if_returns (with_ssc f c) (\<lambda>c. wf_ssc (cli_ssc c))"
  by (simp add: with_ssc_def)

definition is_command :: "action \<Rightarrow> bool" where
  "is_command a = (case a of Event _ _ _ _ _ _ _ \<Rightarrow> False | _ \<Rightarrow> True)"

lemma command_rows_commands: "(e, n, Do p act) \<in> set command_rows \<Longrightarrow> is_command (act r m)"
  by (auto simp: command_rows_def is_command_def)

lemma find_mem: "find P xs = Some y \<Longrightarrow> y \<in> set xs"
  by (auto simp: find_Some_iff)

lemma effect_of_command: "effect_of w = Some (Do p act) \<Longrightarrow> is_command (act r m)"
proof -
  assume "effect_of w = Some (Do p act)"
  then obtain e n where "find (row_matches w) command_rows = Some (e, n, Do p act)" by (auto simp: effect_of_def)
  from command_rows_commands [OF find_mem [OF this]] show ?thesis .
qed

text \<open>A command whose argument is missing crashes, so what it leaves needs no hypothesis.\<close>

lemma command_wf:
  assumes "wf_ssc s" "is_command a"
  shows "if_returns (perform E P a s) wf_ssc"
proof (cases "action_ok a s")
  case True
  show ?thesis unfolding if_returns_def using perform_wf [OF assms(1) True] by blast
next
  case False
  with assms(2) show ?thesis
    by (cases a) (auto simp: is_command_def ssc_subscribe_def ssc_watch_def ssc_auth_def)
qed

lemma effect_wf:
  assumes "wf_ssc (cli_ssc c)" "\<And>p act m. e = Do p act \<Longrightarrow> is_command (act r m)"
  shows "if_returns (perform_effect E P r e c) (\<lambda>c. wf_ssc (cli_ssc c))"
proof (cases e)
  case (Do p act)
  then show ?thesis
    using assms by (cases p) (auto simp: Let_def wf_ask intro!: if_returns_with_ssc command_wf split: prod.split)
qed (use assms in simp)

lemma effect_ok:
  assumes "wf_ssc (cli_ssc c)" "\<And>p act m s. e = Do p act \<Longrightarrow> \<not> risky (act r m) \<and> action_ok (act r m) s"
  shows "ok (perform_effect E P r e c) (\<lambda>c. wf_ssc (cli_ssc c))"
proof (cases e)
  case (Do p act)
  then show ?thesis
    using assms by (cases p) (auto simp: Let_def wf_ask intro!: ok_with_ssc perform_ok split: prod.split)
qed (use assms in simp)

lemma other_ok: "wf_ssc (cli_ssc c) \<Longrightarrow> ok (other_command P w c) (\<lambda>c. wf_ssc (cli_ssc c))"
  by (auto simp: other_command_def intro!: ok_with_ssc)

lemma words_word: "\<forall>x \<in> set (fst (words t)). \<not> is_ws x"
  by (auto simp: words_def Let_def dest: set_takeWhileD)

lemma run_command_table:
  "run_command E P (fst (words t)) r c =
     (case effect_of (fst (words t)) of Some e \<Rightarrow> perform_effect E P r e c | None \<Rightarrow> other_command P (fst (words t)) c)"
  using is_assignment_word [OF words_word] effect_of_None
  by (auto simp: run_command_chain other_command_def question_mark strchr_split_def split: option.split)

text \<open>A typed line is its words.\<close>

lemma handle_line:
  assumes "NUL \<notin> set line"
  shows "sofsip_handle_input_cb E P (Some line) c =
     andthen (run_command E P (fst (words line)) (snd (words line)) (c\<lparr>cli_prompt := False\<rparr>)) (\<lambda>c.
     Inr (ssc_input_set_prompt SOFSIP_PROMPT c))"
proof -
  obtain buf command rest where s: "split_line line = Inr (buf, command, rest)"
      "(c_str buf command, map_option (c_str buf) rest) = words line"
    using split_line_words [OF assms] by (auto simp: ok_iff)
  then show ?thesis
    by (simp add: sofsip_handle_input_cb_def ssc_input_add_history_def Let_def prod_eq_iff)
qed

lemma handle_input_wf:
  assumes "wf_ssc (cli_ssc c)" "\<And>l. line = Some l \<Longrightarrow> NUL \<notin> set l"
  shows "if_returns (sofsip_handle_input_cb E P line c) (\<lambda>c. wf_ssc (cli_ssc c))"
proof (cases line)
  case None
  then show ?thesis using assms(1) by (simp add: sofsip_handle_input_cb_def with_ssc_def)
next
  case (Some l)
  have "if_returns (run_command E P (fst (words l)) (snd (words l)) (c\<lparr>cli_prompt := False\<rparr>)) (\<lambda>c. wf_ssc (cli_ssc c))"
    unfolding run_command_table using assms(1) effect_of_command
    by (auto split: option.split intro!: effect_wf ok_if_returns [OF other_ok])
  then show ?thesis using assms(2) Some by (simp add: handle_line)
qed

section \<open>Start-up\<close>

text \<open>The memory before the options are parsed: the texts of the environment, and nothing recorded.\<close>

definition startup_ok :: "opt \<Rightarrow> bool" where
  "startup_ok s \<longleftrightarrow> changes s = [] \<and> pending_nulls s = [] \<and> groups s = [] \<and> main_group s = None \<and> texts s
     \<and> (\<forall>a \<in> dom (blocks s). a < next_block s) \<and> (\<forall>d a. ptr_at s d = Some a \<longrightarrow> a \<in> dom (blocks s))
     \<and> argv s = map Some (map the (argv s)) \<and> argc s = length (argv s)"

lemma startup_start: "startup_ok (start_memory args)"
  by (auto simp: startup_ok_def start_memory_def texts_def comp_def)

lemma startup_environment:
  assumes "startup_ok s"
  shows "startup_ok (from_environment X v s)"
proof (cases "env_getenv X (fst v)")
  case None
  then show ?thesis using assms by (auto simp: from_environment_def g_strdup_def startup_ok_def texts_def)
next
  case (Some t)
  then show ?thesis
    using assms by (auto simp: from_environment_def g_strdup_def g_malloc_def startup_ok_def texts_def less_Suc_eq)
qed

lemma startup_fold: "startup_ok s \<Longrightarrow> startup_ok (fold (from_environment X) vs s)"
  by (induction vs arbitrary: s) (auto intro: startup_environment)

lemma options_fine:
  "\<forall>e \<in> set (map clean_short_name sofsip_options). entry_ok e \<and> no_vector e \<and> reports e"
  by code_simp

lemma options_share:
  "\<forall>e \<in> set (map clean_short_name sofsip_options). \<forall>d \<in> set (map clean_short_name sofsip_options). shares_kind e d"
  by code_simp

lemma init_context_ok:
  fixes args :: "string list"
  assumes "env_gst_group X = None"
  defines "s \<equiv> init_context X (start_memory args)"
  shows "context_for no_vector s" "((heap_ok s \<and> kinds K s) \<and> vars_live s) \<and> texts s" "pending_nulls s = []" "reporting s"
    "\<forall>g \<in> set (all_groups s). pre_parse_func g = None \<and> post_parse_func g = None"
proof -
  define e where "e = fold (from_environment X) environment_variables (start_memory args)"
  have e: "startup_ok e" unfolding e_def by (rule startup_fold [OF startup_start])
  have s: "s = g_option_context_add_main_entries sofsip_options (g_option_context_new (Some ''- sofsip_cli usage'') e)"
    using assms(1) by (simp add: s_def init_context_def e_def Let_def)
  have sel: "groups s = []" "changes s = []" "pending_nulls s = []" "ptr_at s = ptr_at e" "blocks s = blocks e"
    "next_block s = next_block e" "argv s = argv e" "argc s = argc e"
    by (simp_all add: s g_option_context_add_main_entries_def g_option_context_new_def)
  have g: "main_group s = Some ((g_option_group_new None None None 0 None)\<lparr>entries := map clean_short_name sofsip_options\<rparr>)"
    by (simp add: s g_option_context_add_main_entries_def g_option_context_new_def g_option_group_add_entries_def
        g_option_group_new_def)
  have ent: "g \<in> set (all_groups s) \<Longrightarrow> entries g = map clean_short_name sofsip_options
      \<and> pre_parse_func g = None \<and> post_parse_func g = None" for g
    using sel(1) g by (simp add: all_groups_def g_option_group_new_def)
  have "\<forall>k < argc s. argv s ! k \<noteq> None"
    using e sel unfolding startup_ok_def by (metis length_map nth_map option.discI)
  moreover have "set (all_entries s) \<subseteq> set (map clean_short_name sofsip_options)"
    using ent by (auto simp: all_entries_def)
  then have "\<forall>e \<in> set (all_entries s). \<forall>d \<in> set (all_entries s). shares_kind e d"
    using options_share by blast
  ultimately have "context_ok s"
    using ent options_fine sel e by (simp add: context_ok_def startup_ok_def)
  then show "context_for no_vector s" using ent options_fine by (simp add: context_for_def)
  show "((heap_ok s \<and> kinds K s) \<and> vars_live s) \<and> texts s"
    using e sel by (simp add: startup_ok_def heap_ok_def kinds_def vars_live_def live_vars_def texts_def)
  show "pending_nulls s = []" by (rule sel(3))
  show "reporting s" using ent options_fine by (simp add: reporting_def)
  show "\<forall>g \<in> set (all_groups s). pre_parse_func g = None \<and> post_parse_func g = None" using ent by blast
qed

lemma safe_conf_text: "vars_live s \<Longrightarrow> texts s \<Longrightarrow> safe (conf_text d s) (\<lambda>_. True)"
proof (cases "ptr_at s d")
  case (Some a)
  assume "vars_live s" "texts s"
  then have "a \<in> dom (blocks s)" "\<forall>ps. blocks s a \<noteq> Some (Strv ps)"
    using Some by (simp_all add: vars_live_def live_vars_def texts_def)
  then obtain b where "blocks s a = Some b" "\<forall>ps. b \<noteq> Strv ps" by blast
  then show ?thesis using Some by (cases b) (simp_all add: conf_text_def)
qed (simp add: conf_text_def)

lemma safe_read_conf: "vars_live s \<Longrightarrow> texts s \<Longrightarrow> safe (read_conf a s) (\<lambda>_. True)"
  by (auto simp: read_conf_def split: option.split intro!: safe_mono [OF safe_conf_text])

lemma context_free_keeps:
  "vars_live s \<Longrightarrow> texts s \<Longrightarrow> ok (g_option_context_free s) (\<lambda>s. vars_live s \<and> texts s)"
proof -
  have keep: "ptr_at (fold g_option_group_free gs s) = ptr_at s \<and> blocks (fold g_option_group_free gs s) = blocks s" for gs s
    by (induction gs arbitrary: s) (auto simp: g_option_group_free_def split: option.split)
  moreover have "ptr_at (g_option_group_free g s) = ptr_at s \<and> blocks (g_option_group_free g s) = blocks s" for g s
    by (simp add: g_option_group_free_def split: option.split)
  moreover assume "vars_live s" "texts s"
  then have "\<forall>d a. ptr_at s d = Some a \<longrightarrow> a \<in> dom (blocks s)" "texts s" by (auto simp: vars_live_def live_vars_def)
  ultimately show ?thesis
    by (simp add: g_option_context_free_def free_changes_list_def free_pending_nulls_def Let_def vars_live_def
        live_vars_def texts_def split: option.split)
qed

text \<open>
  Start-up. In a build without GStreamer, whatever the command line and the environment are,
  \<open>sofsip_init\<close> does not crash: it prints the help and exits, prints why the options are wrong and exits, or
  returns a configuration read from live memory, with 0 exactly when standard input could be registered.
\<close>

theorem init_never_crashes:
  assumes "env_gst_group X = None"
  shows "safe (sofsip_init X (start_memory args)) (\<lambda>(res, conf, init).
     init = env_root_register X \<and> res = (if env_root_register X then 0 else -1))"
proof -
  note c = init_context_ok [OF assms, of args]
  let ?p = "g_option_context_parse (env_glib X) (init_context X (start_memory args))"
  have "if_returns ?p (\<lambda>(b, s'). \<not> b \<longrightarrow> gerror s' \<noteq> None)"
    using parse_fails_with_error [OF _ c(4,5)] by (auto simp: if_returns_def)
  obtain K where "context_for (\<lambda>e. of_kind K e \<and> no_vector e) (init_context X (start_memory args))"
    using common_kinds [OF c(1)] by blast
  from safe_conj [OF text_variables.safe_parse [OF this c(2,3)] \<open>if_returns ?p _\<close>]
  have "safe ?p (\<lambda>(b, s'). if b then vars_live s' \<and> texts s' else gerror s' \<noteq> None)"
    by (rule safe_mono) auto
  then show ?thesis
    unfolding sofsip_init_def
  proof (rule safe_andthenI)
    fix x :: "bool \<times> opt"
    assume x: "case x of (b, s') \<Rightarrow> if b then vars_live s' \<and> texts s' else gerror s' \<noteq> None"
    obtain b s' where e: "x = (b, s')" by fastforce
    have "safe (g_option_context_free s') (\<lambda>s. vars_live s \<and> texts s)" if b
      using context_free_keeps [of s'] x e that by (auto simp: ok_iff)
    then show "safe (case x of (okay, s) \<Rightarrow>
        if \<not> okay then (case gerror s of None \<Rightarrow> Inl (Crash Null_deref)
             | Some (_, message) \<Rightarrow> Inl (Exit 1 (g_out s @ concat [''option parsing failed: '', message, nl])))
        else andthen (g_option_context_free s) (\<lambda>s.
             andthen (read_conf (address_argument (drop 1 (take (argc s) (argv s)))) s) (\<lambda>conf.
             Inr (if env_root_register X then (0, conf, True) else (-1, conf, False)))))
       (\<lambda>(res, conf, init). init = env_root_register X \<and> res = (if env_root_register X then 0 else -1))"
      using x e by (auto elim!: safe_mono intro!: safe_mono [OF safe_read_conf])
  qed
qed

definition demo_cli_env :: cli_env where
  "demo_cli_env = \<lparr>env_glib = example_env,
     env_getenv = (\<lambda>v. if v = ''SOFSIP_PROXY'' then Some ''sip:old'' else None),
     env_gst_group = None, env_main_loop = True, env_root_register = True, env_root_unregister = True, env_strerror = []\<rparr>"

text \<open>The command line goes before the environment.\<close>

lemma demo_init:
  "case sofsip_init demo_cli_env (start_memory [''sofsip'', ''-p'', ''sip:b'', ''sip:me'']) of
     Inr (r, conf, i) \<Rightarrow> r = 0 \<and> i \<and> conf_aor conf = Some ''sip:me'' \<and> conf_proxy conf = Some ''sip:b'' \<and> \<not> conf_register conf | _ \<Rightarrow> False"
  by code_simp

theorem init_never_crashes_witness:
  "env_gst_group demo_cli_env = None \<and> safe (sofsip_init demo_cli_env (start_memory [''sofsip'', ''-p'', ''sip:b'', ''sip:me'']))
       (\<lambda>(res, conf, init). init \<and> res = 0)"
proof -
  have g: "env_gst_group demo_cli_env = None" "env_root_register demo_cli_env" by (simp_all add: demo_cli_env_def)
  from init_never_crashes [OF g(1), of "[''sofsip'', ''-p'', ''sip:b'', ''sip:me'']"] g show ?thesis by simp
qed

section \<open>The running program\<close>

text \<open>The states the main loop can be in: from the state in which \<open>main\<close> enters it, by everything that can wake
  the program up while the loop runs. The stack keeps its side of the contract (\<open>event_ok\<close>).\<close>

fun stack_ok :: "wakeup \<Rightarrow> cli \<Rightarrow> bool" where
  "stack_ok (Stack ev st ph nh op sip t) c = event_ok ev st nh op sip (cli_ssc c)"
| "stack_ok _ c = True"

inductive running :: "cli_env \<Rightarrow> sofia_env \<Rightarrow> param_env \<Rightarrow> cli \<Rightarrow> bool" for X E P where
  entered: "sofsip_init X (start_memory args) = Inr (0, conf, init) \<Longrightarrow>
    ssc_create E got launched allocs handles conf = Inr (Some s, written) \<Longrightarrow> running X E P (enter s init)"
| woken: "running X E P c \<Longrightarrow> cli_main c \<Longrightarrow> stack_ok w c \<Longrightarrow> wake E P w c = Inr c' \<Longrightarrow> running X E P c'"

inductive_cases runningE: "running X E P c"

lemma created_client:
  assumes "ssc_create E got launched allocs handles conf = Inr (Some s, written)"
  shows "got \<and> launched"
  using assms by (cases got; cases launched) (auto simp: ssc_create_def Let_def andthen_eq_Inr)

lemma wf_enter: "wf_ssc (cli_ssc (enter s init)) = wf_ssc s"
  by (simp add: enter_def ssc_input_install_handler_def cli_around_def)

lemma wf_run_callbacks [simp]: "wf_ssc (cli_ssc (run_callbacks old c)) = wf_ssc (cli_ssc c)"
  by (simp add: run_callbacks_def Let_def sofsip_shutdown_cb_def)

lemma lift_Inr [simp]: "lift m = Inr x \<longleftrightarrow> m = Inr x"
  by (simp add: lift_def split: sum.split)

lemma read_char_wf:
  assumes "wf_ssc (cli_ssc c)"
  shows "if_returns (sofsip_handle_input E P c) (\<lambda>c. wf_ssc (cli_ssc c))"
proof -
  obtain buf c' where r: "tty_read 1023 c = (buf, c')" by fastforce
  have "wf_ssc (cli_ssc c')" using tty_read_sound(2) [OF r] assms by simp
  moreover have "NUL \<notin> set (takeWhile (\<lambda>x. x \<noteq> NUL) l)" for l by (auto dest: set_takeWhileD)
  ultimately show ?thesis
    by (auto simp: sofsip_handle_input_def ssc_input_read_char_def r intro!: if_returns_mono [OF handle_input_wf])
qed

lemma event_wf:
  assumes "wf_ssc s" "event_ok ev st nh op sip s"
  shows "if_returns (priv_callback E ev st ph nh op sip t s) wf_ssc"
  using perform_wf [of s "Event ev st ph nh op sip t"] assms by (fastforce simp: if_returns_def)

lemma wake_wf:
  assumes "wf_ssc (cli_ssc c)" "stack_ok w c" "wake E P w c = Inr c'"
  shows "wf_ssc (cli_ssc c')"
proof (cases w)
  case (Typed t)
  then have "sofsip_handle_input E P (c\<lparr>in_tty := in_tty c @ t\<rparr>) = Inr c'" using assms(3) by simp
  moreover have "wf_ssc (cli_ssc (c\<lparr>in_tty := in_tty c @ t\<rparr>))" using assms(1) by simp
  ultimately show ?thesis using read_char_wf [of "c\<lparr>in_tty := in_tty c @ t\<rparr>" E P] by (simp only: if_returns_def)
next
  case (Stack ev st ph nh op sip t)
  then have "event_ok ev st nh op sip (cli_ssc c)" using assms(2) by simp
  from if_returns_with_ssc [where c = c and f = "priv_callback E ev st ph nh op sip t", OF event_wf [OF assms(1) this]] assms(3) Stack
  show ?thesis by (auto simp: if_returns_def andthen_eq_Inr)
next
  case (Signal n)
  then show ?thesis using assms(3) by (simp add: sofsip_signal_handler_def)
qed

lemma running_wf: "running X E P c \<Longrightarrow> wf_ssc (cli_ssc c)"
proof (induction rule: running.induct)
  case (entered args conf init got launched allocs handles s written)
  then show ?case using created_client wf_create by (fastforce simp: wf_enter)
qed (rule wake_wf)

text \<open>
  The running program (C3). In every state of the main loop, from the first prompt on, whatever lines have been
  typed, however they were cut, and whatever the stack has delivered within its contract, the client is
  well-formed: its operations are one finite list of live, owned memory and its media texts do not dangle.
\<close>

theorem running_client_well_formed:
  assumes "running X E P c"
  shows "wf_ssc (cli_ssc c) \<and> (\<exists>ps. chain (ssc_heap (cli_ssc c)) (ssc_operations (cli_ssc c)) ps
     \<and> dom (ssc_heap (cli_ssc c)) = set ps \<and> distinct ps)"
proof -
  note w = running_wf [OF assms]
  then obtain ps where "opers (cli_ssc c) ps" by (rule wfE)
  with w show ?thesis using opersD by blast
qed

lemma demo_running: "\<exists>s. running demo_cli_env demo_env demo_params (enter s True)"
proof -
  obtain conf where c: "sofsip_init demo_cli_env (start_memory [''sofsip'', ''-p'', ''sip:b'', ''sip:me'']) = Inr (0, conf, True)"
      "\<not> conf_register conf"
    using demo_init by (auto split: sum.splits prod.splits)
  from c(2) obtain s written where "ssc_create demo_env True True [] [] conf = Inr (Some s, written)"
    by (simp add: ssc_create_def Let_def)
  then show ?thesis using running.entered [OF c(1)] by blast
qed

theorem running_client_well_formed_witness:
  "\<exists>c. running demo_cli_env demo_env demo_params c \<and> wf_ssc (cli_ssc c)"
proof -
  obtain s where "running demo_cli_env demo_env demo_params (enter s True)" using demo_running by blast
  with running_client_well_formed [OF this] show ?thesis by blast
qed

text \<open>A line that neither answers, invites nor authenticates, and has the argument its command needs.\<close>

definition harmless :: "string \<Rightarrow> bool" where
  "harmless line \<longleftrightarrow> (case effect_of (fst (words line)) of
     Some (Do p act) \<Rightarrow> (\<forall>m s. \<not> risky (act (snd (words line)) m) \<and> action_ok (act (snd (words line)) m) s)
   | _ \<Rightarrow> True)"

text \<open>
  Typing does not crash the program (C4). In every state of the main loop, a line that is not a command to
  answer, invite or authenticate, and that has an argument if its command is \<open>subscribe\<close> or \<open>watch\<close>, is
  carried out to its end, whatever it contains, and leaves a well-formed client.
\<close>

theorem harmless_lines_run:
  assumes "running X E P c" "NUL \<notin> set line" "harmless line"
  shows "ok (sofsip_handle_input_cb E P (Some line) c) (\<lambda>c. wf_ssc (cli_ssc c))"
proof -
  let ?c = "c\<lparr>cli_prompt := False\<rparr>"
  have w: "wf_ssc (cli_ssc ?c)" using running_wf [OF assms(1)] by simp
  have "ok (run_command E P (fst (words line)) (snd (words line)) ?c) (\<lambda>c. wf_ssc (cli_ssc c))"
    unfolding run_command_table using assms(3) w
    by (auto simp: harmless_def split: option.splits effect.splits intro!: other_ok effect_ok)
  then show ?thesis by (simp add: handle_line [OF assms(2)])
qed

theorem harmless_lines_run_witness:
  "\<exists>c. running demo_cli_env demo_env demo_params c
     \<and> ok (sofsip_handle_input_cb demo_env demo_params (Some ''  what is = this ''  ) c) (\<lambda>c. wf_ssc (cli_ssc c))"
proof -
  obtain s where r: "running demo_cli_env demo_env demo_params (enter s True)" using demo_running by blast
  have "NUL \<notin> set ''  what is = this ''" by simp
  moreover have "fst (words ''  what is = this '') = ''what''" by code_simp
  moreover have "find (row_matches ''what'') command_rows = None"
    by (simp add: find_None_iff command_rows_def row_matches_def strcasecmp_eq_def c_tolower_def)
  ultimately show ?thesis using harmless_lines_run [OF r] r by (auto simp: harmless_def effect_of_def)
qed

text \<open>Without their argument, three commands read through a null pointer.\<close>

lemma missing_argument_crashes:
  assumes "w \<in> {''s'', ''w'', ''k''}"
  shows "run_command E P w None c = Inl Null_deref"
proof -
  have "(False, ''s'', Do None (\<lambda>r _. Subscribe r)) \<in> set command_rows" "(False, ''w'', Do None (\<lambda>r _. Watch r)) \<in> set command_rows"
    "(False, ''k'', Do None (\<lambda>r _. Auth r)) \<in> set command_rows"
    by (simp_all add: command_rows_def)
  note e = this [THEN effect_ofI]
  show ?thesis
    using assms e(1) [of "''s''"] e(2) [of "''w''"] e(3) [of "''k''"]
    by (auto simp: run_command_chain row_matches_def strcasecmp_eq_def with_ssc_def ssc_subscribe_def ssc_watch_def ssc_auth_def)
qed

section \<open>Quitting\<close>

lemma quit_command: "run_command E P ''q'' r c = Inr (c\<lparr>cli_ssc := ssc_shutdown (cli_ssc c)\<rparr>)"
proof -
  have "(False, ''q'', Do None (\<lambda>_ _. Shutdown)) \<in> set command_rows" by (simp add: command_rows_def)
  then have "effect_of ''q'' = Some (Do None (\<lambda>_ _. Shutdown))"
    by (rule effect_ofI) (simp add: row_matches_def strcasecmp_eq_def)
  then show ?thesis by (simp add: run_command_chain with_ssc_def)
qed

lemma cli_printf_sel [simp]:
  "cli_main (cli_printf t c) = cli_main c" "ssc_exit_cb (cli_ssc (cli_printf t c)) = ssc_exit_cb (cli_ssc c)"
  "io_out (cli_ssc (cli_printf t c)) = io_out (cli_ssc c) @ [Print t]"
  by (simp_all add: cli_printf_def emit_def)

lemma input_sel [simp]:
  "cli_main (ssc_input_refresh c) = cli_main c" "cli_main (ssc_input_set_prompt p c) = cli_main c"
  "ssc_exit_cb (cli_ssc (ssc_input_refresh c)) = ssc_exit_cb (cli_ssc c)"
  "ssc_exit_cb (cli_ssc (ssc_input_set_prompt p c)) = ssc_exit_cb (cli_ssc c)"
  "x \<in> set (io_out (cli_ssc c)) \<Longrightarrow> x \<in> set (io_out (cli_ssc (ssc_input_refresh c)))"
  "x \<in> set (io_out (cli_ssc c)) \<Longrightarrow> x \<in> set (io_out (cli_ssc (ssc_input_set_prompt p c)))"
  by (simp_all add: ssc_input_refresh_def ssc_input_set_prompt_def Let_def)

lemma shutdown_sel: "ssc_exit_cb (ssc_shutdown s) = ssc_exit_cb s" "Nua_shutdown \<in> set (io_out (ssc_shutdown s))"
  by (simp_all add: ssc_shutdown_def emit_def)

lemma typed_quit:
  assumes "in_handler c" "in_tty c = []"
  shows "ok (wake E P (Typed (''q'' @ nl)) c) (\<lambda>c'. cli_main c' = cli_main c
     \<and> ssc_exit_cb (cli_ssc c') = ssc_exit_cb (cli_ssc c) \<and> Nua_shutdown \<in> set (io_out (cli_ssc c')))"
proof -
  have "words ''q'' = (''q'', None)" by code_simp
  then have h: "sofsip_handle_input_cb E P (Some ''q'') c = Inr (ssc_input_set_prompt SOFSIP_PROMPT
      (c\<lparr>cli_prompt := False, cli_ssc := ssc_shutdown (cli_ssc c)\<rparr>))" for c
    by (simp add: handle_line quit_command)
  show ?thesis
    using assms
    by (simp add: sofsip_handle_input_def ssc_input_read_char_def tty_read_def first_line_def nl_def Let_def lift_def h shutdown_sel)
qed

lemma answered_shutdown:
  assumes "ssc_exit_cb (cli_ssc c)" "200 \<le> status"
  shows "ok (wake E P (Stack nua_r_shutdown status ph nh op sip t) c)
     (\<lambda>c'. \<not> cli_main c' \<and> set (io_out (cli_ssc c)) \<subseteq> set (io_out (cli_ssc c')))"
proof -
  let ?new = "[Print (fmt [ssc_name (cli_ssc c), '': nua_shutdown: '', fmt_03d status, '' '', ph, nl]), Call_exit_cb]
      @ (if ssc_event_cb (cli_ssc c) then [Call_event_cb (nua_event_code nua_r_shutdown)] else [])"
  have "priv_callback E nua_r_shutdown status ph nh op sip t (cli_ssc c) = Inr ((cli_ssc c)\<lparr>io_out := io_out (cli_ssc c) @ ?new\<rparr>)"
    using assms by (simp add: priv_callback_def dispatch_def ssc_r_shutdown_def Let_def emit_def)
  then show ?thesis
    by (simp add: with_ssc_def lift_def run_callbacks_def Let_def sofsip_shutdown_cb_def)
qed

text \<open>
  Quitting (C16). From the main loop with its input handler and exit callback in place, typing \<open>q\<close> asks the
  stack to shut down, and its final answer ends the main loop.
\<close>

theorem quitting_ends_main_loop:
  assumes "cli_main c" "in_handler c" "in_tty c = []" "ssc_exit_cb (cli_ssc c)" "200 \<le> status"
  shows "ok (sofsip_mainloop_run E P [Typed (''q'' @ nl), Stack nua_r_shutdown status ph nh op sip t] c)
     (\<lambda>c'. \<not> cli_main c' \<and> Nua_shutdown \<in> set (io_out (cli_ssc c')))"
proof -
  have "ok (sofsip_mainloop_run E P [Stack nua_r_shutdown status ph nh op sip t] c1)
      (\<lambda>c'. \<not> cli_main c' \<and> Nua_shutdown \<in> set (io_out (cli_ssc c')))"
    if "cli_main c1 = cli_main c \<and> ssc_exit_cb (cli_ssc c1) = ssc_exit_cb (cli_ssc c) \<and> Nua_shutdown \<in> set (io_out (cli_ssc c1))"
    for c1
    using that assms(1,4,5) by (auto intro!: ok_mono [OF answered_shutdown] simp del: wake.simps)
  then have "ok (andthen (wake E P (Typed (''q'' @ nl)) c) (sofsip_mainloop_run E P [Stack nua_r_shutdown status ph nh op sip t]))
      (\<lambda>c'. \<not> cli_main c' \<and> Nua_shutdown \<in> set (io_out (cli_ssc c')))"
    by (rule ok_andthenI [OF typed_quit [OF assms(2,3)]])
  then show ?thesis using assms(1) by (simp del: wake.simps)
qed

theorem quitting_ends_main_loop_witness:
  "ok (sofsip_mainloop_run demo_env demo_params [Typed (''q'' @ nl), Stack nua_r_shutdown 200 ''OK'' 0 None None demo_tags]
        (enter demo_ssc True)) (\<lambda>c'. \<not> cli_main c' \<and> Nua_shutdown \<in> set (io_out (cli_ssc c')))"
  by (rule quitting_ends_main_loop)
     (simp_all add: enter_def ssc_input_install_handler_def cli_around_def install_callbacks_def)

end
