(* ===== verification/Net_Socket.thy ===== *)
theory Net_Socket
  imports Ssc_Prelude
begin

text \<open>
  Binding a UDP port, or a pair of adjacent ports, for media (\<open>farsight-netsocket-utils.c\<close>).

  The operating system is the record \<open>kernel\<close>: the sockets the process has open and what each is bound
  to, the descriptors \<open>socket()\<close> will hand out (it returns -1 when they run out), and \<open>k_accepts\<close>, what
  the system answers to the \<open>i\<close>-th call of \<open>bind\<close> on a socket that is open and not yet bound. A closed
  descriptor and a socket that is bound already are refused. A port is a \<open>guint16\<close>, so \<open>16 word\<close>.
\<close>

section \<open>The operating system\<close>

record kernel =
  k_sockets :: "int \<rightharpoonup> 16 word option"
  k_descriptors :: "int list"
  k_binds :: nat
  k_accepts :: "nat \<Rightarrow> 16 word \<Rightarrow> bool"
  k_random :: nat
  k_stderr :: "string list"

definition sys_socket :: "kernel \<Rightarrow> int \<times> kernel" where
  "sys_socket k =
     (case k_descriptors k of
        [] \<Rightarrow> (-1, k)
      | fd # fds \<Rightarrow> (fd, k\<lparr>k_descriptors := fds, k_sockets := (k_sockets k)(fd \<mapsto> None)\<rparr>))"

definition sys_bind :: "int \<Rightarrow> 16 word \<Rightarrow> kernel \<Rightarrow> int \<times> kernel" where
  "sys_bind fd port k =
     (let k' = k\<lparr>k_binds := Suc (k_binds k)\<rparr> in
      if k_sockets k fd = Some None \<and> k_accepts k (k_binds k) port
      then (0, k'\<lparr>k_sockets := (k_sockets k)(fd \<mapsto> Some port)\<rparr>)
      else (-1, k'))"

definition sys_close :: "int \<Rightarrow> kernel \<Rightarrow> kernel" where
  "sys_close fd k = k\<lparr>k_sockets := (k_sockets k)(fd := None)\<rparr>"

definition eprint :: "string list \<Rightarrow> kernel \<Rightarrow> kernel" where
  "eprint ps k = k\<lparr>k_stderr := k_stderr k @ [fmt ps]\<rparr>"

definition port_dec :: "16 word \<Rightarrow> string" where
  "port_dec p = dec (unat p)"

section \<open>Binding\<close>

definition FARSIGHT_NETSOCKET_PORT_SCAN_RANGE :: nat where
  "FARSIGHT_NETSOCKET_PORT_SCAN_RANGE = 4096"

definition start_port :: "16 word \<Rightarrow> kernel \<Rightarrow> 16 word \<times> kernel" where
  "start_port l_port k =
     (if l_port = 0 then
        (let p = of_nat (k_random k mod (65535 - 1023) + 1023) in
         (p, eprint [''Selected random start port of '', port_dec p, ''.'', nl] k))
      else (l_port, k))"

definition next_port :: "16 word \<Rightarrow> 16 word" where
  "next_port pri_port = of_nat ((unat pri_port + 2) mod ((65535 - 1023) + 1023))"

text \<open>
  One turn of the loop: the primary port, then the paired port if one is wanted. The result is the socket,
  the port that has been bound, the paired socket, whether the pair is complete, and whether \<open>break\<close> ends the loop.
\<close>

record scan =
  s_fd :: int
  s_port :: "16 word"
  s_found :: bool
  s_lport :: "16 word"
  s_aux :: "int option"

definition bind_primary :: "scan \<Rightarrow> kernel \<Rightarrow> scan \<times> kernel" where
  "bind_primary s k =
     (let (ret, k) = sys_bind (s_fd s) (s_port s) k in
      if ret = 0 then
        (s\<lparr>s_found := True, s_lport := s_port s\<rparr>,
         eprint [''Succesfully bound to local port '', port_dec (s_port s), ''.'', nl] k)
      else
        (s\<lparr>s_found := False\<rparr>,
         eprint [''Unable to bind to local port '', port_dec (s_port s), '' ('', fmt_d ret, '').'', nl]
           (eprint [''bind()''] k)))"

definition bind_pair :: "scan \<Rightarrow> kernel \<Rightarrow> scan \<times> kernel" where
  "bind_pair s k =
     (let (tmp_sockfd, k) = sys_socket k;
          aux_port = s_port s + 1;
          (ret, k) = sys_bind tmp_sockfd aux_port k in
      if ret = 0 then
        (s\<lparr>s_aux := Some tmp_sockfd\<rparr>,
         eprint [''Succesfully bound to local aux port '', port_dec aux_port, ''.'', nl] k)
      else
        (s\<lparr>s_found := False, s_fd := -1\<rparr>,
         sys_close (s_fd s) (sys_close tmp_sockfd
           (eprint [''Unable to bind to local aux port '', dec (unat aux_port + 1), '' ('', fmt_d ret, '').'', nl]
             (eprint [''bind()''] k)))))"

fun scan_loop :: "nat \<Rightarrow> bool \<Rightarrow> bool \<Rightarrow> scan \<Rightarrow> kernel \<Rightarrow> scan \<times> kernel" where
  "scan_loop 0 scan aux s k = (s, k)"
| "scan_loop (Suc n) scan aux s k =
     (if s_found s then (s, k)
      else
        (let (s, k) = bind_primary s k;
             (s, k) = (if s_found s \<and> aux then bind_pair s k else (s, k)) in
         if s_found s \<and> aux then (s, k)
         else if \<not> scan then (s, k)
         else scan_loop n scan aux (s\<lparr>s_port := next_port (s_port s)\<rparr>) k))"

text \<open>The returned socket, the port in \<open>*l_port\<close> and what is left in \<open>*aux_sockfd\<close> (\<open>None\<close>: untouched).\<close>

definition farsight_netsocket_bind_udp_port ::
  "bool \<Rightarrow> 16 word option \<Rightarrow> bool \<Rightarrow> bool \<Rightarrow> kernel \<Rightarrow> (int \<times> 16 word option \<times> int option) \<times> kernel" where
  "farsight_netsocket_bind_udp_port af_inet l_port scan aux k =
     (if \<not> af_inet then ((-1, l_port, None), k)
      else
        (case l_port of
           None \<Rightarrow> ((-1, None, None), k)
         | Some lp \<Rightarrow>
             (let (sockfd, k) = sys_socket k;
                  (pri_port, k) = start_port lp k;
                  (s, k) = scan_loop FARSIGHT_NETSOCKET_PORT_SCAN_RANGE scan aux
                    \<lparr>s_fd = sockfd, s_port = pri_port, s_found = False, s_lport = lp, s_aux = None\<rparr> k in
              if s_found s then ((s_fd s, Some (s_lport s), s_aux s), k)
              else ((-1, Some (s_lport s), s_aux s), sys_close (s_fd s) k))))"

section \<open>Which port is taken\<close>

text \<open>The port of the \<open>d\<close>-th turn, and whether the system accepts it there.\<close>

definition port_at :: "16 word \<Rightarrow> nat \<Rightarrow> 16 word" where
  "port_at lp d = (next_port ^^ d) lp"

definition turns :: "bool \<Rightarrow> nat" where
  "turns scan = (if scan then FARSIGHT_NETSOCKET_PORT_SCAN_RANGE else 1)"

definition accepted :: "kernel \<Rightarrow> 16 word \<Rightarrow> nat \<Rightarrow> bool" where
  "accepted k lp d \<longleftrightarrow> k_accepts k (k_binds k + d) (port_at lp d)"

text \<open>The specification of binding one port: the first port of the scan that the system accepts.\<close>

definition port_choice :: "bool \<Rightarrow> 16 word \<Rightarrow> kernel \<Rightarrow> 16 word option" where
  "port_choice scan lp k = map_option (port_at lp) (List.find (accepted k lp) [0..<turns scan])"

text \<open>
  What the function does, with a pair as well: the answer to the \<open>bind\<close> of the paired port of the first accepted
  port decides. This is not what the comments ask for: after a failure there the scan should restart, but the primary
  socket is closed and never opened again.
\<close>

definition bind_outcome :: "bool \<Rightarrow> bool \<Rightarrow> 16 word \<Rightarrow> kernel \<Rightarrow> 16 word option" where
  "bind_outcome scan aux lp k =
     (case List.find (accepted k lp) [0..<turns scan] of
        None \<Rightarrow> None
      | Some d \<Rightarrow>
          if \<not> aux \<or> k_accepts k (k_binds k + d + 1) (port_at lp d + 1) then Some (port_at lp d) else None)"

lemma outcome_single: "bind_outcome scan False lp k = port_choice scan lp k"
  by (simp add: bind_outcome_def port_choice_def split: option.split)

lemma find_map_Suc: "List.find P (map Suc xs) = map_option Suc (List.find (\<lambda>d. P (Suc d)) xs)"
  by (induction xs) auto

lemma find_upt_Suc:
  "List.find P [0..<Suc n] = (if P 0 then Some 0 else map_option Suc (List.find (\<lambda>d. P (Suc d)) [0..<n]))"
  by (simp add: upt_conv_Cons map_Suc_upt [symmetric] find_map_Suc del: upt_Suc)

lemma eprint_frame [simp]:
  "k_sockets (eprint t k) = k_sockets k" "k_descriptors (eprint t k) = k_descriptors k" "k_binds (eprint t k) = k_binds k"
  "k_accepts (eprint t k) = k_accepts k"
  by (simp_all add: eprint_def)

lemma closed_never_found:
  "\<not> s_found s \<Longrightarrow> k_sockets k (s_fd s) = None \<Longrightarrow>
     \<exists>s' k'. scan_loop n scan aux s k = (s', k') \<and> \<not> s_found s' \<and> s_fd s' = s_fd s \<and> k_sockets k' = k_sockets k
       \<and> s_lport s' = s_lport s"
proof (induction n arbitrary: s k)
  case (Suc n)
  have b: "\<exists>k'. bind_primary s k = (s, k') \<and> k_sockets k' = k_sockets k"
    using Suc.prems by (cases s) (simp add: bind_primary_def sys_bind_def Let_def)
  then obtain k' where k': "bind_primary s k = (s, k')" "k_sockets k' = k_sockets k" by blast
  show ?case
  proof (cases scan)
    case True
    have "\<exists>s'' k''. scan_loop n scan aux (s\<lparr>s_port := next_port (s_port s)\<rparr>) k' = (s'', k'') \<and> \<not> s_found s''
        \<and> s_fd s'' = s_fd s \<and> k_sockets k'' = k_sockets k' \<and> s_lport s'' = s_lport s"
      using Suc.IH [of "s\<lparr>s_port := next_port (s_port s)\<rparr>" k'] Suc.prems k'(2) by simp
    then show ?thesis using Suc.prems k' True by (auto simp: Let_def)
  qed (use Suc.prems k' in \<open>simp add: Let_def\<close>)
qed simp

lemma funpow_next: "port_at (next_port p) d = port_at p (Suc d)"
  by (simp add: port_at_def funpow_Suc_right del: funpow.simps)

text \<open>The loop on an open, unbound socket.\<close>

lemma scan_open:
  assumes "\<not> s_found s" "k_sockets k (s_fd s) = Some None" "n \<noteq> 0" "scan \<or> n = 1"
    and "aux \<Longrightarrow> k_descriptors k = fd2 # fds" "fd2 \<noteq> s_fd s" "k_sockets k (-1) = None" "k_sockets k fd2 = None"
    and "s_aux s = None" "s_fd s \<noteq> -1"
  shows "case List.find (\<lambda>d. k_accepts k (k_binds k + d) (port_at (s_port s) d)) [0..<n] of
      None \<Rightarrow> (\<exists>s' k'. scan_loop n scan aux s k = (s', k') \<and> \<not> s_found s' \<and> s_fd s' = s_fd s
                 \<and> k_sockets k' = k_sockets k)
    | Some d \<Rightarrow>
        (let p = port_at (s_port s) d in
         if \<not> aux then
           (\<exists>s' k'. scan_loop n scan aux s k = (s', k') \<and> s_found s' \<and> s_fd s' = s_fd s \<and> s_lport s' = p \<and> s_aux s' = None
                 \<and> k_sockets k' = (k_sockets k)(s_fd s \<mapsto> Some p))
         else if k_accepts k (k_binds k + d + 1) (p + 1) then
           (\<exists>s' k'. scan_loop n scan aux s k = (s', k') \<and> s_found s' \<and> s_fd s' = s_fd s \<and> s_lport s' = p \<and> s_aux s' = Some fd2
                 \<and> k_sockets k' = (k_sockets k)(s_fd s \<mapsto> Some p, fd2 \<mapsto> Some (p + 1)))
         else
           (\<exists>s' k'. scan_loop n scan aux s k = (s', k') \<and> \<not> s_found s' \<and> s_fd s' = -1
                 \<and> k_sockets k' = (k_sockets k)(s_fd s := None)))"
  using assms
proof (induction n arbitrary: s k)
  case (Suc n)
  show ?case
  proof (cases "k_accepts k (k_binds k) (s_port s)")
    case False
    obtain k' where k': "bind_primary s k = (s, k')" "k_sockets k' = k_sockets k" "k_binds k' = Suc (k_binds k)"
        "k_accepts k' = k_accepts k" "k_descriptors k' = k_descriptors k"
      using False Suc.prems(1,2) by (cases s) (auto simp: bind_primary_def sys_bind_def Let_def)
    show ?thesis
    proof (cases "n = 0 \<or> \<not> scan")
      case True
      then have "n = 0" using Suc.prems(4) by auto
      then show ?thesis using Suc.prems k' False by (auto simp: port_at_def Let_def)
    next
      case n: False
      let ?s = "s\<lparr>s_port := next_port (s_port s)\<rparr>"
      have l: "scan_loop (Suc n) scan aux s k = scan_loop n scan aux ?s k'"
        using Suc.prems(1) k'(1) n by (simp add: Let_def)
      have f: "List.find (\<lambda>d. k_accepts k (k_binds k + d) (port_at (s_port s) d)) [0..<Suc n]
          = map_option Suc (List.find (\<lambda>d. k_accepts k' (k_binds k' + d) (port_at (s_port ?s) d)) [0..<n])"
        using False unfolding find_upt_Suc by (simp add: k' funpow_next port_at_def [of _ 0])
      show ?thesis unfolding f l
        using Suc.IH [of ?s k'] Suc.prems n k'
        by (cases "List.find (\<lambda>d. k_accepts k' (k_binds k' + d) (port_at (s_port ?s) d)) [0..<n]")
           (simp_all add: k' funpow_next Let_def cong: if_cong)
    qed
  next
    case True
    let ?p = "s_port s"
    obtain k' where k': "bind_primary s k = (s\<lparr>s_found := True, s_lport := ?p\<rparr>, k')"
        "k_sockets k' = (k_sockets k)(s_fd s \<mapsto> Some ?p)" "k_binds k' = Suc (k_binds k)"
        "k_accepts k' = k_accepts k" "k_descriptors k' = k_descriptors k"
      using True Suc.prems(2) by (auto simp: bind_primary_def sys_bind_def Let_def)
    have f: "List.find (\<lambda>d. k_accepts k (k_binds k + d) (port_at (s_port s) d)) [0..<Suc n] = Some 0"
      using True unfolding find_upt_Suc by (simp add: port_at_def)
    have p0: "port_at ?p 0 = ?p" by (simp add: port_at_def)
    have fin: "scan_loop m b False s' k = (s', k)" if "s_found s'" for m b s' k using that by (cases m) simp_all
    show ?thesis
    proof (cases aux)
      case False
      then show ?thesis unfolding f using k' Suc.prems(1,9) by (auto simp: p0 Let_def fin)
    next
      case aux: True
      let ?s1 = "s\<lparr>s_found := True, s_lport := ?p\<rparr>"
      show ?thesis
      proof (cases "k_accepts k (Suc (k_binds k)) (?p + 1)")
        case True
        obtain k'' where "bind_pair ?s1 k' = (?s1\<lparr>s_aux := Some fd2\<rparr>, k'')"
            "k_sockets k'' = (k_sockets k)(s_fd s \<mapsto> Some ?p, fd2 \<mapsto> Some (?p + 1))"
          using True k' Suc.prems(5,6) aux by (auto simp: bind_pair_def sys_socket_def sys_bind_def Let_def)
        then show ?thesis unfolding f using k' Suc.prems(1) True aux by (auto simp: p0 Let_def)
      next
        case no: False
        obtain k'' where b: "bind_pair ?s1 k' = (?s1\<lparr>s_found := False, s_fd := -1\<rparr>, k'')"
            "k_sockets k'' = (k_sockets k)(s_fd s := None)"
          using no k' Suc.prems(5,6,8) aux
          by (auto simp: bind_pair_def sys_socket_def sys_bind_def sys_close_def Let_def fun_eq_iff)
        let ?s2 = "?s1\<lparr>s_found := False, s_fd := -1\<rparr>"
        have "k_sockets k'' (-1) = None" using b(2) Suc.prems(7) by simp
        then obtain s3 k3 where "scan_loop n scan aux (?s2\<lparr>s_port := next_port ?p\<rparr>) k'' = (s3, k3)" "\<not> s_found s3" "s_fd s3 = -1"
            "k_sockets k3 = k_sockets k''"
          using closed_never_found [of "?s2\<lparr>s_port := next_port ?p\<rparr>" k'' n scan aux] by auto
        then show ?thesis unfolding f using k' b Suc.prems(1) no aux by (auto simp: p0 Let_def)
      qed
    qed
  qed
qed simp


text \<open>Descriptors are fresh: what \<open>socket()\<close> returns is not negative, not open and not returned twice.\<close>

definition fresh_descriptors :: "kernel \<Rightarrow> bool" where
  "fresh_descriptors k \<longleftrightarrow> distinct (k_descriptors k) \<and> k_sockets k (-1) = None
     \<and> list_all (\<lambda>fd. 0 \<le> fd \<and> k_sockets k fd = None) (k_descriptors k)"

lemma bind_scan:
  assumes "k_descriptors k = fd # fds" "lp \<noteq> 0"
  shows "farsight_netsocket_bind_udp_port True (Some lp) scan aux k
      = (let (s, k) = scan_loop (turns scan) scan aux
               \<lparr>s_fd = fd, s_port = lp, s_found = False, s_lport = lp, s_aux = None\<rparr>
               (k\<lparr>k_descriptors := fds, k_sockets := (k_sockets k)(fd \<mapsto> None)\<rparr>) in
         if s_found s then ((s_fd s, Some (s_lport s), s_aux s), k)
         else ((-1, Some (s_lport s), s_aux s), sys_close (s_fd s) k))"
proof -
  have one: "scan_loop (Suc n) False aux s k = scan_loop 1 False aux s k" for n s k
    by (simp add: Let_def split: prod.split)
  have "scan_loop FARSIGHT_NETSOCKET_PORT_SCAN_RANGE scan aux s k = scan_loop (turns scan) scan aux s k" for s k
    using one [of 4095 s k] by (cases scan) (simp_all add: turns_def FARSIGHT_NETSOCKET_PORT_SCAN_RANGE_def numeral_eq_Suc)
  then show ?thesis
    using assms by (simp add: farsight_netsocket_bind_udp_port_def sys_socket_def start_port_def Let_def)
qed

lemma bind_choice:
  assumes "fresh_descriptors k" "k_descriptors k = fd # ds" "lp \<noteq> 0" "aux \<Longrightarrow> ds = fd2 # fds"
  shows "\<exists>k'. case bind_outcome scan aux lp k of
      None \<Rightarrow> (\<exists>p a. farsight_netsocket_bind_udp_port True (Some lp) scan aux k = ((-1, Some p, a), k')) \<and> k_sockets k' = k_sockets k
    | Some p \<Rightarrow> farsight_netsocket_bind_udp_port True (Some lp) scan aux k = ((fd, Some p, if aux then Some fd2 else None), k')
        \<and> k_sockets k' = (if aux then (k_sockets k)(fd \<mapsto> Some p, fd2 \<mapsto> Some (p + 1)) else (k_sockets k)(fd \<mapsto> Some p))"
proof -
  let ?f2 = "if aux then fd2 else -1"
  let ?k = "k\<lparr>k_descriptors := ds, k_sockets := (k_sockets k)(fd \<mapsto> None)\<rparr>"
  let ?s = "\<lparr>s_fd = fd, s_port = lp, s_found = False, s_lport = lp, s_aux = None\<rparr>"
  have fd: "k_sockets k fd = None" "k_sockets k ?f2 = None" "fd \<noteq> -1" "?f2 \<noteq> fd" "k_sockets k (-1) = None"
      "aux \<Longrightarrow> fd2 \<noteq> -1"
    using assms(1,2,4) by (auto simp: fresh_descriptors_def)
  have acc: "accepted k lp = (\<lambda>d. k_accepts ?k (k_binds ?k + d) (port_at (s_port ?s) d))"
    by (simp add: accepted_def fun_eq_iff)
  have t: "turns scan \<noteq> 0" "scan \<or> turns scan = 1" by (simp_all add: turns_def FARSIGHT_NETSOCKET_PORT_SCAN_RANGE_def)
  have L: "case List.find (accepted k lp) [0..<turns scan] of
      None \<Rightarrow> (\<exists>s' k'. scan_loop (turns scan) scan aux ?s ?k = (s', k') \<and> \<not> s_found s' \<and> s_fd s' = fd
                 \<and> k_sockets k' = (k_sockets k)(fd \<mapsto> None))
    | Some d \<Rightarrow>
        (let p = port_at lp d in
         if \<not> aux then
           (\<exists>s' k'. scan_loop (turns scan) scan aux ?s ?k = (s', k') \<and> s_found s' \<and> s_fd s' = fd \<and> s_lport s' = p
                 \<and> s_aux s' = None \<and> k_sockets k' = (k_sockets k)(fd \<mapsto> Some p))
         else if k_accepts k (k_binds k + d + 1) (p + 1) then
           (\<exists>s' k'. scan_loop (turns scan) scan aux ?s ?k = (s', k') \<and> s_found s' \<and> s_fd s' = fd \<and> s_lport s' = p
                 \<and> s_aux s' = Some fd2 \<and> k_sockets k' = (k_sockets k)(fd \<mapsto> Some p, fd2 \<mapsto> Some (p + 1)))
         else
           (\<exists>s' k'. scan_loop (turns scan) scan aux ?s ?k = (s', k') \<and> \<not> s_found s' \<and> s_fd s' = -1
                 \<and> k_sockets k' = (k_sockets k)(fd := None)))"
    using scan_open [of ?s ?k "turns scan" scan aux ?f2 fds] t fd(2-6) assms(4) unfolding acc
    by (auto simp: Let_def split: option.splits if_splits)
  have restore: "(k_sockets k)(fd := None) = k_sockets k" "(k_sockets k)(-1 := None) = k_sockets k"
    using fd(1,5) by (simp_all add: fun_eq_iff)
  show ?thesis unfolding bind_outcome_def bind_scan [OF assms(2,3)] using L restore
    by (auto simp: Let_def sys_close_def split: option.splits if_splits)
qed

lemma bind_single:
  assumes "fresh_descriptors k" "k_descriptors k = fd # fds" "lp \<noteq> 0"
  shows "\<exists>k'. case port_choice scan lp k of
      None \<Rightarrow> (\<exists>p a. farsight_netsocket_bind_udp_port True (Some lp) scan False k = ((-1, Some p, a), k')) \<and> k_sockets k' = k_sockets k
    | Some p \<Rightarrow> farsight_netsocket_bind_udp_port True (Some lp) scan False k = ((fd, Some p, None), k')
        \<and> k_sockets k' = (k_sockets k)(fd \<mapsto> Some p)"
  using bind_choice [OF assms, of False 0 "[]" scan] unfolding outcome_single if_False by simp


definition demo_kernel :: kernel where
  "demo_kernel = \<lparr>k_sockets = Map.empty, k_descriptors = [3, 4, 5], k_binds = 0,
     k_accepts = (\<lambda>i p. p \<noteq> 5004), k_random = 0, k_stderr = []\<rparr>"

lemma demo_scan: "List.find (accepted demo_kernel 5004) [0..<turns True] = Some (Suc 0)" "port_at 5004 (Suc 0) = 5006"
proof -
  have n: "port_at 5004 (Suc 0) = 5006" "port_at 5004 0 = 5004" by (simp_all add: port_at_def next_port_def)
  have "[0..<4096] = 0 # Suc 0 # [Suc (Suc 0)..<4096]"
    using upt_conv_Cons [of 0 4096] upt_conv_Cons [of "Suc 0" 4096] by simp
  then show "List.find (accepted demo_kernel 5004) [0..<turns True] = Some (Suc 0)"
    by (simp add: turns_def FARSIGHT_NETSOCKET_PORT_SCAN_RANGE_def accepted_def n) (simp add: demo_kernel_def)
  show "port_at 5004 (Suc 0) = 5006" by (rule n)
qed

lemma demo_fresh: "fresh_descriptors demo_kernel" "k_descriptors demo_kernel = [3, 4, 5]" "k_sockets demo_kernel = Map.empty"
  by (simp_all add: fresh_descriptors_def demo_kernel_def)


text \<open>A pair: the paired port of the first accepted one is bound as well; if it is taken, the scan has failed, although
  every port after it is free.\<close>

theorem pair_bound:
  "\<exists>k'. farsight_netsocket_bind_udp_port True (Some 5004) True True demo_kernel = ((3, Some 5006, Some 4), k')
     \<and> k_sockets k' = [3 \<mapsto> Some 5006, 4 \<mapsto> Some 5007]"
proof -
  have c: "bind_outcome True True 5004 demo_kernel = Some 5006"
    unfolding bind_outcome_def demo_scan by (simp add: demo_scan(2)) (simp add: demo_kernel_def)
  show ?thesis using bind_choice [OF demo_fresh(1,2), of 5004 True 4 "[5]" True] unfolding c demo_fresh(3) by simp
qed

definition pair_taken :: kernel where
  "pair_taken = demo_kernel\<lparr>k_accepts := (\<lambda>i p. p \<noteq> 5005)\<rparr>"

theorem taken_pair_ends_scan:
  "\<exists>p a k'. farsight_netsocket_bind_udp_port True (Some 5004) True True pair_taken = ((-1, Some p, a), k')
     \<and> k_sockets k' = Map.empty"
proof -
  have "port_at 5004 0 = 5004" by (simp add: port_at_def)
  moreover have "[0..<turns True] = 0 # [Suc 0..<turns True]"
    by (rule upt_conv_Cons) (simp add: turns_def FARSIGHT_NETSOCKET_PORT_SCAN_RANGE_def)
  ultimately have c: "bind_outcome True True 5004 pair_taken = None"
    by (simp add: bind_outcome_def accepted_def pair_taken_def)
  have f: "fresh_descriptors pair_taken" "k_descriptors pair_taken = [3, 4, 5]" "k_sockets pair_taken = Map.empty"
    using demo_fresh by (simp_all add: fresh_descriptors_def pair_taken_def)
  show ?thesis using bind_choice [OF f(1,2), of 5004 True 4 "[5]" True] unfolding c f(3) by auto
qed

text \<open>
  The next port after 65533 is 0, which asks the system for any port: the scan does not stay in the range
  that \<open>start_port\<close> draws from.
\<close>

lemma scan_leaves_range: "next_port 65533 = 0" "next_port 65534 = 1"
  by (simp_all add: next_port_def)

end
