(* ===== verification/Net_Stun.thy ===== *)
theory Net_Stun
  imports Ssc_Prelude
begin

text \<open>
  The network sockets of the media subsystem: the base class (\<open>farsight-netsocket.c\<close>) and its STUN
  implementation (\<open>farsight-netsocket-stun.c\<close>), which finds out the public address of a socket and emits
  the signal \<open>ready\<close>.

  The STUN library is a parameter: what each of its calls returns is an argument of the operation that makes
  the call, and what it reports is an event given to \<open>cb_stun_state\<close>. The calls and the signals go to \<open>ns_out\<close>.
  Debug messages are left out.
\<close>

section \<open>The base class\<close>

record FarsightNetsocket =
  c_addr_str :: "string option"
  c_port :: "16 word"
  last_errno :: int
  sockfd :: int
  aux_sockfd :: int

definition farsight_netsocket_init :: FarsightNetsocket where
  "farsight_netsocket_init =
     \<lparr>c_addr_str = None, c_port = 0, last_errno = 0, sockfd = -1, aux_sockfd = -1\<rparr>"

datatype gvalue = GString "string option" | GInt int | GUint nat | GBoolean bool

datatype netsocket_prop = PROP_CONTACT_ADDR | PROP_CONTACT_PORT | PROP_SOCKFD | PROP_AUX_SOCKFD

definition farsight_netsocket_set_property ::
  "netsocket_prop \<Rightarrow> gvalue \<Rightarrow> 'a FarsightNetsocket_scheme \<Rightarrow> 'a FarsightNetsocket_scheme" where
  "farsight_netsocket_set_property prop value self =
     (case (prop, value) of
        (PROP_SOCKFD, GInt i) \<Rightarrow> self\<lparr>sockfd := i\<rparr>
      | (PROP_AUX_SOCKFD, GInt i) \<Rightarrow> self\<lparr>aux_sockfd := i\<rparr>
      | _ \<Rightarrow> self)"

definition farsight_netsocket_get_property ::
  "netsocket_prop \<Rightarrow> 'a FarsightNetsocket_scheme \<Rightarrow> gvalue" where
  "farsight_netsocket_get_property prop self =
     (case prop of
        PROP_CONTACT_PORT \<Rightarrow> GUint (unat (c_port self))
      | PROP_CONTACT_ADDR \<Rightarrow> GString (c_addr_str self)
      | PROP_SOCKFD \<Rightarrow> GInt (sockfd self)
      | PROP_AUX_SOCKFD \<Rightarrow> GInt (aux_sockfd self))"

definition farsight_netsocket_map_default :: "'a FarsightNetsocket_scheme \<Rightarrow> bool" where
  "farsight_netsocket_map_default self = False"

definition farsight_netsocket_available_default :: "'a FarsightNetsocket_scheme \<Rightarrow> bool" where
  "farsight_netsocket_available_default self = False"

definition farsight_netsocket_errno :: "'a FarsightNetsocket_scheme \<Rightarrow> int" where
  "farsight_netsocket_errno self = last_errno self"

section \<open>The STUN implementation\<close>

datatype stun_out =
    Stun_handle_init "string option" "string option"
  | Stun_obtain_shared_secret
  | Stun_bind int
  | Stun_handle_destroy
  | Stun_discovery_release_socket
  | Signal_ready

record FarsightNetsocketStun = FarsightNetsocket +
  stunh :: bool
  stun_domain :: "string option"
  stun_server :: "string option"
  strict_msgint :: bool
  dispose_run :: bool
  ns_out :: "stun_out list"

definition tell :: "stun_out \<Rightarrow> FarsightNetsocketStun \<Rightarrow> FarsightNetsocketStun" where
  "tell x self = self\<lparr>ns_out := ns_out self @ [x]\<rparr>"

definition farsight_netsocket_stun_init :: FarsightNetsocketStun where
  "farsight_netsocket_stun_init =
     FarsightNetsocket.extend farsight_netsocket_init
       \<lparr>stunh = False, stun_domain = None, stun_server = None, strict_msgint = False, dispose_run = False,
        ns_out = []\<rparr>"

definition farsight_netsocket_stun_dispose :: "FarsightNetsocketStun \<Rightarrow> FarsightNetsocketStun" where
  "farsight_netsocket_stun_dispose self =
     (if \<not> dispose_run self then
        (let self = self\<lparr>dispose_run := True\<rparr> in
         if stunh self then (tell Stun_handle_destroy self)\<lparr>stunh := False\<rparr> else self)
      else self)"

datatype stun_prop = PROP_STUN_DOMAIN | PROP_STUN_SERVER | PROP_STRICT_MSGINT

definition farsight_netsocket_stun_set_property ::
  "stun_prop \<Rightarrow> gvalue \<Rightarrow> FarsightNetsocketStun \<Rightarrow> FarsightNetsocketStun" where
  "farsight_netsocket_stun_set_property prop value self =
     (case (prop, value) of
        (PROP_STUN_DOMAIN, GString t) \<Rightarrow> self\<lparr>stun_domain := t\<rparr>
      | (PROP_STUN_SERVER, GString t) \<Rightarrow> self\<lparr>stun_server := t\<rparr>
      | (PROP_STRICT_MSGINT, GBoolean b) \<Rightarrow> self\<lparr>strict_msgint := b\<rparr>
      | _ \<Rightarrow> self)"

definition farsight_netsocket_stun_get_property :: "stun_prop \<Rightarrow> FarsightNetsocketStun \<Rightarrow> gvalue" where
  "farsight_netsocket_stun_get_property prop self =
     (case prop of
        PROP_STUN_DOMAIN \<Rightarrow> GString (stun_domain self)
      | PROP_STUN_SERVER \<Rightarrow> GString (stun_server self)
      | PROP_STRICT_MSGINT \<Rightarrow> GBoolean (strict_msgint self))"

text \<open>
  \<open>init\<close>: whether the library makes a handle; \<open>secret\<close> and \<open>bind\<close>: what the two requests return. The
  precondition on the socket is a \<open>g_return_val_if_fail\<close>.
\<close>

definition farsight_netsocket_stun_map ::
  "bool \<Rightarrow> int \<Rightarrow> int \<Rightarrow> FarsightNetsocketStun \<Rightarrow> bool \<times> FarsightNetsocketStun" where
  "farsight_netsocket_stun_map init secret bind self =
     (if sockfd self = -1 then (False, self)
      else
        (let self = (tell (Stun_handle_init (stun_server self) (stun_domain self)) self)\<lparr>stunh := init\<rparr> in
         if stunh self then
           (let self = tell Stun_obtain_shared_secret self; stun_res = secret in
            if stun_res < 0 then
              if strict_msgint self then (False, (tell Stun_handle_destroy self)\<lparr>stunh := False\<rparr>)
              else
                (let self = tell (Stun_bind (sockfd self)) self in
                 if bind < 0 then (False, (tell Stun_handle_destroy self)\<lparr>stunh := False\<rparr>)
                 else (True, self))
            else (True, self))
         else (False, self)))"

datatype stun_state =
    stun_tls_done | stun_tls_connection_failed | stun_tls_connection_timeout | stun_tls_ssl_connect_failed
  | stun_discovery_done | stun_discovery_error | stun_discovery_timeout | stun_error | stun_other int

text \<open>
  \<open>sd\<close>: whether a discovery object comes with the event; \<open>addr\<close>: the address and the port it has found,
  of which at most 47 characters are kept.
\<close>

definition release :: "bool \<Rightarrow> FarsightNetsocketStun \<Rightarrow> FarsightNetsocketStun" where
  "release sd self = (if sd then tell Stun_discovery_release_socket self else self)"

definition cb_stun_state ::
  "int \<Rightarrow> bool \<Rightarrow> string \<times> 16 word \<Rightarrow> stun_state \<Rightarrow> FarsightNetsocketStun \<Rightarrow> FarsightNetsocketStun" where
  "cb_stun_state bind sd addr event self =
     (case event of
        stun_tls_done \<Rightarrow>
          (let self = tell (Stun_bind (sockfd self)) self; res = bind in
           if res < 0 then tell Signal_ready self else self)
      | stun_discovery_done \<Rightarrow>
          tell Signal_ready (tell Stun_discovery_release_socket
            (self\<lparr>c_port := snd addr, c_addr_str := Some (take 47 (fst addr))\<rparr>))
      | stun_discovery_error \<Rightarrow> tell Signal_ready (release sd self)
      | stun_discovery_timeout \<Rightarrow> tell Signal_ready (release sd self)
      | stun_error \<Rightarrow> tell Signal_ready (release sd self)
      | stun_other _ \<Rightarrow> self
      | _ \<Rightarrow>
          (let self = (if \<not> strict_msgint self then tell (Stun_bind (sockfd self)) self else self);
               res = (if \<not> strict_msgint self then bind else 0) in
           if res < 0 \<or> strict_msgint self then tell Signal_ready self else self))"

text \<open>The virtual methods, dispatched on the class of the object.\<close>

datatype netsocket = Base FarsightNetsocket | Stun FarsightNetsocketStun

definition farsight_netsocket_map :: "bool \<Rightarrow> int \<Rightarrow> int \<Rightarrow> netsocket \<Rightarrow> bool \<times> netsocket" where
  "farsight_netsocket_map init secret bind ns =
     (case ns of
        Base b \<Rightarrow> (farsight_netsocket_map_default b, Base b)
      | Stun s \<Rightarrow> (let (r, s) = farsight_netsocket_stun_map init secret bind s in (r, Stun s)))"

definition farsight_netsocket_available :: "netsocket \<Rightarrow> bool" where
  "farsight_netsocket_available ns =
     (case ns of Base b \<Rightarrow> farsight_netsocket_available_default b | Stun s \<Rightarrow> farsight_netsocket_available_default s)"

section \<open>A discovery and its events\<close>

text \<open>
  What is relied on of the STUN library: it answers a request it has accepted with at most one final event, a
  shared secret request with one of the \<open>tls\<close> events, or with \<open>stun_error\<close> if the server's name cannot be
  resolved, and a binding request with one of the others. On some errors the library gives no event at all; then the
  discovery stays as it is. The phase says which answer is outstanding.
\<close>

datatype phase = Waiting_tls | Waiting_discovery | Finished

definition answers :: "phase \<Rightarrow> stun_state \<Rightarrow> bool" where
  "answers ph event \<longleftrightarrow>
     (case ph of
        Waiting_tls \<Rightarrow> event \<in> {stun_tls_done, stun_tls_connection_failed, stun_tls_connection_timeout,
          stun_tls_ssl_connect_failed, stun_error}
      | Waiting_discovery \<Rightarrow> event \<in> {stun_discovery_done, stun_discovery_error, stun_discovery_timeout, stun_error}
      | Finished \<Rightarrow> False)"

text \<open>The phase after an event: another one only if the callback has made a request that was accepted.\<close>

definition next_phase :: "int \<Rightarrow> FarsightNetsocketStun \<Rightarrow> FarsightNetsocketStun \<Rightarrow> phase" where
  "next_phase bind old new =
     (if Stun_bind (sockfd old) \<in> set (drop (length (ns_out old)) (ns_out new)) \<and> 0 \<le> bind
      then Waiting_discovery else Finished)"

text \<open>The discovery of one socket, without an auxiliary one: for those the interface promises \<open>ready\<close> when both are
  mapped, but this implementation never looks at \<open>aux_sockfd\<close>.\<close>

inductive discovery :: "nat \<Rightarrow> phase \<Rightarrow> FarsightNetsocketStun \<Rightarrow> bool" where
  started: "Signal_ready \<notin> set (ns_out self) \<Longrightarrow> aux_sockfd self = -1 \<Longrightarrow> farsight_netsocket_stun_map init secret bind self = (True, self') \<Longrightarrow>
     discovery 0 (if 0 \<le> secret then Waiting_tls else Waiting_discovery) self'"
| event: "discovery n ph self \<Longrightarrow> answers ph ev \<Longrightarrow> self' = cb_stun_state bind sd addr ev self \<Longrightarrow>
     discovery (Suc n) (next_phase bind self self') self'"
| other: "discovery n ph self \<Longrightarrow> discovery n ph (cb_stun_state bind sd addr (stun_other i) self)"

inductive_cases discoveryE: "discovery n ph self"

definition readies :: "FarsightNetsocketStun \<Rightarrow> nat" where
  "readies self = count_list (ns_out self) Signal_ready"

lemma tell_sel [simp]:
  "ns_out (tell x s) = ns_out s @ [x]" "sockfd (tell x s) = sockfd s" "stunh (tell x s) = stunh s"
  "strict_msgint (tell x s) = strict_msgint s" "c_addr_str (tell x s) = c_addr_str s" "c_port (tell x s) = c_port s"
  by (simp_all add: tell_def)

lemma count_list_append: "count_list (xs @ ys) x = count_list xs x + count_list ys x"
  by (induction xs) auto

lemma count_zero: "x \<notin> set xs \<Longrightarrow> count_list xs x = 0"
  by (induction xs) auto

text \<open>What starting a discovery does.\<close>

lemma map_result:
  assumes "farsight_netsocket_stun_map init secret bind self = (r, self')" "Signal_ready \<notin> set (ns_out self)" "\<not> stunh self"
  shows "Signal_ready \<notin> set (ns_out self') \<and> (r \<longleftrightarrow> stunh self')
     \<and> (r \<longrightarrow> init \<and> (0 \<le> secret \<or> \<not> strict_msgint self \<and> 0 \<le> bind))"
  using assms by (auto simp: farsight_netsocket_stun_map_def Let_def split: if_splits)

lemma event_result:
  assumes "answers ph ev" "self' = cb_stun_state bind sd addr ev self"
  shows "readies self' = readies self + (if next_phase bind self self' = Finished then 1 else 0)
     \<and> next_phase bind self self' \<noteq> Waiting_tls \<and> (ph = Waiting_discovery \<longrightarrow> next_phase bind self self' = Finished)"
  using assms
  by (cases ph; cases ev)
     (auto simp: answers_def cb_stun_state_def next_phase_def readies_def release_def count_list_append Let_def)

lemma discovery_invariant:
  "discovery n ph self \<Longrightarrow> readies self = (if ph = Finished then 1 else 0) \<and>
     (case ph of Waiting_tls \<Rightarrow> n = 0 | Waiting_discovery \<Rightarrow> n \<le> 1 | Finished \<Rightarrow> 1 \<le> n \<and> n \<le> 2)"
proof (induction rule: discovery.induct)
  case (started self init secret bind self')
  then have "Signal_ready \<notin> set (ns_out self')"
    by (auto simp: farsight_netsocket_stun_map_def Let_def split: if_splits)
  then show ?case by (simp add: readies_def count_zero)
next
  case (event n ph self ev self' bind sd addr)
  have "ph \<noteq> Finished" using event.hyps(2) by (auto simp: answers_def)
  then show ?case using event_result [OF event.hyps(2,3)] event.IH
    by (cases ph; cases "next_phase bind self self'") auto
qed (simp add: cb_stun_state_def)

text \<open>
  A discovery signals once (C23). A discovery of a socket without an auxiliary one, from its start and after any
  events the STUN library may give, has emitted \<open>ready\<close> exactly once if no answer is outstanding, and
  not yet otherwise. It takes at most two answers, after which it is finished; a
  library that never gives the final answer leaves it waiting, without \<open>ready\<close>.
\<close>

theorem discovery_signals_once:
  assumes "discovery n ph self"
  shows "readies self = (if ph = Finished then 1 else 0) \<and> n \<le> 2 \<and> (n = 2 \<longrightarrow> ph = Finished)"
  using discovery_invariant [OF assms] by (cases ph; simp)

definition demo_socket :: FarsightNetsocketStun where
  "demo_socket = farsight_netsocket_stun_init\<lparr>sockfd := 3, stun_server := Some ''stun.example''\<rparr>"

theorem discovery_signals_once_witness:
  "\<exists>self. discovery 2 Finished self \<and> readies self = 1 \<and> c_addr_str self = Some ''192.0.2.7'' \<and> c_port self = 40000"
proof -
  let ?s1 = "snd (farsight_netsocket_stun_map True 0 0 demo_socket)"
  let ?s2 = "cb_stun_state 0 False ([], 0) stun_tls_done ?s1"
  let ?s3 = "cb_stun_state 0 True (''192.0.2.7'', 40000) stun_discovery_done ?s2"
  have d: "sockfd demo_socket = 3" "ns_out demo_socket = []" "aux_sockfd demo_socket = -1" by (simp_all add: demo_socket_def farsight_netsocket_stun_init_def
      farsight_netsocket_init_def FarsightNetsocket.defs)
  have "farsight_netsocket_stun_map True 0 0 demo_socket = (True, ?s1)"
    by (simp add: farsight_netsocket_stun_map_def Let_def d)
  then have "discovery 0 Waiting_tls ?s1" using discovery.started [of demo_socket True 0 0 ?s1] d by simp
  then have "discovery (Suc 0) (next_phase 0 ?s1 ?s2) ?s2" by (rule discovery.event) (simp_all add: answers_def)
  moreover have "next_phase 0 ?s1 ?s2 = Waiting_discovery" by (simp add: next_phase_def cb_stun_state_def Let_def)
  ultimately have "discovery (Suc 0) Waiting_discovery ?s2" by simp
  then have "discovery (Suc (Suc 0)) (next_phase 0 ?s2 ?s3) ?s3" by (rule discovery.event) (simp_all add: answers_def)
  moreover have "next_phase 0 ?s2 ?s3 = Finished" by (simp add: next_phase_def cb_stun_state_def)
  ultimately have "discovery 2 Finished ?s3" by (simp add: numeral_eq_Suc)
  moreover have "c_addr_str ?s3 = Some ''192.0.2.7''" "c_port ?s3 = 40000" by (simp_all add: cb_stun_state_def)
  ultimately show ?thesis using discovery_signals_once by fastforce
qed

end
