(* ===== verification/Ssc_Gst.thy ===== *)
theory Ssc_Gst
  imports Ssc_Media Net_Socket Net_Stun
begin

text \<open>
  The media subsystem on GStreamer: the class \<open>SscMediaGst\<close> (\<open>ssc_media_gst.c\<close>) and its helpers
  (\<open>ssc_media_gst_utils.c\<close>). It extends \<open>SscMedia\<close> and uses the sockets of \<open>Net_Socket\<close> and the STUN
  discovery of \<open>Net_Stun\<close>.

  \<^item> GStreamer is a parameter, \<open>gst_env\<close>: which element factories are installed, which elements can be made,
    and the list of features of the registry. What the program tells GStreamer is appended to \<open>gst_out\<close>.
    A pointer to an element is \<open>GNull\<close>, \<open>GLive\<close>, or \<open>GGone\<close> once the pipeline that owned the element is gone.
  \<^item> The operating system is the field \<open>os\<close>, a \<open>kernel\<close>. Descriptors are assumed to be within the range of the
    GObject properties that hold them, and \<open>GSocket\<close> is the descriptor it is made from.
  \<^item> Reference counts of factories, and messages to the log, are left out.
\<close>

section \<open>Codec factories and audio elements (ssc_media_gst_utils.c)\<close>

record gst_env =
  ge_audio_env :: "string option"
  ge_default_audio :: string
  ge_apple :: bool
  ge_factory :: "string \<Rightarrow> bool"
  ge_create :: "string \<Rightarrow> bool"
  ge_features :: "(string \<times> string \<times> string) list"
  ge_gsocket :: "int \<Rightarrow> bool"
  ge_stun_init :: bool
  ge_stun_secret :: int
  ge_stun_bind :: int

record gsdp_codec_factories =
  payloader :: "string option"
  depayloader :: "string option"
  encoder :: "string option"
  decoder :: "string option"

definition find_factory :: "gst_env \<Rightarrow> string \<Rightarrow> string option" where
  "find_factory G name = (if ge_factory G name then Some name else None)"

definition contains :: "string \<Rightarrow> string \<Rightarrow> bool" where
  "contains s pat \<longleftrightarrow> strstr_split pat s \<noteq> None"

definition gsdp_codec_factories_create :: "gst_env \<Rightarrow> string \<Rightarrow> gsdp_codec_factories option" where
  "gsdp_codec_factories_create G codecname =
     (let find = find_factory G;
          g711 = (\<lambda>pay depay.
            if find ''rtpg711pay'' \<noteq> None then (find ''rtpg711pay'', find ''rtpg711depay'') else (find pay, find depay)) in
      if contains codecname ''GSM'' then
        Some \<lparr>payloader = find ''rtpgsmpay'', depayloader = find ''rtpgsmdepay'', encoder = find ''gsmenc'',
              decoder = find ''gsmdec''\<rparr>
      else if contains codecname ''PCMU'' then
        (let (p, d) = g711 ''rtppcmupay'' ''rtppcmudepay'' in
         Some \<lparr>payloader = p, depayloader = d, encoder = find ''mulawenc'', decoder = find ''mulawdec''\<rparr>)
      else if contains codecname ''PCMA'' then
        (let (p, d) = g711 ''rtppcmapay'' ''rtppcmadepay'' in
         Some \<lparr>payloader = p, depayloader = d, encoder = find ''alawenc'', decoder = find ''alawdec''\<rparr>)
      else None)"

text \<open>
  The first feature of the registry whose class is of the kind wanted and whose long name contains the type; a feature is
  given by its class, its long name and the name of its factory.
\<close>

type_synonym feature = "string \<times> string \<times> string"

fun find_feature :: "(string \<Rightarrow> bool) \<Rightarrow> string option \<Rightarrow> feature list \<Rightarrow> feature option res" where
  "find_feature kind ty [] = Inr None"
| "find_feature kind ty ((klass_tags, longname, factory) # fs) =
     (if kind klass_tags then
        (case ty of
           None \<Rightarrow> Inl Null_deref
         | Some t \<Rightarrow> if contains longname t then Inr (Some (klass_tags, longname, factory)) else find_feature kind ty fs)
      else find_feature kind ty fs)"

definition is_audio_src :: "string \<Rightarrow> bool" where
  "is_audio_src klass_tags \<longleftrightarrow>
     contains klass_tags ''Audio'' \<and> (contains klass_tags ''Source'' \<or> contains klass_tags ''Src'')"

definition is_audio_sink :: "string \<Rightarrow> bool" where
  "is_audio_sink klass_tags \<longleftrightarrow> contains klass_tags ''Sink'' \<and> contains klass_tags ''Audio''"

text \<open>The factory of the element that has been made.\<close>

definition factory_create :: "gst_env \<Rightarrow> string option \<Rightarrow> string option" where
  "factory_create G f = (case f of None \<Rightarrow> None | Some n \<Rightarrow> if ge_create G n then Some n else None)"

definition ssc_media_create_audio_src :: "gst_env \<Rightarrow> string option \<Rightarrow> string option res" where
  "ssc_media_create_audio_src G ty =
     andthen (find_feature is_audio_src ty (ge_features G)) (\<lambda>r.
     Inr (case r of None \<Rightarrow> None | Some (_, _, f) \<Rightarrow> factory_create G (Some f)))"

text \<open>The sink also prints the match; the second component is what it prints.\<close>

definition ssc_media_create_audio_sink :: "gst_env \<Rightarrow> string option \<Rightarrow> (string option \<times> string) res" where
  "ssc_media_create_audio_sink G ty =
     andthen (find_feature is_audio_sink ty (ge_features G)) (\<lambda>r.
     Inr (case r of
            None \<Rightarrow> (None, [])
          | Some (klass_tags, longname, f) \<Rightarrow>
              (factory_create G (Some f),
               fmt [''ssc_media_create_audio_sink: match of '', longname, '' and '', pstr ty, '' (tags:'', klass_tags, '').'', nl])))"

section \<open>The object\<close>

datatype gst_ref = GNull | GLive | GGone

datatype gst_call =
    Gst_pipeline_new
  | Gst_make string string
  | Gst_set string string gvalue
  | Gst_link "string list"
  | Gst_set_state string
  | Gst_pipeline_unref

record SscMediaGst = SscMedia +
  sm_netsocket :: "FarsightNetsocketStun option"
  sm_rtp_sockfd :: int
  sm_rtcp_sockfd :: int
  sm_rtp_lport :: "16 word"
  sm_pt :: "32 word"
  sm_pipeline :: bool
  sm_udpsrc :: gst_ref
  sm_udpsink :: gst_ref
  sm_depay :: gst_ref
  sm_decoder :: gst_ref
  sm_ad_input_type :: cstr
  sm_ad_input_device :: cstr
  sm_ad_output_type :: cstr
  sm_ad_output_device :: cstr
  sm_stun_server :: cstr
  sm_stun_domain :: cstr
  sm_rx_elements :: bool
  sm_tx_elements :: bool
  gst_dispose_run :: bool
  os :: kernel
  gst_out :: "gst_call list"

definition gst :: "gst_call \<Rightarrow> SscMediaGst \<Rightarrow> SscMediaGst" where
  "gst x self = self\<lparr>gst_out := gst_out self @ [x]\<rparr>"

definition cstr_dup :: "string option \<Rightarrow> cstr" where
  "cstr_dup t = (case t of None \<Rightarrow> CNull | Some s \<Rightarrow> CLive s)"

text \<open>
  The instance starts as zeroed memory. \<open>ssc_media_gst_init\<close> sets \<open>sm_rtp_sockfd\<close> to -1 but not
  \<open>sm_rtcp_sockfd\<close>.
\<close>

definition zero_media_gst :: "kernel \<Rightarrow> SscMediaGst" where
  "zero_media_gst k = SscMedia.extend ssc_media_init
     \<lparr>sm_netsocket = None, sm_rtp_sockfd = 0, sm_rtcp_sockfd = 0, sm_rtp_lport = 0, sm_pt = 0, sm_pipeline = False,
      sm_udpsrc = GNull, sm_udpsink = GNull, sm_depay = GNull, sm_decoder = GNull,
      sm_ad_input_type = CNull, sm_ad_input_device = CNull, sm_ad_output_type = CNull, sm_ad_output_device = CNull,
      sm_stun_server = CNull, sm_stun_domain = CNull, sm_rx_elements = False, sm_tx_elements = False,
      gst_dispose_run = False, os = k, gst_out = []\<rparr>"

definition default_audio_type :: "gst_env \<Rightarrow> string" where
  "default_audio_type G =
     (let ad_type = ge_default_audio G;
          ad_type = (if ge_apple G \<and> ad_type = ''ALSA'' then ''OSX'' else ad_type) in
      case ge_audio_env G of None \<Rightarrow> ad_type | Some t \<Rightarrow> t)"

definition ssc_media_gst_init :: "gst_env \<Rightarrow> kernel \<Rightarrow> SscMediaGst" where
  "ssc_media_gst_init G k =
     (zero_media_gst k)
       \<lparr>sm_rtp_sockfd := -1, sm_ad_input_type := CLive (default_audio_type G),
        sm_ad_output_type := CLive (default_audio_type G), sm_ad_input_device := CNull, sm_ad_output_device := CNull\<rparr>"

definition priv_verify_required_elements :: "gst_env \<Rightarrow> bool" where
  "priv_verify_required_elements G \<longleftrightarrow>
     filter (\<lambda>e. find_factory G e = None) [''mulawenc'', ''mulawdec'', ''udpsink'', ''udpsrc''] = []"

datatype gst_prop =
    PROP_AUDIO_INPUT_TYPE | PROP_AUDIO_INPUT_DEVICE | PROP_AUDIO_OUTPUT_TYPE | PROP_AUDIO_OUTPUT_DEVICE
  | PROP_GST_STUN_SERVER | PROP_GST_STUN_DOMAIN

text \<open>Every text property is freed and replaced by a copy of the value.\<close>

definition replace_text :: "cstr \<Rightarrow> string option \<Rightarrow> (cstr \<Rightarrow> SscMediaGst) \<Rightarrow> SscMediaGst res" where
  "replace_text old value upd = andthen (g_free old) (\<lambda>_. Inr (upd (cstr_dup value)))"

definition ssc_media_gst_set_property :: "gst_prop \<Rightarrow> string option \<Rightarrow> SscMediaGst \<Rightarrow> SscMediaGst res" where
  "ssc_media_gst_set_property prop value self =
     (case prop of
        PROP_AUDIO_INPUT_TYPE \<Rightarrow> replace_text (sm_ad_input_type self) value (\<lambda>c. self\<lparr>sm_ad_input_type := c\<rparr>)
      | PROP_AUDIO_INPUT_DEVICE \<Rightarrow> replace_text (sm_ad_input_device self) value (\<lambda>c. self\<lparr>sm_ad_input_device := c\<rparr>)
      | PROP_AUDIO_OUTPUT_TYPE \<Rightarrow> replace_text (sm_ad_output_type self) value (\<lambda>c. self\<lparr>sm_ad_output_type := c\<rparr>)
      | PROP_AUDIO_OUTPUT_DEVICE \<Rightarrow> replace_text (sm_ad_output_device self) value (\<lambda>c. self\<lparr>sm_ad_output_device := c\<rparr>)
      | PROP_GST_STUN_SERVER \<Rightarrow> replace_text (sm_stun_server self) value (\<lambda>c. self\<lparr>sm_stun_server := c\<rparr>)
      | PROP_GST_STUN_DOMAIN \<Rightarrow> replace_text (sm_stun_domain self) value (\<lambda>c. self\<lparr>sm_stun_domain := c\<rparr>))"

definition ssc_media_gst_get_property :: "gst_prop \<Rightarrow> SscMediaGst \<Rightarrow> string option res" where
  "ssc_media_gst_get_property prop self =
     (case prop of
        PROP_AUDIO_INPUT_TYPE \<Rightarrow> cstr_get (sm_ad_input_type self)
      | PROP_AUDIO_INPUT_DEVICE \<Rightarrow> cstr_get (sm_ad_input_type self)
      | PROP_AUDIO_OUTPUT_TYPE \<Rightarrow> cstr_get (sm_ad_output_type self)
      | PROP_AUDIO_OUTPUT_DEVICE \<Rightarrow> cstr_get (sm_ad_output_type self)
      | PROP_GST_STUN_SERVER \<Rightarrow> cstr_get (sm_stun_server self)
      | PROP_GST_STUN_DOMAIN \<Rightarrow> cstr_get (sm_stun_domain self))"

section \<open>Updating the elements\<close>

text \<open>The transmitting side is told where the remote description says the media go.\<close>

definition priv_update_tx_elements :: "SscMediaGst \<Rightarrow> (int \<times> SscMediaGst) res" where
  "priv_update_tx_elements self =
     (case sdp_session_of (sm_sdp_remote self) of
        None \<Rightarrow> Inr (0, self)
      | Some r_sdp \<Rightarrow>
          (case sdp_media r_sdp of
             [] \<Rightarrow> Inr (0, self)
           | md # _ \<Rightarrow>
               (case sdp_media_connections r_sdp md of
                  None \<Rightarrow> Inr (0, self)
                | Some r_c \<Rightarrow>
                    (case sm_udpsink self of
                       GNull \<Rightarrow> Inr (-1, self)
                     | GGone \<Rightarrow> Inl Use_after_free
                     | GLive \<Rightarrow>
                         Inr (0, gst (Gst_set ''sink'' ''port'' (GUint (m_port md)))
                                   (gst (Gst_set ''sink'' ''host'' (GString (c_address r_c))) self))))))"

text \<open>
  The local description gets the contact address and port that STUN has found, and the port of the socket if it has none.
\<close>

definition sdp_net_in :: nat where "sdp_net_in = 1"
definition sdp_addr_ip4 :: nat where "sdp_addr_ip4 = 1"

definition stun_contact :: "FarsightNetsocketStun \<Rightarrow> sdp_session \<Rightarrow> sdp_media \<Rightarrow> int \<times> sdp_media" where
  "stun_contact ns l_sdp md =
     (case (farsight_netsocket_get_property PROP_CONTACT_PORT ns, farsight_netsocket_get_property PROP_CONTACT_ADDR ns) of
        (GUint port, GString (Some addr)) \<Rightarrow>
          if port \<noteq> 0
          then sdp_set_contact l_sdp (md\<lparr>m_port := port\<rparr>) sdp_net_in sdp_addr_ip4 (Some addr)
          else (0, md)
      | _ \<Rightarrow> (0, md))"

definition priv_update_rx_elements :: "SscMediaGst \<Rightarrow> (int \<times> SscMediaGst) res" where
  "priv_update_rx_elements self =
     (if sm_sdp_local self = None then Inl Uninit_read
      else
        (case sdp_session_of (sm_sdp_local self) of
           None \<Rightarrow> Inr (0, self)
         | Some l_sdp \<Rightarrow>
             (case sdp_media l_sdp of
                [] \<Rightarrow> Inl Null_deref
              | md # mds \<Rightarrow>
                  (let (result, md) = (case sm_netsocket self of None \<Rightarrow> (0, md) | Some ns \<Rightarrow> stun_contact ns l_sdp md);
                       md = (if m_port md = 0 then md\<lparr>m_port := unat (sm_rtp_lport self)\<rparr> else md);
                       self = self\<lparr>sm_sdp_local := Some (Parsed (l_sdp\<lparr>sdp_media := md # mds\<rparr>))\<rparr> in
                   if sm_sdp_local_str self \<noteq> CNull
                   then andthen (g_free (sm_sdp_local_str self)) (\<lambda>_. Inr (result, self\<lparr>sm_sdp_local_str := CNull\<rparr>))
                   else Inr (result, self)))))"

section \<open>The pipeline\<close>

text \<open>Making an element, or failing the assertion that follows.\<close>

definition make_element :: "gst_env \<Rightarrow> string option \<Rightarrow> string \<Rightarrow> SscMediaGst \<Rightarrow> SscMediaGst res" where
  "make_element G f name self =
     (case factory_create G f of None \<Rightarrow> Inl Assert_failed | Some n \<Rightarrow> Inr (gst (Gst_make n name) self))"

definition g_object_set :: "string \<Rightarrow> (string \<times> gvalue) list \<Rightarrow> SscMediaGst \<Rightarrow> SscMediaGst" where
  "g_object_set el props self = fold (\<lambda>(p, v). gst (Gst_set el p v)) props self"

definition pt_caps :: gvalue where
  "pt_caps = GString (Some ''application/x-rtp, clock-rate=8000, encoding-name=PCMU'')"

text \<open>The device is set when the type is ALSA and a device has been chosen.\<close>

definition set_device :: "string \<Rightarrow> cstr \<Rightarrow> cstr \<Rightarrow> SscMediaGst \<Rightarrow> SscMediaGst res" where
  "set_device el ty device self =
     andthen (cstr_get ty) (\<lambda>t.
     case t of
       None \<Rightarrow> Inl Null_deref
     | Some t \<Rightarrow>
         if t = ''ALSA'' \<and> device \<noteq> CNull
         then andthen (cstr_get device) (\<lambda>d. Inr (g_object_set el [(''device'', GString d)] self))
         else Inr self)"

definition create_rx :: "gst_env \<Rightarrow> gsdp_codec_factories \<Rightarrow> SscMediaGst \<Rightarrow> SscMediaGst res" where
  "create_rx G f self =
     andthen (make_element G (find_factory G ''udpsrc'') ''src'' (self\<lparr>sm_rx_elements := True\<rparr>)) (\<lambda>self.
     let self = g_object_set ''src''
           [(''socket'', GInt (sm_rtp_sockfd self)), (''port'', GUint (unat (sm_rtp_lport self))), (''caps'', pt_caps)]
           (self\<lparr>sm_udpsrc := GLive\<rparr>) in
     andthen (make_element G (depayloader f) ''depayloader'' self) (\<lambda>self.
     let self = g_object_set ''depayloader'' [(''queue_delay'', GInt 0)] (self\<lparr>sm_depay := GLive\<rparr>) in
     andthen (make_element G (decoder f) ''decoder'' self) (\<lambda>self.
     let self = self\<lparr>sm_decoder := GLive\<rparr> in
     andthen (make_element G (find_factory G ''alsasink'') ''ALSA'' self) (\<lambda>self.
     andthen (set_device ''ALSA'' (sm_ad_output_type self) (sm_ad_output_device self) self) (\<lambda>self.
     Inr (gst (Gst_link [''src'', ''depayloader'', ''decoder'', ''ALSA''])
       (g_object_set ''ALSA''
          [(''latency-time'', GInt 20000), (''buffer-time'', GInt 160000), (''sync'', GBoolean False)] self)))))))"

definition create_tx :: "gst_env \<Rightarrow> gsdp_codec_factories \<Rightarrow> SscMediaGst \<Rightarrow> SscMediaGst res" where
  "create_tx G f self =
     (let self = self\<lparr>sm_tx_elements := True\<rparr> in
      andthen (cstr_get (sm_ad_input_type self)) (\<lambda>ty.
      andthen (ssc_media_create_audio_src G ty) (\<lambda>src1.
      case src1 of
        None \<Rightarrow> Inl Assert_failed
      | Some n \<Rightarrow>
      let self = gst (Gst_make n ''audiosrc'') self in
      andthen (set_device ''audiosrc'' (sm_ad_input_type self) (sm_ad_input_device self) self) (\<lambda>self.
      let self = g_object_set ''audiosrc'' [(''latency-time'', GInt 20000), (''blocksize'', GInt 320)] self in
      andthen (make_element G (encoder f) ''codec'' self) (\<lambda>self.
      andthen (make_element G (payloader f) ''payload'' self) (\<lambda>self.
      let self = g_object_set ''payload'' [(''max-ptime'', GInt 20000000)] self in
      andthen (make_element G (find_factory G ''udpsink'') ''sink'' self) (\<lambda>self.
      Inr (gst (Gst_link [''audiosrc'', ''codec'', ''payload'', ''sink''])
        (g_object_set ''sink''
           [(''sync'', GBoolean False), (''async'', GBoolean False), (''socket'', GInt (sm_rtp_sockfd self))]
           (self\<lparr>sm_udpsink := GLive\<rparr>))))))))))"

text \<open>
  \<open>priv_cb_ready\<close>: the pipeline is made, unless there is one, filled, connected to the two ends and started; the flag says whether
  the signal \<open>state-changed\<close> goes out.
\<close>

definition gst_pipeline :: "gst_env \<Rightarrow> SscMediaGst \<Rightarrow> SscMediaGst res" where
  "gst_pipeline G self =
     (let factories = gsdp_codec_factories_create G ''PCMU'';
          self = (if \<not> sm_pipeline self then gst Gst_pipeline_new (self\<lparr>sm_pipeline := True\<rparr>) else self) in
      if \<not> ge_gsocket G (sm_rtp_sockfd self) then Inl Assert_failed
      else
        andthen (case factories of
                   None \<Rightarrow> Inr self
                 | Some f \<Rightarrow> if \<not> sm_rx_elements self then create_rx G f self else Inr self) (\<lambda>self.
        case factories of
          None \<Rightarrow> Inr self
        | Some f \<Rightarrow> if \<not> sm_tx_elements self then create_tx G f self else Inr self))"

definition priv_cb_ready ::
  "gst_env \<Rightarrow> FarsightNetsocketStun option \<Rightarrow> SscMediaGst \<Rightarrow> (bool \<times> SscMediaGst) res" where
  "priv_cb_ready G netsocket self =
     (let self = (case netsocket of
                    None \<Rightarrow> self
                  | Some ns \<Rightarrow> if sm_rtp_sockfd self = -1 then self\<lparr>sm_rtp_sockfd := sockfd ns\<rparr> else self) in
      if \<not> sm_rtp_sockfd self > -1 then Inl Assert_failed
      else
        andthen (gst_pipeline G self) (\<lambda>self.
        andthen (priv_update_rx_elements self) (\<lambda>(_, self).
        andthen (priv_update_tx_elements self) (\<lambda>(_, self).
        Inr (ssc_media_signal_state_change sm_active (gst (Gst_set_state ''PLAYING'') self))))))"

text \<open>Messages on the bus of the pipeline; an error ends the program with the status on the left.\<close>

datatype bus_message =
    GST_MESSAGE_ERROR string
  | GST_MESSAGE_NEW_CLOCK
  | GST_MESSAGE_CLOCK_PROVIDE
  | GST_MESSAGE_STATE_CHANGED
  | GST_MESSAGE_STREAM_STATUS
  | GST_MESSAGE_TAG
  | GST_MESSAGE_OTHER string string

definition priv_cb_pipeline_bus :: "bus_message \<Rightarrow> SscMediaGst \<Rightarrow> (int \<times> SscMediaGst) + (bool \<times> SscMediaGst)" where
  "priv_cb_pipeline_bus message self =
     (let say = (\<lambda>ps. printf (fmt (''priv_cb_pipeline_bus: '' # ps)) self) in
      case message of
        GST_MESSAGE_ERROR err \<Rightarrow> Inl (0, say [''Error: '', err, nl])
      | GST_MESSAGE_NEW_CLOCK \<Rightarrow> Inr (True, self)
      | GST_MESSAGE_CLOCK_PROVIDE \<Rightarrow> Inr (True, self)
      | GST_MESSAGE_STATE_CHANGED \<Rightarrow> Inr (True, say [''State changed'', nl])
      | GST_MESSAGE_STREAM_STATUS \<Rightarrow> Inr (True, say [''Stream status changed'', nl])
      | GST_MESSAGE_TAG \<Rightarrow> Inr (True, say [''Tag found'', nl])
      | GST_MESSAGE_OTHER src ty \<Rightarrow>
          Inr (True, say [''Unhandled bus message from element '', src, '' ('', ty, '').'', nl]))"

section \<open>The methods of the class\<close>

definition priv_static_capabilities_gst :: "SscMediaGst \<Rightarrow> string \<times> SscMediaGst" where
  "priv_static_capabilities_gst self =
     (''v=0'' @ crnl @ ''m=audio 0 RTP/AVP 0'' @ crnl @ ''a=rtpmap:0 PCMU/8000'' @ crnl, self\<lparr>sm_pt := 0\<rparr>)"

definition priv_refresh_gst :: "SscMediaGst \<Rightarrow> (int \<times> SscMediaGst) res" where
  "priv_refresh_gst self = andthen (priv_update_tx_elements self) (\<lambda>(_, self). Inr (0, self))"

definition gst_class :: "SscMediaGst media_class" where
  "gst_class = \<lparr>class_refresh = priv_refresh_gst, class_static_capabilities = priv_static_capabilities_gst\<rparr>"

text \<open>The socket object is made with its four properties.\<close>

definition new_netsocket :: "int \<Rightarrow> int \<Rightarrow> string option \<Rightarrow> string option \<Rightarrow> FarsightNetsocketStun" where
  "new_netsocket pri_sockfd aux server domain =
     farsight_netsocket_stun_set_property PROP_STUN_DOMAIN (GString domain)
       (farsight_netsocket_stun_set_property PROP_STUN_SERVER (GString server)
         (farsight_netsocket_set_property PROP_AUX_SOCKFD (GInt aux)
           (farsight_netsocket_set_property PROP_SOCKFD (GInt pri_sockfd) farsight_netsocket_stun_init)))"

text \<open>
  The discovery, if a STUN server or domain is set: whether a callback is to come, and the object. An unsuccessful
  object is released. \<open>g_error\<close> on a failed binding ends the program.
\<close>

definition start_stun :: "gst_env \<Rightarrow> int \<Rightarrow> SscMediaGst \<Rightarrow> (bool \<times> SscMediaGst) res" where
  "start_stun G pri_sockfd self =
     (if sm_stun_server self \<noteq> CNull \<or> sm_stun_domain self \<noteq> CNull then
        andthen (cstr_get (sm_stun_server self)) (\<lambda>server.
        andthen (cstr_get (sm_stun_domain self)) (\<lambda>domain.
        let (cb_sched, ns) = farsight_netsocket_stun_map (ge_stun_init G) (ge_stun_secret G) (ge_stun_bind G)
              (new_netsocket pri_sockfd (-1) server domain) in
        Inr (cb_sched, self\<lparr>sm_netsocket := if cb_sched then Some ns else None\<rparr>)))
      else Inr (False, self))"

definition priv_setup_rtpelements :: "gst_env \<Rightarrow> SscMediaGst \<Rightarrow> (int \<times> bool \<times> SscMediaGst) res" where
  "priv_setup_rtpelements G self =
     (if sm_depay self \<noteq> GNull then Inl Assert_failed
      else
        (let l_port = (if sm_rtp_lport self \<noteq> 0 then sm_rtp_lport self else of_nat SSC_MEDIA_RTP_PORT_RANGE_START);
             ((pri_sockfd, port, _), k) = farsight_netsocket_bind_udp_port True (Some l_port) True False (os self);
             self = self\<lparr>os := k\<rparr> in
         if pri_sockfd \<ge> 0 then
           (let self = self\<lparr>sm_rtp_sockfd := pri_sockfd, sm_rtcp_sockfd := -1,
                           sm_rtp_lport := (case port of None \<Rightarrow> l_port | Some p \<Rightarrow> p)\<rparr> in
            andthen (start_stun G pri_sockfd self) (\<lambda>(cb_sched, self).
            if cb_sched then Inr (0, False, self)
            else andthen (priv_cb_ready G None self) (\<lambda>(sig, self). Inr (0, sig, self))))
         else Inl Assert_failed))"

definition priv_activate_gst :: "gst_env \<Rightarrow> sofia_env \<Rightarrow> SscMediaGst \<Rightarrow> (int \<times> bool \<times> SscMediaGst) res" where
  "priv_activate_gst G E self =
     andthen (if sm_sdp_local self = None then class_set_local_to_caps gst_class E self else Inr self) (\<lambda>self.
     andthen (if sm_sdp_remote self = None then class_set_remote_to_local gst_class E self else Inr self) (\<lambda>self.
     andthen (case sdp_session_of (sm_sdp_local self) of
                None \<Rightarrow> Inr self
              | Some l_sdp \<Rightarrow>
                  (case sdp_media l_sdp of
                     [] \<Rightarrow> Inl Null_deref
                   | md # _ \<Rightarrow> Inr (if m_port md \<noteq> 0 then self\<lparr>sm_rtp_lport := of_nat (m_port md)\<rparr> else self))) (\<lambda>self.
     if sm_depay self = GNull then priv_setup_rtpelements G self else Inr (0, False, self))))"

definition pass_away :: "gst_ref \<Rightarrow> gst_ref" where
  "pass_away r = (if r = GLive then GGone else r)"

definition priv_deactivate_gst :: "SscMediaGst \<Rightarrow> SscMediaGst res" where
  "priv_deactivate_gst self =
     (if \<not> ssc_media_is_initialized self then Inl Assert_failed
      else
        (let self = (if sm_pipeline self then gst (Gst_set_state ''NULL'') (gst (Gst_set_state ''PAUSED'') self) else self);
             self = self\<lparr>sm_state := sm_disabled, sm_netsocket := None\<rparr>;
             self = (if sm_rtp_sockfd self \<noteq> -1
                     then self\<lparr>os := sys_close (sm_rtp_sockfd self) (os self), sm_rtp_sockfd := -1\<rparr> else self);
             self = (if sm_rtcp_sockfd self \<noteq> -1
                     then self\<lparr>os := sys_close (sm_rtcp_sockfd self) (os self), sm_rtp_sockfd := -1, sm_rtcp_sockfd := -1\<rparr>
                     else self);
             self = (if sm_pipeline self
                     then (gst Gst_pipeline_unref self)
                            \<lparr>sm_pipeline := False, sm_udpsrc := pass_away (sm_udpsrc self),
                             sm_udpsink := pass_away (sm_udpsink self), sm_decoder := pass_away (sm_decoder self),
                             sm_depay := GNull\<rparr>
                     else self);
             self = self\<lparr>sm_rx_elements := False, sm_tx_elements := False\<rparr> in
         if ssc_media_is_initialized self then Inl Assert_failed else Inr self))"

definition ssc_media_gst_dispose :: "SscMediaGst \<Rightarrow> SscMediaGst res" where
  "ssc_media_gst_dispose self =
     (if gst_dispose_run self then Inr self
      else
        (let self = self\<lparr>gst_dispose_run := True\<rparr> in
         andthen (if ssc_media_is_initialized self then priv_deactivate_gst self else Inr self) (\<lambda>self.
         andthen (g_free (sm_ad_input_type self)) (\<lambda>_.
         andthen (g_free (sm_ad_input_device self)) (\<lambda>_.
         andthen (g_free (sm_ad_output_type self)) (\<lambda>_.
         andthen (g_free (sm_ad_output_device self)) (\<lambda>_.
         andthen (g_free (sm_stun_server self)) (\<lambda>_.
         andthen (g_free (sm_stun_domain self)) (\<lambda>_.
         let gone = (\<lambda>c. if c = CNull then CNull else CFreed) in
         Inr (self\<lparr>sm_ad_input_type := gone (sm_ad_input_type self), sm_ad_input_device := gone (sm_ad_input_device self),
                   sm_ad_output_type := gone (sm_ad_output_type self), sm_ad_output_device := gone (sm_ad_output_device self),
                   sm_stun_server := gone (sm_stun_server self), sm_stun_domain := gone (sm_stun_domain self)\<rparr>))))))))))"

text \<open>An event of the STUN library for the object's socket, whose signal \<open>ready\<close> is connected to \<open>priv_cb_ready\<close>.\<close>

definition stun_event ::
  "gst_env \<Rightarrow> int \<Rightarrow> bool \<Rightarrow> string \<times> 16 word \<Rightarrow> stun_state \<Rightarrow> SscMediaGst \<Rightarrow> (bool \<times> SscMediaGst) res" where
  "stun_event G bind sd addr ev self =
     (case sm_netsocket self of
        None \<Rightarrow> Inr (False, self)
      | Some ns \<Rightarrow>
          (let ns' = cb_stun_state bind sd addr ev ns; self = self\<lparr>sm_netsocket := Some ns'\<rparr> in
           if readies ns' = readies ns then Inr (False, self) else priv_cb_ready G (Some ns') self))"

end
