(* ===== verification/Gst_Laws.thy ===== *)
theory Gst_Laws
  imports Ssc_Gst
begin

text \<open>
  The GStreamer media as a state machine (\<open>gst_reachable\<close>), its invariant, and what its operations do to the
  sockets of the process and to the local description.
\<close>

section \<open>Frames\<close>

text \<open>What operations on descriptions leave alone: everything of the class itself but its calls of GStreamer.\<close>

definition core :: "SscMediaGst \<Rightarrow> unit SscMediaGst_ext" where
  "core self = SscMedia.more (self\<lparr>gst_out := [], sm_pt := 0\<rparr>)"

lemma core_simps [simp]:
  "core (emit x self) = core self"
  "core (self\<lparr>sm_state := st\<rparr>) = core self" "core (self\<lparr>sm_sdp_local := p\<rparr>) = core self"
  "core (self\<lparr>sm_sdp_remote := p\<rparr>) = core self" "core (self\<lparr>sm_sdp_local_str := c\<rparr>) = core self"
  "core (self\<lparr>sm_sdp_remote_str := c\<rparr>) = core self" "core (gst g self) = core self"
  "core (self\<lparr>sm_pt := n\<rparr>) = core self"
  by (cases self; simp add: core_def emit_def gst_def)+

lemma core_eqD:
  assumes "core b = core a"
  shows "sm_netsocket b = sm_netsocket a \<and> sm_rtp_sockfd b = sm_rtp_sockfd a \<and> sm_rtcp_sockfd b = sm_rtcp_sockfd a
    \<and> sm_rtp_lport b = sm_rtp_lport a \<and> sm_pipeline b = sm_pipeline a \<and> sm_udpsrc b = sm_udpsrc a
    \<and> sm_udpsink b = sm_udpsink a \<and> sm_depay b = sm_depay a \<and> sm_decoder b = sm_decoder a
    \<and> sm_ad_input_type b = sm_ad_input_type a \<and> sm_ad_input_device b = sm_ad_input_device a
    \<and> sm_ad_output_type b = sm_ad_output_type a \<and> sm_ad_output_device b = sm_ad_output_device a
    \<and> sm_stun_server b = sm_stun_server a \<and> sm_stun_domain b = sm_stun_domain a
    \<and> sm_rx_elements b = sm_rx_elements a \<and> sm_tx_elements b = sm_tx_elements a
    \<and> gst_dispose_run b = gst_dispose_run a \<and> os b = os a"
  using assms by (cases a; cases b) (simp add: core_def)

definition sdp_step :: "SscMediaGst \<Rightarrow> SscMediaGst \<Rightarrow> bool" where
  "sdp_step a b \<longleftrightarrow> core b = core a \<and> sm_state b = sm_state a \<and> (media_ok a \<longrightarrow> media_ok b)
     \<and> (sm_sdp_local a \<noteq> None \<longrightarrow> sm_sdp_local b \<noteq> None)"

lemma sdp_step_refl [simp]: "sdp_step a a"
  by (simp add: sdp_step_def)

lemma sdp_step_trans: "sdp_step a b \<Longrightarrow> sdp_step b c \<Longrightarrow> sdp_step a c"
  by (auto simp: sdp_step_def)

lemma gst_fields [simp]:
  "sm_state (gst g a) = sm_state a" "media_ok (gst g a) = media_ok a" "sm_sdp_local (gst g a) = sm_sdp_local a"
  "sm_sdp_remote (gst g a) = sm_sdp_remote a" "sm_sdp_local_str (gst g a) = sm_sdp_local_str a"
  "sm_sdp_remote_str (gst g a) = sm_sdp_remote_str a"
  by (simp_all add: gst_def media_ok_def)

text \<open>The transmitting side never fails unless it uses an element of a pipeline that is gone.\<close>

lemma update_tx_ok:
  assumes "sm_udpsink a \<noteq> GGone"
  shows "ok (priv_update_tx_elements a)
    (\<lambda>(_, b). sdp_step a b \<and> sm_sdp_local b = sm_sdp_local a \<and> sm_sdp_remote b = sm_sdp_remote a)"
  using assms
  by (auto simp: priv_update_tx_elements_def sdp_step_def split: option.split list.split gst_ref.split)

text \<open>An object is usable if setting a description does not reach a dead element.\<close>

definition usable :: "SscMediaGst \<Rightarrow> bool" where
  "usable a \<longleftrightarrow> media_ok a \<and> (ssc_media_is_initialized a \<longrightarrow> sm_udpsink a \<noteq> GGone)"

lemma sdp_step_usable: "usable a \<Longrightarrow> sdp_step a b \<Longrightarrow> usable b"
  using core_eqD [of b a] by (auto simp: usable_def sdp_step_def ssc_media_is_initialized_def)

lemma refresh_ok:
  "usable a \<Longrightarrow> ssc_media_is_initialized a \<Longrightarrow>
     ok (ssc_media_refresh gst_class a)
       (\<lambda>(_, b). sdp_step a b \<and> sm_sdp_local b = sm_sdp_local a \<and> sm_sdp_remote b = sm_sdp_remote a)"
  by (auto simp: ssc_media_refresh_def gst_class_def priv_refresh_gst_def usable_def intro!: ok_mono [OF update_tx_ok])

lemma set_local_ok:
  assumes "usable a"
  shows "ok (priv_set_local_sdp E (Some t) a)
    (\<lambda>(_, b). sdp_step a b \<and> sm_sdp_local b = Some (e_sdp_parse E t) \<and> sm_sdp_remote b = sm_sdp_remote a)"
  using assms
  by (auto simp: priv_set_local_sdp_def usable_def media_ok_def sdp_step_def g_free_def Let_def split: cstr.split)

lemma set_remote_ok:
  assumes "usable a"
  shows "ok (priv_set_remote_sdp E (Some t) a)
    (\<lambda>(_, b). sdp_step a b \<and> sm_sdp_local b = sm_sdp_local a \<and> sm_sdp_remote b = Some (e_sdp_parse E t))"
  using assms by (auto simp: priv_set_remote_sdp_def usable_def media_ok_def sdp_step_def Let_def)

lemma then_refresh:
  assumes "usable a" "ok m (\<lambda>(_, b). sdp_step a b \<and> P (sm_sdp_local b) (sm_sdp_remote b))"
  shows "ok (andthen m (\<lambda>(r, b). if r = 0 \<and> ssc_media_is_initialized b
      then andthen (ssc_media_refresh gst_class b) (\<lambda>(_, c). Inr c) else Inr b))
    (\<lambda>c. sdp_step a c \<and> P (sm_sdp_local c) (sm_sdp_remote c))"
proof (rule ok_andthenI [OF assms(2)], clarify)
  fix r b assume b: "sdp_step a b" "P (sm_sdp_local b) (sm_sdp_remote b)"
  have "ok (andthen (ssc_media_refresh gst_class b) (\<lambda>(_, c). Inr c))
      (\<lambda>c. sdp_step a c \<and> P (sm_sdp_local c) (sm_sdp_remote c))" if "ssc_media_is_initialized b"
    using refresh_ok [OF sdp_step_usable [OF assms(1) b(1)] that] b by (auto elim!: ok_mono intro: sdp_step_trans)
  then show "ok (if r = 0 \<and> ssc_media_is_initialized b
      then andthen (ssc_media_refresh gst_class b) (\<lambda>(_, c). Inr c) else Inr b)
    (\<lambda>c. sdp_step a c \<and> P (sm_sdp_local c) (sm_sdp_remote c))"
    using b by simp
qed

lemma gst_set_property_ok:
  assumes "usable a"
  shows "ok (class_set_property gst_class E PROP_LOCAL_SDP (Some t) a)
      (\<lambda>b. sdp_step a b \<and> sm_sdp_local b = Some (e_sdp_parse E t) \<and> sm_sdp_remote b = sm_sdp_remote a)"
    "ok (class_set_property gst_class E PROP_REMOTE_SDP (Some t) a)
      (\<lambda>b. sdp_step a b \<and> sm_sdp_local b = sm_sdp_local a \<and> sm_sdp_remote b = Some (e_sdp_parse E t))"
  using then_refresh [where P = "\<lambda>l r. l = Some (e_sdp_parse E t) \<and> r = sm_sdp_remote a", OF assms set_local_ok [OF assms, of E t]]
    then_refresh [where P = "\<lambda>l r. l = sm_sdp_local a \<and> r = Some (e_sdp_parse E t)", OF assms set_remote_ok [OF assms, of E t]]
  by (simp_all add: class_set_property_def)

lemma more_core: "SscMedia.more b = SscMedia.more a \<Longrightarrow> core b = core a"
  by (cases a; cases b) (simp add: core_def)

lemma get_local_step:
  "usable a \<Longrightarrow> ok (ssc_media_get_property E PROP_LOCAL_SDP a)
     (\<lambda>(_, b). sdp_step a b \<and> sm_sdp_local b = sm_sdp_local a \<and> sm_sdp_remote b = sm_sdp_remote a)"
  by (rule ok_mono [OF get_property_local_ok [of a E]])
     (auto simp: usable_def media_keep_def media_frame_def sdp_step_def intro: more_core)

lemma local_to_caps_ok:
  assumes "usable a"
  shows "ok (class_set_local_to_caps gst_class E a)
    (\<lambda>b. sdp_step a b \<and> sm_sdp_local b = Some (e_sdp_parse E (fst (priv_static_capabilities_gst a)))
      \<and> sm_sdp_remote b = sm_sdp_remote a)"
proof -
  let ?t = "fst (priv_static_capabilities_gst a)"
  let ?a = "printf (fmt [''Set local SDP based on capabilities: '', ?t, nl]) (a\<lparr>sm_pt := 0\<rparr>)"
  have s: "sdp_step a ?a" "sm_sdp_remote ?a = sm_sdp_remote a" by (simp_all add: sdp_step_def media_ok_def)
  have "class_set_local_to_caps gst_class E a = class_set_property gst_class E PROP_LOCAL_SDP (Some ?t) ?a"
    by (simp add: class_set_local_to_caps_def gst_class_def priv_static_capabilities_gst_def Let_def)
  then show ?thesis
    using gst_set_property_ok(1) [OF sdp_step_usable [OF assms s(1)], of E ?t] s
    by (auto elim!: ok_mono intro: sdp_step_trans)
qed

lemma remote_to_local_ok:
  assumes "usable a"
  shows "ok (class_set_remote_to_local gst_class E a) (\<lambda>b. sdp_step a b \<and> sm_sdp_local b = sm_sdp_local a)"
  unfolding class_set_remote_to_local_def
proof (rule ok_andthenI [OF get_local_step [OF assms]], clarify)
  fix v b assume b: "sdp_step a b" "sm_sdp_local b = sm_sdp_local a"
  let ?b = "printf (fmt [''Set remote SDP based on capabilities: '', pstr v, nl]) b"
  have s: "sdp_step a ?b" "sm_sdp_local ?b = sm_sdp_local a" using b by (simp_all add: sdp_step_def media_ok_def)
  have "ok (if v \<noteq> None then class_set_property gst_class E PROP_REMOTE_SDP v ?b else Inr ?b)
      (\<lambda>c. sdp_step a c \<and> sm_sdp_local c = sm_sdp_local a)"
    using gst_set_property_ok(2) [OF sdp_step_usable [OF assms s(1)], of E "the v"] s
    by (cases v) (auto elim!: ok_mono intro: sdp_step_trans)
  then show "ok (let self = ?b in
      andthen (if v \<noteq> None then class_set_property gst_class E PROP_REMOTE_SDP v self else Inr self)
       (\<lambda>m. Inr (case sdp_session_of (sm_sdp_remote m) of None \<Rightarrow> m
                 | Some ses \<Rightarrow> m\<lparr>sm_sdp_remote := Some (Parsed (zero_ports ses))\<rparr>)))
     (\<lambda>c. sdp_step a c \<and> sm_sdp_local c = sm_sdp_local a)"
    by (auto simp: Let_def sdp_step_def media_ok_def elim!: ok_mono split: option.split)
qed

text \<open>The first half of the activation leaves a local description.\<close>

definition describe :: "sofia_env \<Rightarrow> SscMediaGst \<Rightarrow> SscMediaGst res" where
  "describe E a =
     andthen (if sm_sdp_local a = None then class_set_local_to_caps gst_class E a else Inr a) (\<lambda>a.
       if sm_sdp_remote a = None then class_set_remote_to_local gst_class E a else Inr a)"

definition initial_local :: "sofia_env \<Rightarrow> SscMediaGst \<Rightarrow> sdp_parser" where
  "initial_local E a = (case sm_sdp_local a of None \<Rightarrow> e_sdp_parse E (fst (priv_static_capabilities_gst a)) | Some p \<Rightarrow> p)"

lemma describe_ok:
  assumes "usable a"
  shows "ok (describe E a) (\<lambda>b. sdp_step a b \<and> sm_sdp_local b = Some (initial_local E a))"
  unfolding describe_def
proof (rule ok_andthenI [where P = "\<lambda>b. sdp_step a b \<and> sm_sdp_local b = Some (initial_local E a)"])
  show "ok (if sm_sdp_local a = None then class_set_local_to_caps gst_class E a else Inr a)
      (\<lambda>b. sdp_step a b \<and> sm_sdp_local b = Some (initial_local E a))"
    using local_to_caps_ok [OF assms, of E] by (auto simp: initial_local_def elim!: ok_mono)
  fix b assume b: "sdp_step a b \<and> sm_sdp_local b = Some (initial_local E a)"
  then show "ok (if sm_sdp_remote b = None then class_set_remote_to_local gst_class E b else Inr b)
      (\<lambda>b. sdp_step a b \<and> sm_sdp_local b = Some (initial_local E a))"
    using remote_to_local_ok [OF sdp_step_usable [OF assms, of b], of E]
    by (auto elim!: ok_mono intro: sdp_step_trans)
qed

section \<open>The pipeline\<close>

text \<open>Equal but for the calls of GStreamer.\<close>

definition told :: "SscMediaGst \<Rightarrow> SscMediaGst \<Rightarrow> bool" where
  "told b a \<longleftrightarrow> b\<lparr>gst_out := []\<rparr> = a\<lparr>gst_out := []\<rparr>"

lemma told_simps [simp]: "told a a" "told (gst g b) a = told b a" "told (b\<lparr>gst_out := out\<rparr>) a = told b a"
  by (simp_all add: told_def gst_def)

lemma g_object_set_out: "g_object_set el ps a = a\<lparr>gst_out := gst_out a @ map (\<lambda>(p, v). Gst_set el p v) ps\<rparr>"
proof (induction ps arbitrary: a)
  case (Cons x ps)
  obtain p v where "x = (p, v)" by (cases x)
  then show ?case using Cons.IH [of "gst (Gst_set el p v) a"] by (simp add: g_object_set_def gst_def)
qed (simp add: g_object_set_def)

lemma told_g_object_set [simp]: "told (g_object_set el ps b) a = told b a"
  by (simp add: g_object_set_out)

lemma told_sel:
  assumes "told b a"
  shows "core b = core a \<and> sm_state b = sm_state a \<and> media_ok b = media_ok a \<and> sm_sdp_local b = sm_sdp_local a
    \<and> sm_sdp_remote b = sm_sdp_remote a \<and> sm_sdp_local_str b = sm_sdp_local_str a"
  using assms by (cases a; cases b) (simp add: told_def core_def media_ok_def)

definition with_rx :: "SscMediaGst \<Rightarrow> SscMediaGst" where
  "with_rx a = a\<lparr>sm_rx_elements := True, sm_udpsrc := GLive, sm_depay := GLive, sm_decoder := GLive\<rparr>"

definition with_tx :: "SscMediaGst \<Rightarrow> SscMediaGst" where
  "with_tx a = a\<lparr>sm_tx_elements := True, sm_udpsink := GLive\<rparr>"

lemma create_rx_told: "if_returns (create_rx G f a) (\<lambda>b. told b (with_rx a))"
  by (auto simp: create_rx_def make_element_def set_device_def with_rx_def told_def gst_def g_object_set_out Let_def if_returns_def
      andthen_eq_Inr split: option.splits if_splits)

lemma told_make: "told b a \<Longrightarrow> if_returns (make_element G f n b) (\<lambda>c. told c a)"
  by (simp add: make_element_def split: option.split)

lemma told_device: "told b a \<Longrightarrow> if_returns (set_device el ty d b) (\<lambda>c. told c a)"
  by (auto simp: set_device_def if_returns_def andthen_eq_Inr split: option.splits if_splits)

lemma told_udpsink: "told b a \<Longrightarrow> told (b\<lparr>sm_udpsink := x\<rparr>) (a\<lparr>sm_udpsink := x\<rparr>)"
  by (cases a; cases b) (simp add: told_def)

lemma create_tx_told: "if_returns (create_tx G f a) (\<lambda>b. told b (with_tx a))"
proof -
  let ?a = "a\<lparr>sm_tx_elements := True\<rparr>"
  note step = if_returns_andthenI [OF told_make [of _ ?a]]
  have "if_returns (let self = gst (Gst_make n ''audiosrc'') ?a in
      andthen (set_device ''audiosrc'' (sm_ad_input_type self) (sm_ad_input_device self) self) (\<lambda>self.
      let self = g_object_set ''audiosrc'' [(''latency-time'', GInt 20000), (''blocksize'', GInt 320)] self in
      andthen (make_element G (encoder f) ''codec'' self) (\<lambda>self.
      andthen (make_element G (payloader f) ''payload'' self) (\<lambda>self.
      let self = g_object_set ''payload'' [(''max-ptime'', GInt 20000000)] self in
      andthen (make_element G (find_factory G ''udpsink'') ''sink'' self) (\<lambda>self.
      Inr (gst (Gst_link [''audiosrc'', ''codec'', ''payload'', ''sink''])
        (g_object_set ''sink''
           [(''sync'', GBoolean False), (''async'', GBoolean False), (''socket'', GInt (sm_rtp_sockfd self))]
           (self\<lparr>sm_udpsink := GLive\<rparr>)))))))) (\<lambda>b. told b (with_tx a))" for n
    unfolding Let_def with_tx_def
    by (rule if_returns_andthenI [OF told_device [of _ ?a]], simp, rule step, simp, rule step, simp, rule step, simp)
       (use told_udpsink [of _ ?a GLive] in simp)
  then show ?thesis unfolding create_tx_def Let_def
    by (intro if_returns_bindI) (simp split: option.split)
qed

text \<open>What has to be installed for the pipeline to be made.\<close>

definition gst_complete :: "gst_env \<Rightarrow> SscMediaGst \<Rightarrow> bool" where
  "gst_complete G a \<longleftrightarrow>
     (case gsdp_codec_factories_create G ''PCMU'' of
        None \<Rightarrow> False
      | Some f \<Rightarrow> list_all (\<lambda>x. factory_create G x \<noteq> None)
          [payloader f, depayloader f, encoder f, decoder f, find_factory G ''udpsrc'', find_factory G ''udpsink'',
           find_factory G ''alsasink''])
     \<and> (\<forall>fd. ge_gsocket G fd)
     \<and> (\<exists>ty n. sm_ad_input_type a = CLive ty \<and> ssc_media_create_audio_src G (Some ty) = Inr (Some n))
     \<and> (\<exists>ty. sm_ad_output_type a = CLive ty)
     \<and> sm_ad_input_device a \<noteq> CFreed \<and> sm_ad_output_device a \<noteq> CFreed"

lemma set_device_ok:
  "ty = CLive t \<Longrightarrow> d \<noteq> CFreed \<Longrightarrow> ok (set_device el ty d a) (\<lambda>_. True)"
  by (cases d) (auto simp: set_device_def cstr_get_def)

lemma create_rx_ok:
  assumes "gsdp_codec_factories_create G ''PCMU'' = Some f" "gst_complete G a"
  shows "ok (create_rx G f a) (\<lambda>_. True)"
proof -
  obtain ty where ty: "sm_ad_output_type a = CLive ty" "sm_ad_output_device a \<noteq> CFreed"
    using assms(2) by (auto simp: gst_complete_def)
  have s: "ok (set_device el (CLive ty) (sm_ad_output_device a) b) (\<lambda>_. True)" for el b
    using set_device_ok [OF refl ty(2)] .
  show ?thesis using assms ty s
    by (auto simp: create_rx_def make_element_def gst_complete_def Let_def gst_def g_object_set_out)
qed

lemma create_tx_ok:
  assumes "gsdp_codec_factories_create G ''PCMU'' = Some f" "gst_complete G a"
  shows "ok (create_tx G f a) (\<lambda>_. True)"
proof -
  obtain ty n where ty: "sm_ad_input_type a = CLive ty" "sm_ad_input_device a \<noteq> CFreed"
      "ssc_media_create_audio_src G (Some ty) = Inr (Some n)"
    using assms(2) by (auto simp: gst_complete_def)
  have s: "ok (set_device el (CLive ty) (sm_ad_input_device a) b) (\<lambda>_. True)" for el b
    using set_device_ok [OF refl ty(2)] .
  show ?thesis using assms ty s
    by (auto simp: create_tx_def make_element_def gst_complete_def Let_def gst_def g_object_set_out cstr_get_def)
qed

lemma ok_both: "ok m (\<lambda>_. True) \<Longrightarrow> if_returns m Q \<Longrightarrow> ok m Q"
  by (auto simp: ok_iff if_returns_def)

text \<open>The pipeline has all its elements, or none.\<close>

definition elements_ok :: "SscMediaGst \<Rightarrow> bool" where
  "elements_ok a \<longleftrightarrow> sm_rx_elements a = sm_pipeline a \<and> sm_tx_elements a = sm_pipeline a
     \<and> sm_depay a = (if sm_pipeline a then GLive else GNull)
     \<and> (sm_pipeline a \<longrightarrow> sm_udpsrc a = GLive \<and> sm_udpsink a = GLive \<and> sm_decoder a = GLive)"

definition with_pipeline :: "SscMediaGst \<Rightarrow> SscMediaGst" where
  "with_pipeline a = a\<lparr>sm_pipeline := True, sm_rx_elements := True, sm_tx_elements := True, sm_udpsrc := GLive,
     sm_udpsink := GLive, sm_depay := GLive, sm_decoder := GLive\<rparr>"

lemma with_pipeline_id: "elements_ok a \<Longrightarrow> sm_pipeline a \<Longrightarrow> with_pipeline a = a"
  by (cases a) (simp add: elements_ok_def with_pipeline_def)

lemma elements_with_pipeline [simp]: "elements_ok (with_pipeline a)"
  by (simp add: elements_ok_def with_pipeline_def)

lemma pcmu_factories: "\<exists>f. gsdp_codec_factories_create G ''PCMU'' = Some f"
  by (auto simp: gsdp_codec_factories_create_def contains_def Let_def split: prod.split)

lemma told_with_tx: "told b (with_rx a) \<Longrightarrow> told c (with_tx b) \<Longrightarrow> told c (with_tx (with_rx a))"
  by (cases a; cases b; cases c) (simp add: told_def with_rx_def with_tx_def)

lemma told_pipeline: "told c (with_tx (with_rx (gst g (a\<lparr>sm_pipeline := True\<rparr>)))) \<Longrightarrow> told c (with_pipeline a)"
  by (cases a; cases c) (simp add: told_def with_rx_def with_tx_def with_pipeline_def gst_def)

lemma complete_told: "told b (with_rx a) \<Longrightarrow> gst_complete G b = gst_complete G a"
  by (cases a; cases b) (simp add: told_def with_rx_def gst_complete_def)

lemma gst_pipeline_told:
  assumes "elements_ok a"
  shows "if_returns (gst_pipeline G a) (\<lambda>b. told b (with_pipeline a))"
proof (cases "sm_pipeline a")
  case True
  obtain f where "gsdp_codec_factories_create G ''PCMU'' = Some f" using pcmu_factories by blast
  then show ?thesis using assms True with_pipeline_id [OF assms True]
    by (simp add: gst_pipeline_def elements_ok_def Let_def)
next
  case False
  obtain f where f: "gsdp_codec_factories_create G ''PCMU'' = Some f" using pcmu_factories by blast
  let ?a = "gst Gst_pipeline_new (a\<lparr>sm_pipeline := True\<rparr>)"
  have e: "\<not> sm_rx_elements ?a" "\<not> sm_tx_elements ?a" using assms False by (simp_all add: elements_ok_def gst_def)
  have "if_returns (andthen (create_rx G f ?a) (\<lambda>b. if \<not> sm_tx_elements b then create_tx G f b else Inr b))
      (\<lambda>c. told c (with_pipeline a))"
  proof (rule if_returns_andthenI [OF create_rx_told])
    fix b assume b: "told b (with_rx ?a)"
    then have "\<not> sm_tx_elements b" using core_eqD [of b "with_rx ?a"] told_sel [OF b] e(2) by (simp add: with_rx_def)
    then show "if_returns (if \<not> sm_tx_elements b then create_tx G f b else Inr b) (\<lambda>c. told c (with_pipeline a))"
      using create_tx_told [of G f b] by (auto elim!: if_returns_mono intro: told_pipeline told_with_tx [OF b])
  qed
  then show ?thesis using f False e(1) by (simp add: gst_pipeline_def Let_def)
qed

lemma gst_pipeline_ok:
  assumes "elements_ok a" "gst_complete G a"
  shows "ok (gst_pipeline G a) (\<lambda>b. told b (with_pipeline a))"
proof (rule ok_both [OF _ gst_pipeline_told [OF assms(1)]])
  obtain f where f: "gsdp_codec_factories_create G ''PCMU'' = Some f" using pcmu_factories by blast
  let ?a = "if \<not> sm_pipeline a then gst Gst_pipeline_new (a\<lparr>sm_pipeline := True\<rparr>) else a"
  have c: "gst_complete G ?a" using assms(2) by (simp add: gst_complete_def gst_def)
  have "ok (if \<not> sm_rx_elements ?a then create_rx G f ?a else Inr ?a) (\<lambda>b. gst_complete G b)"
    using ok_both [OF create_rx_ok [OF f c] create_rx_told] c complete_told by (auto elim!: ok_mono)
  then have "ok (andthen (if \<not> sm_rx_elements ?a then create_rx G f ?a else Inr ?a)
      (\<lambda>b. if \<not> sm_tx_elements b then create_tx G f b else Inr b)) (\<lambda>_. True)"
    by (rule ok_andthenI) (simp add: create_tx_ok [OF f])
  moreover have "ge_gsocket G (sm_rtp_sockfd ?a)" using c by (simp add: gst_complete_def)
  ultimately show "ok (gst_pipeline G a) (\<lambda>_. True)" using f by (simp add: gst_pipeline_def Let_def)
qed

section \<open>The socket is ready\<close>

text \<open>The local description after the update, and what it takes for the update not to crash.\<close>

definition rx_media :: "SscMediaGst \<Rightarrow> sdp_session \<Rightarrow> sdp_media \<Rightarrow> sdp_media" where
  "rx_media a ses md =
     (let md = (case sm_netsocket a of None \<Rightarrow> md | Some ns \<Rightarrow> snd (stun_contact ns ses md)) in
      if m_port md = 0 then md\<lparr>m_port := unat (sm_rtp_lport a)\<rparr> else md)"

definition rx_local :: "SscMediaGst \<Rightarrow> sdp_parser option" where
  "rx_local a =
     (case sdp_session_of (sm_sdp_local a) of
        None \<Rightarrow> sm_sdp_local a
      | Some ses \<Rightarrow>
          (case sdp_media ses of
             [] \<Rightarrow> sm_sdp_local a
           | md # mds \<Rightarrow> Some (Parsed (ses\<lparr>sdp_media := rx_media a ses md # mds\<rparr>))))"

definition has_media :: "sdp_parser option \<Rightarrow> bool" where
  "has_media p \<longleftrightarrow> (case sdp_session_of p of None \<Rightarrow> p \<noteq> None | Some ses \<Rightarrow> sdp_media ses \<noteq> [])"

lemma session_of_Some: "sdp_session_of p = Some ses \<Longrightarrow> \<exists>q. p = Some q"
  by (cases p) (simp_all add: sdp_session_of_def)

lemma update_rx_returns:
  "if_returns (priv_update_rx_elements a)
     (\<lambda>(_, b). sdp_step a b \<and> sm_sdp_local a \<noteq> None \<and> sm_sdp_local b = rx_local a \<and> sm_sdp_remote b = sm_sdp_remote a)"
  by (auto simp: priv_update_rx_elements_def rx_local_def rx_media_def sdp_step_def media_ok_def Let_def split_beta
      split: option.split list.split intro!: if_returns_all)

lemma update_rx_ok:
  "media_ok a \<Longrightarrow> has_media (sm_sdp_local a) \<Longrightarrow> ok (priv_update_rx_elements a) (\<lambda>_. True)"
  by (auto simp: priv_update_rx_elements_def has_media_def media_ok_def g_free_def Let_def split_beta
      split: option.splits list.splits cstr.split dest!: session_of_Some)

lemma rx_local_None [simp]: "sm_sdp_local a \<noteq> None \<Longrightarrow> rx_local a \<noteq> None"
  by (simp add: rx_local_def split: option.split list.split)

lemma rx_local_cong:
  assumes "sm_sdp_local b = sm_sdp_local a" "sm_netsocket b = sm_netsocket a" "sm_rtp_lport b = sm_rtp_lport a"
  shows "rx_local b = rx_local a"
proof -
  have "rx_media b = rx_media a" using assms by (simp add: rx_media_def Let_def fun_eq_iff)
  then show ?thesis using assms by (simp add: rx_local_def split: option.split list.split)
qed

lemma rx_local_told: "told b (with_pipeline a) \<Longrightarrow> rx_local b = rx_local a"
  using told_sel [of b "with_pipeline a"] core_eqD [of b "with_pipeline a"]
  by (intro rx_local_cong) (simp_all add: with_pipeline_def)

definition joined :: "FarsightNetsocketStun option \<Rightarrow> SscMediaGst \<Rightarrow> SscMediaGst" where
  "joined netsocket a =
     (case netsocket of
        None \<Rightarrow> a
      | Some ns \<Rightarrow> if sm_rtp_sockfd a = -1 then a\<lparr>sm_rtp_sockfd := sockfd ns\<rparr> else a)"

lemma priv_cb_ready_joined:
  "priv_cb_ready G netsocket a =
     (if \<not> sm_rtp_sockfd (joined netsocket a) > -1 then Inl Assert_failed
      else
        andthen (gst_pipeline G (joined netsocket a)) (\<lambda>a.
        andthen (priv_update_rx_elements a) (\<lambda>(_, a).
        andthen (priv_update_tx_elements a) (\<lambda>(_, a).
        Inr (ssc_media_signal_state_change sm_active (gst (Gst_set_state ''PLAYING'') a))))))"
  by (simp add: priv_cb_ready_def joined_def Let_def split: option.split)

text \<open>What is true of the object when the callback has run.\<close>

definition now_ready :: "SscMediaGst \<Rightarrow> bool \<times> SscMediaGst \<Rightarrow> bool" where
  "now_ready a = (\<lambda>(sig, b). core b = core (with_pipeline a) \<and> sm_state b = sm_active \<and> (media_ok a \<longrightarrow> media_ok b)
     \<and> sm_sdp_local b = rx_local a \<and> sm_sdp_local a \<noteq> None \<and> sm_rtp_sockfd b > -1 \<and> sig = (sm_state a \<noteq> sm_active))"

lemma signal_ready:
  "case ssc_media_signal_state_change sm_active a of
     (sig, b) \<Rightarrow> core b = core a \<and> sm_state b = sm_active \<and> media_ok b = media_ok a \<and> sm_sdp_local b = sm_sdp_local a
       \<and> sig = (sm_state a \<noteq> sm_active)"
  by (simp add: ssc_media_signal_state_change_def media_ok_def)

lemma cb_ready_last:
  assumes "told b (with_pipeline a)" "sm_rtp_sockfd a > -1" "sm_sdp_local b \<noteq> None"
    and "sdp_step b c" "sm_sdp_local c = rx_local b" "sdp_step c d" "sm_sdp_local d = sm_sdp_local c"
  shows "now_ready a (ssc_media_signal_state_change sm_active (gst g d))"
proof -
  have w: "core (with_pipeline a) = core b" "media_ok b = media_ok a" "sm_state b = sm_state a" "sm_sdp_local b = sm_sdp_local a"
    using told_sel [OF assms(1)] by (auto simp: with_pipeline_def media_ok_def)
  obtain sig e where e: "ssc_media_signal_state_change sm_active (gst g d) = (sig, e)" by fastforce
  have s: "core e = core (with_pipeline a)" "sm_state e = sm_active" "media_ok a \<longrightarrow> media_ok e" "sm_sdp_local e = rx_local b"
      "sig = (sm_state a \<noteq> sm_active)"
    using signal_ready [of "gst g d"] assms(4-7) w unfolding e by (auto simp: sdp_step_def)
  have "sm_rtp_sockfd e > -1" using core_eqD [OF s(1)] assms(2) by (simp add: with_pipeline_def)
  then show ?thesis unfolding e now_ready_def using s assms(3) w rx_local_told [OF assms(1)] by simp
qed

lemma cb_ready_returns:
  assumes "elements_ok a"
  shows "if_returns (priv_cb_ready G netsocket a) (now_ready (joined netsocket a))"
proof (cases "sm_rtp_sockfd (joined netsocket a) > -1")
  case True
  let ?a = "joined netsocket a"
  have e: "elements_ok ?a" using assms by (simp add: joined_def elements_ok_def split: option.split)
  have "if_returns (andthen (priv_update_rx_elements b) (\<lambda>(_, a). andthen (priv_update_tx_elements a) (\<lambda>(_, a).
        Inr (ssc_media_signal_state_change sm_active (gst (Gst_set_state ''PLAYING'') a))))) (now_ready ?a)"
    if b: "told b (with_pipeline ?a)" for b
  proof (rule if_returns_andthenI [OF update_rx_returns], simp only: split_paired_all prod.case, elim conjE)
    fix r c assume c: "sdp_step b c" "sm_sdp_local b \<noteq> None" "sm_sdp_local c = rx_local b"
    have "sm_udpsink c = GLive"
      using core_eqD [of c b] c(1) told_sel [OF b] core_eqD [of b "with_pipeline ?a"]
      by (simp add: sdp_step_def with_pipeline_def)
    then show "if_returns (andthen (priv_update_tx_elements c) (\<lambda>(_, a).
        Inr (ssc_media_signal_state_change sm_active (gst (Gst_set_state ''PLAYING'') a)))) (now_ready ?a)"
      by (intro ok_if_returns ok_andthenI [OF update_tx_ok]) (use core_eqD [of c b] c told_sel [OF b] in \<open>auto intro!: cb_ready_last [OF b True _ c(1)]\<close>)
  qed
  then have "if_returns (andthen (gst_pipeline G ?a) (\<lambda>b.
        andthen (priv_update_rx_elements b) (\<lambda>(_, a). andthen (priv_update_tx_elements a) (\<lambda>(_, a).
        Inr (ssc_media_signal_state_change sm_active (gst (Gst_set_state ''PLAYING'') a)))))) (now_ready ?a)"
    by (rule if_returns_andthenI [OF gst_pipeline_told [OF e]])
  then show ?thesis unfolding priv_cb_ready_joined using True by simp
qed (simp add: priv_cb_ready_joined)

lemma complete_joined [simp]: "gst_complete G (joined ns a) = gst_complete G a"
  by (simp add: joined_def gst_complete_def split: option.split)

lemma joined_fields [simp]:
  "media_ok (joined ns a) = media_ok a" "sm_sdp_local (joined ns a) = sm_sdp_local a" "elements_ok (joined ns a) = elements_ok a"
  "sm_state (joined ns a) = sm_state a"
  by (simp_all add: joined_def media_ok_def elements_ok_def split: option.split)

lemma cb_ready_ok:
  assumes "elements_ok a" "gst_complete G a" "media_ok a" "has_media (sm_sdp_local a)" "sm_rtp_sockfd (joined ns a) > -1"
  shows "ok (priv_cb_ready G ns a) (now_ready (joined ns a))"
proof (rule ok_both [OF _ cb_ready_returns [OF assms(1)]])
  let ?a = "joined ns a"
  have "ok (andthen (priv_update_rx_elements b) (\<lambda>(_, a). andthen (priv_update_tx_elements a) (\<lambda>(_, a).
        Inr (ssc_media_signal_state_change sm_active (gst (Gst_set_state ''PLAYING'') a))))) (\<lambda>_. True)"
    if b: "told b (with_pipeline ?a)" for b
  proof (rule ok_andthenI [OF ok_both [OF update_rx_ok update_rx_returns]])
    show "media_ok b" "has_media (sm_sdp_local b)" using told_sel [OF b] assms(3,4)
      by (auto simp: with_pipeline_def media_ok_def joined_def split: option.splits if_splits)
    fix x assume x: "case x of (_, c) \<Rightarrow> sdp_step b c \<and> sm_sdp_local b \<noteq> None \<and> sm_sdp_local c = rx_local b
        \<and> sm_sdp_remote c = sm_sdp_remote b"
    obtain r c where c: "x = (r, c)" by fastforce
    have "sm_udpsink c = GLive"
      using core_eqD [of c b] x c told_sel [OF b] core_eqD [of b "with_pipeline ?a"] by (simp add: sdp_step_def with_pipeline_def)
    then have "ok (priv_update_tx_elements c) (\<lambda>_. True)" using update_tx_ok [of c] by (auto elim!: ok_mono)
    then show "ok (case x of (_, a) \<Rightarrow> andthen (priv_update_tx_elements a) (\<lambda>(_, a).
        Inr (ssc_media_signal_state_change sm_active (gst (Gst_set_state ''PLAYING'') a)))) (\<lambda>_. True)"
      by (auto simp: c elim!: ok_mono)
  qed
  then have "ok (andthen (gst_pipeline G ?a) (\<lambda>b.
        andthen (priv_update_rx_elements b) (\<lambda>(_, a). andthen (priv_update_tx_elements a) (\<lambda>(_, a).
        Inr (ssc_media_signal_state_change sm_active (gst (Gst_set_state ''PLAYING'') a)))))) (\<lambda>_. True)"
    using assms(1,2) by (intro ok_andthenI [OF gst_pipeline_ok]) simp_all
  then show "ok (priv_cb_ready G ns a) (\<lambda>_. True)" unfolding priv_cb_ready_joined using assms(5) by simp
qed

section \<open>Activation\<close>

text \<open>The port the activation asks for first, and the object with a socket of its own.\<close>

definition wanted_port :: "SscMediaGst \<Rightarrow> 16 word" where
  "wanted_port a = (if sm_rtp_lport a \<noteq> 0 then sm_rtp_lport a else of_nat SSC_MEDIA_RTP_PORT_RANGE_START)"

definition with_socket :: "int \<Rightarrow> 16 word \<Rightarrow> kernel \<Rightarrow> SscMediaGst \<Rightarrow> SscMediaGst" where
  "with_socket fd port k a = a\<lparr>os := k, sm_rtp_sockfd := fd, sm_rtcp_sockfd := -1, sm_rtp_lport := port\<rparr>"

lemma wanted_port_not_0: "wanted_port a \<noteq> 0"
  by (simp add: wanted_port_def SSC_MEDIA_RTP_PORT_RANGE_START_def)

text \<open>A port is free if the choice of \<open>farsight_netsocket_bind_udp_port\<close> gives one, on a descriptor that is new.\<close>

definition port_free :: "SscMediaGst \<Rightarrow> int \<Rightarrow> 16 word \<Rightarrow> bool" where
  "port_free a fd p \<longleftrightarrow> fresh_descriptors (os a) \<and> (\<exists>fds. k_descriptors (os a) = fd # fds)
     \<and> port_choice True (wanted_port a) (os a) = Some p"

definition no_stun :: "SscMediaGst \<Rightarrow> bool" where
  "no_stun a \<longleftrightarrow> sm_stun_server a = CNull \<and> sm_stun_domain a = CNull"

lemma bind_free:
  assumes "port_free a fd p"
  shows "\<exists>k. farsight_netsocket_bind_udp_port True (Some (wanted_port a)) True False (os a) = ((fd, Some p, None), k)
    \<and> k_sockets k = (k_sockets (os a))(fd \<mapsto> Some p)" "0 \<le> fd" "k_sockets (os a) fd = None"
proof -
  obtain fds where d: "fresh_descriptors (os a)" "k_descriptors (os a) = fd # fds"
      "port_choice True (wanted_port a) (os a) = Some p"
    using assms by (auto simp: port_free_def)
  show "\<exists>k. farsight_netsocket_bind_udp_port True (Some (wanted_port a)) True False (os a) = ((fd, Some p, None), k)
      \<and> k_sockets k = (k_sockets (os a))(fd \<mapsto> Some p)"
    using bind_single [OF d(1,2) wanted_port_not_0 [of a], of True] d(3) by simp
  show "0 \<le> fd" "k_sockets (os a) fd = None" using d(1,2) by (auto simp: fresh_descriptors_def)
qed

lemma start_stun_none: "no_stun a \<Longrightarrow> start_stun G fd a = Inr (False, a)"
  by (simp add: no_stun_def start_stun_def)

lemma new_netsocket_fields [simp]:
  "sockfd (new_netsocket fd aux server domain) = fd" "ns_out (new_netsocket fd aux server domain) = []"
  "c_addr_str (new_netsocket fd aux server domain) = None" "c_port (new_netsocket fd aux server domain) = 0"
  by (simp_all add: new_netsocket_def farsight_netsocket_stun_set_property_def farsight_netsocket_set_property_def
      farsight_netsocket_stun_init_def farsight_netsocket_init_def FarsightNetsocket.defs)

lemma map_sockfd: "farsight_netsocket_stun_map i s b ns = (r, ns') \<Longrightarrow> sockfd ns' = sockfd ns"
  by (auto simp: farsight_netsocket_stun_map_def Let_def split: if_splits)

lemma start_stun_returns:
  "if_returns (start_stun G fd a) (\<lambda>(cb_sched, b). \<exists>ns. b = a\<lparr>sm_netsocket := ns\<rparr>
     \<and> (if cb_sched then \<exists>n. ns = Some n \<and> sockfd n = fd else ns = None \<or> ns = sm_netsocket a))"
proof (cases "no_stun a")
  case True
  then show ?thesis by (auto simp: start_stun_none intro: exI [of _ "sm_netsocket a"])
next
  case False
  have "case farsight_netsocket_stun_map (ge_stun_init G) (ge_stun_secret G) (ge_stun_bind G) (new_netsocket fd (-1) server domain)
      of (cb, ns) \<Rightarrow> if_returns (Inr (cb, a\<lparr>sm_netsocket := if cb then Some ns else None\<rparr>)) (\<lambda>(cb_sched, b). \<exists>ns. b = a\<lparr>sm_netsocket := ns\<rparr>
     \<and> (if cb_sched then \<exists>n. ns = Some n \<and> sockfd n = fd else ns = None \<or> ns = sm_netsocket a))" for server domain
    by (auto dest: map_sockfd split: prod.split intro!: exI)
  then show ?thesis using False unfolding start_stun_def no_stun_def Let_def
    by (intro if_returns_split(1) [THEN iffD2]) (auto intro!: if_returns_all)
qed

text \<open>Setting up, with the port and the socket named.\<close>

lemma setup_socket:
  "priv_setup_rtpelements G a =
     (if sm_depay a \<noteq> GNull then Inl Assert_failed
      else
        (let ((fd, port, _), k) = farsight_netsocket_bind_udp_port True (Some (wanted_port a)) True False (os a) in
         if fd \<ge> 0 then
           andthen (start_stun G fd (with_socket fd (case port of None \<Rightarrow> wanted_port a | Some p \<Rightarrow> p) k a)) (\<lambda>(cb_sched, c).
           if cb_sched then Inr (0, False, c) else andthen (priv_cb_ready G None c) (\<lambda>(sig, d). Inr (0, sig, d)))
         else Inl Assert_failed))"
  unfolding priv_setup_rtpelements_def Let_def wanted_port_def [symmetric]
  by (simp add: with_socket_def split_beta)

section \<open>The invariant\<close>

text \<open>The texts of the object are never dangling before it is disposed of.\<close>

definition texts_ok :: "SscMediaGst \<Rightarrow> bool" where
  "texts_ok a \<longleftrightarrow> CFreed \<notin> {sm_ad_input_type a, sm_ad_input_device a, sm_ad_output_type a, sm_ad_output_device a,
     sm_stun_server a, sm_stun_domain a}"

text \<open>
  The pipeline exists exactly while the media are active, and has all its elements then; before the first activation no
  element has been made; the pipeline, and a discovery, have a socket and a local description.
\<close>

definition gst_ok :: "SscMediaGst \<Rightarrow> bool" where
  "gst_ok a \<longleftrightarrow> media_ok a \<and> elements_ok a \<and> sm_state a \<in> {sm_init, sm_active, sm_disabled}
     \<and> (sm_state a = sm_active) = sm_pipeline a \<and> (sm_state a = sm_init \<longrightarrow> sm_udpsink a = GNull)
     \<and> (sm_pipeline a \<or> sm_netsocket a \<noteq> None \<longrightarrow> sm_sdp_local a \<noteq> None \<and> sm_rtp_sockfd a > -1) \<and> texts_ok a"

lemma gst_ok_usable: "gst_ok a \<Longrightarrow> usable a"
  by (auto simp: gst_ok_def usable_def ssc_media_is_initialized_def elements_ok_def)

lemma elements_core: "core b = core a \<Longrightarrow> elements_ok b = elements_ok a"
  by (drule core_eqD) (simp add: elements_ok_def)

lemma texts_core: "core b = core a \<Longrightarrow> texts_ok b = texts_ok a"
  by (drule core_eqD) (simp add: texts_ok_def)

lemma texts_with [simp]:
  "texts_ok (with_pipeline a) = texts_ok a" "texts_ok (joined ns a) = texts_ok a" "texts_ok (gst g a) = texts_ok a"
  "texts_ok (a\<lparr>sm_netsocket := n\<rparr>) = texts_ok a" "texts_ok (a\<lparr>sm_rtp_lport := p\<rparr>) = texts_ok a"
  "texts_ok (with_socket fd p k a) = texts_ok a" "texts_ok (a\<lparr>sm_state := st\<rparr>) = texts_ok a" "texts_ok (a\<lparr>os := k\<rparr>) = texts_ok a"
  "texts_ok (a\<lparr>sm_rtp_sockfd := fd\<rparr>) = texts_ok a" "texts_ok (a\<lparr>sm_rtcp_sockfd := fd\<rparr>) = texts_ok a"
  "texts_ok (a\<lparr>sm_rx_elements := b\<rparr>) = texts_ok a" "texts_ok (a\<lparr>sm_tx_elements := b\<rparr>) = texts_ok a"
  "texts_ok (a\<lparr>sm_pipeline := b\<rparr>) = texts_ok a" "texts_ok (a\<lparr>sm_udpsrc := r\<rparr>) = texts_ok a"
  "texts_ok (a\<lparr>sm_udpsink := r\<rparr>) = texts_ok a" "texts_ok (a\<lparr>sm_decoder := r\<rparr>) = texts_ok a"
  "texts_ok (a\<lparr>sm_depay := r\<rparr>) = texts_ok a"
  by (simp_all add: with_pipeline_def joined_def gst_def texts_ok_def with_socket_def split: option.split)

lemma gst_ok_step: "gst_ok a \<Longrightarrow> sdp_step a b \<Longrightarrow> gst_ok b"
  using core_eqD [of b a] elements_core [of b a] texts_core [of b a] by (auto simp: gst_ok_def sdp_step_def)

lemma gst_ok_ready:
  assumes "now_ready a (sig, b)" "media_ok a" "texts_ok a"
  shows "gst_ok b"
proof -
  have c: "core b = core (with_pipeline a)" "sm_state b = sm_active" "media_ok b" "sm_sdp_local b \<noteq> None" "sm_rtp_sockfd b > -1"
    using assms by (auto simp: now_ready_def)
  moreover have "elements_ok b" "texts_ok b" using elements_core [OF c(1)] texts_core [OF c(1)] assms(3) by simp_all
  moreover have "sm_pipeline b" using core_eqD [OF c(1)] by (simp add: with_pipeline_def)
  ultimately show ?thesis by (simp add: gst_ok_def)
qed

lemma setup_ok_state:
  assumes "gst_ok a" "sm_sdp_local a \<noteq> None"
  shows "if_returns (priv_setup_rtpelements G a) (\<lambda>(_, _, b). gst_ok b)"
proof -
  have "if_returns (andthen (start_stun G fd c) (\<lambda>(cb_sched, d).
      if cb_sched then Inr (0, False, d) else andthen (priv_cb_ready G None d) (\<lambda>(sig, e). Inr (0, sig, e))))
    (\<lambda>(_, _, b). gst_ok b)" if "0 \<le> fd" "c = with_socket fd port k a" for fd port k c
  proof (rule if_returns_andthenI [OF start_stun_returns], simp only: split_paired_all prod.case, elim exE conjE)
    fix cb d ns assume d: "d = c\<lparr>sm_netsocket := ns\<rparr>"
      "if cb then \<exists>n. ns = Some n \<and> sockfd n = fd else ns = None \<or> ns = sm_netsocket c"
    have m: "media_ok d" "elements_ok d" "texts_ok d" "gst_ok d" using d assms that
      by (auto simp: texts_ok_def gst_ok_def with_socket_def media_ok_def elements_ok_def split: if_splits)
    show "if_returns (if cb then Inr (0, False, d) else andthen (priv_cb_ready G None d) (\<lambda>(sig, e). Inr (0, sig, e)))
        (\<lambda>(_, _, b). gst_ok b)"
      using m cb_ready_returns [OF m(2), of G None]
      by (auto simp: joined_def elim!: if_returns_mono intro: gst_ok_ready)
  qed
  note S = this
  obtain fd port ax k where r: "farsight_netsocket_bind_udp_port True (Some (wanted_port a)) True False (os a) = ((fd, port, ax), k)"
    by (metis surj_pair)
  show ?thesis unfolding setup_socket r Let_def prod.case
    using S [of fd _ "case port of None \<Rightarrow> wanted_port a | Some p \<Rightarrow> p" k, OF _ refl]
    by (cases "0 \<le> fd"; cases "sm_depay a = GNull") (simp_all only: if_returns_simps if_True if_False simp_thms True_implies_equals)
qed

lemma activate_describe:
  "priv_activate_gst G E a =
     andthen (describe E a) (\<lambda>a.
     andthen (case sdp_session_of (sm_sdp_local a) of
                None \<Rightarrow> Inr a
              | Some l_sdp \<Rightarrow>
                  (case sdp_media l_sdp of
                     [] \<Rightarrow> Inl Null_deref
                   | md # _ \<Rightarrow> Inr (if m_port md \<noteq> 0 then a\<lparr>sm_rtp_lport := of_nat (m_port md)\<rparr> else a))) (\<lambda>a.
     if sm_depay a = GNull then priv_setup_rtpelements G a else Inr (0, False, a)))"
  by (simp add: priv_activate_gst_def describe_def andthen_assoc)

lemma activate_gst_ok:
  assumes "gst_ok a"
  shows "if_returns (priv_activate_gst G E a) (\<lambda>(_, _, b). gst_ok b)"
  unfolding activate_describe
proof (rule if_returns_andthenI [OF ok_if_returns [OF describe_ok [OF gst_ok_usable [OF assms]]]], elim conjE)
  fix b assume b: "sdp_step a b" "sm_sdp_local b = Some (initial_local E a)"
  have g: "gst_ok (b\<lparr>sm_rtp_lport := p\<rparr>)" "gst_ok b" for p using gst_ok_step [OF assms b(1)]
    by (auto simp: gst_ok_def media_ok_def elements_ok_def)
  show "if_returns (andthen (case sdp_session_of (sm_sdp_local b) of None \<Rightarrow> Inr b
          | Some l_sdp \<Rightarrow> (case sdp_media l_sdp of [] \<Rightarrow> Inl Null_deref
              | md # _ \<Rightarrow> Inr (if m_port md \<noteq> 0 then b\<lparr>sm_rtp_lport := of_nat (m_port md)\<rparr> else b))) (\<lambda>a.
     if sm_depay a = GNull then priv_setup_rtpelements G a else Inr (0, False, a))) (\<lambda>(_, _, b). gst_ok b)"
    using b(2) g setup_ok_state
    by (auto split: option.split list.split)
qed

text \<open>Deactivation never fails on media that are not disabled; it closes both descriptors that are not -1.\<close>

lemma gst_sel [simp]:
  "sm_pipeline (gst g a) = sm_pipeline a" "sm_rtp_sockfd (gst g a) = sm_rtp_sockfd a" "sm_rtcp_sockfd (gst g a) = sm_rtcp_sockfd a"
  "os (gst g a) = os a" "sm_udpsrc (gst g a) = sm_udpsrc a" "sm_udpsink (gst g a) = sm_udpsink a"
  "sm_decoder (gst g a) = sm_decoder a" "sm_depay (gst g a) = sm_depay a" "sm_netsocket (gst g a) = sm_netsocket a"
  by (simp_all add: gst_def)

lemma deactivate_ok:
  assumes "gst_ok a" "ssc_media_is_initialized a"
  shows "ok (priv_deactivate_gst a) (\<lambda>b. gst_ok b \<and> sm_state b = sm_disabled \<and> sm_rtp_sockfd b = -1
    \<and> sm_rtcp_sockfd b = -1 \<and> sm_sdp_local b = sm_sdp_local a
    \<and> k_sockets (os b) = (\<lambda>fd. if fd \<noteq> -1 \<and> (fd = sm_rtp_sockfd a \<or> fd = sm_rtcp_sockfd a) then None else k_sockets (os a) fd))"
  using assms
  by (auto simp: priv_deactivate_gst_def gst_ok_def elements_ok_def pass_away_def ssc_media_is_initialized_def media_ok_def
      sys_close_def Let_def fun_eq_iff)

lemma stun_event_gst_ok:
  assumes "gst_ok a"
  shows "if_returns (stun_event G bind sd addr ev a) (\<lambda>(_, b). gst_ok b)"
proof (cases "sm_netsocket a")
  case (Some ns)
  let ?ns = "cb_stun_state bind sd addr ev ns" let ?a = "a\<lparr>sm_netsocket := Some (cb_stun_state bind sd addr ev ns)\<rparr>"
  have "gst_ok ?a" using assms Some by (auto simp: gst_ok_def media_ok_def elements_ok_def)
  moreover from this have "elements_ok ?a" "media_ok (joined (Some ?ns) ?a)" "texts_ok (joined (Some ?ns) ?a)"
    by (simp_all add: gst_ok_def)
  ultimately have a: "gst_ok ?a" "elements_ok ?a" "media_ok (joined (Some ?ns) ?a)" "texts_ok (joined (Some ?ns) ?a)" by blast+
  have "if_returns (priv_cb_ready G (Some ?ns) ?a) (\<lambda>(_, b). gst_ok b)"
    using if_returns_mono [OF cb_ready_returns [OF a(2), of G "Some ?ns"]] gst_ok_ready [OF _ a(3,4)] by fastforce
  then show ?thesis using Some a(1) by (simp add: stun_event_def Let_def)
qed (use assms in \<open>simp add: stun_event_def\<close>)

section \<open>The media as a state machine\<close>

datatype gst_action =
    Activate
  | Deactivate
  | Refresh
  | Set_local string
  | Set_remote string
  | Get_local
  | Set_text gst_prop "string option"
  | Stun_reports int bool "string \<times> 16 word" stun_state

definition gst_perform :: "gst_env \<Rightarrow> sofia_env \<Rightarrow> gst_action \<Rightarrow> SscMediaGst \<Rightarrow> SscMediaGst res" where
  "gst_perform G E act a =
     (case act of
        Activate \<Rightarrow> andthen (priv_activate_gst G E a) (\<lambda>(_, _, b). Inr b)
      | Deactivate \<Rightarrow> priv_deactivate_gst a
      | Refresh \<Rightarrow> andthen (ssc_media_refresh gst_class a) (\<lambda>(_, b). Inr b)
      | Set_local t \<Rightarrow> class_set_property gst_class E PROP_LOCAL_SDP (Some t) a
      | Set_remote t \<Rightarrow> class_set_property gst_class E PROP_REMOTE_SDP (Some t) a
      | Get_local \<Rightarrow> andthen (ssc_media_get_property E PROP_LOCAL_SDP a) (\<lambda>(_, b). Inr b)
      | Set_text p t \<Rightarrow> ssc_media_gst_set_property p t a
      | Stun_reports bind sd addr ev \<Rightarrow> andthen (stun_event G bind sd addr ev a) (\<lambda>(_, b). Inr b))"

inductive gst_reachable :: "gst_env \<Rightarrow> sofia_env \<Rightarrow> SscMediaGst \<Rightarrow> bool" for G E where
  made: "gst_reachable G E (ssc_media_gst_init G k)"
| acts: "gst_reachable G E a \<Longrightarrow> gst_perform G E act a = Inr b \<Longrightarrow> (act = Refresh \<longrightarrow> ssc_media_is_initialized a) \<Longrightarrow>
     gst_reachable G E b"

inductive_cases gst_reachableE: "gst_reachable G E a"

lemma init_gst_ok: "gst_ok (ssc_media_gst_init G k)"
  by (simp add: gst_ok_def texts_ok_def ssc_media_gst_init_def zero_media_gst_def ssc_media_init_def elements_ok_def media_ok_def
      SscMedia.defs)

lemma text_update_ok:
  "gst_ok a \<Longrightarrow> c \<noteq> CFreed \<Longrightarrow> gst_ok (a\<lparr>sm_ad_input_type := c\<rparr>)"
  "gst_ok a \<Longrightarrow> c \<noteq> CFreed \<Longrightarrow> gst_ok (a\<lparr>sm_ad_input_device := c\<rparr>)"
  "gst_ok a \<Longrightarrow> c \<noteq> CFreed \<Longrightarrow> gst_ok (a\<lparr>sm_ad_output_type := c\<rparr>)"
  "gst_ok a \<Longrightarrow> c \<noteq> CFreed \<Longrightarrow> gst_ok (a\<lparr>sm_ad_output_device := c\<rparr>)"
  "gst_ok a \<Longrightarrow> c \<noteq> CFreed \<Longrightarrow> gst_ok (a\<lparr>sm_stun_server := c\<rparr>)"
  "gst_ok a \<Longrightarrow> c \<noteq> CFreed \<Longrightarrow> gst_ok (a\<lparr>sm_stun_domain := c\<rparr>)"
  by (simp_all add: gst_ok_def elements_ok_def media_ok_def texts_ok_def) blast+

lemma replace_text_ok: "old \<noteq> CFreed \<Longrightarrow> ok (replace_text old v upd) Q = Q (upd (cstr_dup v))"
  by (cases old) (simp_all add: replace_text_def g_free_def)

lemma cstr_dup_live [simp]: "cstr_dup v \<noteq> CFreed"
  by (cases v; simp add: cstr_dup_def)

lemma set_text_ok:
  assumes "gst_ok a"
  shows "ok (ssc_media_gst_set_property p t a) gst_ok"
proof -
  have "sm_ad_input_type a \<noteq> CFreed" "sm_ad_input_device a \<noteq> CFreed" "sm_ad_output_type a \<noteq> CFreed"
      "sm_ad_output_device a \<noteq> CFreed" "sm_stun_server a \<noteq> CFreed" "sm_stun_domain a \<noteq> CFreed"
    using assms by (auto simp: gst_ok_def texts_ok_def)
  then show ?thesis
    by (cases p) (simp_all add: ssc_media_gst_set_property_def replace_text_ok text_update_ok assms)
qed

lemma gst_perform_keeps:
  assumes "gst_ok a" "act = Refresh \<longrightarrow> ssc_media_is_initialized a"
  shows "if_returns (gst_perform G E act a) gst_ok"
proof -
  note u = gst_ok_usable [OF assms(1)]
  note s = gst_ok_step [OF assms(1)]
  show ?thesis
  proof (cases act)
    case Activate
    then show ?thesis using activate_gst_ok [OF assms(1), of G E] by (auto simp: gst_perform_def elim!: if_returns_mono)
  next
    case Deactivate
    have "if_returns (priv_deactivate_gst a) gst_ok"
    proof (cases "ssc_media_is_initialized a")
      case True
      show ?thesis by (rule ok_if_returns [OF ok_mono [OF deactivate_ok [OF assms(1) True]]]) blast
    qed (simp add: priv_deactivate_gst_def)
    then show ?thesis using Deactivate by (simp add: gst_perform_def)
  next
    case Refresh
    then show ?thesis using refresh_ok [OF u] assms(2) s by (auto simp: gst_perform_def intro!: ok_if_returns elim!: ok_mono)
  next
    case (Set_local t)
    then show ?thesis using gst_set_property_ok(1) [OF u, of E t] s by (auto simp: gst_perform_def intro!: ok_if_returns elim!: ok_mono)
  next
    case (Set_remote t)
    then show ?thesis using gst_set_property_ok(2) [OF u, of E t] s by (auto simp: gst_perform_def intro!: ok_if_returns elim!: ok_mono)
  next
    case Get_local
    then show ?thesis using get_local_step [OF u, of E] s by (auto simp: gst_perform_def intro!: ok_if_returns elim!: ok_mono)
  next
    case (Set_text p t)
    then show ?thesis using set_text_ok [OF assms(1), of p t] by (auto simp: gst_perform_def intro!: ok_if_returns)
  next
    case (Stun_reports bind sd addr ev)
    then show ?thesis using stun_event_gst_ok [OF assms(1)] by (auto simp: gst_perform_def elim!: if_returns_mono)
  qed
qed

section \<open>When actions return\<close>

text \<open>The port the socket object has been told of when the descriptions are there, and what makes an activation succeed.\<close>

definition told_port :: "sofia_env \<Rightarrow> SscMediaGst \<Rightarrow> 16 word" where
  "told_port E a =
     (case sdp_session_of (Some (initial_local E a)) of
        Some ses \<Rightarrow> (case sdp_media ses of md # _ \<Rightarrow> if m_port md \<noteq> 0 then of_nat (m_port md) else sm_rtp_lport a | [] \<Rightarrow> sm_rtp_lport a)
      | None \<Rightarrow> sm_rtp_lport a)"

definition can_activate :: "gst_env \<Rightarrow> sofia_env \<Rightarrow> int \<Rightarrow> 16 word \<Rightarrow> SscMediaGst \<Rightarrow> bool" where
  "can_activate G E fd p a \<longleftrightarrow> gst_complete G a \<and> has_media (Some (initial_local E a))
     \<and> port_free (a\<lparr>sm_rtp_lport := told_port E a\<rparr>) fd p"

text \<open>The activation up to the socket, on media that have no pipeline.\<close>

lemma activate_socket:
  assumes "gst_ok a" "\<not> sm_pipeline a" "can_activate G E fd p a"
  shows "\<exists>b c. priv_activate_gst G E a = andthen (start_stun G fd c) (\<lambda>(cb_sched, d).
        if cb_sched then Inr (0, False, d) else andthen (priv_cb_ready G None d) (\<lambda>(sig, e). Inr (0, sig, e)))
      \<and> (\<exists>k. c = with_socket fd p k (b\<lparr>sm_rtp_lport := told_port E a\<rparr>) \<and> k_sockets k = (k_sockets (os a))(fd \<mapsto> Some p))
      \<and> sdp_step a b \<and> sm_sdp_local b = Some (initial_local E a) \<and> 0 \<le> fd"
proof -
  obtain b where b: "describe E a = Inr b" "sdp_step a b" "sm_sdp_local b = Some (initial_local E a)"
    using describe_ok [OF gst_ok_usable [OF assms(1)], of E] by (auto simp: ok_iff)
  note f = core_eqD [of b a]
  have c: "core b = core a" using b(2) by (simp add: sdp_step_def)
  let ?b = "b\<lparr>sm_rtp_lport := told_port E a\<rparr>"
  have m: "(case sdp_session_of (sm_sdp_local b) of
                None \<Rightarrow> Inr b
              | Some l_sdp \<Rightarrow>
                  (case sdp_media l_sdp of
                     [] \<Rightarrow> Inl Null_deref
                   | md # _ \<Rightarrow> Inr (if m_port md \<noteq> 0 then b\<lparr>sm_rtp_lport := of_nat (m_port md)\<rparr> else b))) = Inr ?b"
    using assms(3) f c
    by (auto simp: can_activate_def has_media_def told_port_def b(3) split: option.splits list.splits)
  have d: "sm_depay ?b = GNull" using f c assms(1,2) by (simp add: gst_ok_def elements_ok_def)
  have "wanted_port ?b = wanted_port (a\<lparr>sm_rtp_lport := told_port E a\<rparr>)" by (simp add: wanted_port_def)
  then have pf: "port_free ?b fd p" using assms(3) f c by (simp add: can_activate_def port_free_def)
  obtain k where k: "farsight_netsocket_bind_udp_port True (Some (wanted_port ?b)) True False (os ?b) = ((fd, Some p, None), k)"
      "k_sockets k = (k_sockets (os ?b))(fd \<mapsto> Some p)"
    using bind_free(1) [OF pf] by blast
  have "priv_activate_gst G E a = priv_setup_rtpelements G ?b"
    unfolding activate_describe b(1) andthen_simps m using d by simp
  also have "\<dots> = andthen (start_stun G fd (with_socket fd p k ?b)) (\<lambda>(cb_sched, d).
        if cb_sched then Inr (0, False, d) else andthen (priv_cb_ready G None d) (\<lambda>(sig, e). Inr (0, sig, e)))"
    using d k(1) bind_free(2) [OF pf] by (simp add: setup_socket)
  finally show ?thesis using b(2,3) k(2) f c bind_free(2) [OF pf]
    by (intro exI [of _ b] exI [of _ "with_socket fd p k ?b"] conjI exI [of _ k]) simp_all
qed

text \<open>The result of a complete activation without STUN.\<close>

lemma activate_no_stun:
  assumes "gst_ok a" "\<not> sm_pipeline a" "can_activate G E fd p a" "no_stun a"
  shows "ok (priv_activate_gst G E a) (\<lambda>(r, sig, b). r = 0 \<and> sig \<and> sm_state b = sm_active \<and> gst_ok b
    \<and> sm_rtp_sockfd b = fd \<and> sm_rtcp_sockfd b = -1 \<and> sm_rtp_lport b = p
    \<and> k_sockets (os b) = (k_sockets (os a))(fd \<mapsto> Some p)
    \<and> sm_sdp_local b = rx_local (a\<lparr>sm_sdp_local := Some (initial_local E a), sm_rtp_lport := p\<rparr>))"
proof -
  obtain b c k where x: "priv_activate_gst G E a = andthen (start_stun G fd c) (\<lambda>(cb_sched, d).
        if cb_sched then Inr (0, False, d) else andthen (priv_cb_ready G None d) (\<lambda>(sig, e). Inr (0, sig, e)))"
      "c = with_socket fd p k (b\<lparr>sm_rtp_lport := told_port E a\<rparr>)" "k_sockets k = (k_sockets (os a))(fd \<mapsto> Some p)"
      "sdp_step a b" "sm_sdp_local b = Some (initial_local E a)" "0 \<le> fd"
    using activate_socket [OF assms(1-3)] by blast
  note f = core_eqD [of b a]
  have cb: "core b = core a" "gst_ok b" using x(4) gst_ok_step [OF assms(1) x(4)] by (simp_all add: sdp_step_def)
  have st: "sm_state b = sm_state a" "sm_state a \<noteq> sm_active" using x(4) assms(1,2) by (auto simp: sdp_step_def gst_ok_def)
  have stc: "sm_state c \<noteq> sm_active" using st by (simp add: x(2) with_socket_def)
  have ns: "no_stun c" using assms(4) f cb by (simp add: x(2) no_stun_def with_socket_def)
  have el: "elements_ok c" "gst_complete G c" "media_ok c" "texts_ok c" "has_media (sm_sdp_local c)" "sm_rtp_sockfd (joined None c) > -1"
    using cb assms(1,3) f x(5,6)
    by (auto simp: x(2) with_socket_def gst_ok_def elements_ok_def media_ok_def can_activate_def gst_complete_def joined_def texts_ok_def)
  have rl: "rx_local c = rx_local (a\<lparr>sm_sdp_local := Some (initial_local E a), sm_rtp_lport := p\<rparr>)"
    using f cb x(5) by (intro rx_local_cong) (simp_all add: x(2) with_socket_def)
  have w: "sm_rtp_sockfd e = fd \<and> sm_rtcp_sockfd e = -1 \<and> sm_rtp_lport e = p \<and> os e = k" if "core e = core (with_pipeline c)" for e
    using core_eqD [OF that] by (simp add: x(2) with_socket_def with_pipeline_def)
  have "ok (priv_cb_ready G None c) (\<lambda>(sig, e). gst_ok e \<and> now_ready c (sig, e))"
    using ok_mono [OF cb_ready_ok [OF el(1,2,3,5,6)]] gst_ok_ready [OF _ el(3,4)] by (fastforce simp: joined_def)
  then show ?thesis unfolding x(1) start_stun_none [OF ns]
    by (auto simp: now_ready_def w x(3) rl stc elim!: ok_mono)
qed

end
