(* ===== verification/Gst_Props.thy ===== *)
theory Gst_Props
  imports Gst_Laws
begin

text \<open>Properties of the GStreamer media: the invariant, when actions return, activation and its undoing, STUN.\<close>

section \<open>A concrete environment\<close>

definition demo_gst :: gst_env where
  "demo_gst = \<lparr>ge_audio_env = None, ge_default_audio = ''ALSA'', ge_apple = False, ge_factory = (\<lambda>_. True),
     ge_create = (\<lambda>_. True), ge_features = [(''Source/Audio'', ''Audio source (ALSA)'', ''alsasrc'')],
     ge_gsocket = (\<lambda>_. True), ge_stun_init = True, ge_stun_secret = 0, ge_stun_bind = 0\<rparr>"

definition demo_os :: kernel where
  "demo_os = \<lparr>k_sockets = [0 \<mapsto> None], k_descriptors = [3, 4, 5], k_binds = 0, k_accepts = (\<lambda>i p. p \<noteq> 16384),
     k_random = 0, k_stderr = []\<rparr>"

abbreviation demo_media :: SscMediaGst where
  "demo_media \<equiv> ssc_media_gst_init demo_gst demo_os"

lemma demo_media_sel:
  "sm_sdp_local demo_media = None" "sm_netsocket demo_media = None" "sm_rtp_lport demo_media = 0" "os demo_media = demo_os"
  "sm_ad_input_type demo_media = CLive ''ALSA''" "sm_ad_output_type demo_media = CLive ''ALSA''"
  "sm_ad_input_device demo_media = CNull" "sm_ad_output_device demo_media = CNull" "\<not> sm_pipeline demo_media"
  "sm_stun_server demo_media = CNull" "sm_stun_domain demo_media = CNull" "sm_rtp_sockfd demo_media = -1"
  "sm_state demo_media = sm_init" "sm_rtcp_sockfd demo_media = 0" "\<not> gst_dispose_run demo_media"
  by (simp_all add: ssc_media_gst_init_def zero_media_gst_def ssc_media_init_def SscMedia.defs default_audio_type_def demo_gst_def)

lemma demo_sockets: "k_sockets (os demo_media) = [0 \<mapsto> None]"
  unfolding demo_media_sel by (simp add: demo_os_def)

lemma demo_audio: "ssc_media_create_audio_src demo_gst (Some ''ALSA'') = Inr (Some ''alsasrc'')"
  by (simp add: ssc_media_create_audio_src_def demo_gst_def is_audio_src_def contains_def factory_create_def)

lemma demo_factories:
  "gsdp_codec_factories_create demo_gst ''PCMU'' =
     Some \<lparr>payloader = Some ''rtpg711pay'', depayloader = Some ''rtpg711depay'', encoder = Some ''mulawenc'',
           decoder = Some ''mulawdec''\<rparr>"
  by (simp add: gsdp_codec_factories_create_def contains_def find_factory_def demo_gst_def)

lemma demo_complete: "gst_complete demo_gst demo_media"
  by (simp add: gst_complete_def demo_factories demo_audio demo_media_sel)
    (simp add: demo_gst_def factory_create_def find_factory_def)

lemma demo_initial: "initial_local demo_env demo_media = Parsed demo_session"
  by (simp add: initial_local_def demo_media_sel demo_env_def priv_static_capabilities_gst_def)

lemma demo_port: "port_choice True 16384 demo_os = Some 16386"
proof -
  have n: "port_at 16384 (Suc 0) = 16386" "port_at 16384 0 = 16384" by (simp_all add: port_at_def next_port_def)
  have "[0..<4096] = 0 # Suc 0 # [Suc (Suc 0)..<4096]"
    using upt_conv_Cons [of 0 4096] upt_conv_Cons [of "Suc 0" 4096] by simp
  then have "List.find (accepted demo_os 16384) [0..<turns True] = Some (Suc 0)"
    by (simp add: turns_def FARSIGHT_NETSOCKET_PORT_SCAN_RANGE_def accepted_def n) (simp add: demo_os_def)
  then show ?thesis by (simp add: port_choice_def n)
qed

lemma demo_can_activate: "can_activate demo_gst demo_env 3 16386 demo_media"
proof -
  have "told_port demo_env demo_media = 0"
    by (simp add: told_port_def demo_initial sdp_session_of_def demo_session_def demo_media_sel)
  then have w: "wanted_port (demo_media\<lparr>sm_rtp_lport := told_port demo_env demo_media\<rparr>) = 16384"
    by (simp add: wanted_port_def SSC_MEDIA_RTP_PORT_RANGE_START_def)
  have "port_free (demo_media\<lparr>sm_rtp_lport := told_port demo_env demo_media\<rparr>) 3 16386"
    unfolding port_free_def w using demo_port
    by (simp add: demo_media_sel) (simp add: fresh_descriptors_def demo_os_def)
  then show ?thesis using demo_complete
    by (simp add: can_activate_def has_media_def demo_initial sdp_session_of_def demo_session_def)
qed

lemma demo_no_stun: "no_stun demo_media"
  by (simp add: no_stun_def demo_media_sel)

section \<open>Invariant and safety\<close>

lemma reachable_ok: "gst_reachable G E a \<Longrightarrow> gst_ok a"
proof (induction rule: gst_reachable.induct)
  case (acts a act b)
  then show ?case using gst_perform_keeps [OF acts.IH acts.hyps(3), of G E] by (simp add: if_returns_def)
qed (rule init_gst_ok)

text \<open>
  The media stay well-formed (C25). In every state that any sequence of activations, deactivations, refreshes, changes of
  descriptions and texts, and STUN events can reach, the pipeline exists exactly while the media are active and has all
  its elements then, before the first activation no element has been made, a pipeline or a pending discovery comes
  with a socket and a local description, and no text of the object dangles.
\<close>

theorem media_stay_well_formed:
  assumes "gst_reachable G E a"
  shows "gst_ok a"
  using assms by (rule reachable_ok)

lemma demo_activation:
  "\<exists>b. priv_activate_gst demo_gst demo_env demo_media = Inr (0, True, b) \<and> sm_state b = sm_active \<and> sm_rtp_sockfd b = 3
     \<and> k_sockets (os b) = [0 \<mapsto> None, 3 \<mapsto> Some 16386]"
  using activate_no_stun [OF init_gst_ok demo_media_sel(9) demo_can_activate demo_no_stun]
  by (auto simp: ok_iff demo_sockets)

theorem media_stay_well_formed_witness:
  "\<exists>a. gst_reachable demo_gst demo_env a \<and> sm_state a = sm_active \<and> gst_ok a"
proof -
  obtain b where b: "priv_activate_gst demo_gst demo_env demo_media = Inr (0, True, b)" "sm_state b = sm_active"
    using demo_activation by blast
  have "gst_reachable demo_gst demo_env b"
    by (rule gst_reachable.acts [where act = Activate, OF gst_reachable.made [of demo_gst demo_env demo_os]]) (simp_all add: gst_perform_def b(1))
  then show ?thesis using media_stay_well_formed b(2) by blast
qed

text \<open>What an action needs to return.\<close>

definition gst_action_ok :: "gst_env \<Rightarrow> sofia_env \<Rightarrow> gst_action \<Rightarrow> SscMediaGst \<Rightarrow> bool" where
  "gst_action_ok G E act a \<longleftrightarrow>
     (case act of
        Activate \<Rightarrow> has_media (Some (initial_local E a)) \<and> (sm_pipeline a \<or> (\<exists>fd p. can_activate G E fd p a))
      | Deactivate \<Rightarrow> ssc_media_is_initialized a
      | Refresh \<Rightarrow> ssc_media_is_initialized a
      | Stun_reports _ _ _ _ \<Rightarrow> sm_netsocket a \<noteq> None \<longrightarrow> gst_complete G a \<and> has_media (sm_sdp_local a)
      | _ \<Rightarrow> True)"

lemma activate_returns:
  assumes "gst_ok a" "has_media (Some (initial_local E a))" "sm_pipeline a \<or> (\<exists>fd p. can_activate G E fd p a)"
  shows "ok (priv_activate_gst G E a) (\<lambda>_. True)"
proof (cases "sm_pipeline a")
  case True
  obtain b where b: "describe E a = Inr b" "sdp_step a b" "sm_sdp_local b = Some (initial_local E a)"
    using describe_ok [OF gst_ok_usable [OF assms(1)], of E] by (auto simp: ok_iff)
  have "sm_depay b = GLive" using core_eqD [of b a] b(2) assms(1) True by (simp add: sdp_step_def gst_ok_def elements_ok_def)
  then show ?thesis unfolding activate_describe b(1) using b(3) assms(2)
    by (auto simp: has_media_def split: option.splits list.splits)
next
  case False
  then obtain fd p where c: "can_activate G E fd p a" using assms(3) by blast
  obtain b c k where x: "priv_activate_gst G E a = andthen (start_stun G fd c) (\<lambda>(cb_sched, d).
        if cb_sched then Inr (0, False, d) else andthen (priv_cb_ready G None d) (\<lambda>(sig, e). Inr (0, sig, e)))"
      "c = with_socket fd p k (b\<lparr>sm_rtp_lport := told_port E a\<rparr>)"
      "sdp_step a b" "sm_sdp_local b = Some (initial_local E a)" "0 \<le> fd"
    using activate_socket [OF assms(1) False c] by blast
  have g: "gst_ok b" "core b = core a" using gst_ok_step [OF assms(1) x(3)] x(3) by (simp_all add: sdp_step_def)
  have t: "ok (start_stun G fd c) (\<lambda>_. True)"
    using g(1) by (auto simp: x(2) start_stun_def with_socket_def gst_ok_def texts_ok_def cstr_get_def Let_def split_beta split: cstr.split)
  show ?thesis unfolding x(1)
  proof (rule ok_andthenI [OF ok_both [OF t start_stun_returns]], simp only: split_paired_all prod.case, elim exE conjE)
    fix cb d ns assume d: "d = c\<lparr>sm_netsocket := ns\<rparr>"
    have e: "elements_ok d" "gst_complete G d" "media_ok d" "has_media (sm_sdp_local d)" "sm_rtp_sockfd (joined None d) > -1"
      using g assms(1) c x(4,5) core_eqD [OF g(2)]
      by (auto simp: d x(2) with_socket_def gst_ok_def elements_ok_def media_ok_def can_activate_def gst_complete_def joined_def)
    show "ok (if cb then Inr (0, False, d) else andthen (priv_cb_ready G None d) (\<lambda>(sig, e). Inr (0, sig, e))) (\<lambda>_. True)"
      using cb_ready_ok [OF e] by (auto elim!: ok_mono)
  qed
qed

lemma stun_event_returns:
  assumes "gst_ok a" "sm_netsocket a \<noteq> None \<longrightarrow> gst_complete G a \<and> has_media (sm_sdp_local a)"
  shows "ok (stun_event G bind sd addr ev a) (\<lambda>_. True)"
proof (cases "sm_netsocket a")
  case (Some ns)
  let ?a = "a\<lparr>sm_netsocket := Some (cb_stun_state bind sd addr ev ns)\<rparr>"
  have "elements_ok ?a" "gst_complete G ?a" "media_ok ?a" "has_media (sm_sdp_local ?a)"
      "sm_rtp_sockfd (joined (Some (cb_stun_state bind sd addr ev ns)) ?a) > -1"
    using assms Some by (auto simp: gst_ok_def elements_ok_def media_ok_def gst_complete_def joined_def)
  from cb_ready_ok [OF this] show ?thesis using Some by (auto simp: stun_event_def Let_def elim!: ok_mono)
qed (simp add: stun_event_def)

text \<open>
  Actions return (C24). In every reachable state, a change of descriptions or texts, a refresh or deactivation of media that
  are not disabled, an activation that finds its elements, a media line and a free port, and a STUN event that finds the
  same, returns without a memory error, a failed assertion or the end of the program, in a reachable state.
\<close>

theorem gst_actions_return:
  assumes "gst_reachable G E a" "gst_action_ok G E act a"
  shows "ok (gst_perform G E act a) (gst_reachable G E)"
proof -
  note g = reachable_ok [OF assms(1)]
  note u = gst_ok_usable [OF g]
  have "ok (gst_perform G E act a) (\<lambda>_. True)"
  proof (cases act)
    case Activate
    then show ?thesis using activate_returns [OF g] assms(2) by (auto simp: gst_perform_def gst_action_ok_def elim!: ok_mono)
  next
    case Deactivate
    then show ?thesis using deactivate_ok [OF g] assms(2) by (auto simp: gst_perform_def gst_action_ok_def simp del: ok_simps elim!: ok_mono)
  next
    case Refresh
    then show ?thesis using refresh_ok [OF u] assms(2) by (auto simp: gst_perform_def gst_action_ok_def elim!: ok_mono)
  next
    case (Set_local t)
    then show ?thesis using gst_set_property_ok(1) [OF u, of E t] by (auto simp: gst_perform_def elim!: ok_mono)
  next
    case (Set_remote t)
    then show ?thesis using gst_set_property_ok(2) [OF u, of E t] by (auto simp: gst_perform_def elim!: ok_mono)
  next
    case Get_local
    then show ?thesis using get_local_step [OF u, of E] by (auto simp: gst_perform_def elim!: ok_mono)
  next
    case (Set_text p t)
    then show ?thesis using set_text_ok [OF g, of p t] by (auto simp: gst_perform_def elim!: ok_mono)
  next
    case (Stun_reports bind sd addr ev)
    then show ?thesis using stun_event_returns [OF g] assms(2) by (auto simp: gst_perform_def gst_action_ok_def elim!: ok_mono)
  qed
  then obtain b where b: "gst_perform G E act a = Inr b" by (auto simp: ok_iff)
  have "act = Refresh \<longrightarrow> ssc_media_is_initialized a" using assms(2) by (auto simp: gst_action_ok_def)
  then show ?thesis using gst_reachable.acts [OF assms(1) b] b by simp
qed

theorem gst_actions_return_witness:
  "\<exists>b. gst_perform demo_gst demo_env Activate demo_media = Inr b \<and> gst_reachable demo_gst demo_env b"
proof -
  have "gst_action_ok demo_gst demo_env Activate demo_media"
    using demo_can_activate by (auto simp: gst_action_ok_def can_activate_def)
  then show ?thesis using gst_actions_return [OF gst_reachable.made] by (auto simp: ok_iff)
qed

section \<open>Activation\<close>

text \<open>
  Activation binds and advertises (C26). Activating well-formed media without STUN, when the elements are installed and a port
  is free, binds the first free port from the wanted one on, makes the media active, signals it, and leaves the local
  description as it was but for the port of its first media line: a port of 0 becomes the port that is bound. A port
  that was there already stays, even if another one has been bound.
\<close>

theorem activation_binds:
  assumes "gst_ok a" "\<not> sm_pipeline a" "sm_netsocket a = None" "no_stun a" "can_activate G E fd p a"
    and "initial_local E a = Parsed ses" "sdp_media ses = md # mds"
  shows "ok (priv_activate_gst G E a) (\<lambda>(r, sig, b). r = 0 \<and> sig \<and> sm_state b = sm_active \<and> gst_ok b
    \<and> sm_rtp_sockfd b = fd \<and> k_sockets (os b) = (k_sockets (os a))(fd \<mapsto> Some p)
    \<and> sm_sdp_local b = Some (Parsed (ses\<lparr>sdp_media :=
          md\<lparr>m_port := if m_port md = 0 then unat p else m_port md\<rparr> # mds\<rparr>)))"
proof -
  have "rx_local (a\<lparr>sm_sdp_local := Some (initial_local E a), sm_rtp_lport := p\<rparr>) =
      Some (Parsed (ses\<lparr>sdp_media := md\<lparr>m_port := if m_port md = 0 then unat p else m_port md\<rparr> # mds\<rparr>))"
    using assms(3,6,7) by (simp add: rx_local_def rx_media_def sdp_session_of_def Let_def)
  then show ?thesis
    by (intro ok_mono [OF activate_no_stun [OF assms(1,2,5,4)]]) auto
qed

theorem activation_binds_witness:
  "ok (priv_activate_gst demo_gst demo_env demo_media) (\<lambda>(r, sig, b). sm_state b = sm_active
    \<and> sm_sdp_local b = Some (Parsed (demo_session\<lparr>sdp_media := [\<lparr>m_port = 16386, m_connections = None, m_rest = ''audio''\<rparr>]\<rparr>)))"
proof -
  have m: "sdp_media demo_session = \<lparr>m_port = 0, m_connections = None, m_rest = ''audio''\<rparr> # []"
    by (simp add: demo_session_def)
  show ?thesis
    by (rule ok_mono [OF activation_binds [OF init_gst_ok demo_media_sel(9,2) demo_no_stun demo_can_activate demo_initial m]]) auto
qed

text \<open>
  Deactivation undoes activation (C27). Deactivating the media after such an activation closes exactly the descriptor
  it has opened, so that the process has the sockets it had before, and leaves well-formed, disabled media.
\<close>

theorem deactivation_undoes:
  assumes "gst_ok a" "\<not> sm_pipeline a" "no_stun a" "can_activate G E fd p a"
  shows "ok (andthen (priv_activate_gst G E a) (\<lambda>(_, _, b). priv_deactivate_gst b))
    (\<lambda>c. k_sockets (os c) = k_sockets (os a) \<and> sm_state c = sm_disabled \<and> \<not> sm_pipeline c \<and> gst_ok c)"
proof -
  have n: "0 \<le> fd" "k_sockets (os a) fd = None"
    using bind_free(2,3) [of "a\<lparr>sm_rtp_lport := told_port E a\<rparr>" fd p] assms(4) by (simp_all add: can_activate_def)
  show ?thesis
  proof (rule ok_andthenI [OF activate_no_stun [OF assms(1,2,4,3)]], simp only: split_paired_all prod.case, elim conjE)
    fix b assume b: "sm_state b = sm_active" "gst_ok b" "sm_rtp_sockfd b = fd" "sm_rtcp_sockfd b = -1"
      "k_sockets (os b) = (k_sockets (os a))(fd \<mapsto> Some p)"
    have i: "ssc_media_is_initialized b" using b(1) by (simp add: ssc_media_is_initialized_def)
    show "ok (priv_deactivate_gst b)
        (\<lambda>c. k_sockets (os c) = k_sockets (os a) \<and> sm_state c = sm_disabled \<and> \<not> sm_pipeline c \<and> gst_ok c)"
      by (rule ok_mono [OF deactivate_ok [OF b(2) i]]) (use n b in \<open>auto simp: fun_eq_iff gst_ok_def\<close>)
  qed
qed

theorem deactivation_undoes_witness:
  "ok (andthen (priv_activate_gst demo_gst demo_env demo_media) (\<lambda>(_, _, b). priv_deactivate_gst b))
    (\<lambda>c. k_sockets (os c) = [0 \<mapsto> None] \<and> sm_state c = sm_disabled)"
  by (rule ok_mono [OF deactivation_undoes [OF init_gst_ok demo_media_sel(9) demo_no_stun demo_can_activate]])
    (simp add: demo_sockets)

section \<open>STUN\<close>

text \<open>
  The discovered address is advertised. When STUN reports an address and a port for the object's socket, the
  media become active and the first media line of the local description carries that port and, as its own connection
  line, that address (its first 47 characters); the rest of the description stays, and its cached text is renewed.
\<close>

theorem stun_address_advertised:
  assumes "gst_ok a" "sm_netsocket a = Some ns" "gst_complete G a" "port \<noteq> 0"
    and "sm_sdp_local a = Some (Parsed ses)" "sdp_media ses = md # mds"
  shows "ok (stun_event G bind sd (addr, port) stun_discovery_done a) (\<lambda>(sig, b). sm_state b = sm_active \<and> gst_ok b
    \<and> (\<exists>c. c_address c = Some (take 47 addr) \<and> c_nettype c = sdp_net_in \<and> c_addrtype c = sdp_addr_ip4
         \<and> sm_sdp_local b = Some (Parsed (ses\<lparr>sdp_media := md\<lparr>m_port := unat port, m_connections := Some c\<rparr> # mds\<rparr>))))"
proof -
  let ?ns = "cb_stun_state bind sd (addr, port) stun_discovery_done ns"
  let ?a = "a\<lparr>sm_netsocket := Some ?ns\<rparr>"
  have ns: "c_port ?ns = port" "c_addr_str ?ns = Some (take 47 addr)" "readies ?ns \<noteq> readies ns"
    by (simp_all add: cb_stun_state_def readies_def count_list_append)
  have j: "joined (Some ?ns) ?a = ?a" using assms(1,2) by (simp add: joined_def gst_ok_def)
  have e: "elements_ok ?a" "gst_complete G ?a" "media_ok ?a" "texts_ok ?a" "has_media (sm_sdp_local ?a)"
      "sm_rtp_sockfd (joined (Some ?ns) ?a) > -1" unfolding j
    using assms by (auto simp: gst_ok_def elements_ok_def media_ok_def gst_complete_def has_media_def sdp_session_of_def)
  have p: "unat port \<noteq> 0" using assms(4) by (simp add: unat_eq_0)
  have "\<exists>con. snd (stun_contact ?ns ses md) = md\<lparr>m_port := unat port, m_connections :=
      Some (con\<lparr>c_nettype := sdp_net_in, c_addrtype := sdp_addr_ip4, c_address := Some (take 47 addr)\<rparr>)\<rparr>"
    using p by (simp add: stun_contact_def farsight_netsocket_get_property_def ns sdp_set_contact_def Let_def)
  then obtain con where con: "snd (stun_contact ?ns ses md) = md\<lparr>m_port := unat port, m_connections :=
      Some (con\<lparr>c_nettype := sdp_net_in, c_addrtype := sdp_addr_ip4, c_address := Some (take 47 addr)\<rparr>)\<rparr>" by blast
  obtain c where "c = con\<lparr>c_nettype := sdp_net_in, c_addrtype := sdp_addr_ip4, c_address := Some (take 47 addr)\<rparr>" by simp
  then have c: "c_address c = Some (take 47 addr)" "c_nettype c = sdp_net_in" "c_addrtype c = sdp_addr_ip4"
      "snd (stun_contact ?ns ses md) = md\<lparr>m_port := unat port, m_connections := Some c\<rparr>"
    using con by simp_all
  have "rx_local ?a = Some (Parsed (ses\<lparr>sdp_media := md\<lparr>m_port := unat port, m_connections := Some c\<rparr> # mds\<rparr>))"
    using assms(5,6) p by (simp add: rx_local_def rx_media_def sdp_session_of_def c(4) Let_def)
  moreover have "ok (priv_cb_ready G (Some ?ns) ?a) (\<lambda>(sig, b). gst_ok b \<and> now_ready ?a (sig, b))"
    using ok_mono [OF cb_ready_ok [OF e(1,2,3,5,6)]] gst_ok_ready [OF _ e(3,4)] unfolding j by fastforce
  ultimately show ?thesis using assms(2) ns(3) c(1-3)
    by (auto simp: stun_event_def Let_def now_ready_def elim!: ok_mono)
qed

definition demo_discovering :: SscMediaGst where
  "demo_discovering = demo_media\<lparr>sm_sdp_local := Some (Parsed demo_session), sm_rtp_sockfd := 3, sm_rtp_lport := 16386,
     sm_netsocket := Some (new_netsocket 3 (-1) (Some ''stun.example'') None)\<rparr>"

theorem stun_address_advertised_witness:
  "ok (stun_event demo_gst 0 True (''192.0.2.7'', 40000) stun_discovery_done demo_discovering) (\<lambda>(sig, b). sm_state b = sm_active
    \<and> (\<exists>c. c_address c = Some ''192.0.2.7'' \<and> sm_sdp_local b =
         Some (Parsed (demo_session\<lparr>sdp_media := [\<lparr>m_port = 40000, m_connections = Some c, m_rest = ''audio''\<rparr>]\<rparr>))))"
proof -
  have g: "gst_ok demo_discovering" using init_gst_ok [of demo_gst demo_os]
    by (simp add: demo_discovering_def gst_ok_def elements_ok_def media_ok_def texts_ok_def demo_media_sel)
  have d: "sm_netsocket demo_discovering = Some (new_netsocket 3 (-1) (Some ''stun.example'') None)"
      "gst_complete demo_gst demo_discovering" "sm_sdp_local demo_discovering = Some (Parsed demo_session)"
      "sdp_media demo_session = \<lparr>m_port = 0, m_connections = None, m_rest = ''audio''\<rparr> # []"
    using demo_complete by (simp_all add: demo_discovering_def gst_complete_def demo_session_def)
  show ?thesis
    by (rule ok_mono [OF stun_address_advertised [OF g d(1,2) _ d(3,4)]]) (auto intro!: exI)
qed

text \<open>
  Disposing of media that were never activated closes descriptor 0, the standard input of the process:
  \<open>sm_rtcp_sockfd\<close> starts as 0 and not as -1.
\<close>

lemma fresh_dispose_closes_input:
  "ok (ssc_media_gst_dispose (ssc_media_gst_init G k)) (\<lambda>b. k_sockets (os b) = (k_sockets k)(0 := None))"
  by (simp add: ssc_media_gst_dispose_def ssc_media_gst_init_def zero_media_gst_def ssc_media_init_def SscMedia.defs
      ssc_media_is_initialized_def priv_deactivate_gst_def g_free_def sys_close_def Let_def)

text \<open>The device properties read back as the types.\<close>

lemma device_reads_type:
  "ok (andthen (ssc_media_gst_set_property PROP_AUDIO_INPUT_DEVICE (Some ''hw:1'') demo_media)
     (ssc_media_gst_get_property PROP_AUDIO_INPUT_DEVICE)) (\<lambda>v. v = Some ''ALSA'')"
  by (simp add: ssc_media_gst_set_property_def ssc_media_gst_get_property_def replace_text_def g_free_def cstr_get_def
      demo_media_sel)

end
