(* ===== verification/Su_String.thy ===== *)
theory Su_String
  imports Ssc_Prelude
begin

unbundle bit_operations_syntax

text \<open>
  The string routines of the SIP stack (\<open>su/su_string.c\<close>): comparison and matching that ignore the case of
  ASCII letters, and the scans of a string or a memory area for a set of characters.

  A C string is the list of its characters before the NUL, and \<open>None\<close> is a null pointer. Two pointers may be
  equal or only point to equal texts, so the shortcut \<open>s1 == s2\<close> is the argument \<open>same\<close>, which can hold for
  equal texts only. \<open>char\<close> is signed, as on the targets of the program; \<open>unsigned char\<close> is the code of the
  character. The loops are recursions over the remaining text, with the tests in the order of the source.
\<close>

section \<open>Comparison\<close>

definition byte :: "char \<Rightarrow> nat" where
  "byte c = of_char c"

text \<open>A value of type \<open>char\<close>, converted to \<open>int\<close>.\<close>

definition schar :: "char \<Rightarrow> int" where
  "schar c = (if byte c < 128 then int (byte c) else int (byte c) - 256)"

text \<open>The byte a pointer into a string points to; NUL at the end.\<close>

definition head_byte :: "string \<Rightarrow> nat" where
  "head_byte s = (case s of [] \<Rightarrow> 0 | c # _ \<Rightarrow> byte c)"

definition lower :: "nat \<Rightarrow> nat" where
  "lower a = (if 65 \<le> a \<and> a \<le> 90 then a + 32 else a)"

definition or_empty :: "string option \<Rightarrow> string" where
  "or_empty s = (case s of None \<Rightarrow> [] | Some t \<Rightarrow> t)"

fun strcasecmp_loop :: "string \<Rightarrow> string \<Rightarrow> int" where
  "strcasecmp_loop [] B = - int (head_byte B)"
| "strcasecmp_loop (c # A) B =
     (let a = byte c; b = head_byte B; value = int a - int b in
      if a = 0 then value
      else if value = 0 then strcasecmp_loop A (tl B)
      else (let value = int (lower a) - int (lower b) in
            if value \<noteq> 0 then value else strcasecmp_loop A (tl B)))"

definition su_strcasecmp :: "string option \<Rightarrow> string option \<Rightarrow> int" where
  "su_strcasecmp s1 s2 = strcasecmp_loop (or_empty s1) (or_empty s2)"

fun strncasecmp_loop :: "string \<Rightarrow> string \<Rightarrow> nat \<Rightarrow> int" where
  "strncasecmp_loop A B 0 = 0"
| "strncasecmp_loop A B (Suc n) =
     (let a = head_byte A; b = head_byte B; value = int a - int b in
      if a = 0 then value
      else if value = 0 then strncasecmp_loop (tl A) (tl B) n
      else (let value = int (lower a) - int (lower b) in
            if value \<noteq> 0 then value else strncasecmp_loop (tl A) (tl B) n))"

text \<open>
  \<open>memcmp (A, B, n)\<close> is defined in C only if both areas have \<open>n\<close> bytes; a string has one more than it has
  characters. The areas are equal if the bytes are, the NUL included.
\<close>

definition memcmp_equal :: "string \<Rightarrow> string \<Rightarrow> nat \<Rightarrow> bool res" where
  "memcmp_equal A B n =
     (if n > Suc (length A) \<or> n > Suc (length B) then Inl Out_of_bounds
      else Inr (take n (map byte A @ [0]) = take n (map byte B @ [0])))"

definition su_strncasecmp :: "bool \<Rightarrow> string option \<Rightarrow> string option \<Rightarrow> nat \<Rightarrow> int res" where
  "su_strncasecmp same s1 s2 n =
     (let A = or_empty s1; B = or_empty s2 in
      if n = 0 \<or> same then Inr 0
      else andthen (memcmp_equal A B n) (\<lambda>eq. Inr (if eq then 0 else strncasecmp_loop A B n)))"

section \<open>Matching\<close>

definition su_strmatch :: "bool \<Rightarrow> string option \<Rightarrow> string option \<Rightarrow> bool" where
  "su_strmatch same s1 s2 =
     (if same then True else (case (s1, s2) of (Some a, Some b) \<Rightarrow> a = b | _ \<Rightarrow> False))"

text \<open>The letters differ in case only: the test of both matching loops.\<close>

definition case_pair :: "nat \<Rightarrow> nat \<Rightarrow> bool" where
  "case_pair a b =
     (if 65 \<le> a \<and> a \<le> 90 then a + 32 = b else if 65 \<le> b \<and> b \<le> 90 then a = b + 32 else False)"

fun casematch_loop :: "string \<Rightarrow> string \<Rightarrow> bool" where
  "casematch_loop s [] = (head_byte s = 0)"
| "casematch_loop s (d # t) =
     (let a = head_byte s; b = byte d in
      if b = 0 then a = b
      else if \<not> (a = b \<or> case_pair a b) then False
      else casematch_loop (tl s) t)"

definition su_casematch :: "bool \<Rightarrow> string option \<Rightarrow> string option \<Rightarrow> bool" where
  "su_casematch same s1 s2 =
     (if same then True else (case (s1, s2) of (Some a, Some b) \<Rightarrow> casematch_loop a b | _ \<Rightarrow> False))"

definition su_strnmatch :: "bool \<Rightarrow> string option \<Rightarrow> string option \<Rightarrow> nat \<Rightarrow> bool" where
  "su_strnmatch same s1 s2 n =
     (if n = 0 then True else if same then True
      else (case (s1, s2) of (Some a, Some b) \<Rightarrow> take n a = take n b | _ \<Rightarrow> False))"

fun casenmatch_loop :: "string \<Rightarrow> string \<Rightarrow> nat \<Rightarrow> bool" where
  "casenmatch_loop s t 0 = True"
| "casenmatch_loop s t (Suc n) =
     (let a = head_byte s; b = head_byte t in
      if a = 0 \<or> b = 0 then a = b
      else if \<not> (a = b \<or> case_pair a b) then False
      else casenmatch_loop (tl s) (tl t) n)"

definition su_casenmatch :: "bool \<Rightarrow> string option \<Rightarrow> string option \<Rightarrow> nat \<Rightarrow> bool" where
  "su_casenmatch same s1 s2 n =
     (if n = 0 then True else if same then True
      else (case (s1, s2) of
              (Some a, Some b) \<Rightarrow> if take n a = take n b then True else casenmatch_loop a b n
            | _ \<Rightarrow> False))"

section \<open>Searching a substring\<close>

datatype needle_result = Needle_found | Haystack_ended | Needle_differs

fun strcasestr_at :: "string \<Rightarrow> string \<Rightarrow> needle_result" where
  "strcasestr_at [] hs = Needle_found"
| "strcasestr_at (n # ns) [] = Haystack_ended"
| "strcasestr_at (n # ns) (h # hs) =
     (if n = h then strcasestr_at ns hs
      else if byte n XOR byte h \<noteq> 32 then Needle_differs
      else
        (let n' = lower (byte n);
             h' = (if 65 \<le> byte n \<and> byte n \<le> 90 then byte h else lower (byte h)) in
         if n' \<noteq> h' then Needle_differs else strcasestr_at ns hs))"

text \<open>\<open>lcn\<close> and \<open>ucn\<close> are \<open>unsigned char\<close>, but the haystack is of type \<open>char\<close>.\<close>

fun strcasestr_loop :: "nat \<Rightarrow> nat \<Rightarrow> string \<Rightarrow> string \<Rightarrow> string option" where
  "strcasestr_loop lcn ucn needle [] = None"
| "strcasestr_loop lcn ucn needle (h # hs) =
     (if int lcn = schar h \<or> int ucn = schar h then
        (case strcasestr_at (tl needle) hs of
           Needle_found \<Rightarrow> Some (h # hs)
         | Haystack_ended \<Rightarrow> None
         | Needle_differs \<Rightarrow> strcasestr_loop lcn ucn needle hs)
      else strcasestr_loop lcn ucn needle hs)"

definition su_strcasestr :: "string option \<Rightarrow> string option \<Rightarrow> string option" where
  "su_strcasestr haystack needle =
     (case (haystack, needle) of
        (Some hs, Some ns) \<Rightarrow>
          (let c = head_byte ns;
               lcn = (if 65 \<le> c \<and> c \<le> 90 then c + 32 else c);
               ucn = (if 65 \<le> c \<and> c \<le> 90 then c else if 97 \<le> c \<and> c \<le> 122 then c - 32 else c) in
           if lcn = 0 then Some hs else strcasestr_loop lcn ucn ns hs)
      | _ \<Rightarrow> None)"

section \<open>Spans\<close>

text \<open>\<open>for (len = 0; len < n && (c = s[len]) && test (c); len++)\<close>\<close>

fun span_loop :: "(char \<Rightarrow> bool) \<Rightarrow> string \<Rightarrow> nat \<Rightarrow> nat" where
  "span_loop p s 0 = 0"
| "span_loop p [] (Suc n) = 0"
| "span_loop p (c # s) (Suc n) = (if p c then Suc (span_loop p s n) else 0)"

text \<open>\<open>for (; i < size; i++) if (c == set[i]) break\<close>: the index where the scan stops.\<close>

function scan_set :: "string \<Rightarrow> char \<Rightarrow> nat \<Rightarrow> nat" where
  "scan_set chars c i = (if i < length chars \<and> c \<noteq> chars ! i then scan_set chars c (Suc i) else i)"
  by pat_completeness auto
termination by (relation "measure (\<lambda>(chars, c, i). length chars - i)") auto

declare scan_set.simps [simp del]

definition su_strnspn :: "string option \<Rightarrow> nat \<Rightarrow> string option \<Rightarrow> nat" where
  "su_strnspn s n accept =
     (case (s, accept) of
        (Some t, Some acc) \<Rightarrow>
          (let asize = length acc in
           if asize = 0 then 0
           else if asize = 1 then span_loop (\<lambda>c. c = acc ! 0) t n
           else if asize = 2 then span_loop (\<lambda>c. c = acc ! 0 \<or> c = acc ! 1) t n
           else span_loop (\<lambda>c. if c = acc ! 0 \<or> c = acc ! 1 then True else scan_set acc c 2 \<noteq> asize) t n)
      | _ \<Rightarrow> 0)"

definition su_strncspn :: "string option \<Rightarrow> nat \<Rightarrow> string option \<Rightarrow> nat" where
  "su_strncspn s n reject =
     (case s of
        None \<Rightarrow> 0
      | Some t \<Rightarrow>
          (let rej = or_empty reject; rsize = length rej in
           if rsize = 0 then span_loop (\<lambda>c. True) t n
           else if rsize = 1 then span_loop (\<lambda>c. c \<noteq> rej ! 0) t n
           else if rsize = 2 then span_loop (\<lambda>c. c \<noteq> rej ! 0 \<and> c \<noteq> rej ! 1) t n
           else span_loop (\<lambda>c. c \<noteq> rej ! 0 \<and> c \<noteq> rej ! 1 \<and> scan_set rej c 2 = rsize) t n))"

text \<open>The table of 256 flags both memory scans fill first.\<close>

definition byte_table :: "string \<Rightarrow> bool list" where
  "byte_table bytes = foldl (\<lambda>t b. t[byte b := True]) (replicate 256 False) bytes"

definition su_memspn :: "string option \<Rightarrow> string option \<Rightarrow> nat" where
  "su_memspn mem accept =
     (case (mem, accept) of
        (Some m, Some a) \<Rightarrow>
          (if m = [] \<or> a = [] then 0
           else (let accepted = byte_table a in span_loop (\<lambda>c. accepted ! byte c) m (length m)))
      | _ \<Rightarrow> 0)"

definition su_memcspn :: "string option \<Rightarrow> string option \<Rightarrow> nat" where
  "su_memcspn mem reject =
     (case mem of
        None \<Rightarrow> 0
      | Some m \<Rightarrow>
          (if m = [] then 0
           else
             (case reject of
                None \<Rightarrow> length m
              | Some r \<Rightarrow>
                  if r = [] then length m
                  else (let rejected = byte_table r in span_loop (\<lambda>c. \<not> rejected ! byte c) m (length m)))))"

section \<open>Comparison, proved\<close>

text \<open>What the comparison ignores: the code of the character in lower case.\<close>

definition folded :: "string \<Rightarrow> nat list" where
  "folded s = map (\<lambda>c. lower (byte c)) s"

lemma folded_simps [simp]: "folded [] = []" "folded (c # s) = lower (byte c) # folded s"
  by (simp_all add: folded_def)

lemma byte_less [simp]: "byte c < 256"
  by (simp add: byte_def)

lemma byte_eq [simp]: "byte c = byte d \<longleftrightarrow> c = d"
  by (simp add: byte_def)

lemma byte_0 [simp]: "byte c = 0 \<longleftrightarrow> c = CHR 0x00" "byte (CHR 0x00) = 0" "0 < byte c \<longleftrightarrow> c \<noteq> CHR 0x00"
proof -
  show "byte (CHR 0x00) = 0" by (simp add: byte_def)
  then show "byte c = 0 \<longleftrightarrow> c = CHR 0x00" by (metis byte_eq)
  then show "0 < byte c \<longleftrightarrow> c \<noteq> CHR 0x00" by (simp add: neq0_conv [symmetric] del: neq0_conv)
qed

lemma lower_0 [simp]: "lower 0 = 0" "lower a = 0 \<longleftrightarrow> a = 0" "0 < lower a \<longleftrightarrow> 0 < a"
  by (simp_all add: lower_def)

lemma head_byte_simps [simp]: "head_byte [] = 0" "head_byte (c # s) = byte c"
  by (simp_all add: head_byte_def)

text \<open>A string has no NUL among its characters.\<close>

abbreviation c_string :: "string \<Rightarrow> bool" where
  "c_string s \<equiv> CHR 0x00 \<notin> set s"

lemma case_pair_lower: "case_pair a b \<Longrightarrow> lower a = lower b" "lower a = lower b \<Longrightarrow> a = b \<or> case_pair a b"
  by (auto simp: case_pair_def lower_def split: if_splits)

lemma casematch_folded: "c_string a \<Longrightarrow> c_string b \<Longrightarrow> casematch_loop a b \<longleftrightarrow> folded a = folded b"
proof (induction a b rule: casematch_loop.induct)
  case (2 s d t)
  then show ?case by (cases s) (auto simp: Let_def dest: case_pair_lower)
qed (auto simp: head_byte_def split: list.splits)

lemma casenmatch_folded:
  "c_string a \<Longrightarrow> c_string b \<Longrightarrow> casenmatch_loop a b n \<longleftrightarrow> take n (folded a) = take n (folded b)"
proof (induction a b n rule: casenmatch_loop.induct)
  case (2 s t n)
  then show ?case by (cases s; cases t) (auto simp: Let_def dest: case_pair_lower)
qed simp

lemma strcasecmp_sign:
  "c_string a \<Longrightarrow> c_string b \<Longrightarrow>
   (strcasecmp_loop a b < 0 \<longleftrightarrow> ord_class.lexordp (folded a) (folded b))
   \<and> (strcasecmp_loop a b = 0 \<longleftrightarrow> folded a = folded b)"
proof (induction a b rule: strcasecmp_loop.induct)
  case (1 B)
  then show ?case by (cases B) auto
next
  case (2 c A B)
  then show ?case by (cases B) (auto simp: Let_def)
qed

lemma strncasecmp_sign:
  "c_string a \<Longrightarrow> c_string b \<Longrightarrow>
   (strncasecmp_loop a b n < 0 \<longleftrightarrow> ord_class.lexordp (take n (folded a)) (take n (folded b)))
   \<and> (strncasecmp_loop a b n = 0 \<longleftrightarrow> take n (folded a) = take n (folded b))"
proof (induction a b n rule: strncasecmp_loop.induct)
  case (2 A B n)
  then show ?case by (cases A; cases B) (auto simp: Let_def)
qed simp

section \<open>The searches, proved\<close>

lemma span_loop_takeWhile: "span_loop p s n = length (takeWhile p (take n s))"
  by (induction p s n rule: span_loop.induct) auto

lemma scan_set_from:
  "i \<le> length chars \<Longrightarrow> scan_set chars c i = length chars \<longleftrightarrow> c \<notin> set (drop i chars)"
proof (induction chars c i rule: scan_set.induct)
  case (1 chars c i)
  show ?case
  proof (cases "i < length chars")
    case True
    then show ?thesis
      using 1 by (auto simp: scan_set.simps [of chars c i] Cons_nth_drop_Suc [symmetric])
  next
    case False
    then show ?thesis using 1(2) by (simp add: scan_set.simps [of chars c "length chars"])
  qed
qed

lemma byte_table_set: "byte_table bytes ! byte c \<longleftrightarrow> c \<in> set bytes"
proof -
  have "length t = 256 \<Longrightarrow> foldl (\<lambda>t b. t[byte b := True]) t bytes ! byte c \<longleftrightarrow> t ! byte c \<or> c \<in> set bytes" for t
    by (induction bytes arbitrary: t) (auto simp: nth_list_update)
  then show ?thesis by (simp add: byte_table_def)
qed

lemma set_first_two: "2 \<le> length xs \<Longrightarrow> c \<in> set xs \<longleftrightarrow> c = xs ! 0 \<or> c = xs ! 1 \<or> c \<in> set (drop 2 xs)"
  by (cases xs; cases "tl xs") auto

lemma length_1_2:
  "length xs = Suc 0 \<Longrightarrow> set xs = {xs ! 0}" "length xs = 2 \<Longrightarrow> set xs = {xs ! 0, xs ! 1}"
  by (cases xs; cases "tl xs"; auto)+

lemma length_cases: "xs = [] \<or> length xs = Suc 0 \<or> length xs = 2 \<or> length xs > 2"
proof -
  have "length xs = 0 \<or> length xs = Suc 0 \<or> length xs = 2 \<or> length xs > 2" by arith
  then show ?thesis by simp
qed

lemma takeWhile_const [simp]: "takeWhile (\<lambda>_. True) xs = xs" "takeWhile (\<lambda>_. False) xs = []"
  by (induction xs) auto

theorem su_strnspn_correct:
  "su_strnspn (Some s) n (Some accept) = length (takeWhile (\<lambda>c. c \<in> set accept) (take n s))"
proof -
  consider "accept = []" | "length accept = Suc 0" | "length accept = 2" | "length accept > 2"
    using length_cases [of "accept"] by blast
  then show ?thesis
  proof cases
    case 4
    then have "(if c = accept ! 0 \<or> c = accept ! 1 then True else scan_set accept c 2 \<noteq> length accept) \<longleftrightarrow> c \<in> set accept" for c
      by (subst set_first_two) (auto simp: scan_set_from)
    then show ?thesis using 4 by (simp add: su_strnspn_def Let_def span_loop_takeWhile)
  qed (auto simp: su_strnspn_def Let_def span_loop_takeWhile length_1_2)
qed

theorem su_strncspn_correct:
  "su_strncspn (Some s) n reject = length (takeWhile (\<lambda>c. c \<notin> set (or_empty reject)) (take n s))"
proof -
  let ?r = "or_empty reject"
  consider "?r = []" | "length ?r = Suc 0" | "length ?r = 2" | "length ?r > 2"
    using length_cases [of "?r"] by blast
  then show ?thesis
  proof cases
    case 4
    then have "c \<noteq> ?r ! 0 \<and> c \<noteq> ?r ! 1 \<and> scan_set ?r c 2 = length ?r \<longleftrightarrow> c \<notin> set ?r" for c
      by (subst set_first_two) (auto simp: scan_set_from)
    then show ?thesis using 4 by (simp add: su_strncspn_def Let_def span_loop_takeWhile)
  qed (auto simp: su_strncspn_def Let_def span_loop_takeWhile length_1_2)
qed

theorem su_memspn_correct:
  "su_memspn (Some m) (Some a) = length (takeWhile (\<lambda>c. c \<in> set a) m)"
  "su_memcspn (Some m) reject = length (takeWhile (\<lambda>c. c \<notin> set (or_empty reject)) m)"
  by (auto simp: su_memspn_def su_memcspn_def Let_def span_loop_takeWhile byte_table_set or_empty_def takeWhile_eq_all_conv split: option.split)

section \<open>The substring search, proved\<close>

lemma case_bit:
  "65 \<le> n \<Longrightarrow> n \<le> 90 \<Longrightarrow> n XOR (n + 32) = 32 \<and> (n + 32) XOR n = (32 :: nat)"
proof -
  assume n: "65 \<le> n" "n \<le> 90"
  then have "n \<in> set [65,66,67,68,69,70,71,72,73,74,75,76,77,78,79,80,81,82,83,84,85,86,87,88,89,90]"
    by (simp, presburger)
  then show ?thesis by (simp only: list.set insert_iff empty_iff) (elim disjE; simp)
qed

lemma case_distance:
  assumes "n \<noteq> h" "lower n = lower h"
  shows "n XOR h = 32" "lower n = (if 65 \<le> n \<and> n \<le> 90 then h else lower h)"
proof -
  have cases: "(65 \<le> n \<and> n \<le> 90 \<and> h = n + 32) \<or> (65 \<le> h \<and> h \<le> 90 \<and> n = h + 32)"
    using assms unfolding lower_def by presburger
  then show "n XOR h = 32" using case_bit [of n] case_bit [of h] by presburger
  show "lower n = (if 65 \<le> n \<and> n \<le> 90 then h else lower h)"
    using cases unfolding lower_def by presburger
qed

lemma strcasestr_at_result:
  "strcasestr_at ns hs =
     (if folded ns = take (length ns) (folded hs) then Needle_found
      else if folded hs = take (length hs) (folded ns) then Haystack_ended
      else Needle_differs)"
proof (induction ns hs rule: strcasestr_at.induct)
  case (3 n ns h hs)
  have "n \<noteq> h \<Longrightarrow> lower (byte n) = lower (byte h) \<Longrightarrow> byte n XOR byte h = 32"
    "n \<noteq> h \<Longrightarrow> lower (byte n) = lower (byte h) \<Longrightarrow>
       lower (byte n) = (if 65 \<le> byte n \<and> byte n \<le> 90 then byte h else lower (byte h))"
    using case_distance [of "byte n" "byte h"] by simp_all
  moreover have "lower (byte n) \<noteq> lower (byte h) \<Longrightarrow> byte n XOR byte h = 32 \<Longrightarrow>
      lower (byte n) \<noteq> (if 65 \<le> byte n \<and> byte n \<le> 90 then byte h else lower (byte h))"
    by (auto simp: lower_def)
  ultimately show ?case using 3
    by (cases "n = h"; cases "lower (byte n) = lower (byte h)") (simp_all add: Let_def)
qed simp_all

text \<open>What the search looks for: the text begins with the needle, cases ignored.\<close>

definition begins_with :: "string \<Rightarrow> string \<Rightarrow> bool" where
  "begins_with ns hs \<longleftrightarrow> folded ns = take (length ns) (folded hs)"

text \<open>The suffixes of a text, the longest first, without the empty one.\<close>

fun suffixes_of :: "string \<Rightarrow> string list" where
  "suffixes_of [] = []"
| "suffixes_of (c # s) = (c # s) # suffixes_of s"

lemma suffixes_length: "t \<in> set (suffixes_of s) \<Longrightarrow> length t \<le> length s"
  by (induction s) auto

lemma length_folded [simp]: "length (folded s) = length s"
  by (simp add: folded_def)

lemma begins_length: "begins_with ns hs \<Longrightarrow> length ns \<le> length hs"
  unfolding begins_with_def by (metis length_folded length_take min.cobounded1 min.commute)

lemma schar_cases: "(byte h < 128 \<and> schar h = int (byte h)) \<or> (128 \<le> byte h \<and> schar h < 0)"
proof -
  have "int (byte h) < 256" by (metis byte_less of_nat_less_iff of_nat_numeral)
  then show ?thesis unfolding schar_def by (auto simp del: of_nat_less_numeral_iff)
qed

lemma schar_ascii: "n < 128 \<Longrightarrow> int n = schar h \<longleftrightarrow> n = byte h"
  using schar_cases [of h] by auto

lemma haystack_ended: "strcasestr_at ns hs = Haystack_ended \<Longrightarrow> length hs < length ns"
  by (rule ccontr) (auto simp: strcasestr_at_result split: if_splits)

lemma strcasestr_loop_find:
  assumes "byte n < 128" "n \<noteq> CHR 0x00"
  shows "strcasestr_loop (lower (byte n)) (if 97 \<le> byte n \<and> byte n \<le> 122 then byte n - 32 else byte n) (n # ns) hs
           = List.find (begins_with (n # ns)) (suffixes_of hs)"
proof (induction hs)
  case (Cons h hs)
  have first: "int (lower (byte n)) = schar h \<or> int (if 97 \<le> byte n \<and> byte n \<le> 122 then byte n - 32 else byte n) = schar h
      \<longleftrightarrow> lower (byte n) = lower (byte h)"
  proof -
    have "lower (byte n) < 128" "(if 97 \<le> byte n \<and> byte n \<le> 122 then byte n - 32 else byte n) < 128"
      using assms(1) by (auto simp: lower_def)
    then have "int (lower (byte n)) = schar h \<longleftrightarrow> lower (byte n) = byte h"
      "int (if 97 \<le> byte n \<and> byte n \<le> 122 then byte n - 32 else byte n) = schar h
         \<longleftrightarrow> (if 97 \<le> byte n \<and> byte n \<le> 122 then byte n - 32 else byte n) = byte h"
      by (simp_all only: schar_ascii)
    then show ?thesis by (simp only:) (auto simp: lower_def)
  qed
  have here: "begins_with (n # ns) (h # hs) \<longleftrightarrow> lower (byte n) = lower (byte h) \<and> strcasestr_at ns hs = Needle_found"
    by (auto simp: begins_with_def strcasestr_at_result)
  show ?case
  proof (cases "lower (byte n) = lower (byte h)")
    case True
    show ?thesis
    proof (cases "strcasestr_at ns hs")
      case Haystack_ended
      then have "length hs < length ns" by (rule haystack_ended)
      then have "List.find (begins_with (n # ns)) (suffixes_of hs) = None"
        by (auto simp: find_None_iff dest!: begins_length suffixes_length)
      then show ?thesis using Haystack_ended True first here by simp
    qed (use True first here Cons in simp_all)
  next
    case False
    then show ?thesis using first here Cons by simp
  qed
qed simp

section \<open>Properties\<close>

text \<open> \<open>su_casematch\<close> matches exactly the texts that are equal up to the case of ASCII letters, and a null
  pointer only with a null pointer; the shortcut for equal pointers does not change the answer.\<close>

theorem casematch_correct:
  assumes "pred_option c_string s1" "pred_option c_string s2" "same \<longrightarrow> s1 = s2" "s1 = None \<and> s2 = None \<longrightarrow> same"
  shows "su_casematch same s1 s2 \<longleftrightarrow> map_option folded s1 = map_option folded s2"
  using assms by (cases s1; cases s2) (auto simp: su_casematch_def casematch_folded)

theorem casematch_correct_witness:
  "su_casematch False (Some ''Call-ID'') (Some ''call-id'') \<longleftrightarrow> folded ''Call-ID'' = folded ''call-id''"
  using casematch_correct [of "Some ''Call-ID''" "Some ''call-id''" False] by simp

theorem casenmatch_correct:
  assumes "c_string s1" "c_string s2" "same \<longrightarrow> s1 = s2"
  shows "su_casenmatch same (Some s1) (Some s2) n \<longleftrightarrow> take n (folded s1) = take n (folded s2)"
  using assms by (auto simp: su_casenmatch_def casenmatch_folded) (simp add: folded_def take_map)

theorem casenmatch_correct_witness:
  "su_casenmatch False (Some ''TRANSPORT=udp'') (Some ''transport'') 9
     \<longleftrightarrow> take 9 (folded ''TRANSPORT=udp'') = take 9 (folded ''transport'')"
  using casenmatch_correct [of "''TRANSPORT=udp''" "''transport''" False 9] by simp

text \<open>The comparison is the lexicographic order of the texts in lower case.\<close>

theorem strcasecmp_order:
  assumes "c_string a" "c_string b"
  shows "su_strcasecmp (Some a) (Some b) < 0 \<longleftrightarrow> ord_class.lexordp (folded a) (folded b)"
    and "su_strcasecmp (Some a) (Some b) = 0 \<longleftrightarrow> folded a = folded b"
  using strcasecmp_sign [OF assms] by (simp_all add: su_strcasecmp_def or_empty_def)

theorem strcasecmp_order_witness:
  "su_strcasecmp (Some ''ALICE'') (Some ''bob'') < 0 \<longleftrightarrow> ord_class.lexordp (folded ''ALICE'') (folded ''bob'')"
  using strcasecmp_order(1) [of "''ALICE''" "''bob''"] by simp

text \<open>
  The bounded comparison agrees with the order of the first \<open>n\<close> characters if \<open>n\<close> does not exceed either
  text by more than its NUL; beyond, \<open>memcmp\<close> is called on areas that are too short, even with a null
  pointer, which the comment describes as the empty string.
\<close>

theorem strncasecmp_order:
  assumes "c_string a" "c_string b" "same \<longrightarrow> a = b" "n \<le> Suc (length a)" "n \<le> Suc (length b)"
  shows "\<exists>r. su_strncasecmp same (Some a) (Some b) n = Inr r
      \<and> (r < 0 \<longleftrightarrow> ord_class.lexordp (take n (folded a)) (take n (folded b)))
      \<and> (r = 0 \<longleftrightarrow> take n (folded a) = take n (folded b))"
proof -
  have "take n (map byte a @ [0]) = take n (map byte b @ [0]) \<Longrightarrow> take n (folded a) = take n (folded b)"
  proof -
    assume "take n (map byte a @ [0]) = take n (map byte b @ [0])"
    then have "take n (map byte (a @ [CHR 0x00])) = take n (map byte (b @ [CHR 0x00]))" by simp
    then have "map byte (take n (a @ [CHR 0x00])) = map byte (take n (b @ [CHR 0x00]))" by (simp only: take_map)
    then have "take n (a @ [CHR 0x00]) = take n (b @ [CHR 0x00])"
      by (rule map_injective) (simp add: inj_def)
    then have "takeWhile (\<lambda>c. c \<noteq> CHR 0x00) (take n (a @ [CHR 0x00])) = takeWhile (\<lambda>c. c \<noteq> CHR 0x00) (take n (b @ [CHR 0x00]))"
      by simp
    moreover have "takeWhile (\<lambda>c. c \<noteq> CHR 0x00) (take n (s @ [CHR 0x00])) = take n s" if "c_string s" for s
      using that
    proof (induction s arbitrary: n)
      case (Cons c s)
      then show ?case by (cases n) auto
    qed (simp add: take_Cons')
    ultimately show ?thesis using assms by (simp add: folded_def take_map)
  qed
  then show ?thesis
    using assms strncasecmp_sign [OF assms(1,2), of n]
    by (auto simp: su_strncasecmp_def memcmp_equal_def or_empty_def)
qed

theorem strncasecmp_order_witness:
  "\<exists>r. su_strncasecmp False (Some ''Body=x'') (Some ''body'') 4 = Inr r
     \<and> (r < 0 \<longleftrightarrow> ord_class.lexordp (take 4 (folded ''Body=x'')) (take 4 (folded ''body'')))
     \<and> (r = 0 \<longleftrightarrow> take 4 (folded ''Body=x'') = take 4 (folded ''body''))"
  by (rule strncasecmp_order) simp_all

theorem strncasecmp_reads_past_end:
  "su_strncasecmp False None (Some ''abcdef'') 4 = Inl Out_of_bounds"
  by (simp add: su_strncasecmp_def memcmp_equal_def or_empty_def)

text \<open> \<open>su_strcasestr\<close> returns the first place where the needle stands, cases ignored, for every needle
  that starts with an ASCII character; giving up when the haystack ends loses no later match.\<close>

theorem strcasestr_first:
  assumes "ns = [] \<or> byte (hd ns) < 128" "c_string ns"
  shows "su_strcasestr (Some hs) (Some ns)
      = (if ns = [] then Some hs else List.find (begins_with ns) (suffixes_of hs))"
proof (cases ns)
  case (Cons n ns')
  then have n: "byte n < 128" "n \<noteq> CHR 0x00" using assms by auto
  have "(if 65 \<le> byte n \<and> byte n \<le> 90 then byte n else if 97 \<le> byte n \<and> byte n \<le> 122 then byte n - 32 else byte n)
      = (if 97 \<le> byte n \<and> byte n \<le> 122 then byte n - 32 else byte n)" by auto
  then show ?thesis using strcasestr_loop_find [OF n, of ns' hs] Cons n
    by (simp add: su_strcasestr_def Let_def lower_def [symmetric])
qed (simp add: su_strcasestr_def Let_def)

theorem strcasestr_first_witness:
  "su_strcasestr (Some ''a=Sendonly'') (Some ''SENDONLY'')
     = List.find (begins_with ''SENDONLY'') (suffixes_of ''a=Sendonly'')"
  using strcasestr_first [of "''SENDONLY''" "''a=Sendonly''"] by (simp add: byte_def)

text \<open>A needle whose first byte is not ASCII is never found, not even in itself: the byte is compared as an
  \<open>unsigned char\<close> with a \<open>char\<close>.\<close>

theorem strcasestr_misses_high_bytes:
  assumes "128 \<le> byte n"
  shows "su_strcasestr (Some hs) (Some (n # ns)) = None"
proof -
  have "int (byte n) \<noteq> schar h" for h
    using assms schar_cases [of h] by auto
  then have "strcasestr_loop (byte n) (byte n) (n # ns) hs = None" by (induction hs) auto
  moreover have "byte n \<noteq> 0" using assms by linarith
  ultimately show ?thesis using assms by (simp add: su_strcasestr_def Let_def)
qed

theorem strcasestr_misses_high_bytes_witness: "su_strcasestr (Some [CHR 0xC3, CHR 0xA9]) (Some [CHR 0xC3, CHR 0xA9]) = None"
  by (rule strcasestr_misses_high_bytes) (simp add: byte_def)

end
