(* ===== verification/Sip_Host.thy ===== *)
theory Sip_Host
  imports Sip_Url Su_String
begin

text \<open>
  Host names and addresses of the SIP stack (\<open>bnf/bnf.c\<close>): the spans of IPv4 and IPv6 addresses, of
  references and of domain names, the scanners that also canonize the address in place, the tests
  \<open>host_is_...\<close>, and the comparison \<open>host_cmp\<close>.

  A span function gets the text from its pointer on and gives the length of the host there, or 0. A scanner
  \<open>scan_...\<close> gets the text at \<open>*inout_host\<close>; \<open>None\<close> is the result -1, which leaves the pointer, and
  \<open>Some (n, t)\<close> the result \<open>n\<close>, by which the pointer has advanced, with \<open>t\<close> the C string that is then found
  where the host began. A canonized address ends in a NUL of its own if it has become shorter; the bytes
  between that NUL and the advanced pointer are not kept. The text after the host is not touched. A failed
  \<open>assert\<close> is a crash.
\<close>

section \<open>Character classes\<close>

definition IS_DIGIT :: "char \<Rightarrow> bool" where
  "IS_DIGIT c \<longleftrightarrow> (let n = byte c in 48 \<le> n \<and> n \<le> 57)"

definition IS_ALPHA :: "char \<Rightarrow> bool" where
  "IS_ALPHA c \<longleftrightarrow> (let n = byte c in (65 \<le> n \<and> n \<le> 90) \<or> (97 \<le> n \<and> n \<le> 122))"

definition IS_ALPHANUM :: "char \<Rightarrow> bool" where
  "IS_ALPHANUM c \<longleftrightarrow> IS_DIGIT c \<or> IS_ALPHA c"

section \<open>IPv4 addresses\<close>

definition span_ip4_octet :: "string \<Rightarrow> nat" where
  "span_ip4_octet host =
     (if \<not> IS_DIGIT (char_at host 0) then 0
      else if \<not> IS_DIGIT (char_at host 1) then 1
      else if char_at host 0 = CHR ''2'' then
        (if char_at host 1 = CHR ''5'' \<and> IS_DIGIT (char_at host 2) \<and> byte (char_at host 2) \<le> 53 then 3
         else if IS_DIGIT (char_at host 1) \<and> byte (char_at host 1) \<le> 52 \<and> IS_DIGIT (char_at host 2) then 3
         else 2)
      else if char_at host 0 = CHR ''0'' \<or> char_at host 0 = CHR ''1'' then
        (if IS_DIGIT (char_at host 2) then 3 else 2)
      else 2)"

definition octet_canonize :: "string \<Rightarrow> nat \<Rightarrow> bool" where
  "octet_canonize host len \<longleftrightarrow> len > 1 \<and> char_at host 0 = CHR ''0''"

text \<open>The length and whether an octet has a leading zero, which the source reports through a pointer.\<close>

definition span_canonic_ip4_address :: "string \<Rightarrow> nat \<times> bool" where
  "span_canonic_ip4_address host =
     (let len = span_ip4_octet host in
      if len = 0 \<or> char_at host len \<noteq> CHR ''.'' then (0, False)
      else
        (let canonize = octet_canonize host len; n = len + 1; len = span_ip4_octet (drop n host) in
         if len = 0 \<or> char_at host (n + len) \<noteq> CHR ''.'' then (0, False)
         else
           (let canonize = canonize \<or> octet_canonize (drop n host) len; n = n + len + 1;
                len = span_ip4_octet (drop n host) in
            if len = 0 \<or> char_at host (n + len) \<noteq> CHR ''.'' then (0, False)
            else
              (let canonize = canonize \<or> octet_canonize (drop n host) len; n = n + len + 1;
                   len = span_ip4_octet (drop n host) in
               if len = 0 \<or> IS_DIGIT (char_at host (n + len)) \<or> char_at host (n + len) = CHR ''.'' then (0, False)
               else (n + len, canonize \<or> octet_canonize (drop n host) len)))))"

definition span_ip4_address :: "string option \<Rightarrow> nat" where
  "span_ip4_address host = (case host of None \<Rightarrow> 0 | Some s \<Rightarrow> fst (span_canonic_ip4_address s))"

text \<open>
  The loop that drops leading zeros, from the source pointer on; the result is what is written from the
  destination pointer on. A zero it drops was written and is overwritten.
\<close>

function ip4_canon_loop :: "bool \<Rightarrow> string \<Rightarrow> string" where
  "ip4_canon_loop canonize src =
     (let c = char_at src 0; next = char_at src 1 in
      if IS_DIGIT next then
        (if canonize \<and> c = CHR ''0'' then ip4_canon_loop canonize (tl src)
         else c # ip4_canon_loop (c = CHR ''.'') (tl src))
      else if next \<noteq> CHR ''.'' then [c]
      else c # ip4_canon_loop canonize (tl src))"
  by pat_completeness auto
termination
  by (relation "measure (length o snd)") (auto simp: char_at_def IS_DIGIT_def byte_def split: if_splits)

declare ip4_canon_loop.simps [simp del]

definition scan_ip4_address :: "string option \<Rightarrow> (nat \<times> string) option" where
  "scan_ip4_address host =
     (case host of
        None \<Rightarrow> None
      | Some s \<Rightarrow>
          (let (n, canonize) = span_canonic_ip4_address s in
           if n = 0 then None
           else Some (n, if canonize then ip4_canon_loop True s else s)))"

section \<open>IPv6 addresses\<close>

definition span_hex4 :: "string \<Rightarrow> nat" where
  "span_hex4 host =
     (if \<not> IS_HEX (char_at host 0) then 0
      else if \<not> IS_HEX (char_at host 1) then 1
      else if \<not> IS_HEX (char_at host 2) then 2
      else if \<not> IS_HEX (char_at host 3) then 3
      else 4)"

text \<open>
  The array \<open>hexparts[9]\<close>: the text from each part on. The caller either wants it and the flag, or passes
  null pointers for both (\<open>want = False\<close>).
\<close>

type_synonym hexparts = "string option list"

text \<open>The checks after the loop.\<close>

definition ip6_end :: "string \<Rightarrow> nat \<Rightarrow> nat \<Rightarrow> nat \<Rightarrow> bool \<Rightarrow> hexparts \<Rightarrow> nat \<times> bool \<times> hexparts" where
  "ip6_end host n hex4 doublecolon canonize parts =
     (if hex4 \<noteq> 8 \<and> doublecolon = 0 then (0, False, parts)
      else if IS_HEX (char_at host n) \<or> char_at host n = CHR '':'' then (0, False, parts)
      else (n, canonize, parts))"

function ip6_loop ::
  "string \<Rightarrow> bool \<Rightarrow> nat \<Rightarrow> nat \<Rightarrow> nat \<Rightarrow> bool \<Rightarrow> hexparts \<Rightarrow> nat \<times> bool \<times> hexparts" where
  "ip6_loop host want n hex4 doublecolon canonize parts =
     (if hex4 < 8 then
        (let len = span_hex4 (drop n host);
             canonize = (canonize \<or> (want \<and> ((len > 1 \<and> char_at host (n + 1) = CHR ''0'') \<or> char_at host n = CHR ''0'')));
             parts = (if want then parts[hex4 + doublecolon := Some (drop n host)] else parts) in
         if char_at host (n + len) = CHR '':'' then
           (if len \<noteq> 0 then
              (let hex4 = hex4 + 1; n = n + len + 1 in
               if doublecolon = 0 \<and> char_at host n = CHR '':'' then
                 ip6_loop host want (n + 1) hex4 1 canonize
                   (if want then parts[hex4 := Some (drop (n - 1) host)] else parts)
               else ip6_loop host want n hex4 doublecolon canonize parts)
            else if n = 0 \<and> char_at host 1 = CHR '':'' then
              ip6_loop host want 2 hex4 (doublecolon + 1) canonize parts
            else ip6_end host n hex4 doublecolon canonize parts)
         else if char_at host (n + len) = CHR ''.'' then
           (let (len, canonize4) = span_canonic_ip4_address (drop n host) in
            if len = 0 \<or> hex4 > 6 \<or> \<not> (doublecolon \<noteq> 0 \<or> hex4 = 6) then (0, False, parts)
            else (n + len, want \<and> (canonize \<or> canonize4), parts))
         else ip6_end host (n + len) (if len \<noteq> 0 then hex4 + 1 else hex4) doublecolon canonize parts)
      else ip6_end host n hex4 doublecolon canonize parts)"
  by pat_completeness auto
termination
  by (relation "measure (\<lambda>(host, want, n, _). length host - n)") (auto simp: char_at_def Let_def split: if_splits)

declare ip6_loop.simps [simp del]

definition span_canonic_ip6_address :: "string \<Rightarrow> bool \<Rightarrow> nat \<times> bool \<times> hexparts" where
  "span_canonic_ip6_address host want = ip6_loop host want 0 0 0 False (replicate 9 None)"

definition span_ip6_address :: "string option \<Rightarrow> nat" where
  "span_ip6_address host = (case host of None \<Rightarrow> 0 | Some s \<Rightarrow> fst (span_canonic_ip6_address s False))"

section \<open>Canonization of an IPv6 address\<close>

fun strip_zeros :: "string \<Rightarrow> string" where
  "strip_zeros (c # d # s) = (if c = CHR ''0'' \<and> IS_HEX d then strip_zeros (d # s) else c # d # s)"
| "strip_zeros s = s"

text \<open>The last part that is a double colon.\<close>

definition doublecolon_part :: "string list \<Rightarrow> nat option" where
  "doublecolon_part hexs =
     foldl (\<lambda>dc i. if char_at (hexs ! i) 0 = CHR '':'' then Some i else dc) None [0..<length hexs]"

text \<open>The double colon is written out as zeros, or dropped if it stands for no part.\<close>

definition expand_doublecolon :: "nat option \<Rightarrow> nat \<Rightarrow> string list \<Rightarrow> string list res" where
  "expand_doublecolon doublecolon maxparts hexs =
     (case doublecolon of
        None \<Rightarrow> Inr hexs
      | Some dc \<Rightarrow>
          (if \<not> length hexs \<le> maxparts + 1 then Inl Assert_failed
           else if length hexs = maxparts + 1 then Inr (take dc hexs @ drop (dc + 1) hexs)
           else Inr (take dc hexs @ replicate (maxparts + 1 - length hexs) ''0:'' @ drop (dc + 1) hexs)))"

text \<open>The longest run of zero parts: where it starts and how long it is.\<close>

fun zero_run :: "string list \<Rightarrow> nat \<Rightarrow> nat \<Rightarrow> nat \<Rightarrow> nat \<Rightarrow> nat \<times> nat" where
  "zero_run [] i span maxspan doublecolon = (if span > maxspan then (i - span, span) else (doublecolon, maxspan))"
| "zero_run (h # hs) i span maxspan doublecolon =
     (if char_at h 0 = CHR ''0'' then zero_run hs (Suc i) (Suc span) maxspan doublecolon
      else if span > maxspan then zero_run hs (Suc i) 0 span (i - span)
      else zero_run hs (Suc i) 0 maxspan doublecolon)"

text \<open>The text of one part.\<close>

definition part_text :: "nat \<Rightarrow> nat \<Rightarrow> nat \<Rightarrow> string \<Rightarrow> string" where
  "part_text doublecolon maxspan i part =
     (if i > doublecolon \<and> i < doublecolon + maxspan then []
      else
        (let (hex, len) = (if i = doublecolon then (if i = 0 then ''::'' else '':'', 1) else (part, span_hex4 part)) in
         take (if char_at hex len = CHR '':'' then len + 1 else len) hex))"

text \<open>The IPv4 part; \<open>len\<close> is its length before it is canonized.\<close>

definition ip4_part :: "nat \<Rightarrow> nat \<Rightarrow> string \<Rightarrow> string res" where
  "ip4_part doublecolon maxspan ip4 =
     (case scan_ip4_address (Some ip4) of
        None \<Rightarrow> Inl Assert_failed
      | Some (len, text) \<Rightarrow>
          (let area = text @ [CHR 0x00] @ drop (length text + 1) ip4 in
           if doublecolon = 0 \<and> maxspan = 6 \<and> len = 7 \<and> take 7 area = ''0.0.0.0'' then Inr []
           else if doublecolon = 0 \<and> maxspan = 6 \<and> len = 7 \<and> take 7 area = ''0.0.0.1'' then Inr ''1''
           else Inr (take len area)))"

text \<open>What is written over the address; \<open>buf\<close> has 46 bytes.\<close>

definition canonize_ip6_address :: "hexparts \<Rightarrow> string res" where
  "canonize_ip6_address parts =
     (let hexs = map the (takeWhile (\<lambda>p. p \<noteq> None) parts);
          doublecolon = doublecolon_part hexs;
          hexs = map strip_zeros hexs in
      if hexs = [] then Inl Assert_failed
      else
        (let ip4 = (if char_at (last hexs) (span_hex4 (last hexs)) = CHR ''.'' then Some (last hexs) else None);
             hexs = (if ip4 \<noteq> None then butlast hexs else hexs);
             maxparts = (if ip4 \<noteq> None then 6 else 8) in
         andthen (expand_doublecolon doublecolon maxparts hexs) (\<lambda>hexs.
         if length hexs \<noteq> maxparts then Inl Assert_failed
         else
           (let (doublecolon, maxspan) = zero_run hexs 0 0 0 0;
                dst = concat (map (\<lambda>i. part_text doublecolon maxspan i (hexs ! i)) [0..<maxparts]) in
            andthen (case ip4 of None \<Rightarrow> Inr [] | Some s \<Rightarrow> ip4_part doublecolon maxspan s) (\<lambda>t.
            if length (dst @ t) > 46 then Inl Out_of_bounds else Inr (dst @ t))))))"

definition c_str :: "string \<Rightarrow> string" where
  "c_str s = takeWhile (\<lambda>c. c \<noteq> CHR 0x00) s"

definition scan_ip6_address :: "string \<Rightarrow> (nat \<times> string) option res" where
  "scan_ip6_address host =
     (let (n, canonize, parts) = span_canonic_ip6_address host True in
      if n = 0 then Inr None
      else if canonize then
        andthen (canonize_ip6_address parts) (\<lambda>buf.
        if \<not> length buf \<le> n then Inl Assert_failed
        else Inr (Some (n, c_str (if length buf < n then buf else buf @ drop n host))))
      else Inr (Some (n, host)))"

definition span_ip6_reference :: "string option \<Rightarrow> nat" where
  "span_ip6_reference host =
     (case host of
        None \<Rightarrow> 0
      | Some s \<Rightarrow>
          if char_at s 0 = CHR ''['' then
            (let n = span_ip6_address (Some (drop 1 s)) in
             if n > 0 \<and> char_at s (n + 1) = CHR '']'' then n + 2 else 0)
          else 0)"

definition scan_ip6_reference :: "string option \<Rightarrow> (nat \<times> string) option res" where
  "scan_ip6_reference host =
     (case host of
        None \<Rightarrow> Inr None
      | Some s \<Rightarrow>
          if char_at s 0 \<noteq> CHR ''['' then Inr None
          else
            (let (n, canonize, parts) = span_canonic_ip6_address (drop 1 s) True in
             if n = 0 \<or> char_at s (n + 1) \<noteq> CHR '']'' then Inr None
             else if canonize then
               andthen (canonize_ip6_address parts) (\<lambda>buf.
               if \<not> length buf \<le> n then Inl Assert_failed
               else Inr (Some (n + 2,
                      c_str (''['' @ buf @ '']'' @ (if length buf < n then [] else drop (n + 2) s)))))
             else Inr (Some (n + 2, s))))"

definition span_ip_address :: "string option \<Rightarrow> nat" where
  "span_ip_address host =
     (case host of
        None \<Rightarrow> 0
      | Some s \<Rightarrow>
          if s = [] then 0
          else
            (let n = (if IS_DIGIT (char_at s 0) then span_ip4_address host else 0) in
             if n \<noteq> 0 then n
             else if char_at s 0 = CHR ''['' then span_ip6_reference host
             else span_ip6_address host))"

definition scan_ip_address :: "string option \<Rightarrow> (nat \<times> string) option res" where
  "scan_ip_address host =
     (case host of
        None \<Rightarrow> Inr None
      | Some s \<Rightarrow>
          if char_at s 0 = CHR ''['' then scan_ip6_reference host
          else
            (case (if IS_DIGIT (char_at s 0) then scan_ip4_address host else None) of
               Some r \<Rightarrow> Inr (Some r)
             | None \<Rightarrow> scan_ip6_address s))"

section \<open>Domain names\<close>

definition span_domain_label :: "string \<Rightarrow> nat" where
  "span_domain_label label =
     (if IS_ALPHANUM (char_at label 0) then
        (let n = Suc (length (takeWhile (\<lambda>c. IS_ALPHANUM c \<or> c = CHR ''-'') (drop 1 label))) in
         if IS_ALPHANUM (char_at label (n - 1)) then n else 0)
      else 0)"

text \<open>The length of the name and the number of its labels.\<close>

function domain_labels_loop :: "string \<Rightarrow> nat \<Rightarrow> nat \<Rightarrow> nat \<times> nat" where
  "domain_labels_loop host n labels =
     (let len = span_domain_label (drop n host) in
      if len = 0 then (0, 0)
      else
        (let labels = labels + 1 in
         if char_at host (n + len) = CHR ''.'' \<and> IS_ALPHANUM (char_at host (n + len + 1)) then
           domain_labels_loop host (n + len + 1) labels
         else
           (let len = (if char_at host (n + len) = CHR ''.'' then len + 1 else len); c = char_at host (n + len) in
            if \<not> IS_ALPHA (char_at host n) then (0, 0)
            else if IS_ALPHANUM c \<or> c = CHR ''-'' \<or> c = CHR ''.'' then (0, 0)
            else (n + len, labels))))"
  by pat_completeness auto
termination
  by (relation "measure (\<lambda>(host, n, _). length host - n)") (auto simp: char_at_def Let_def split: if_splits)

declare domain_labels_loop.simps [simp del]

definition span_domain_labels :: "string option \<Rightarrow> nat \<times> nat" where
  "span_domain_labels host =
     (case host of None \<Rightarrow> (0, 0) | Some s \<Rightarrow> if s = [] then (0, 0) else domain_labels_loop s 0 0)"

definition span_domain :: "string option \<Rightarrow> nat" where
  "span_domain host = fst (span_domain_labels host)"

text \<open>An extra dot at the end is overwritten.\<close>

definition scan_domain :: "string \<Rightarrow> (nat \<times> string) option" where
  "scan_domain host =
     (let (n, labels) = span_domain_labels (Some host) in
      if n = 0 then None
      else Some (n, if labels > 1 \<and> char_at host (n - 1) = CHR ''.'' then take (n - 1) host else host))"

definition span_host :: "string option \<Rightarrow> nat" where
  "span_host host =
     (case host of
        None \<Rightarrow> 0
      | Some s \<Rightarrow>
          if s = [] then 0
          else if char_at s 0 = CHR ''['' then span_ip6_reference host
          else
            (let n = (if IS_DIGIT (char_at s 0) then span_ip4_address host else 0) in
             if n \<noteq> 0 then n else span_domain host))"

definition scan_host :: "string option \<Rightarrow> (nat \<times> string) option res" where
  "scan_host host =
     (case host of
        None \<Rightarrow> Inr None
      | Some s \<Rightarrow>
          if char_at s 0 = CHR ''['' then scan_ip6_reference host
          else
            (case (if IS_DIGIT (char_at s 0) then scan_ip4_address host else None) of
               Some r \<Rightarrow> Inr (Some r)
             | None \<Rightarrow> Inr (scan_domain s)))"

section \<open>Tests\<close>

definition whole :: "(string option \<Rightarrow> nat) \<Rightarrow> string option \<Rightarrow> bool" where
  "whole span s = (let n = span s in n > 0 \<and> (case s of None \<Rightarrow> False | Some t \<Rightarrow> char_at t n = CHR 0x00))"

definition host_is_ip4_address :: "string option \<Rightarrow> bool" where
  "host_is_ip4_address = whole span_ip4_address"

definition host_is_ip6_address :: "string option \<Rightarrow> bool" where
  "host_is_ip6_address = whole span_ip6_address"

definition host_is_ip6_reference :: "string option \<Rightarrow> bool" where
  "host_is_ip6_reference = whole span_ip6_reference"

definition host_ip6_reference :: "string option \<Rightarrow> bool" where
  "host_ip6_reference s = host_is_ip6_reference s"

definition host_is_ip_address :: "string option \<Rightarrow> bool" where
  "host_is_ip_address = whole span_ip_address"

definition host_is_domain :: "string option \<Rightarrow> bool" where
  "host_is_domain = whole span_domain"

definition host_is_valid :: "string option \<Rightarrow> bool" where
  "host_is_valid = whole span_host"

definition host_is_local :: "string \<Rightarrow> bool" where
  "host_is_local host =
     (if host_is_ip6_reference (Some host) then host = ''[::1]''
      else if host_is_ip6_address (Some host) then host = ''::1''
      else if host_is_ip4_address (Some host) then take 4 host = ''127.''
      else
        (let n = span_domain (Some host) in
         n \<ge> 9 \<and> su_casenmatch False (Some host) (Some ''localhost'') 9
         \<and> (n = 9 \<or> ((n = 10 \<or> n = 21 \<or> n = 22)
                \<and> su_casenmatch False (Some (drop 9 host)) (Some ''.localdomain.'') (n - 9)))))"

text \<open>The comparison starts eight characters before the end, which can be before the beginning of the name.\<close>

definition host_has_domain_invalid :: "string option \<Rightarrow> bool res" where
  "host_has_domain_invalid s =
     (case s of
        None \<Rightarrow> Inr False
      | Some t \<Rightarrow>
          (let n = span_domain s in
           if n \<ge> 7 \<and> char_at t n = CHR 0x00 then
             (let n = (if char_at t (n - 1) = CHR ''.'' then n - 1 else n) in
              if n = 7 then Inr (su_casenmatch False (Some t) (Some ''invalid'') 7)
              else if n < 8 then Inl Out_of_bounds
              else Inr (su_casenmatch False (Some (drop (n - 8) t)) (Some ''.invalid'') 8))
           else Inr False))"

section \<open>Comparison of hosts\<close>

text \<open>
  \<open>inet_pton\<close> of the system is the parameters \<open>pton4\<close> and \<open>pton6\<close>: the 4 or 16 bytes of an address, or
  \<open>None\<close>. The bytes found and the length of the text are the result; \<open>None\<close> is the length 0.
\<close>

definition IS_ADDR_V4MAPPED :: "nat list \<Rightarrow> bool" where
  "IS_ADDR_V4MAPPED addr \<longleftrightarrow> take 12 addr = replicate 10 0 @ [255, 255]"

definition IS_ADDR_V4COMPAT :: "nat list \<Rightarrow> bool" where
  "IS_ADDR_V4COMPAT addr \<longleftrightarrow> take 12 addr = replicate 12 0 \<and> drop 12 addr \<noteq> [0, 0, 0, 0] \<and> drop 12 addr \<noteq> [0, 0, 0, 1]"

definition convert_ip4 :: "(string \<Rightarrow> nat list option) \<Rightarrow> string \<Rightarrow> nat \<Rightarrow> bool \<Rightarrow> (nat \<times> nat list) option" where
  "convert_ip4 pton4 s len canonize =
     (if len = 0 then None
      else
        (let text = (if canonize then
                       (case scan_ip4_address (Some (take (len + 1) s)) of None \<Rightarrow> s | Some (_, t) \<Rightarrow> t)
                     else s) in
         if char_at s len = CHR 0x00 then
           (case pton4 text of Some addr \<Rightarrow> Some (len, addr) | None \<Rightarrow> None)
         else None))"

definition convert_ip_address ::
  "(string \<Rightarrow> nat list option) \<Rightarrow> (string \<Rightarrow> nat list option) \<Rightarrow> string \<Rightarrow> (nat \<times> nat list) option res" where
  "convert_ip_address pton4 pton6 s =
     (let ref_len = span_ip6_reference (Some s) in
      if ref_len \<noteq> 0 \<and> \<not> (ref_len - 2 < 46) then Inl Assert_failed
      else if ref_len \<noteq> 0 \<and> char_at s ref_len \<noteq> CHR 0x00 then Inr None
      else
        (let (s, len) = (if ref_len \<noteq> 0 then (take (ref_len - 2) (drop 1 s), ref_len - 2)
                         else (s, span_ip6_address (Some s))) in
         if len \<noteq> 0 then
           (case (if char_at s len = CHR 0x00 then pton6 s else None) of
              Some addr \<Rightarrow>
                Inr (Some (len, if IS_ADDR_V4MAPPED addr \<or> IS_ADDR_V4COMPAT addr then take 4 (drop 12 addr) else addr))
            | None \<Rightarrow> Inr (convert_ip4 pton4 s len False))
         else
           (let (len, canonize) = span_canonic_ip4_address s in Inr (convert_ip4 pton4 s len canonize))))"

text \<open>\<open>memcmp\<close> of two areas of the same size: the difference of the first bytes that differ. The C standard fixes only
  the sign of this value, and the properties are about the sign. \<open>host_cmp\<close> returns it, and the value of
  \<open>su_strcasecmp\<close>, as they are.\<close>

fun memcmp :: "nat list \<Rightarrow> nat list \<Rightarrow> int" where
  "memcmp (x # xs) (y # ys) = (if x \<noteq> y then int x - int y else memcmp xs ys)"
| "memcmp xs ys = 0"

definition host_cmp ::
  "(string \<Rightarrow> nat list option) \<Rightarrow> (string \<Rightarrow> nat list option) \<Rightarrow> string option \<Rightarrow> string option \<Rightarrow> int res" where
  "host_cmp pton4 pton6 a b =
     (case (a, b) of
        (Some a', Some b') \<Rightarrow>
          andthen (convert_ip_address pton4 pton6 a') (\<lambda>ca.
          andthen (convert_ip_address pton4 pton6 b') (\<lambda>cb.
          case (ca, cb) of
            (Some (_, a6), Some (_, b6)) \<Rightarrow>
              if length a6 < length b6 then Inr (-1)
              else if length a6 > length b6 then Inr 1
              else Inr (memcmp a6 b6)
          | _ \<Rightarrow> Inr (su_strcasecmp a b)))
      | _ \<Rightarrow> Inr (of_bool (a \<noteq> None) - of_bool (b \<noteq> None)))"

end
