(* ===== verification/Sip_Host_Laws.thy ===== *)
theory Sip_Host_Laws
  imports Sip_Host
begin

text \<open>
  What the host scanner accepts and what it writes: IPv4 addresses and their canonical text, domain names,
  the characters of an IPv6 address, and the addresses whose canonization goes wrong.
\<close>

section \<open>Characters\<close>

lemma char_at_drop [simp]: "char_at (drop m s) n = char_at s (m + n)"
proof -
  have "n < length s - m \<longleftrightarrow> m + n < length s" by arith
  then show ?thesis by (simp add: char_at_def)
qed

lemma char_at_before: "n < length a \<Longrightarrow> char_at (a @ s) n = a ! n"
  by (simp add: char_at_def nth_append)

lemma char_at_inside: "char_at s n \<noteq> CHR 0x00 \<Longrightarrow> n < length s"
  by (auto simp: char_at_def split: if_splits)

lemma IS_DIGIT_simps [simp]: "\<not> IS_DIGIT (CHR 0x00)" "\<not> IS_DIGIT (CHR ''.'')"
  by (simp_all add: IS_DIGIT_def byte_def)

lemma IS_DIGIT_set: "IS_DIGIT c \<longleftrightarrow> c \<in> set ''0123456789''"
proof
  assume "IS_DIGIT c"
  then have n: "byte c \<in> set [48, 49, 50, 51, 52, 53, 54, 55, 56, 57]"
    unfolding IS_DIGIT_def Let_def by (simp, presburger)
  have "c = char_of (byte c)" by (simp add: byte_def)
  moreover have "char_of (byte c) \<in> set ''0123456789''"
    using n by (simp only: list.set insert_iff empty_iff) (elim disjE; simp add: char_of_def bit_iff_odd)
  ultimately show "c \<in> set ''0123456789''" by simp
next
  assume "c \<in> set ''0123456789''"
  then show "IS_DIGIT c" by (auto simp: IS_DIGIT_def byte_def)
qed

section \<open>IPv4 addresses\<close>

definition dec_value :: "string \<Rightarrow> nat" where
  "dec_value s = foldl (\<lambda>v c. 10 * v + (byte c - 48)) 0 s"

definition octet :: "string \<Rightarrow> bool" where
  "octet s \<longleftrightarrow> s \<noteq> [] \<and> length s \<le> 3 \<and> list_all IS_DIGIT s \<and> dec_value s \<le> 255"

lemma octet_cases:
  "octet s \<Longrightarrow> (\<exists>a. s = [a]) \<or> (\<exists>a b. s = [a, b]) \<or> (\<exists>a b c. s = [a, b, c])"
  by (cases s rule: list.exhaust; cases "tl s"; cases "tl (tl s)"; cases "tl (tl (tl s))") (auto simp: octet_def)

lemma digit_byte: "IS_DIGIT c \<Longrightarrow> 48 \<le> byte c \<and> byte c \<le> 57"
  by (simp add: IS_DIGIT_def Let_def)

lemma byte_lits: "c = CHR ''0'' \<longleftrightarrow> byte c = 48" "c = CHR ''1'' \<longleftrightarrow> byte c = 49" "c = CHR ''2'' \<longleftrightarrow> byte c = 50"
  "c = CHR ''5'' \<longleftrightarrow> byte c = 53"
  by (simp_all flip: byte_eq) (simp_all add: byte_def)

lemma span_octet:
  assumes "octet s" "\<not> IS_DIGIT (char_at r 0)"
  shows "span_ip4_octet (s @ r) = length s"
  using octet_cases [OF assms(1)]
proof (elim disjE exE)
  fix a b c assume s: "s = [a, b, c]"
  then have "IS_DIGIT a" "IS_DIGIT b" "IS_DIGIT c" and v: "100 * (byte a - 48) + 10 * (byte b - 48) + (byte c - 48) \<le> 255"
    using assms(1) by (simp_all add: octet_def dec_value_def)
  then have "byte a = 48 \<or> byte a = 49 \<or> byte a = 50 \<and> (byte b = 53 \<and> byte c \<le> 53 \<or> byte b \<le> 52)"
    using digit_byte [of a] digit_byte [of b] digit_byte [of c] by presburger
  then show ?thesis using s \<open>IS_DIGIT a\<close> \<open>IS_DIGIT b\<close> \<open>IS_DIGIT c\<close>
    by (auto simp: span_ip4_octet_def byte_lits numeral_2_eq_2)
qed (use assms in \<open>auto simp: octet_def span_ip4_octet_def numeral_2_eq_2\<close>)

lemma octet_of_span:
  assumes "span_ip4_octet s = n" "n \<noteq> 0" "\<not> IS_DIGIT (char_at s n)"
  shows "n \<le> length s \<and> octet (take n s)"
proof -
  have in_s: "i < length s" if "IS_DIGIT (char_at s i)" for i
    using that by (intro char_at_inside) auto
  consider "n = 1" | "n = 2" | "n = 3" using assms by (auto simp: span_ip4_octet_def split: if_splits)
  then show ?thesis
  proof cases
    case 1
    then have d: "IS_DIGIT (char_at s 0)" using assms by (auto simp: span_ip4_octet_def split: if_splits)
    then obtain a t where "s = a # t" using in_s by (cases s) auto
    then show ?thesis using 1 d digit_byte [of a] by (auto simp: octet_def dec_value_def)
  next
    case 2
    then have d: "IS_DIGIT (char_at s 0)" "IS_DIGIT (char_at s 1)"
      using assms by (auto simp: span_ip4_octet_def split: if_splits)
    then obtain a b t where "s = a # b # t" using in_s by (cases s; cases "tl s") auto
    then show ?thesis using 2 d digit_byte [of a] digit_byte [of b] by (auto simp: octet_def dec_value_def numeral_2_eq_2)
  next
    case 3
    then have d: "IS_DIGIT (char_at s 0)" "IS_DIGIT (char_at s 1)" "IS_DIGIT (char_at s 2)"
      using assms by (auto simp: span_ip4_octet_def split: if_splits)
    then obtain a b c t where s: "s = a # b # c # t"
      using in_s [of 2] by (cases s; cases "tl s"; cases "tl (tl s)") auto
    have "byte a = 48 \<or> byte a = 49 \<or> byte a = 50 \<and> (byte b = 53 \<and> byte c \<le> 53 \<or> byte b \<le> 52)"
      using assms(1) 3 s by (auto simp: span_ip4_octet_def byte_lits numeral_2_eq_2 split: if_splits)
    then show ?thesis using 3 d s digit_byte [of a] digit_byte [of b] digit_byte [of c]
      by (auto simp: octet_def dec_value_def numeral_3_eq_3 numeral_2_eq_2)
  qed
qed

text \<open>Four octets, as a dotted text.\<close>

definition dotted :: "string \<Rightarrow> string \<Rightarrow> string \<Rightarrow> string \<Rightarrow> string" where
  "dotted a b c d = a @ CHR ''.'' # b @ CHR ''.'' # c @ CHR ''.'' # d"

lemma octet_hd: "octet a \<Longrightarrow> char_at (a @ s) 0 = hd a" "octet a \<Longrightarrow> a \<noteq> []" "octet a \<Longrightarrow> length a > 0"
  by (cases a; auto simp: octet_def)+

lemma drop_piece: "drop k s = a @ x # t \<Longrightarrow> drop (k + length a + 1) s = t"
proof -
  assume d: "drop k s = a @ x # t"
  have "drop (k + length a + 1) s = drop (length a + 1) (drop k s)" by (simp add: add.commute add.left_commute)
  then show ?thesis using d by simp
qed

text \<open>The length of the address, and the flag, of a text that starts with a dotted address.\<close>

lemma span_dotted:
  assumes "octet a" "octet b" "octet c" "octet d" "\<not> IS_DIGIT (char_at r 0)" "char_at r 0 \<noteq> CHR ''.''"
  shows "span_canonic_ip4_address (dotted a b c d @ r)
     = (length (dotted a b c d), list_ex (\<lambda>o'. length o' > 1 \<and> hd o' = CHR ''0'') [a, b, c, d])"
proof -
  let ?s = "dotted a b c d @ r"
  have s: "?s = a @ CHR ''.'' # b @ CHR ''.'' # c @ CHR ''.'' # d @ r" by (simp add: dotted_def)
  have 1: "span_ip4_octet ?s = length a" unfolding s by (rule span_octet [OF assms(1)]) simp
  have 2: "drop (length a + 1) ?s = b @ CHR ''.'' # c @ CHR ''.'' # d @ r" unfolding s by simp
  have 3: "drop (length a + 1 + length b + 1) ?s = c @ CHR ''.'' # d @ r" unfolding s by simp
  have 4: "drop (length a + 1 + length b + 1 + length c + 1) ?s = d @ r" using drop_piece [OF 3] .
  have dots: "char_at ?s (length a) = CHR ''.''" "char_at ?s (length a + 1 + length b) = CHR ''.''"
    "char_at ?s (length a + 1 + length b + 1 + length c) = CHR ''.''"
    "char_at ?s (length a + 1 + length b + 1 + length c + 1 + length d) = char_at r 0"
    unfolding s by (simp_all add: char_at_def nth_append)
  have spans: "span_ip4_octet (b @ CHR ''.'' # c @ CHR ''.'' # d @ r) = length b"
    "span_ip4_octet (c @ CHR ''.'' # d @ r) = length c" "span_ip4_octet (d @ r) = length d"
    using assms by (auto intro!: span_octet)
  have heads: "octet_canonize ?s (length a) \<longleftrightarrow> length a > 1 \<and> hd a = CHR ''0''"
    "octet_canonize (b @ CHR ''.'' # c @ CHR ''.'' # d @ r) (length b) \<longleftrightarrow> length b > 1 \<and> hd b = CHR ''0''"
    "octet_canonize (c @ CHR ''.'' # d @ r) (length c) \<longleftrightarrow> length c > 1 \<and> hd c = CHR ''0''"
    "octet_canonize (d @ r) (length d) \<longleftrightarrow> length d > 1 \<and> hd d = CHR ''0''"
    unfolding s octet_canonize_def using assms(1-4) by (simp_all add: octet_hd)
  have "length (dotted a b c d) = length a + 1 + length b + 1 + length c + 1 + length d"
    by (simp add: dotted_def)
  then show ?thesis
    unfolding span_canonic_ip4_address_def Let_def 1 2 3 4 spans heads dots
    using assms by (auto simp: octet_hd)
qed

text \<open>Conversely, what is accepted is a dotted address.\<close>

lemma span_dotted_only:
  assumes "fst (span_canonic_ip4_address s) = n" "n \<noteq> 0"
  shows "\<exists>a b c d r. s = dotted a b c d @ r \<and> n = length (dotted a b c d)
           \<and> octet a \<and> octet b \<and> octet c \<and> octet d \<and> \<not> IS_DIGIT (char_at r 0) \<and> char_at r 0 \<noteq> CHR ''.''"
proof -
  define l1 where "l1 = span_ip4_octet s"
  define n1 where "n1 = l1 + 1"
  define l2 where "l2 = span_ip4_octet (drop n1 s)"
  define n2 where "n2 = n1 + l2 + 1"
  define l3 where "l3 = span_ip4_octet (drop n2 s)"
  define n3 where "n3 = n2 + l3 + 1"
  define l4 where "l4 = span_ip4_octet (drop n3 s)"
  note defs = l1_def n1_def l2_def n2_def l3_def n3_def l4_def
  have f: "l1 \<noteq> 0" "char_at s l1 = CHR ''.''" "l2 \<noteq> 0" "char_at s (n1 + l2) = CHR ''.''"
    "l3 \<noteq> 0" "char_at s (n2 + l3) = CHR ''.''" "l4 \<noteq> 0" "\<not> IS_DIGIT (char_at s (n3 + l4))"
    "char_at s (n3 + l4) \<noteq> CHR ''.''" "n = n3 + l4"
    using assms unfolding span_canonic_ip4_address_def Let_def defs by (auto split: if_splits)
  have octs: "octet (take l1 s)" "octet (take l2 (drop n1 s))" "octet (take l3 (drop n2 s))" "octet (take l4 (drop n3 s))"
    using f by (auto intro!: octet_of_span [THEN conjunct2] simp: l1_def l2_def l3_def l4_def)
  have len: "n3 + l4 \<le> length s"
  proof (cases "n3 \<le> length s")
    case True
    then show ?thesis using octet_of_span [of "drop n3 s" l4] f le_diff_conv2 [OF True, of l4]
      by (simp add: l4_def [symmetric] add.commute)
  next
    case False
    then have "l4 = 0" by (simp add: l4_def span_ip4_octet_def)
    then show ?thesis using f by simp
  qed
  have split1: "drop k s = take l (drop k s) @ CHR ''.'' # drop (k + l + 1) s" if "char_at s (k + l) = CHR ''.''" for k l
  proof -
    have "k + l < length s" using that by (intro char_at_inside) simp
    then show ?thesis using that
      by (metis (no_types, lifting) Cons_nth_drop_Suc Suc_eq_plus1 add.commute append_take_drop_id char_at_def drop_drop)
  qed
  have pieces: "s = take l1 s @ CHR ''.'' # drop n1 s" "drop n1 s = take l2 (drop n1 s) @ CHR ''.'' # drop n2 s"
    "drop n2 s = take l3 (drop n2 s) @ CHR ''.'' # drop n3 s" "drop n3 s = take l4 (drop n3 s) @ drop (n3 + l4) s"
    using split1 [of 0 l1] split1 [of n1 l2] split1 [of n2 l3] f append_take_drop_id [of l4 "drop n3 s", symmetric]
    by (simp_all add: n1_def n2_def n3_def add.commute add.left_commute)
  have "s = dotted (take l1 s) (take l2 (drop n1 s)) (take l3 (drop n2 s)) (take l4 (drop n3 s)) @ drop (n3 + l4) s"
    unfolding dotted_def append_assoc append_Cons
    by (simp only: pieces(4) [symmetric] pieces(3) [symmetric] pieces(2) [symmetric] pieces(1) [symmetric])
  moreover have "n = length (dotted (take l1 s) (take l2 (drop n1 s)) (take l3 (drop n2 s)) (take l4 (drop n3 s)))"
    using f len by (simp add: dotted_def n1_def n2_def n3_def)
  ultimately show ?thesis using octs f by (metis char_at_drop add_0_right)
qed

text \<open>The canonical text of an octet: no leading zero, the same value.\<close>

fun strip0 :: "string \<Rightarrow> string" where
  "strip0 (c # d # s) = (if c = CHR ''0'' then strip0 (d # s) else c # d # s)"
| "strip0 s = s"

lemma strip0_value: "dec_value (strip0 s) = dec_value s"
  by (induction s rule: strip0.induct) (simp_all add: dec_value_def byte_def)

lemma strip0_canonical: "length (strip0 s) > 1 \<Longrightarrow> hd (strip0 s) \<noteq> CHR ''0''"
  by (induction s rule: strip0.induct) (auto split: if_splits)

lemma strip0_length: "length (strip0 s) \<le> length s"
  by (induction s rule: strip0.induct) auto

lemma strip0_same: "strip0 s = s \<longleftrightarrow> \<not> (length s > 1 \<and> hd s = CHR ''0'')"
proof (cases s rule: strip0.cases)
  case (1 c d t)
  then show ?thesis using strip0_length [of "d # t"] by auto
qed auto

lemma canon_dot: "IS_DIGIT d \<Longrightarrow> ip4_canon_loop k (CHR ''.'' # d # t) = CHR ''.'' # ip4_canon_loop True (d # t)"
  by (subst ip4_canon_loop.simps) (simp add: Let_def)

lemma canon_octet:
  "o' \<noteq> [] \<Longrightarrow> list_all IS_DIGIT o' \<Longrightarrow> IS_DIGIT d \<Longrightarrow>
   ip4_canon_loop k (o' @ CHR ''.'' # d # t) = (if k then strip0 o' else o') @ CHR ''.'' # ip4_canon_loop True (d # t)"
proof (induction o' arbitrary: k)
  case (Cons c s)
  then show ?case
  proof (cases s)
    case Nil
    then show ?thesis
      using Cons.prems by (subst ip4_canon_loop.simps) (simp add: Let_def canon_dot)
  next
    case s: (Cons e s')
    then have "c \<noteq> CHR ''.''" using Cons.prems by auto
    then show ?thesis using Cons s by (subst ip4_canon_loop.simps) (auto simp: Let_def)
  qed
qed simp

lemma canon_last:
  "o' \<noteq> [] \<Longrightarrow> list_all IS_DIGIT o' \<Longrightarrow> \<not> IS_DIGIT (char_at r 0) \<Longrightarrow> char_at r 0 \<noteq> CHR ''.'' \<Longrightarrow>
   ip4_canon_loop k (o' @ r) = (if k then strip0 o' else o')"
proof (induction o' arbitrary: k)
  case (Cons c s)
  then show ?case
  proof (cases s)
    case Nil
    then show ?thesis
      using Cons.prems by (subst ip4_canon_loop.simps) (simp add: Let_def)
  next
    case s: (Cons e s')
    then have "c \<noteq> CHR ''.''" using Cons.prems by auto
    then show ?thesis using Cons s by (subst ip4_canon_loop.simps) (auto simp: Let_def)
  qed
qed simp

lemma octet_Cons: "octet b \<Longrightarrow> \<exists>x b'. b = x # b' \<and> IS_DIGIT x"
  by (cases b) (auto simp: octet_def)

lemma canon_dotted:
  assumes "octet a" "octet b" "octet c" "octet d" "\<not> IS_DIGIT (char_at r 0)" "char_at r 0 \<noteq> CHR ''.''"
  shows "ip4_canon_loop True (dotted a b c d @ r) = dotted (strip0 a) (strip0 b) (strip0 c) (strip0 d)"
proof -
  have digits: "o' \<noteq> [] \<and> list_all IS_DIGIT o'" if "octet o'" for o'
    using that by (simp add: octet_def)
  have step: "ip4_canon_loop True (o' @ CHR ''.'' # o2 @ t) = strip0 o' @ CHR ''.'' # ip4_canon_loop True (o2 @ t)"
    if "octet o'" "octet o2" for o' o2 t
    using octet_Cons [OF that(2)] canon_octet [of o' _ True] digits [OF that(1)] by auto
  show ?thesis
    using assms digits [OF assms(4)] by (simp add: dotted_def step canon_last)
qed

section \<open>Domain names\<close>

text \<open>The grammar in the comment of \<open>span_domain\<close>.\<close>

definition domain_char :: "char \<Rightarrow> bool" where
  "domain_char c \<longleftrightarrow> IS_ALPHANUM c \<or> c = CHR ''-''"

definition domain_label :: "string \<Rightarrow> bool" where
  "domain_label l \<longleftrightarrow> l \<noteq> [] \<and> IS_ALPHANUM (hd l) \<and> IS_ALPHANUM (last l) \<and> list_all domain_char l"

fun join_dots :: "string list \<Rightarrow> string" where
  "join_dots [] = []"
| "join_dots [l] = l"
| "join_dots (l # ls) = l @ CHR ''.'' # join_dots ls"

definition hostname :: "string \<Rightarrow> string list \<Rightarrow> bool" where
  "hostname s ls \<longleftrightarrow> ls \<noteq> [] \<and> list_all domain_label ls \<and> IS_ALPHA (hd (last ls))
     \<and> (s = join_dots ls \<or> s = join_dots ls @ ''.'')"

lemma class_simps [simp]:
  "\<not> IS_ALPHANUM (CHR 0x00)" "\<not> IS_ALPHANUM (CHR ''.'')" "\<not> IS_ALPHANUM (CHR ''-'')" "\<not> IS_ALPHA (CHR ''.'')"
  "\<not> IS_ALPHA (CHR 0x00)" "\<not> domain_char (CHR 0x00)" "\<not> domain_char (CHR ''.'')"
  by (simp_all add: IS_ALPHANUM_def IS_ALPHA_def IS_DIGIT_def domain_char_def byte_def)

lemma span_label:
  assumes "domain_label l" "\<not> domain_char (char_at r 0)"
  shows "span_domain_label (l @ r) = length l"
proof -
  obtain c l' where l: "l = c # l'" using assms(1) by (cases l) (auto simp: domain_label_def)
  have r: "takeWhile domain_char r = []" using assms(2) by (cases r) auto
  have "takeWhile domain_char (l' @ r) = l'"
    using assms(1) r l by (simp add: domain_label_def list_all_iff takeWhile_append)
  moreover have "char_at (c # l' @ r) (length l') = last l"
    using l by (cases l' rule: rev_cases) (simp_all add: char_at_def nth_append nth_Cons')
  ultimately show ?thesis
    using assms(1) l by (simp add: span_domain_label_def domain_label_def domain_char_def [abs_def] Let_def)
qed

lemma label_of_span:
  assumes "span_domain_label s \<noteq> 0"
  shows "\<exists>l r. s = l @ r \<and> domain_label l \<and> length l = span_domain_label s \<and> \<not> domain_char (char_at r 0)"
proof -
  obtain c s' where s: "s = c # s'" using assms by (cases s) (auto simp: span_domain_label_def split: if_splits)
  define w where "w = takeWhile domain_char s'"
  define r where "r = dropWhile domain_char s'"
  have split: "s = (c # w) @ r" using s by (simp add: w_def r_def)
  have span: "span_domain_label s = Suc (length w)" "IS_ALPHANUM c" "IS_ALPHANUM (char_at s (length w))"
    using assms s by (auto simp: span_domain_label_def domain_char_def [abs_def] w_def Let_def split: if_splits)
  have "char_at s (length w) = last (c # w)"
    using split by (cases w rule: rev_cases) (simp_all add: char_at_def nth_append nth_Cons')
  moreover have "list_all domain_char w" by (auto simp: w_def list_all_iff dest: set_takeWhileD)
  moreover have "\<not> domain_char (char_at r 0)"
    unfolding r_def by (metis hd_dropWhile char_at_Nil char_at_Cons(1) list.collapse class_simps(6))
  ultimately have "domain_label (c # w)" using span by (simp add: domain_label_def domain_char_def)
  then show ?thesis using split span \<open>\<not> domain_char (char_at r 0)\<close> by (intro exI [of _ "c # w"] exI [of _ r]) simp
qed

lemma join_dots_Cons: "ls \<noteq> [] \<Longrightarrow> join_dots (l # ls) = l @ CHR ''.'' # join_dots ls"
  by (cases ls) auto

lemma join_dots_hd: "list_all domain_label ls \<Longrightarrow> ls \<noteq> [] \<Longrightarrow> IS_ALPHANUM (char_at (join_dots ls @ t) 0)"
proof (cases ls rule: join_dots.cases)
  case (2 l)
  assume "list_all domain_label ls"
  then show ?thesis using 2 by (cases l) (auto simp: domain_label_def)
next
  case (3 l l' ls')
  assume "list_all domain_label ls"
  then show ?thesis using 3 by (cases l) (auto simp: domain_label_def)
qed auto

lemma loop_hostname:
  "drop n host = join_dots ls @ dot @ r \<Longrightarrow> ls \<noteq> [] \<Longrightarrow> list_all domain_label ls \<Longrightarrow> IS_ALPHA (hd (last ls)) \<Longrightarrow>
   dot = [] \<or> dot = ''.'' \<Longrightarrow> \<not> domain_char (char_at r 0) \<Longrightarrow> char_at r 0 \<noteq> CHR ''.'' \<Longrightarrow>
   domain_labels_loop host n k = (n + length (join_dots ls @ dot), k + length ls)"
proof (induction ls arbitrary: n k)
  case (Cons l ls)
  have l: "domain_label l" "l \<noteq> []" using Cons.prems by (auto simp: domain_label_def)
  have next_char: "char_at host (n + length l + i) = char_at t i" if "drop n host = l @ t" for i t
    by (metis that char_at_append(2) char_at_drop add.assoc)
  show ?case
  proof (cases "ls = []")
    case True
    then have d: "drop n host = l @ dot @ r" using Cons.prems by simp
    have span: "span_domain_label (drop n host) = length l"
      unfolding d using Cons.prems by (intro span_label [OF l(1)]) auto
    have "char_at host n = hd l"
      using d l(2) by (metis add_0_right append_Cons char_at_drop char_at_Cons(1) list.collapse)
    moreover have "IS_ALPHA (hd l)" using Cons.prems True by simp
    moreover have "char_at host (n + length l) = char_at (dot @ r) 0" "char_at host (n + length l + 1) = char_at (dot @ r) 1"
      using next_char [OF d, of 0] next_char [OF d, of 1] by simp_all
    ultimately show ?thesis
      using Cons.prems True span l(2) by (subst domain_labels_loop.simps) (auto simp: domain_char_def Let_def)
  next
    case False
    then have d: "drop n host = l @ CHR ''.'' # join_dots ls @ dot @ r" using Cons.prems by (simp add: join_dots_Cons)
    have span: "span_domain_label (drop n host) = length l"
      unfolding d by (rule span_label [OF l(1)]) simp
    have rest: "drop (n + length l + 1) host = join_dots ls @ dot @ r" by (rule drop_piece [OF d])
    have dots: "char_at host (n + length l) = CHR ''.''"
      "IS_ALPHANUM (char_at host (n + length l + 1))"
      using next_char [OF d, of 0] next_char [OF d, of 1] join_dots_hd [of ls "dot @ r"] Cons.prems False by simp_all
    have "domain_labels_loop host (n + length l + 1) (k + 1) = (n + length l + 1 + length (join_dots ls @ dot), k + 1 + length ls)"
      using rest Cons.prems False by (intro Cons.IH) auto
    then show ?thesis
      using span dots l(2) False by (subst domain_labels_loop.simps) (simp add: Let_def join_dots_Cons)
  qed
qed simp

lemma hostname_of_loop:
  "domain_labels_loop host n k = (m, j) \<Longrightarrow> m \<noteq> 0 \<Longrightarrow>
   \<exists>h r ls. drop n host = h @ r \<and> hostname h ls \<and> m = n + length h \<and> j = k + length ls
     \<and> \<not> domain_char (char_at r 0) \<and> char_at r 0 \<noteq> CHR ''.''"
proof (induction host n k rule: domain_labels_loop.induct)
  case (1 host n k)
  let ?len = "span_domain_label (drop n host)"
  have "?len \<noteq> 0"
  proof
    assume "?len = 0"
    then have "domain_labels_loop host n k = (0, 0)" by (subst domain_labels_loop.simps) simp
    then show False using 1(2,3) by simp
  qed
  then obtain l r where l: "drop n host = l @ r" "domain_label l" "length l = ?len" "\<not> domain_char (char_at r 0)"
    using label_of_span by blast
  then have ne: "l \<noteq> []" by (simp add: domain_label_def)
  have at: "char_at host (n + ?len + i) = char_at r i" for i
    by (metis l(1,3) char_at_append(2) char_at_drop add.assoc)
  show ?case
  proof (cases "char_at r 0 = CHR ''.'' \<and> IS_ALPHANUM (char_at r 1)")
    case True
    then obtain t where r: "r = CHR ''.'' # t" by (cases r) auto
    then have t: "drop (n + ?len + 1) host = t" using drop_piece [of n host l "CHR ''.''" t] l by simp
    have "domain_labels_loop host (n + ?len + 1) (k + 1) = (m, j)"
      using 1(2) \<open>?len \<noteq> 0\<close> True at [of 0] at [of 1] by (subst (asm) domain_labels_loop.simps) (simp add: Let_def)
    then obtain h r' ls where h: "t = h @ r'" "hostname h ls" "m = n + ?len + 1 + length h" "j = k + 1 + length ls"
      "\<not> domain_char (char_at r' 0)" "char_at r' 0 \<noteq> CHR ''.''"
      using 1(1) [OF refl \<open>?len \<noteq> 0\<close> refl] True at [of 0] at [of 1] 1(3) t by auto
    have "hostname (l @ CHR ''.'' # h) (l # ls)"
      using h(2) l(2) by (auto simp: hostname_def join_dots_Cons)
    then show ?thesis using h l r by (intro exI [of _ "l @ CHR ''.'' # h"] exI [of _ r'] exI [of _ "l # ls"]) simp
  next
    case False
    have first: "char_at host n = hd l"
      using l(1) ne by (metis add_0_right append_Cons char_at_drop char_at_Cons(1) list.collapse)
    define dot where "dot = (if char_at r 0 = CHR ''.'' then ''.'' else [])"
    then obtain t where t: "r = dot @ t" by (cases r) (auto split: if_splits)
    have chars: "char_at host (n + ?len) = char_at r 0" "char_at host (n + ?len + 1) = char_at r 1"
      using at [of 0] at [of 1] by simp_all
    have "domain_labels_loop host n k =
        (if \<not> IS_ALPHA (hd l) \<or> IS_ALPHANUM (char_at host (n + ?len + length dot)) \<or> char_at host (n + ?len + length dot) = CHR ''-''
            \<or> char_at host (n + ?len + length dot) = CHR ''.'' then (0, 0) else (n + ?len + length dot, k + 1))"
    proof (cases "char_at r 0 = CHR ''.''")
      case True
      then have "length dot = 1" "\<not> IS_ALPHANUM (char_at r 1)" using False by (simp_all add: dot_def)
      then show ?thesis
        using \<open>?len \<noteq> 0\<close> True chars first by (subst domain_labels_loop.simps) (simp add: Let_def)
    next
      case no_dot: False
      then have "dot = []" by (simp add: dot_def)
      then show ?thesis
        using \<open>?len \<noteq> 0\<close> no_dot chars first by (subst domain_labels_loop.simps) (simp add: Let_def)
    qed
    then have "m = n + ?len + length dot \<and> j = k + 1 \<and> IS_ALPHA (hd l)
        \<and> \<not> domain_char (char_at host (n + ?len + length dot)) \<and> char_at host (n + ?len + length dot) \<noteq> CHR ''.''"
      using 1(2,3) by (auto simp: domain_char_def split: if_splits)
    moreover have "char_at host (n + ?len + length dot) = char_at t 0"
      using at [of "length dot"] t by simp
    moreover have "IS_ALPHA (hd l) \<Longrightarrow> hostname (l @ dot) [l]"
      using l(2) by (simp add: hostname_def dot_def)
    ultimately show ?thesis
      using l t ne by (intro exI [of _ "l @ dot"] exI [of _ t] exI [of _ "[l]"]) simp
  qed
qed

section \<open>IPv6 addresses\<close>

definition ip6_char :: "char \<Rightarrow> bool" where
  "ip6_char c \<longleftrightarrow> IS_HEX c \<or> c = CHR '':'' \<or> c = CHR ''.''"

lemma IS_HEX_NUL [simp]: "\<not> IS_HEX (CHR 0x00)" "\<not> IS_HEX (CHR '':'')" "\<not> IS_HEX (CHR ''.'')"
  by (simp_all add: IS_HEX_def)

lemma digit_hex: "IS_DIGIT c \<Longrightarrow> IS_HEX c"
  by (simp add: IS_DIGIT_def IS_HEX_def byte_def Let_def)

lemma span_hex4_bound: "span_hex4 s \<le> length s" "i < span_hex4 s \<Longrightarrow> IS_HEX (char_at s i)"
proof -
  have "IS_HEX (char_at s i) \<Longrightarrow> i < length s" for i by (rule char_at_inside) auto
  from this [of 0] this [of 1] this [of 2] this [of 3] show "span_hex4 s \<le> length s" by (auto simp: span_hex4_def Suc_le_eq)
  show "i < span_hex4 s \<Longrightarrow> IS_HEX (char_at s i)"
    by (auto simp: span_hex4_def less_Suc_eq numeral_2_eq_2 numeral_3_eq_3 eval_nat_numeral split: if_splits)
qed

lemma dotted_chars: "octet a \<Longrightarrow> octet b \<Longrightarrow> octet c \<Longrightarrow> octet d \<Longrightarrow> list_all ip6_char (dotted a b c d)"
  by (auto simp: dotted_def octet_def ip6_char_def list_all_iff digit_hex)

lemma span_ip4_chars:
  assumes "fst (span_canonic_ip4_address s) = n" "i < n"
  shows "n \<le> length s \<and> ip6_char (char_at s i)"
proof -
  obtain a b c d r where s: "s = dotted a b c d @ r" "n = length (dotted a b c d)"
    and o4: "octet a" "octet b" "octet c" "octet d"
    using span_dotted_only [OF assms(1)] assms(2) by auto
  then show ?thesis
    using dotted_chars [OF o4] assms(2) by (simp add: char_at_before list_all_length)
qed

lemma ip6_end_fst: "fst (ip6_end host n hex4 dc c p) = (if (hex4 \<noteq> 8 \<and> dc = 0) \<or> IS_HEX (char_at host n) \<or> char_at host n = CHR '':'' then 0 else n)"
  by (simp add: ip6_end_def)

text \<open>The address lies in the text, and consists of hexadecimal digits, colons and dots.\<close>

lemma ip6_loop_chars:
  "n \<le> length host \<Longrightarrow> (\<And>i. i < n \<Longrightarrow> ip6_char (char_at host i)) \<Longrightarrow>
   let m = fst (ip6_loop host want n hex4 dc c p) in m \<le> length host \<and> (\<forall>i<m. ip6_char (char_at host i))"
proof (induction host want n hex4 dc c p rule: ip6_loop.induct)
  case (1 host want n hex4 dc c p)
  let ?len = "span_hex4 (drop n host)"
  let ?c = "c \<or> (want \<and> ((?len > 1 \<and> char_at host (n + 1) = CHR ''0'') \<or> char_at host n = CHR ''0''))"
  let ?p = "if want then p[hex4 + dc := Some (drop n host)] else p"
  have len: "n + ?len \<le> length host" using span_hex4_bound(1) [of "drop n host"] le_diff_conv2 [OF 1(4), of ?len] by (simp add: add.commute)
  have upto: "i < n + ?len \<Longrightarrow> ip6_char (char_at host i)" for i
    using 1(5) [of i] span_hex4_bound(2) [of "i - n" "drop n host"] by (cases "i < n") (auto simp: ip6_char_def)
  have next_pos: "char_at host k = x \<Longrightarrow> x \<noteq> CHR 0x00 \<Longrightarrow> k < length host" for k x
    using char_at_inside by blast
  show ?case
  proof (cases "hex4 < 8")
    case h: True
    consider (colon) "char_at host (n + ?len) = CHR '':''" | (dot) "char_at host (n + ?len) = CHR ''.''"
      | (other) "char_at host (n + ?len) \<noteq> CHR '':''" "char_at host (n + ?len) \<noteq> CHR ''.''" by blast
    then show ?thesis
    proof cases
      case colon
      then have in1: "n + ?len + 1 \<le> length host" using next_pos [OF colon] by simp
      have upto1: "i < n + ?len + 1 \<Longrightarrow> ip6_char (char_at host i)" for i
        using upto [of i] colon by (cases "i = n + ?len") (auto simp: ip6_char_def)
      consider (double) "?len \<noteq> 0" "dc = 0 \<and> char_at host (n + ?len + 1) = CHR '':''"
        | (single) "?len \<noteq> 0" "\<not> (dc = 0 \<and> char_at host (n + ?len + 1) = CHR '':'')"
        | (first) "?len = 0" "n = 0 \<and> char_at host 1 = CHR '':''"
        | (stop) "?len = 0" "\<not> (n = 0 \<and> char_at host 1 = CHR '':'')" by blast
      then show ?thesis
      proof cases
        case double
        have "n + ?len + 1 + 1 \<le> length host" using next_pos [of "n + ?len + 1" "CHR '':''"] double by simp
        moreover have "i < n + ?len + 1 + 1 \<Longrightarrow> ip6_char (char_at host i)" for i
          using upto1 [of i] double by (cases "i = n + ?len + 1") (auto simp: ip6_char_def)
        ultimately show ?thesis
          using 1(1) [OF h refl refl refl colon double(1) refl refl double(2)] h colon double
          by (subst ip6_loop.simps) (cases want; simp add: Let_def)
      next
        case single
        then show ?thesis
          using 1(2) [OF h refl refl refl colon single(1) refl refl single(2) in1] upto1 h colon
          by (subst ip6_loop.simps) (cases want; auto simp: Let_def)
      next
        case first
        have "2 \<le> length host" using next_pos [of 1 "CHR '':''"] first by simp
        moreover have "i < 2 \<Longrightarrow> ip6_char (char_at host i)" for i
          using first colon by (auto simp: ip6_char_def less_2_cases_iff)
        ultimately show ?thesis
          using 1(3) [OF h refl refl refl colon] first h colon by (subst ip6_loop.simps) (cases want; simp add: Let_def)
      next
        case stop
        then show ?thesis using h colon 1(4,5) by (subst ip6_loop.simps) (auto simp: Let_def ip6_end_fst)
      qed
    next
      case dot
      obtain len4 c4 where s4: "span_canonic_ip4_address (drop n host) = (len4, c4)" by fastforce
      have "len4 \<noteq> 0 \<Longrightarrow> n + len4 \<le> length host \<and> (\<forall>i<n + len4. ip6_char (char_at host i))"
      proof -
        assume nz: "len4 \<noteq> 0"
        have "len4 \<le> length (drop n host)" using span_ip4_chars [of "drop n host" len4 0] nz s4 by simp
        moreover have "ip6_char (char_at host i)" if "i < n + len4" for i
          using 1(5) [of i] span_ip4_chars [of "drop n host" len4 "i - n"] that s4 by (cases "i < n") auto
        ultimately show ?thesis using nz 1(4) by auto
      qed
      then show ?thesis using h dot s4 by (subst ip6_loop.simps) (cases want; simp add: Let_def)
    next
      case other
      then show ?thesis using h len upto by (subst ip6_loop.simps) (auto simp: Let_def ip6_end_fst)
    qed
  next
    case False
    then show ?thesis using 1(4,5) by (subst ip6_loop.simps) (auto simp: ip6_end_fst)
  qed
qed

text \<open>The scanner and the span agree: the flag and the parts do not steer the loop.\<close>

lemma ip6_loop_want:
  "fst (ip6_loop host want n hex4 dc c p) = fst (ip6_loop host False n hex4 dc c' p')"
proof (induction host want n hex4 dc c p arbitrary: c' p' rule: ip6_loop.induct)
  case (1 host want n hex4 dc c p)
  let ?len = "span_hex4 (drop n host)"
  note unfold = ip6_loop.simps [of host want n hex4 dc c p] ip6_loop.simps [of host False n hex4 dc c' p']
  show ?case
  proof (cases "hex4 < 8 \<and> char_at host (n + ?len) = CHR '':''")
    case True
    then have h: "hex4 < 8" and colon: "char_at host (n + ?len) = CHR '':''" by simp_all
    consider (double) "?len \<noteq> 0" "dc = 0 \<and> char_at host (n + ?len + 1) = CHR '':''"
      | (single) "?len \<noteq> 0" "\<not> (dc = 0 \<and> char_at host (n + ?len + 1) = CHR '':'')"
      | (first) "?len = 0" "n = 0 \<and> char_at host 1 = CHR '':''"
      | (stop) "?len = 0" "\<not> (n = 0 \<and> char_at host 1 = CHR '':'')" by blast
    then show ?thesis
    proof cases
      case double
      show ?thesis
        using 1(1) [OF h refl refl refl colon double(1) refl refl double(2), of c' p'] h colon double
        unfolding unfold by (cases want) (simp_all add: Let_def)
    next
      case single
      show ?thesis
        using 1(2) [OF h refl refl refl colon single(1) refl refl single(2), of c' p'] h colon single
        unfolding unfold by (cases want) (auto simp: Let_def)
    next
      case first
      show ?thesis
        using 1(3) [OF h refl refl refl colon, of c' p'] h colon first unfolding unfold by (cases want) (simp_all add: Let_def)
    next
      case stop
      show ?thesis using h colon stop unfolding unfold by (auto simp: Let_def ip6_end_fst)
    qed
  next
    case False
    then show ?thesis unfolding unfold by (auto simp: Let_def ip6_end_fst split: prod.split)
  qed
qed

text \<open>A text of eight groups is an address.\<close>

definition hex_group :: "string \<Rightarrow> bool" where
  "hex_group g \<longleftrightarrow> g \<noteq> [] \<and> length g \<le> 4 \<and> list_all IS_HEX g"

fun join_colons :: "string list \<Rightarrow> string" where
  "join_colons [] = []"
| "join_colons [g] = g"
| "join_colons (g # gs) = g @ CHR '':'' # join_colons gs"

lemma span_hex_group:
  assumes "hex_group g" "\<not> IS_HEX (char_at r 0)"
  shows "span_hex4 (g @ r) = length g"
proof -
  consider a where "g = [a]" | a b where "g = [a, b]" | a b c where "g = [a, b, c]" | a b c d where "g = [a, b, c, d]"
    using assms(1) unfolding hex_group_def
    by (cases g; cases "tl g"; cases "tl (tl g)"; cases "tl (tl (tl g))"; cases "tl (tl (tl (tl g)))") auto
  then show ?thesis
    using assms by cases (auto simp: hex_group_def span_hex4_def numeral_2_eq_2 numeral_3_eq_3)
qed

lemma join_colons_hd: "list_all hex_group gs \<Longrightarrow> gs \<noteq> [] \<Longrightarrow> IS_HEX (char_at (join_colons gs @ r) 0)"
proof (cases gs rule: join_colons.cases)
  case (2 g)
  assume "list_all hex_group gs"
  then show ?thesis using 2 by (cases g) (auto simp: hex_group_def)
next
  case (3 g g' gs')
  assume "list_all hex_group gs"
  then show ?thesis using 3 by (cases g) (auto simp: hex_group_def)
qed auto

lemma ip6_loop_groups:
  "drop n host = join_colons gs @ r \<Longrightarrow> gs \<noteq> [] \<Longrightarrow> list_all hex_group gs \<Longrightarrow> hex4 + length gs = 8 \<Longrightarrow>
   \<not> IS_HEX (char_at r 0) \<Longrightarrow> char_at r 0 \<noteq> CHR '':'' \<Longrightarrow> char_at r 0 \<noteq> CHR ''.'' \<Longrightarrow>
   fst (ip6_loop host False n hex4 0 c p) = n + length (join_colons gs)"
proof (induction gs arbitrary: n hex4 c p)
  case (Cons g gs)
  have g: "hex_group g" "g \<noteq> []" "hex4 < 8" using Cons.prems by (auto simp: hex_group_def)
  show ?case
  proof (cases "gs = []")
    case True
    then have d: "drop n host = g @ r" using Cons.prems by simp
    then have span: "span_hex4 (drop n host) = length g" using span_hex_group [OF g(1)] Cons.prems by simp
    have "char_at host (n + length g) = char_at r 0"
      using d by (metis char_at_drop char_at_append(1))
    then show ?thesis
      using g span True Cons.prems by (subst ip6_loop.simps) (simp add: Let_def ip6_end_fst)
  next
    case False
    then have d: "drop n host = g @ CHR '':'' # join_colons gs @ r" using Cons.prems by (cases gs) auto
    then have span: "span_hex4 (drop n host) = length g" using span_hex_group [OF g(1), of "CHR '':'' # join_colons gs @ r"] by simp
    have rest: "drop (n + length g + 1) host = join_colons gs @ r" by (rule drop_piece [OF d])
    have "IS_HEX (char_at (drop (n + length g + 1) host) 0)"
      unfolding rest using join_colons_hd [of gs r] Cons.prems False by simp
    moreover have "char_at (drop n host) (length g) = CHR '':''" unfolding d by simp
    ultimately have chars: "char_at host (n + length g) = CHR '':''" "IS_HEX (char_at host (n + length g + 1))"
      by simp_all
    then have "char_at host (n + length g + 1) \<noteq> CHR '':''" by auto
    moreover have "fst (ip6_loop host False (n + length g + 1) (hex4 + 1) 0 c p) = n + length g + 1 + length (join_colons gs)"
      using rest Cons.prems False by (intro Cons.IH) auto
    ultimately show ?thesis
      using g span chars False by (subst ip6_loop.simps) (cases gs; simp add: Let_def)
  qed
qed simp

end
