(* ===== verification/Sip_Host_Props.thy ===== *)
theory Sip_Host_Props
  imports Sip_Host_Laws
begin

text \<open>
  Properties of the host scanner and of the host comparison, with their witnesses.
\<close>

section \<open>IPv4\<close>

text \<open>(C38) A text is accepted as an IPv4 address exactly if it is four octets of one to three decimal digits, each at
  most 255, separated by dots.\<close>

theorem ip4_address_exact:
  assumes "c_string s"
  shows "host_is_ip4_address (Some s) \<longleftrightarrow> (\<exists>a b c d. octet a \<and> octet b \<and> octet c \<and> octet d \<and> s = dotted a b c d)"
proof
  assume "host_is_ip4_address (Some s)"
  then have n: "fst (span_canonic_ip4_address s) \<noteq> 0" "char_at s (fst (span_canonic_ip4_address s)) = CHR 0x00"
    by (auto simp: host_is_ip4_address_def whole_def span_ip4_address_def Let_def)
  obtain a b c d r where s: "s = dotted a b c d @ r" "fst (span_canonic_ip4_address s) = length (dotted a b c d)"
    and o4: "octet a" "octet b" "octet c" "octet d" using span_dotted_only [OF refl n(1)] by blast
  then have "char_at r 0 = CHR 0x00" using n(2) by simp
  then have "r = []" using assms s by (cases r) auto
  then show "\<exists>a b c d. octet a \<and> octet b \<and> octet c \<and> octet d \<and> s = dotted a b c d" using s o4 by auto
next
  assume "\<exists>a b c d. octet a \<and> octet b \<and> octet c \<and> octet d \<and> s = dotted a b c d"
  then obtain a b c d where o4: "octet a" "octet b" "octet c" "octet d" "s = dotted a b c d" by blast
  then show "host_is_ip4_address (Some s)"
    using span_dotted [OF o4(1-4), of "[]"] char_at_append(1) [of "dotted a b c d" "[]"]
    by (auto simp: host_is_ip4_address_def whole_def span_ip4_address_def dotted_def Let_def)
qed

theorem ip4_address_exact_witness:
  "host_is_ip4_address (Some ''192.168.001.7'')
     \<longleftrightarrow> (\<exists>a b c d. octet a \<and> octet b \<and> octet c \<and> octet d \<and> ''192.168.001.7'' = dotted a b c d)"
  using ip4_address_exact [of "''192.168.001.7''"] by simp

text \<open>(C37) Scanning an IPv4 address removes the leading zeros of its octets: the text left in place is the canonical
  one, every octet of which has the same value; a canonical address, and what follows it, is left alone.\<close>

theorem scan_ip4_canonizes:
  assumes "octet a" "octet b" "octet c" "octet d" "\<not> IS_DIGIT (char_at r 0)" "char_at r 0 \<noteq> CHR ''.''"
  shows "scan_ip4_address (Some (dotted a b c d @ r)) = Some (length (dotted a b c d),
      if [strip0 a, strip0 b, strip0 c, strip0 d] = [a, b, c, d] then dotted a b c d @ r
      else dotted (strip0 a) (strip0 b) (strip0 c) (strip0 d))"
proof -
  have "list_ex (\<lambda>o'. length o' > 1 \<and> hd o' = CHR ''0'') [a, b, c, d] \<longleftrightarrow> [strip0 a, strip0 b, strip0 c, strip0 d] \<noteq> [a, b, c, d]"
    using strip0_same [of a] strip0_same [of b] strip0_same [of c] strip0_same [of d] by auto
  moreover have "length (dotted a b c d) \<noteq> 0" by (simp add: dotted_def)
  ultimately show ?thesis
    unfolding scan_ip4_address_def using span_dotted [OF assms] canon_dotted [OF assms] by simp
qed

theorem scan_ip4_canonizes_witness:
  "scan_ip4_address (Some (dotted ''127'' ''000'' ''000'' ''001'' @ '':5060'')) = Some (15, ''127.0.0.1'')"
  using scan_ip4_canonizes [of "''127''" "''000''" "''000''" "''001''" "'':5060''"]
  by (simp add: octet_def dec_value_def byte_def IS_DIGIT_def dotted_def)

section \<open>Domain names\<close>

text \<open>(C39) The names that \<open>host_is_domain\<close> accepts are those of the grammar in its comment: labels of letters, digits
  and inner hyphens, the last of them starting with a letter, with an optional dot at the end.\<close>

theorem domain_grammar:
  assumes "c_string s"
  shows "host_is_domain (Some s) \<longleftrightarrow> (\<exists>ls. hostname s ls)"
proof
  assume "host_is_domain (Some s)"
  then obtain m j where m: "domain_labels_loop s 0 0 = (m, j)" "m \<noteq> 0" "char_at s m = CHR 0x00"
    by (auto simp: host_is_domain_def whole_def span_domain_def span_domain_labels_def Let_def split: if_splits)
      (metis prod.collapse)
  obtain h r ls where h: "s = h @ r" "hostname h ls" "m = length h"
    using hostname_of_loop [OF m(1,2)] by auto
  then have "char_at r 0 = CHR 0x00" using m(3) by simp
  then have "r = []" using assms h by (cases r) auto
  then show "\<exists>ls. hostname s ls" using h by auto
next
  assume "\<exists>ls. hostname s ls"
  then obtain ls where ls: "hostname s ls" by blast
  then obtain dot where dot: "s = join_dots ls @ dot @ []" "dot = [] \<or> dot = ''.''" by (auto simp: hostname_def)
  have "domain_labels_loop s 0 0 = (length s, length ls)"
    using loop_hostname [of 0 s ls dot "[]" 0] ls dot by (simp add: hostname_def)
  moreover have "s \<noteq> []" using ls join_dots_hd [of ls dot] dot by (auto simp: hostname_def)
  ultimately show "host_is_domain (Some s)"
    by (simp add: host_is_domain_def whole_def span_domain_def span_domain_labels_def char_at_def)
qed

theorem domain_grammar_witness: "host_is_domain (Some ''sip-1.example.com.'') \<longleftrightarrow> (\<exists>ls. hostname ''sip-1.example.com.'' ls)"
  using domain_grammar [of "''sip-1.example.com.''"] by simp

section \<open>IPv6\<close>

text \<open> An IPv6 address ends within the text and has no other characters than hexadecimal digits, colons and
  dots, so that no text can be smuggled past the scanner inside an address.\<close>

theorem ip6_address_chars:
  "span_ip6_address (Some s) \<le> length s \<and> list_all ip6_char (take (span_ip6_address (Some s)) s)"
proof -
  let ?n = "span_ip6_address (Some s)"
  have both: "?n \<le> length s \<and> (\<forall>i<?n. ip6_char (char_at s i))"
    using ip6_loop_chars [of 0 s False 0 0 False "replicate 9 None"]
    by (simp add: span_ip6_address_def span_canonic_ip6_address_def Let_def)
  then show ?thesis by (auto simp: list_all_length char_at_def)
qed

text \<open>Eight groups of one to four hexadecimal digits are an address, whatever other text follows.\<close>

theorem ip6_eight_groups:
  assumes "length gs = 8" "list_all hex_group gs"
    "\<not> IS_HEX (char_at r 0)" "char_at r 0 \<noteq> CHR '':''" "char_at r 0 \<noteq> CHR ''.''"
  shows "span_ip6_address (Some (join_colons gs @ r)) = length (join_colons gs)"
  using ip6_loop_groups [of 0 "join_colons gs @ r" gs r 0 False "replicate 9 None"] assms
  by (cases gs) (auto simp: span_ip6_address_def span_canonic_ip6_address_def)

theorem ip6_eight_groups_witness:
  "span_ip6_address (Some (join_colons [''2001'', ''db8'', ''1'', ''2'', ''3'', ''4'', ''5'', ''6''] @ ''/64'')) = 20"
  using ip6_eight_groups [of "[''2001'', ''db8'', ''1'', ''2'', ''3'', ''4'', ''5'', ''6'']" "''/64''"]
  by (simp add: hex_group_def IS_HEX_def)

text \<open>
  The canonization goes wrong in three ways. If no group is zero, no run of zeros is found, and the double colon
  is written over the first group: the scanner turns the address into another one. If a zero group stands before
  a double colon for one group, the canonical text is longer than the text it replaces, and the assertion
  fails. If the IPv4 part has a leading zero, the canonical text has a NUL in the middle, and the bracket that
  closes a reference is lost.
\<close>

theorem scan_ip6_changes_address:
  "scan_ip6_address ''2001:db8:1:2:3:4:5:6'' = Inr (Some (20, ''::db8:1:2:3:4:5:6''))"
  by code_simp

theorem scan_ip6_aborts: "scan_ip6_address ''0:1::2:3:4:5:6'' = Inl Assert_failed"
  by code_simp

theorem scan_ip6_reference_loses_bracket:
  "scan_ip6_reference (Some ''[::1.02.3.4]:5060'') = Inr (Some (12, ''[::1.2.3.4''))"
  by code_simp

text \<open>A colon too many at the end is accepted, after a complete address too.\<close>

theorem ip6_trailing_colon:
  "host_is_ip6_address (Some ''::1:'')" "host_is_ip6_address (Some ''1:2:3:4:5:6:7:8:'')"
  "host_is_ip6_address (Some ''1:2:3:4:5:6:7:8::'')"
  by code_simp+

section \<open>Local and invalid names\<close>

text \<open>Among the domain names, the local ones are these four, cases ignored.\<close>

lemma casenmatch_plain:
  "c_string a \<Longrightarrow> c_string b \<Longrightarrow> su_casenmatch False (Some a) (Some b) n \<longleftrightarrow> take n (folded a) = take n (folded b)"
  using casenmatch_folded by (auto simp: su_casenmatch_def folded_def take_map)

lemma span_whole: "c_string s \<Longrightarrow> whole span (Some s) \<Longrightarrow> span (Some s) \<ge> length s"
  by (auto simp: whole_def Let_def char_at_def split: if_splits) (metis nth_mem not_less)

lemma span_domain_le: "span_domain (Some s) \<le> length s"
proof (cases "domain_labels_loop s 0 0")
  case (Pair m j)
  then show ?thesis
    using hostname_of_loop [of s 0 0 m j] by (cases "m = 0") (auto simp: span_domain_def span_domain_labels_def)
qed

theorem local_names:
  assumes "c_string s" "host_is_domain (Some s)"
    "\<not> host_is_ip6_reference (Some s)" "\<not> host_is_ip6_address (Some s)" "\<not> host_is_ip4_address (Some s)"
  shows "host_is_local s
     \<longleftrightarrow> folded s \<in> folded ` {''localhost'', ''localhost.'', ''localhost.localdomain'', ''localhost.localdomain.''}"
proof -
  let ?F = "folded s" and ?L = "folded ''localhost''" and ?D = "folded ''.localdomain.''" and ?n = "length s"
  have "span_domain (Some s) = ?n"
    using span_whole [of s span_domain] assms(1,2) span_domain_le [of s] by (simp add: host_is_domain_def)
  moreover have "folded (drop 9 s) = drop 9 ?F" by (simp add: folded_def drop_map)
  moreover have "c_string (drop 9 s)" using assms(1) by (auto dest: in_set_dropD)
  ultimately have loc: "host_is_local s \<longleftrightarrow> ?n \<ge> 9 \<and> take 9 ?F = take 9 ?L
      \<and> (?n = 9 \<or> (?n = 10 \<or> ?n = 21 \<or> ?n = 22) \<and> take (?n - 9) (drop 9 ?F) = take (?n - 9) ?D)"
    using assms by (simp add: host_is_local_def casenmatch_plain Let_def)
  have L: "take 9 ?L = ?L" "length ?L = 9" by simp_all
  have "host_is_local s \<longleftrightarrow> (\<exists>k \<in> {0, 1, 12, 13}. ?F = ?L @ take k ?D)"
  proof
    assume "host_is_local s"
    then have h: "?n \<ge> 9" "take 9 ?F = ?L" "?n = 9 \<or> (?n = 10 \<or> ?n = 21 \<or> ?n = 22) \<and> take (?n - 9) (drop 9 ?F) = take (?n - 9) ?D"
      unfolding loc L by auto
    have "?F = take 9 ?F @ drop 9 ?F" by simp
    moreover have "drop 9 ?F = take (?n - 9) ?D" using h(3) by auto
    moreover have "?n - 9 \<in> {0, 1, 12, 13}" using h(3) by auto
    ultimately show "\<exists>k \<in> {0, 1, 12, 13}. ?F = ?L @ take k ?D" using h(2) by metis
  next
    assume "\<exists>k \<in> {0, 1, 12, 13}. ?F = ?L @ take k ?D"
    then obtain k where k: "k \<in> {0, 1, 12, 13}" "?F = ?L @ take k ?D" by blast
    have "?n = length ?F" by simp
    then have "?n = 9 + k" unfolding k(2) using k(1) by auto
    then show "host_is_local s" unfolding loc k(2) using k(1) L by auto
  qed
  also have "\<dots> \<longleftrightarrow> ?F \<in> folded ` {''localhost'', ''localhost.'', ''localhost.localdomain'', ''localhost.localdomain.''}"
    by simp
  finally show ?thesis .
qed

theorem local_names_witness: "host_is_local ''LocalHost.localdomain''"
proof -
  have "host_is_domain (Some ''LocalHost.localdomain'')" "\<not> host_is_ip6_reference (Some ''LocalHost.localdomain'')"
    "\<not> host_is_ip6_address (Some ''LocalHost.localdomain'')" "\<not> host_is_ip4_address (Some ''LocalHost.localdomain'')"
    by code_simp+
  from local_names [OF _ this] show ?thesis by (simp add: byte_def lower_def)
qed

text \<open>A name of six characters and a dot is compared from before its beginning.\<close>

theorem short_name_reads_before_start: "host_has_domain_invalid (Some ''abcdef.'') = Inl Out_of_bounds"
  by code_simp

theorem invalid_names:
  "host_has_domain_invalid (Some ''INVALID'') = Inr True"
  "host_has_domain_invalid (Some ''host.invalid.'') = Inr True"
  "host_has_domain_invalid (Some ''hostinvalid'') = Inr False"
  by code_simp+

section \<open>Comparison of hosts\<close>

lemma memcmp_swap: "memcmp b a = - memcmp a b"
  by (induction a b rule: memcmp.induct) auto

lemma memcmp_sgn: "sgn (memcmp b a) = - sgn (memcmp a b)"
  by (subst memcmp_swap) simp

lemma strcasecmp_swap:
  assumes "c_string a" "c_string b"
  shows "sgn (strcasecmp_loop b a) = - sgn (strcasecmp_loop a b)"
proof -
  note ab = strcasecmp_sign [OF assms] and ba = strcasecmp_sign [OF assms(2,1)]
  consider "ord_class.lexordp (folded a) (folded b)" | "folded a = folded b" | "ord_class.lexordp (folded b) (folded a)"
    using lexordp_linear [of "folded a" "folded b"] by blast
  then show ?thesis
  proof cases
    case 1
    then have "\<not> ord_class.lexordp (folded b) (folded a)" "folded a \<noteq> folded b"
      using lexordp_antisym [of "folded a" "folded b"] lexordp_irreflexive' by auto
    then have "strcasecmp_loop a b < 0" "strcasecmp_loop b a > 0" using 1 ab ba by (auto simp: not_less le_less)
    then show ?thesis by simp
  next
    case 2
    then show ?thesis using ab ba by simp
  next
    case 3
    then have "\<not> ord_class.lexordp (folded a) (folded b)" "folded a \<noteq> folded b"
      using lexordp_antisym [of "folded a" "folded b"] lexordp_irreflexive' by auto
    then have "strcasecmp_loop b a < 0" "strcasecmp_loop a b > 0" using 3 ab ba by (auto simp: not_less le_less)
    then show ?thesis by simp
  qed
qed

text \<open>(C40) Swapping the hosts swaps the sign of the comparison, whatever mix of addresses and names is compared,
  and a host compares equal to itself. The value itself is not negated: for names it is the difference of the
  first characters that differ, in lower case only if both are there.\<close>

theorem host_cmp_swap:
  assumes "pred_option c_string a" "pred_option c_string b" "host_cmp pton4 pton6 a b = Inr r"
  shows "(\<exists>r'. host_cmp pton4 pton6 b a = Inr r' \<and> sgn r' = - sgn r) \<and> (a = b \<longrightarrow> r = 0)"
proof (cases "a = None \<or> b = None")
  case True
  then show ?thesis using assms(3) by (auto simp: host_cmp_def split: option.splits)
next
  case False
  then obtain a' b' where ab: "a = Some a'" "b = Some b'" by auto
  obtain ca cb where c: "convert_ip_address pton4 pton6 a' = Inr ca" "convert_ip_address pton4 pton6 b' = Inr cb"
    using assms(3) ab by (auto simp: host_cmp_def andthen_eq_Inr)
  have str: "sgn (su_strcasecmp b a) = - sgn (su_strcasecmp a b)"
    using strcasecmp_swap [of a' b'] assms ab by (simp add: su_strcasecmp_def or_empty_def)
  have "\<exists>r'. host_cmp pton4 pton6 b a = Inr r' \<and> sgn r' = - sgn r"
    using assms(3) ab c str memcmp_sgn [of "snd (the cb)" "snd (the ca)"]
    by (cases ca; cases cb) (auto simp: host_cmp_def split: if_splits prod.splits)
  moreover have "sgn r = - sgn r" if "a = b"
    using calculation assms(3) that by auto
  ultimately show ?thesis by (auto simp: sgn_if split: if_splits)
qed

definition demo_pton4 :: "string \<Rightarrow> nat list option" where
  "demo_pton4 s = (if s = ''9.0.0.1'' then Some [9, 0, 0, 1] else if s = ''10.0.0.1'' then Some [10, 0, 0, 1] else None)"

definition demo_pton6 :: "string \<Rightarrow> nat list option" where
  "demo_pton6 s = (if s = ''::ffff:10.0.0.1'' then Some (replicate 10 0 @ [255, 255, 10, 0, 0, 1]) else None)"

lemma demo_hosts:
  "convert_ip_address demo_pton4 demo_pton6 ''9.0.0.1'' = Inr (Some (7, [9, 0, 0, 1]))"
  "convert_ip_address demo_pton4 demo_pton6 ''10.0.0.1'' = Inr (Some (8, [10, 0, 0, 1]))"
  "convert_ip_address demo_pton4 demo_pton6 ''010.000.0.01'' = Inr (Some (12, [10, 0, 0, 1]))"
  "convert_ip_address demo_pton4 demo_pton6 ''[::ffff:10.0.0.1]'' = Inr (Some (15, [10, 0, 0, 1]))"
  "convert_ip_address demo_pton4 demo_pton6 ''5a'' = Inr None"
  "convert_ip_address demo_pton4 demo_pton6 ''a'' = Inr None"
  "convert_ip_address demo_pton4 demo_pton6 ''aB'' = Inr None"
  by code_simp+

theorem host_cmp_swap_witness:
  "host_cmp demo_pton4 demo_pton6 (Some ''[::ffff:10.0.0.1]'') (Some ''9.0.0.1'') = Inr 1
   \<and> (\<exists>r. host_cmp demo_pton4 demo_pton6 (Some ''9.0.0.1'') (Some ''[::ffff:10.0.0.1]'') = Inr r \<and> r < 0)"
proof -
  have r: "host_cmp demo_pton4 demo_pton6 (Some ''[::ffff:10.0.0.1]'') (Some ''9.0.0.1'') = Inr 1"
    by (simp add: host_cmp_def demo_hosts)
  show ?thesis using r host_cmp_swap [OF _ _ r] by (auto simp: sgn_if split: if_splits)
qed

text \<open>The comment on \<open>host_cmp\<close> promises -1, 0 or 1, but the values of the comparison of texts come through.\<close>

theorem host_cmp_values:
  assumes "convert_ip_address pton4 pton6 ''a'' = Inr None" "convert_ip_address pton4 pton6 ''aB'' = Inr None"
  shows "host_cmp pton4 pton6 (Some ''a'') (Some ''aB'') = Inr (-66)"
    and "host_cmp pton4 pton6 (Some ''aB'') (Some ''a'') = Inr 98"
  using assms by (simp_all add: host_cmp_def su_strcasecmp_def or_empty_def byte_def lower_def Let_def)

theorem host_cmp_values_witness:
  "host_cmp demo_pton4 demo_pton6 (Some ''a'') (Some ''aB'') = Inr (-66)"
  by (rule host_cmp_values(1)) (simp_all add: demo_hosts)

text \<open>The same address compares equal in all its texts.\<close>

theorem host_cmp_same_address:
  "host_cmp demo_pton4 demo_pton6 (Some ''[::ffff:10.0.0.1]'') (Some ''010.000.0.01'') = Inr 0"
  by (simp add: host_cmp_def demo_hosts)

text \<open>But the comparison is not an order on hosts: addresses are compared by their bytes, everything else by its text.\<close>

theorem host_cmp_not_transitive:
  assumes "convert_ip_address pton4 pton6 ''9.0.0.1'' = Inr (Some (7, [9, 0, 0, 1]))"
    "convert_ip_address pton4 pton6 ''10.0.0.1'' = Inr (Some (8, [10, 0, 0, 1]))"
    "convert_ip_address pton4 pton6 ''5a'' = Inr None"
  shows "host_cmp pton4 pton6 (Some ''10.0.0.1'') (Some ''5a'') = Inr (-4)
       \<and> host_cmp pton4 pton6 (Some ''5a'') (Some ''9.0.0.1'') = Inr (-4)
       \<and> host_cmp pton4 pton6 (Some ''10.0.0.1'') (Some ''9.0.0.1'') = Inr 1"
  using assms by (simp add: host_cmp_def su_strcasecmp_def or_empty_def byte_def lower_def Let_def)

theorem host_cmp_not_transitive_witness:
  "host_cmp demo_pton4 demo_pton6 (Some ''10.0.0.1'') (Some ''5a'') = Inr (-4)
   \<and> host_cmp demo_pton4 demo_pton6 (Some ''5a'') (Some ''9.0.0.1'') = Inr (-4)
   \<and> host_cmp demo_pton4 demo_pton6 (Some ''10.0.0.1'') (Some ''9.0.0.1'') = Inr 1"
  by (rule host_cmp_not_transitive) (simp_all add: demo_hosts)

text \<open>The longest reference the span accepts is one character longer than the buffer of the conversion allows.\<close>

theorem long_reference_aborts:
  "host_cmp pton4 pton6 (Some ''[ffff:ffff:ffff:ffff:ffff:ffff::255.255.255.255]'') (Some b) = Inl Assert_failed"
proof -
  have "span_ip6_reference (Some ''[ffff:ffff:ffff:ffff:ffff:ffff::255.255.255.255]'') = 48" by code_simp
  then show ?thesis by (simp add: host_cmp_def convert_ip_address_def)
qed

end
