(* ===== verification/Sip_Url_Edit.thy ===== *)
theory Sip_Url_Edit
  imports Sip_Host
begin

text \<open>
  The parameters of a URL (\<open>url/url.c\<close>): finding (\<open>url_param\<close>), adding (\<open>url_param_add\<close>) and removing them
  (\<open>url_strip_param_string\<close>, \<open>url_strip_transport\<close>), and copying a URL (\<open>url_xtra\<close>, \<open>url_dup\<close>,
  \<open>url_hdup\<close>, \<open>url_make\<close>).

  A loop that moves a pointer through the text is a recursion over the text from the pointer on; a step past
  the terminating NUL is the crash \<open>Out_of_bounds\<close>.
  A \<open>Us_str\<close> is not empty: the source tells a text from a structure by its first byte.
\<close>

section \<open>Finding a parameter\<close>

text \<open>The loop of \<open>url_param\<close>: the result and the text copied to \<open>value\<close>, if any is.\<close>

function url_param_loop :: "string \<Rightarrow> nat \<Rightarrow> nat \<Rightarrow> string \<Rightarrow> (nat \<times> string option) res" where
  "url_param_loop tag tlen vlen p =
     (if p = [] then Inr (0, None)
      else
        (let n = strcspn p '';'' in
         if n < tlen then
           (if char_at p n \<noteq> CHR 0x00 then url_param_loop tag tlen vlen (drop (n + 1) p) else Inr (0, None))
         else if strncasecmp_eq p tag tlen then
           (if n = tlen then Inr (1, if vlen > 0 then Some [] else None)
            else if char_at p tlen \<noteq> CHR ''='' then
              (if n + 1 > length p then Inl Out_of_bounds else url_param_loop tag tlen vlen (drop (n + 1) p))
            else
              (let flen = n - tlen - 1 in
               if flen \<ge> vlen then Inr (flen + 1, None) else Inr (flen + 1, Some (take flen (drop (tlen + 1) p)))))
         else if char_at p n = CHR 0x00 then Inr (0, None)
         else url_param_loop tag tlen vlen (drop (n + 1) p)))"
  by pat_completeness auto
termination by (relation "measure (\<lambda>(tag, tlen, vlen, p). length p)") auto

declare url_param_loop.simps [simp del]

definition url_param :: "string option \<Rightarrow> string \<Rightarrow> nat \<Rightarrow> (nat \<times> string option) res" where
  "url_param params tag vlen =
     (case params of
        None \<Rightarrow> Inr (0, None)
      | Some p \<Rightarrow>
          (let tlen = (if tag \<noteq> [] \<and> last tag = CHR ''='' then length tag - 1 else length tag) in
           url_param_loop tag tlen vlen p))"

definition url_have_param :: "string option \<Rightarrow> string \<Rightarrow> nat res" where
  "url_have_param params tag = andthen (url_param params tag 0) (\<lambda>(n, _). Inr n)"

definition url_has_param :: "url_t option \<Rightarrow> string \<Rightarrow> bool res" where
  "url_has_param url tag =
     (case url of
        None \<Rightarrow> Inr False
      | Some u \<Rightarrow>
          (case url_params u of
             None \<Rightarrow> Inr False
           | Some p \<Rightarrow> andthen (url_param (Some p) tag 0) (\<lambda>(n, _). Inr (n \<noteq> 0))))"

text \<open>\<open>s\<close> is the memory \<open>su_alloc\<close> gives, or \<open>None\<close>.\<close>

definition url_param_add :: "bool \<Rightarrow> url_t \<Rightarrow> string \<Rightarrow> int \<times> url_t" where
  "url_param_add allocated url param =
     (if \<not> allocated then (-1, url)
      else (0, url\<lparr>url_params := Some ((case url_params url of None \<Rightarrow> [] | Some p \<Rightarrow> p @ '';'') @ param)\<rparr>))"

section \<open>Removing a parameter\<close>

text \<open>
  The loop of \<open>url_strip_param_string\<close> on the text at \<open>params\<close>, which moves or is moved over, and the index \<open>i\<close>;
  the result is the text that is left. It returns if the loop ends.
\<close>

partial_function (option) strip_param_loop :: "string \<Rightarrow> nat \<Rightarrow> string \<Rightarrow> nat \<Rightarrow> string option" where
  "strip_param_loop name n params i =
     (if char_at params i = CHR 0x00 then Some params
      else if \<not> strncasecmp_eq (drop i params) name n
           \<or> (char_at params (i + n) \<noteq> CHR ''='' \<and> char_at params (i + n) \<noteq> CHR '';'' \<and> char_at params (i + n) \<noteq> CHR 0x00) then
        (let i = i + strcspn (drop i params) '';'' in
         if char_at params i = CHR 0x00 then Some params else strip_param_loop name n params (i + 1))
      else
        (let remove = n + strcspn (drop (i + n) params) '';'';
             remove = (if char_at params (i + remove) = CHR '';'' then remove + 1 else remove) in
         if i = 0 then strip_param_loop name n (drop remove params) i
         else if length params - (i + remove) = 0 then Some (take (i - 1) params)
         else strip_param_loop name n (take i params @ drop (i + remove) params) i))"

declare strip_param_loop.simps [code]

text \<open>The outer option is whether the function returns, the inner one is its result.\<close>

definition url_strip_param_string :: "string option \<Rightarrow> string option \<Rightarrow> string option option" where
  "url_strip_param_string params name =
     (case (params, name) of
        (Some p, Some nm) \<Rightarrow>
          map_option (\<lambda>t. if t = [] then None else Some t) (strip_param_loop nm (length nm) p 0)
      | _ \<Rightarrow> Some params)"

text \<open>\<open>URL_PARAM_MATCH\<close> on the text from \<open>p\<close> on.\<close>

definition URL_PARAM_MATCH :: "string \<Rightarrow> string \<Rightarrow> bool" where
  "URL_PARAM_MATCH p tag \<longleftrightarrow> strncasecmp_eq p tag (length tag) \<and> char_at p (length tag) \<in> {CHR 0x00, CHR '';'', CHR ''=''}"

definition transport_tags :: "string list" where
  "transport_tags = [''method'', ''maddr'', ''ttl'', ''transport'']"

text \<open>\<open>memmove\<close> of \<open>k\<close> bytes from \<open>src\<close> to \<open>dst\<close> in the same memory.\<close>

definition memmove :: "string \<Rightarrow> nat \<Rightarrow> nat \<Rightarrow> nat \<Rightarrow> string" where
  "memmove buf dst src k = map (\<lambda>j. if dst \<le> j \<and> j < dst + k then buf ! (src + (j - dst)) else buf ! j) [0..<length buf]"

lemma length_memmove [simp]: "length (memmove buf dst src k) = length buf"
  by (simp add: memmove_def)

lemma length_if_memmove: "length (if c then memmove buf dst src k else buf) = length buf"
  by simp

lemma c_str_head: "c_str s = c # t \<Longrightarrow> c \<noteq> CHR 0x00"
  by (cases s) (auto simp: c_str_def split: if_splits)

lemma strip_step: "s = c_str (drop p buf) \<Longrightarrow> s \<noteq> [] \<Longrightarrow> n = strcspn s '';'' \<Longrightarrow>
   semi = (if char_at s n \<noteq> CHR 0x00 then 1 else 0) \<Longrightarrow> length buf - (p + n + semi) < length buf - p"
proof -
  assume s: "s = c_str (drop p buf)" "s \<noteq> []" and n: "n = strcspn s '';''" and semi: "semi = (if char_at s n \<noteq> CHR 0x00 then 1 else 0)"
  obtain c t where ct: "s = c # t" using s(2) by (cases s) auto
  have "c \<noteq> CHR 0x00" using c_str_head s(1) ct by metis
  then have "n + semi \<noteq> 0" using n semi ct by (cases "c = CHR '';''") (auto simp: strcspn_def char_at_def)
  moreover have "drop p buf \<noteq> []" using s by (auto simp: c_str_def)
  ultimately show ?thesis by auto
qed

text \<open>
  The loop of \<open>url_strip_transport2\<close> on the memory of the parameters, its NUL included, with the positions of
  \<open>p\<close> and \<open>d\<close>. The result is \<open>None\<close> if the search finds something to strip and may not modify it.
\<close>

function strip_transport_loop :: "bool \<Rightarrow> string \<Rightarrow> nat \<Rightarrow> nat \<Rightarrow> (string \<times> nat \<times> nat) option" where
  "strip_transport_loop modify buf p d =
     (let s = c_str (drop p buf) in
      if s = [] then Some (buf, p, d)
      else
        (let n = strcspn s '';''; semi = (if char_at s n \<noteq> CHR 0x00 then 1 else 0) in
         if (modify \<and> n = 0) \<or> list_ex (URL_PARAM_MATCH s) transport_tags then
           strip_transport_loop modify buf (p + n + semi) d
         else
           (let d' = (if p \<noteq> d \<and> d \<noteq> 0 then d + 1 else d) in
            if p \<noteq> d' \<and> \<not> modify then None
            else strip_transport_loop modify
                   (if p \<noteq> d' then memmove buf d' p (n + 1) else buf) (p + n + semi) (d' + n))))"
  by pat_completeness auto
termination
proof (relation "measure (\<lambda>(modify, buf, p, d). length buf - p)", goal_cases)
  case (2 modify buf p d s n semi)
  show ?case using strip_step [OF 2(1-4)] by (simp only: in_measure prod.case)
next
  case (3 modify buf p d s n semi d')
  show ?case using strip_step [OF 3(1-4)] by (simp only: in_measure prod.case length_if_memmove)
qed simp

declare strip_transport_loop.simps [simp del]

definition url_strip_transport2 :: "url_t \<Rightarrow> bool \<Rightarrow> bool \<times> url_t" where
  "url_strip_transport2 url modify =
     (if url_type url \<noteq> url_sip \<and> url_type url \<noteq> url_sips then (False, url)
      else if url_port url \<noteq> None \<and> \<not> modify then (True, url)
      else
        (let url = (if url_port url \<noteq> None then url\<lparr>url_port := None\<rparr> else url) in
         case url_params url of
           None \<Rightarrow> (False, url)
         | Some params \<Rightarrow>
             (case strip_transport_loop modify (params @ [CHR 0x00]) 0 0 of
                None \<Rightarrow> (True, url)
              | Some (buf, p, d) \<Rightarrow>
                  if d = p \<or> d + 1 = p then (False, url\<lparr>url_params := Some (c_str buf)\<rparr>)
                  else if \<not> modify then (True, url)
                  else if d \<noteq> 0 then (True, url\<lparr>url_params := Some (c_str (buf[d := CHR 0x00]))\<rparr>)
                  else (True, url\<lparr>url_params := None\<rparr>))))"

definition url_strip_transport :: "url_t \<Rightarrow> bool \<times> url_t" where
  "url_strip_transport url = url_strip_transport2 url True"

definition url_have_transport :: "url_t \<Rightarrow> bool" where
  "url_have_transport url = fst (url_strip_transport2 url False)"

section \<open>Copying a URL\<close>

definition url_string_p :: "url_string_t option \<Rightarrow> bool" where
  "url_string_p url = (case url of Some (Us_str s) \<Rightarrow> s \<noteq> [] | _ \<Rightarrow> False)"

text \<open>The text fields of the structure, in its order.\<close>

definition url_fields :: "url_t \<Rightarrow> string option list" where
  "url_fields u = [url_scheme u, url_user u, url_password u, url_host u, url_port u, url_path u,
     url_params u, url_headers u, url_fragment u]"

definition set_fields :: "string option list \<Rightarrow> url_t \<Rightarrow> url_t" where
  "set_fields fs u = u\<lparr>url_scheme := fs ! 0, url_user := fs ! 1, url_password := fs ! 2, url_host := fs ! 3,
     url_port := fs ! 4, url_path := fs ! 5, url_params := fs ! 6, url_headers := fs ! 7, url_fragment := fs ! 8\<rparr>"

definition text_size :: "string option \<Rightarrow> nat" where
  "text_size x = (case x of None \<Rightarrow> 0 | Some t \<Rightarrow> length t + 1)"

definition url_xtra :: "url_string_t \<Rightarrow> nat" where
  "url_xtra url =
     (case url of
        Us_str s \<Rightarrow> length s + 1
      | Us_url u \<Rightarrow>
          (if url_type_code (url_type u) \<le> url_type_code url_unknown then text_size (url_scheme u) else 0)
          + sum_list (map text_size (tl (url_fields u))))"

text \<open>The texts are copied one after the other as long as they fit; \<open>b\<close> is the position in the buffer.\<close>

fun copy_fields :: "nat \<Rightarrow> nat \<Rightarrow> string option list \<Rightarrow> string option list" where
  "copy_fields b bufsize [] = []"
| "copy_fields b bufsize (None # fs) = None # copy_fields b bufsize fs"
| "copy_fields b bufsize (Some t # fs) =
     (if b + (length t + 1) > bufsize then map (\<lambda>_. None) (Some t # fs)
      else Some t # copy_fields (b + (length t + 1)) bufsize fs)"

text \<open>
  \<open>url_dup\<close> with a buffer of \<open>bufsize\<close> bytes (\<open>None\<close> for a null pointer) and with or without a destination; the
  result and the structure at the destination, if it has been written.
\<close>

definition url_dup ::
  "(int \<Rightarrow> 32 word) \<Rightarrow> nat option \<Rightarrow> bool \<Rightarrow> url_string_t option \<Rightarrow> int \<times> url_t option" where
  "url_dup shl buf dst src =
     (let bufsize = (case buf of None \<Rightarrow> 0 | Some n \<Rightarrow> n) in
      case src of
        None \<Rightarrow> if \<not> dst then (-1, None) else (0, Some zero_url)
      | Some (Us_str s) \<Rightarrow>
          if length s + 1 > bufsize \<or> \<not> dst then (int (length s + 1), None)
          else (case url_d shl s of None \<Rightarrow> (-1, None) | Some u \<Rightarrow> (int (length s + 1), Some u))
      | Some (Us_url u) \<Rightarrow>
          (let constant = (if url_type_code (url_type u) > url_type_code url_unknown then url_scheme_of (url_type u) else None);
               fs = (if constant \<noteq> None then tl (url_fields u) else url_fields u);
               copied = (if dst \<and> bufsize \<noteq> 0 then copy_fields 0 bufsize fs else map (\<lambda>_. None) fs) in
           (int (sum_list (map text_size fs)),
            if dst then Some (set_fields (if constant \<noteq> None then constant # copied else copied)
                                (zero_url\<lparr>url_type := url_type u, url_root := url_root u\<rparr>))
            else None)))"

text \<open>\<open>url_hdup\<close> with the success of \<open>su_alloc\<close>; the block has exactly the bytes \<open>url_xtra\<close> asks for.\<close>

definition url_hdup :: "(int \<Rightarrow> 32 word) \<Rightarrow> bool \<Rightarrow> url_string_t option \<Rightarrow> url_t option res" where
  "url_hdup shl allocated src =
     (case src of
        None \<Rightarrow> Inr None
      | Some url \<Rightarrow>
          if \<not> allocated then Inr None
          else
            (let (actual, dst) = url_dup shl (Some (url_xtra url)) True src in
             if actual < 0 then Inr None
             else if int (url_xtra url) \<noteq> actual then Inl Assert_failed
             else Inr dst))"

definition url_make :: "(int \<Rightarrow> 32 word) \<Rightarrow> bool \<Rightarrow> string option \<Rightarrow> url_t option res" where
  "url_make shl allocated str =
     url_hdup shl allocated (case str of None \<Rightarrow> None | Some s \<Rightarrow> if s = [] then None else Some (Us_str s))"

end
