(* ===== verification/Sip_Url_Cmp.thy ===== *)
theory Sip_Url_Cmp
  imports Sip_Url_Edit
begin

text \<open>
  Comparing and hashing URLs (\<open>url/url.c\<close>): \<open>url_cmp\<close>, \<open>url_cmp_all\<close>, \<open>url_tel_cmp_numbers\<close>, the default
  ports and transports, what \<open>url_update\<close> feeds to the MD5 sum, and \<open>url_query_as_header_string\<close>.

  The comparisons return an \<open>int\<close>; where the source returns the result of \<open>strcmp\<close>, \<open>strcasecmp\<close> or
  \<open>memcmp\<close>, of which C defines the sign only, the model returns the sign. The texts of two structures are taken to
  be different objects, so that the shortcut for equal pointers applies to null pointers only. The MD5 sum is the
  text fed to it.
\<close>

section \<open>Defaults\<close>

definition url_port_default :: "url_type_e \<Rightarrow> string" where
  "url_port_default ty =
     (case ty of url_sip \<Rightarrow> ''5060'' | url_sips \<Rightarrow> ''5061'' | url_http \<Rightarrow> ''80'' | url_https \<Rightarrow> ''443''
      | url_ftp \<Rightarrow> ''21'' | url_file \<Rightarrow> ''21'' | url_rtsp \<Rightarrow> ''554'' | url_rtspu \<Rightarrow> ''554'' | url_mailto \<Rightarrow> ''25''
      | url_any \<Rightarrow> ''*'' | url_msrp \<Rightarrow> ''9999'' | url_msrps \<Rightarrow> ''9999'' | _ \<Rightarrow> [])"

definition url_tport_default :: "url_type_e \<Rightarrow> string" where
  "url_tport_default ty =
     (case ty of url_sip \<Rightarrow> ''*'' | url_sips \<Rightarrow> ''tls'' | url_http \<Rightarrow> ''tcp'' | url_https \<Rightarrow> ''tls''
      | url_ftp \<Rightarrow> ''tcp'' | url_file \<Rightarrow> ''tcp'' | url_rtsp \<Rightarrow> ''tcp'' | url_rtspu \<Rightarrow> ''udp'' | url_mailto \<Rightarrow> ''tcp''
      | url_msrp \<Rightarrow> ''tcp'' | url_msrps \<Rightarrow> ''tls'' | _ \<Rightarrow> ''*'')"

definition is_sip :: "url_type_e \<Rightarrow> bool" where
  "is_sip ty \<longleftrightarrow> ty = url_sip \<or> ty = url_sips"

definition url_port_of :: "url_t option \<Rightarrow> string" where
  "url_port_of url =
     (case url of
        None \<Rightarrow> []
      | Some u \<Rightarrow>
          if url_port u \<noteq> None \<and> url_port u \<noteq> Some [] then the (url_port u)
          else if is_sip (url_type u) \<and> \<not> host_is_ip_address (url_host u) then []
          else url_port_default (url_type u))"

section \<open>Comparison\<close>

fun strcmp :: "string \<Rightarrow> string \<Rightarrow> int" where
  "strcmp [] [] = 0"
| "strcmp [] (d # t) = -1"
| "strcmp (c # s) [] = 1"
| "strcmp (c # s) (d # t) = (if c = d then strcmp s t else if byte c < byte d then -1 else 1)"

definition strcasecmp :: "string \<Rightarrow> string \<Rightarrow> int" where
  "strcasecmp a b = sgn (strcasecmp_loop a b)"

text \<open>A comparison that goes on if it finds no difference.\<close>

definition and_then :: "int res \<Rightarrow> int res \<Rightarrow> int res" where
  "and_then m k = andthen m (\<lambda>rv. if rv \<noteq> 0 then Inr rv else k)"

text \<open>
  The next character of a telephone number, without visual separators, and where the pointer is then: \<open>None\<close> if it
  is past the terminating NUL.
\<close>

definition visual_separators :: "int list" where
  "visual_separators = map schar '' -.()''"

function tel_next :: "string \<Rightarrow> int \<times> string option" where
  "tel_next [] = (0, None)"
| "tel_next (c # s) =
     (let (a, s') = (if c = CHR ''%'' \<and> IS_HEX (char_at s 0) \<and> IS_HEX (char_at s 1)
                     then (int (UNHEX (char_at s 0) * 16 + UNHEX (char_at s 1)), drop 2 s) else (schar c, s)) in
      if a \<in> set visual_separators then tel_next s' else (a, Some s'))"
  by pat_completeness auto
termination by (relation "measure length") (auto split: if_splits)

definition tel_lower :: "int \<Rightarrow> int" where
  "tel_lower a = (if 65 \<le> a \<and> a \<le> 90 then a + 32 else a)"

lemma tel_next_shorter: "tel_next s = (a, Some t) \<Longrightarrow> length t < length s"
proof (induction s rule: tel_next.induct)
  case (2 c s)
  define p where "p = (if c = CHR ''%'' \<and> IS_HEX (char_at s 0) \<and> IS_HEX (char_at s 1)
      then (int (UNHEX (char_at s 0) * 16 + UNHEX (char_at s 1)), drop 2 s) else (schar c, s))"
  obtain x s' where p: "p = (x, s')" by fastforce
  have "length s' \<le> length s" using p by (auto simp: p_def split: if_splits)
  moreover have "tel_next (c # s) = (if x \<in> set visual_separators then tel_next s' else (x, Some s'))"
    unfolding tel_next.simps p_def [symmetric] Let_def p prod.case by (rule refl)
  ultimately show ?case
    using 2(1) [OF p_def p [symmetric]] 2(2) by (auto split: if_splits)
qed simp

function url_tel_cmp_numbers :: "string \<Rightarrow> string \<Rightarrow> int res" where
  "url_tel_cmp_numbers A B =
     (if A \<noteq> [] \<and> B \<noteq> [] then
        (let (a, A') = tel_next A; (b, B') = tel_next B; rv = tel_lower a - tel_lower b in
         if rv \<noteq> 0 then Inr rv
         else
           (case (A', B') of
              (Some s, Some t) \<Rightarrow> url_tel_cmp_numbers s t
            | _ \<Rightarrow> Inl Out_of_bounds))
      else Inr (schar (char_at A 0) - schar (char_at B 0)))"
  by pat_completeness auto
termination by (relation "measure (length o fst)") (auto dest: tel_next_shorter [OF sym])

declare url_tel_cmp_numbers.simps [simp del]

definition is_tel :: "url_type_e \<Rightarrow> bool" where
  "is_tel ty \<longleftrightarrow> ty = url_tel \<or> ty = url_modem \<or> ty = url_fax"

definition cmp_scheme :: "url_t \<Rightarrow> url_t \<Rightarrow> int" where
  "cmp_scheme a b =
     (if url_type_code (url_type a) \<le> url_type_code url_unknown then
        (let rv = of_bool (url_scheme a = None) - of_bool (url_scheme b = None) in
         if rv \<noteq> 0 then rv
         else (case (url_scheme a, url_scheme b) of (Some s, Some t) \<Rightarrow> strcasecmp s t | _ \<Rightarrow> 0))
      else 0)"

definition cmp_port :: "url_t \<Rightarrow> url_t \<Rightarrow> int" where
  "cmp_port a b =
     (if url_port a = None \<and> url_port b = None then 0
      else
        (let default = (if \<not> is_sip (url_type a) \<or> host_is_ip_address (url_host a) then url_port_default (url_type a) else []);
             a_port = (case url_port a of None \<Rightarrow> default | Some p \<Rightarrow> p);
             b_port = (case url_port b of None \<Rightarrow> default | Some p \<Rightarrow> p) in
         strcmp a_port b_port))"

text \<open>Two optional texts; a missing one comes first.\<close>

definition cmp_field :: "(string \<Rightarrow> string \<Rightarrow> int res) \<Rightarrow> string option \<Rightarrow> string option \<Rightarrow> int res" where
  "cmp_field cmp x y =
     (case (x, y) of
        (None, None) \<Rightarrow> Inr 0 | (None, Some _) \<Rightarrow> Inr (-1) | (Some _, None) \<Rightarrow> Inr 1 | (Some s, Some t) \<Rightarrow> cmp s t)"

definition cmp_text :: "string option \<Rightarrow> string option \<Rightarrow> int res" where
  "cmp_text = cmp_field (\<lambda>s t. Inr (strcmp s t))"

definition cmp_user :: "url_t \<Rightarrow> url_t \<Rightarrow> int res" where
  "cmp_user a b =
     cmp_field (if is_tel (url_type a) then url_tel_cmp_numbers else (\<lambda>s t. Inr (strcmp s t))) (url_user a) (url_user b)"

definition url_cmp ::
  "(string \<Rightarrow> nat list option) \<Rightarrow> (string \<Rightarrow> nat list option) \<Rightarrow> url_t option \<Rightarrow> url_t option \<Rightarrow> int res" where
  "url_cmp pton4 pton6 a b =
     (if map_option url_type a = Some url_any \<or> map_option url_type b = Some url_any then Inr 0
      else
        (case (a, b) of
           (Some u, Some v) \<Rightarrow>
             (let rv = url_type_code (url_type u) - url_type_code (url_type v) in
              if rv \<noteq> 0 then Inr rv
              else
                and_then (Inr (cmp_scheme u v))
                (and_then (host_cmp pton4 pton6 (url_host u) (url_host v))
                (and_then (Inr (cmp_port u v)) (cmp_user u v))))
         | _ \<Rightarrow> Inr (of_bool (a \<noteq> None) - of_bool (b \<noteq> None))))"

definition url_cmp_all ::
  "(string \<Rightarrow> nat list option) \<Rightarrow> (string \<Rightarrow> nat list option) \<Rightarrow> url_t option \<Rightarrow> url_t option \<Rightarrow> int res" where
  "url_cmp_all pton4 pton6 a b =
     (case (a, b) of
        (Some u, Some v) \<Rightarrow>
          (let rv = url_type_code (url_type u) - url_type_code (url_type v) in
           if rv \<noteq> 0 then Inr rv
           else
             and_then (Inr (cmp_scheme u v))
             (and_then (Inr (of_bool (url_root u) - of_bool (url_root v)))
             (and_then (host_cmp pton4 pton6 (url_host u) (url_host v))
             (and_then (Inr (cmp_port u v))
             (and_then (cmp_user u v)
             (and_then (cmp_text (url_path u) (url_path v))
             (and_then (cmp_text (url_params u) (url_params v))
             (and_then (cmp_text (url_headers u) (url_headers v))
             (and_then (cmp_text (url_headers u) (url_headers v))
             (cmp_text (url_fragment u) (url_fragment v)))))))))))
      | _ \<Rightarrow> Inr (of_bool (a \<noteq> None) - of_bool (b \<noteq> None)))"

section \<open>What is hashed\<close>

definition EXCLUDED :: string where
  "EXCLUDED = '';/?:@&=+$,<>#%'' @ [CHR 0x22] @ ''{}|'' @ [CHR 0x5C] @ ''^[]`''"

text \<open>The text \<open>su_md5_iupdate\<close> feeds: letters in lower case.\<close>

definition lowercase :: "string \<Rightarrow> string" where
  "lowercase s = map c_tolower s"

text \<open>
  \<open>canon_update\<close>: an escape is fed as its character if that may stand unescaped; what lies between such escapes is
  fed as it is. \<open>j\<close> is the start of what has not been fed.
\<close>

function canon_update_loop :: "string \<Rightarrow> nat \<Rightarrow> string \<Rightarrow> nat \<Rightarrow> nat \<Rightarrow> string" where
  "canon_update_loop s n allowed i j =
     (if i < n \<and> char_at s i \<noteq> CHR 0x00 then
        (if char_at s i = CHR ''%'' \<and> i + 2 < n \<and> IS_HEX (char_at s (i + 1)) \<and> IS_HEX (char_at s (i + 2)) then
           (let c = unhex2 (char_at s (i + 1)) (char_at s (i + 2)) in
            if c \<noteq> CHR ''%'' \<and> byte c > 32 \<and> byte c < 127 \<and> (c \<notin> set EXCLUDED \<or> c \<in> set allowed) then
              (if i \<noteq> j then lowercase (take (i - j) (drop j s)) else [])
              @ lowercase [c] @ canon_update_loop s n allowed (i + 3) (i + 3)
            else canon_update_loop s n allowed (i + 3) j)
         else canon_update_loop s n allowed (i + 1) j)
      else (if i \<noteq> j then lowercase (take (i - j) (drop j s)) else []))"
  by pat_completeness auto
termination by (relation "measure (\<lambda>(s, n, allowed, i, j). n - i)") auto

declare canon_update_loop.simps [simp del]

definition canon_update :: "string \<Rightarrow> nat \<Rightarrow> string \<Rightarrow> string" where
  "canon_update s n allowed = canon_update_loop s n allowed 0 0"

text \<open>\<open>memchr (s, c, n)\<close> within a C string: the index of the first \<open>c\<close>.\<close>

definition memchr :: "string \<Rightarrow> char \<Rightarrow> nat \<Rightarrow> nat option" where
  "memchr s c n = (let k = strcspn (take n s) [c] in if k < length (take n s) then Some k else None)"

text \<open>The host and the port of \<open>s\<close>, of which \<open>n\<close> characters are left.\<close>

definition host_update :: "url_type_e \<Rightarrow> string \<Rightarrow> nat \<Rightarrow> string" where
  "host_update ty s n =
     (let colon = (if n > 0 \<and> char_at s 0 = CHR ''['' then
                     (case memchr s (CHR '']'') n of
                        None \<Rightarrow> None
                      | Some k \<Rightarrow> if k + 1 = n \<or> char_at s (k + 1) \<noteq> CHR '':'' then None else Some (k + 1))
                   else memchr s (CHR '':'') n) in
      case colon of
        Some k \<Rightarrow> canon_update s k [] @ canon_update (drop (k + 1) s) (n - (k + 1)) []
      | None \<Rightarrow> canon_update s n [] @ url_port_default ty)"

text \<open>The user without the password, then the host.\<close>

definition user_host_update :: "url_type_e \<Rightarrow> string \<Rightarrow> nat \<Rightarrow> string" where
  "user_host_update ty s n =
     (let colon = (if ty \<noteq> url_unknown then memchr s (CHR '':'') n else None);
          p = (case colon of None \<Rightarrow> n | Some k \<Rightarrow> k);
          rest = drop (n + 1) s in
      canon_update s p SIP_USER_UNRESERVED @ host_update ty rest (strcspn rest ''/;?#''))"

definition authority_update :: "url_type_e \<Rightarrow> string \<Rightarrow> string" where
  "authority_update ty s =
     (if is_sip ty then
        (let n = strcspn s ''@/;?#''; p = strcspn (drop n s) ''@'' in
         if char_at s (n + p) = CHR ''@'' then user_host_update ty s (n + p)
         else [CHR 0x00] @ host_update ty s (n + strcspn (drop n s) ''/;?#''))
      else if ty \<noteq> url_wv \<and> char_at s 0 = CHR ''/'' \<and> char_at s 1 \<noteq> CHR ''/'' then
        [CHR 0x00, CHR 0x00] @ lowercase (url_port_default ty)
      else
        (let slashes = (ty \<noteq> url_wv \<and> char_at s 0 = CHR ''/'' \<and> char_at s 1 = CHR ''/'');
             s = (if slashes then drop 2 s else s);
             n = strcspn s (if ty = url_wv then ''@;?#'' else if slashes then ''/?#@[]'' else ''@;/?#'') in
         if char_at s n = CHR ''@'' then user_host_update ty s n
         else [CHR 0x00] @ host_update ty s (n + strcspn (drop n s) ''/;?#'')))"

text \<open>The scheme is canonized into an array of 48 bytes; if that fails, its length is computed from a null pointer.\<close>

definition url_string_update :: "(int \<Rightarrow> 32 word) \<Rightarrow> string option \<Rightarrow> string res" where
  "url_string_update shl url =
     (case url of
        None \<Rightarrow> Inr [CHR ''*'', CHR 0x00, CHR 0x00, CHR ''*'']
      | Some s \<Rightarrow>
          if s = [] \<or> s = ''*'' then Inr [CHR ''*'', CHR 0x00, CHR 0x00, CHR ''*'']
          else
            (let n = strcspn s '':/?#'' in
             if n \<ge> 48 then Inr ('':'' @ authority_update url_any s)
             else if n \<noteq> 0 \<and> char_at s n = CHR '':'' then
               (case url_canonize shl False (take n s) 0 ''+'' of
                  None \<Rightarrow> Inl Out_of_bounds
                | Some schema \<Rightarrow>
                    (let ty = url_get_type schema; rest = drop (n + 1) s in
                     if \<not> url_type_is_opaque ty then Inr (lowercase schema @ authority_update ty rest)
                     else
                       (let n = strcspn rest '':/;?#'' in
                        Inr (lowercase schema @ canon_update rest n [] @ [CHR 0x00] @ lowercase (url_port_default ty)))))
             else Inr ([CHR 0x00] @ authority_update url_any s)))"

text \<open>\<open>SU_MD5_STRI0UPDATE\<close>: a null pointer is fed as one NUL, a text without its NUL.\<close>

definition STRI0UPDATE :: "string option \<Rightarrow> string" where
  "STRI0UPDATE x = (case x of None \<Rightarrow> [CHR 0x00] | Some t \<Rightarrow> lowercase t)"

definition URL_PORT :: "url_t \<Rightarrow> string" where
  "URL_PORT u = (case url_port u of Some p \<Rightarrow> p | None \<Rightarrow> url_port_default (url_type u))"

definition url_update :: "(int \<Rightarrow> 32 word) \<Rightarrow> url_string_t \<Rightarrow> string res" where
  "url_update shl url =
     (case url of
        Us_str s \<Rightarrow> url_string_update shl (Some s)
      | Us_url u \<Rightarrow>
          Inr (STRI0UPDATE (url_scheme u) @ STRI0UPDATE (url_user u) @ STRI0UPDATE (url_host u) @ lowercase (URL_PORT u)))"

text \<open>\<open>url_digest\<close>: the text of which the MD5 sum is taken, after the key.\<close>

definition url_digest_text :: "(int \<Rightarrow> 32 word) \<Rightarrow> url_string_t \<Rightarrow> string option \<Rightarrow> string res" where
  "url_digest_text shl url key = andthen (url_update shl url) (\<lambda>t. Inr (or_empty key @ t))"

section \<open>A query as header lines\<close>

text \<open>
  The loop of \<open>url_query_as_header_string\<close>: \<open>i\<close> is the position in the query, \<open>out\<close> what has been written;
  the result is both with the place of the body (\<open>b_start\<close> is 0 if there is none).
\<close>

function query_loop :: "string \<Rightarrow> nat \<Rightarrow> string \<Rightarrow> nat \<Rightarrow> nat \<Rightarrow> (nat \<times> string \<times> nat \<times> nat) res" where
  "query_loop query i out b_start b_len =
     (let rest = drop i query; n = strcspn rest ''='' in
      if rest = [] \<or> n = length rest then Inr (i, out, b_start, b_len)
      else
        andthen (if n = 4 then su_strncasecmp False (Some rest) (Some ''body'') 4 else Inr 1) (\<lambda>cmp.
        if cmp = 0 then
          (if b_start \<noteq> 0 then Inr (i, out, b_start, b_len)
           else
             (let b_start = i + n + 1; b_len = strcspn (drop b_start query) ''&''; i = b_start + b_len in
              if char_at query i = CHR 0x00 then Inr (i, out, b_start, b_len)
              else query_loop query (i + 1) out b_start b_len))
        else
          (let out = out @ take n rest @ '':''; i = i + n + 1; n = strcspn (drop i query) ''&'';
               out = out @ url_unescape_to (Some (drop i query)) n; i = i + n in
           if char_at query i \<noteq> CHR 0x00 then query_loop query (i + 1) (out @ [CHR 0x0A]) b_start b_len
           else Inr (i, out, b_start, b_len))))"
  by pat_completeness auto
termination
  by (relation "measure (\<lambda>(query, i, _). length query - i)") (auto simp: char_at_def split: if_splits)

declare query_loop.simps [simp del]

definition url_query_as_header_string :: "bool \<Rightarrow> string \<Rightarrow> string option res" where
  "url_query_as_header_string allocated query =
     (if \<not> allocated then Inr None
      else
        andthen (query_loop query 0 [] 0 0) (\<lambda>(i, out, b_start, b_len).
        if char_at query i \<noteq> CHR 0x00 then Inr None
        else
          (let out = (if b_start \<noteq> 0
                      then out @ [CHR 0x0A, CHR 0x0A] @ url_unescape_to (Some (drop b_start query)) b_len else out) in
           if \<not> length out \<le> i then Inl Assert_failed else Inr (Some (c_str out)))))"

end
