(* ===== verification/Sip_Url_Laws.thy ===== *)
theory Sip_Url_Laws
  imports Sip_Url
begin

text \<open>
  What the URL module guarantees for the URLs a SIP client deals in.

  \<^item> \<open>sip_canonical\<close> is the form of a parsed SIP or SIPS URL: which part may hold which delimiter, and that
    canonizing a part again changes nothing. \<open>url_d_sip_canonical\<close>: parsing gives this form.
    \<open>url_d_canonical\<close>: a URL of this form is read back from its printed text.
  \<^item> \<open>url_e_struct\<close>: what \<open>url_e\<close> leaves in a buffer of any size.
  \<^item> \<open>url_encoded\<close> is the text itself; \<open>printf\<close> with \<open>URL_PRINT_ARGS\<close> prints the same text.
\<close>

section \<open>The first delimiter\<close>

lemma strcspn_stop: "x \<in> set r \<Longrightarrow> strcspn (a @ x # s) r = length (takeWhile (\<lambda>c. c \<notin> set r) a)"
  by (induction a) simp_all

lemma strcspn_to: "x \<notin> set a \<Longrightarrow> strcspn (a @ x # s) [x] = length a"
  by (induction a) auto

lemma first_at:
  "x \<notin> set a \<Longrightarrow> x \<in> set r \<Longrightarrow>
     strcspn (a @ x # s) r + strcspn (drop (strcspn (a @ x # s) r) (a @ x # s)) [x] = length a"
  by (induction a) (auto simp: strcspn_to simp del: drop_append)

lemma sip_authority_at:
  assumes "CHR ''@'' \<notin> set us"
  shows "sip_authority (us @ CHR ''@'' # r)
     = (Some us, Some (take (strcspn r ''/;?#'') r), length us + 1 + strcspn r ''/;?#'')"
proof -
  let ?s = "us @ CHR ''@'' # r"
  let ?n = "strcspn ?s ''@/;?#''"
  have n: "?n + strcspn (drop ?n ?s) ''@'' = length us"
    by (rule first_at [OF assms]) simp
  have m: "strcspn (drop (length us) ?s) ''/;?#'' = Suc (strcspn r ''/;?#'')" by simp
  show ?thesis unfolding sip_authority_def Let_def n m by simp
qed

lemma sip_authority_none:
  assumes "CHR ''@'' \<notin> set s"
  shows "sip_authority s = (None, Some (take (strcspn s ''/;?#'') s), strcspn s ''/;?#'')"
proof -
  let ?n = "strcspn s ''@/;?#''" and ?p = "\<lambda>c. c \<notin> set ''@/;?#''"
  have n: "?n + strcspn (drop ?n s) ''/;?#'' = strcspn s ''/;?#''"
  proof -
    have "\<forall>c\<in>set (take ?n s). c \<notin> set ''/;?#''" unfolding strcspn_take by (auto dest: set_takeWhileD)
    then have "strcspn (take ?n s @ drop ?n s) ''/;?#'' = ?n + strcspn (drop ?n s) ''/;?#''"
      by (subst strcspn_append) (simp_all add: strcspn_le)
    then show ?thesis by simp
  qed
  have "char_at s k \<noteq> CHR ''@''" for k using assms by (auto simp: char_at_def dest: nth_mem)
  then show ?thesis unfolding sip_authority_def Let_def n by simp
qed

section \<open>SIP URLs in canonical form\<close>

text \<open>
  The form \<open>url_d\<close> leaves a SIP or SIPS URL in that has neither a path nor a fragment, which SIP URLs do
  not have: no part holds a delimiter that would end it, and canonizing a part again changes nothing.
\<close>

definition no_at :: "url_t \<Rightarrow> string \<Rightarrow> bool" where
  "no_at u t \<longleftrightarrow> url_user u = None \<longrightarrow> CHR ''@'' \<notin> set t"

definition host_form :: "string \<Rightarrow> bool" where
  "host_form h \<longleftrightarrow> h \<noteq> []
     \<and> (if hd h = CHR ''['' then last h = CHR '']'' \<and> CHR '']'' \<notin> set (butlast h) else CHR '':'' \<notin> set h)"

definition avoids :: "string \<Rightarrow> string \<Rightarrow> bool" where
  "avoids t cs \<longleftrightarrow> list_all (\<lambda>c. c \<notin> set cs) t"

definition opt_all :: "(string \<Rightarrow> bool) \<Rightarrow> string option \<Rightarrow> bool" where
  "opt_all P x = (case x of None \<Rightarrow> True | Some t \<Rightarrow> P t)"

definition sip_canonical :: "(int \<Rightarrow> 32 word) \<Rightarrow> url_t \<Rightarrow> bool" where
  "sip_canonical shl u \<longleftrightarrow>
     (url_type u = url_sip \<or> url_type u = url_sips) \<and> \<not> url_root u
     \<and> (\<exists>sch. url_scheme u = Some sch \<and> url_get_type sch = url_type u)
     \<and> opt_all (\<lambda>t. avoids t '':@'' \<and> canonize_user shl (url_type u) t = Some t) (url_user u)
     \<and> opt_all (\<lambda>t. avoids t ''@'' \<and> canonize_password shl (url_type u) t = Some t \<and> url_user u \<noteq> None) (url_password u)
     \<and> (\<exists>h. url_host u = Some h \<and> host_form h \<and> avoids h ''/;?#'' \<and> no_at u h
            \<and> url_canonize2 shl True h 0 RESERVED_MASK = Some h)
     \<and> opt_all port_ok (url_port u)
     \<and> url_path u = None
     \<and> opt_all (\<lambda>t. avoids t ''?#'' \<and> no_at u t
            \<and> url_canonize shl True t (syn_mask '';=@,'') ''/:&+$'' = Some t) (url_params u)
     \<and> opt_all (\<lambda>t. avoids t ''#'' \<and> no_at u t \<and> url_canonize3 True t RESERVED_MASK = Some t) (url_headers u)
     \<and> url_fragment u = None"

lemma opt_all_simps [simp]: "opt_all P None" "opt_all P (Some t) = P t"
  by (simp_all add: opt_all_def)

lemma opt_piece_simps [simp]: "opt_piece None f = []" "opt_piece (Some t) f = f t"
  by (simp_all add: opt_piece_def)

lemma strcspn_avoids: "avoids a r \<Longrightarrow> strcspn (a @ s) r = length a + strcspn s r" "avoids a r \<Longrightarrow> strcspn a r = length a"
  using strcspn_append [of a r s] strcspn_append [of a r "[]"] by (auto simp: avoids_def list_all_iff)

lemma avoids_simps [simp]:
  "avoids [] cs" "avoids (c # t) cs \<longleftrightarrow> c \<notin> set cs \<and> avoids t cs" "avoids (t @ r) cs \<longleftrightarrow> avoids t cs \<and> avoids r cs"
  by (simp_all add: avoids_def)

lemma avoids_mem: "avoids t cs \<longleftrightarrow> (\<forall>c\<in>set cs. c \<notin> set t)"
  by (auto simp: avoids_def list_all_iff)

text \<open>A scheme that names SIP or SIPS is three or four letters.\<close>

lemma c_tolower_letter:
  assumes "c_tolower c = d" "d \<in> set ''sip''"
  shows "c \<notin> set '':/?#%''"
  using assms by (auto simp: c_tolower_def Let_def split: if_splits)

lemma sip_scheme:
  assumes "url_get_type sch = ty" "ty = url_sip \<or> ty = url_sips"
  shows "avoids sch '':/?#%''" "sch \<noteq> []" "sch \<noteq> ''*''" "list_all (\<lambda>c. c_tolower c \<in> set ''sip'') sch" "length sch \<le> 4"
proof -
  have t: "list_all (\<lambda>(t, ty). ty \<in> {url_sip, url_sips} \<longrightarrow> t \<in> {''sip'', ''sips''}) test_schemes"
    by (simp add: test_schemes_def)
  obtain t where f: "List.find (\<lambda>(t, _). length sch = length t \<and> strncasecmp_eq sch t (length sch)) test_schemes = Some (t, ty)"
      and star: "sch \<noteq> ''*''"
    using assms by (auto simp: url_get_type_def split: if_splits option.splits prod.splits)
  have m: "(t, ty) \<in> set test_schemes" "length sch = length t" "strncasecmp_eq sch t (length sch)"
    using f by (auto simp: find_Some_iff) (metis nth_mem)
  have "t \<in> {''sip'', ''sips''}" using t m(1) assms(2) by (auto simp: list_all_iff)
  moreover have low: "map c_tolower sch = map c_tolower t" using m(2,3) by (simp add: strncasecmp_eq_def strcasecmp_eq_def)
  moreover have "map c_tolower ''sip'' = ''sip''" "map c_tolower ''sips'' = ''sips''" by (simp_all add: c_tolower_def)
  ultimately have l: "map c_tolower sch = ''sip'' \<or> map c_tolower sch = ''sips''" by auto
  then show "list_all (\<lambda>c. c_tolower c \<in> set ''sip'') sch"
    by (auto simp: map_eq_Cons_conv)
  then show "avoids sch '':/?#%''" using c_tolower_letter by (auto simp: avoids_def list_all_iff)
  show "sch \<noteq> []" using l by auto
  show "sch \<noteq> ''*''" by (rule star)
  from l have "length (map c_tolower sch) \<le> 4" by (elim disjE) simp_all
  then show "length sch \<le> 4" by simp
qed

definition url_encoded :: "url_t \<Rightarrow> string" where
  "url_encoded u = concat (map snd (url_pieces u))"

definition delimited :: "char \<Rightarrow> string option \<Rightarrow> string" where
  "delimited c x = (case x of None \<Rightarrow> [] | Some t \<Rightarrow> c # t)"

lemma delimited_simps [simp]: "delimited c None = []" "delimited c (Some t) = c # t"
  by (simp_all add: delimited_def)

lemma strcspn_end: "avoids a r \<Longrightarrow> s = [] \<or> hd s \<in> set r \<Longrightarrow> strcspn (a @ s) r = length a"
  by (cases s) (simp_all add: strcspn_avoids)

lemma port_chars: "port_ok p \<Longrightarrow> avoids p ''%/;?#@:''"
proof -
  assume p: "port_ok p"
  let ?d = "is_digit_char"
  have "p = takeWhile ?d p @ dropWhile ?d p" by simp
  moreover have "dropWhile ?d p = [] \<or> p = ''*''"
  proof (cases "length (dropWhile ?d p) = length p")
    case True
    then have "dropWhile ?d p = p" by (metis append_eq_append_conv append_Nil takeWhile_dropWhile_id)
    then show ?thesis using p by (simp add: port_ok_def Let_def split: if_splits)
  next
    case False
    then show ?thesis using p by (simp add: port_ok_def Let_def)
  qed
  ultimately have "list_all ?d p \<or> p = ''*''"
    by (metis append_Nil2 dropWhile_eq_Nil_conv list_all_iff)
  then show ?thesis by (auto simp: avoids_def list_all_iff is_digit_char_def Let_def)
qed

lemma split_scheme_canonical:
  assumes "url_get_type sch = ty" "ty = url_sip \<or> ty = url_sips"
  shows "split_scheme shl (sch @ CHR '':'' # r) = Some (zero_url\<lparr>url_scheme := Some sch, url_type := ty\<rparr>, r)"
proof -
  note s = sip_scheme [OF assms]
  have n: "strcspn (sch @ CHR '':'' # r) '':/?#'' = length sch"
    using s(1) by (intro strcspn_end) (auto simp: avoids_def list_all_iff)
  have "CHR ''%'' \<notin> set sch" using s(1) by (auto simp: avoids_def list_all_iff)
  then have "url_canonize shl True sch 0 ''+'' = Some sch"
    by (simp add: in_place_eqs in_place_unchecked)
  then show ?thesis using s(2) assms(1) by (simp add: split_scheme_def Let_def n)
qed

lemma split_host_canonical:
  assumes "host_form h" "opt_all port_ok p" "ty = url_sip \<or> ty = url_sips"
  shows "split_host shl ty (Some (h @ delimited (CHR '':'') p)) url
     = Some (case p of None \<Rightarrow> url\<lparr>url_host := Some h\<rparr> | Some t \<Rightarrow> url\<lparr>url_host := Some h, url_port := Some t\<rparr>)"
proof -
  let ?s = "h @ delimited (CHR '':'') p"
  have h: "h \<noteq> []" using assms(1) by (simp add: host_form_def)
  have hd: "char_at ?s 0 = hd h" using h by (cases h) simp_all
  have at: "char_at ?s (length h) = (if p = None then CHR 0x00 else CHR '':'')"
    using char_at_append(1) [of h] by (cases p) (simp_all add: char_at_def)
  have n: "(if char_at ?s 0 = CHR ''['' then
              (let k = strcspn ?s '']'' in
               if k < length ?s \<and> (char_at ?s (k + 1) = CHR 0x00 \<or> char_at ?s (k + 1) = CHR '':'') then k + 1 else 0)
            else strcspn ?s '':'') = length h"
  proof (cases "hd h = CHR ''[''")
    case True
    then obtain x where x: "h = x @ '']''" "CHR '']'' \<notin> set x"
      using assms(1) h by (auto simp: host_form_def) (metis append_butlast_last_id)
    then have "strcspn ?s '']'' = length x" by (simp add: strcspn_to)
    moreover have "char_at ?s (length x + 1) = (if p = None then CHR 0x00 else CHR '':'')" "length x < length ?s"
      using at x(1) by simp_all
    ultimately show ?thesis unfolding hd using True x(1) by simp
  next
    case False
    then have "avoids h '':''" using assms(1) by (auto simp: host_form_def avoids_def list_all_iff)
    then have "strcspn ?s '':'' = length h" by (intro strcspn_end) (cases p; simp)+
    then show ?thesis unfolding hd using False by simp
  qed
  have pc: "url_canonize2 shl True t 0 RESERVED_MASK = Some t" if "p = Some t" for t
    using port_chars [of t] assms(2) that by (simp add: in_place_eqs in_place_unchecked avoids_mem)
  have c: "checks_port ty" using assms(3) by (auto simp: checks_port_def)
  show ?thesis unfolding split_host_def option.case n unfolding Let_def at
    using h pc c assms(2) by (cases p) simp_all
qed

lemma split_rest_canonical:
  assumes "opt_all (\<lambda>t. avoids t ''?#'') p" "opt_all (\<lambda>t. avoids t ''#'') q" "url_params url = None" "url_headers url = None"
  shows "split_rest (delimited (CHR '';'') p @ delimited (CHR ''?'') q) url
     = Some (url\<lparr>url_params := p, url_headers := q\<rparr>)"
proof -
  have u: "url\<lparr>url_params := None\<rparr> = url" "url\<lparr>url_headers := None\<rparr> = url" "url\<lparr>url_params := None, url_headers := None\<rparr> = url"
    using assms(3,4) by simp_all
  show ?thesis using assms
    by (cases p; cases q) (simp_all add: split_rest_def Let_def split_at_def strcspn_avoids strcspn_end u)
qed

lemma sip_authority_canonical:
  assumes "avoids hp ''/;?#''" "rest = [] \<or> hd rest \<in> set ''/;?#''"
  shows "CHR ''@'' \<notin> set (hp @ rest) \<Longrightarrow> sip_authority (hp @ rest) = (None, Some hp, length hp)"
    "CHR ''@'' \<notin> set us \<Longrightarrow> sip_authority (us @ CHR ''@'' # hp @ rest) = (Some us, Some hp, length us + 1 + length hp)"
  by (simp_all add: sip_authority_none sip_authority_at strcspn_end [OF assms])

definition user_text :: "url_t \<Rightarrow> string option" where
  "user_text u = map_option (\<lambda>us. us @ delimited (CHR '':'') (url_password u)) (url_user u)"

lemma split_user_canonical:
  assumes "opt_all (\<lambda>t. avoids t '':@'') (url_user u)" "url_user u = None \<longrightarrow> url_password u = None" "ty \<noteq> url_unknown"
    and "url_user v = None" "url_password v = None"
  shows "split_user ty (user_text u) v = v\<lparr>url_user := url_user u, url_password := url_password u\<rparr>"
proof -
  have v: "v\<lparr>url_user := None\<rparr> = v" "v\<lparr>url_password := None\<rparr> = v" using assms(4,5) by simp_all
  show ?thesis
  proof (cases "url_user u")
    case None
    then show ?thesis using assms(2) v by (simp add: user_text_def split_user_def)
  next
    case (Some us)
    have a: "avoids us '':''" using assms(1) Some by (auto simp: avoids_def list_all_iff)
    have w: "v\<lparr>url_user := Some us, url_password := None\<rparr> = v\<lparr>url_user := Some us\<rparr>" using assms(5) by (cases v) simp
    show ?thesis using Some a w assms(3)
      by (cases "url_password u") (simp_all add: user_text_def split_user_def strcspn_avoids strcspn_end)
  qed
qed

definition host_text :: "url_t \<Rightarrow> string" where
  "host_text u = (case url_host u of None \<Rightarrow> [] | Some h \<Rightarrow> h @ delimited (CHR '':'') (url_port u))"

definition rest_text :: "url_t \<Rightarrow> string" where
  "rest_text u = delimited (CHR '';'') (url_params u) @ delimited (CHR ''?'') (url_headers u)"

definition authority_text :: "url_t \<Rightarrow> string" where
  "authority_text u = (case user_text u of None \<Rightarrow> host_text u | Some t \<Rightarrow> t @ CHR ''@'' # host_text u)"

lemma canonicalD:
  assumes "sip_canonical shl u"
  obtains sch h where "url_scheme u = Some sch" "url_get_type sch = url_type u"
    "url_type u = url_sip \<or> url_type u = url_sips" "url_host u = Some h" "host_form h" "avoids h ''/;?#''" "no_at u h"
    "url_canonize2 shl True h 0 RESERVED_MASK = Some h" "\<not> url_root u" "url_path u = None" "url_fragment u = None"
  using assms unfolding sip_canonical_def by blast

lemma url_encoded_canonical:
  assumes "sip_canonical shl u" "url_scheme u = Some sch"
  shows "url_encoded u = sch @ CHR '':'' # authority_text u @ rest_text u"
proof -
  obtain h where c: "url_get_type sch = url_type u" "url_type u = url_sip \<or> url_type u = url_sips" "url_host u = Some h"
      "\<not> url_root u" "url_path u = None" "url_fragment u = None"
    using assms by (auto elim!: canonicalD)
  have "sch \<noteq> []" using sip_scheme(2) [OF c(1,2)] .
  then show ?thesis using c assms(2)
    by (cases "url_user u"; cases "url_password u"; cases "url_port u"; cases "url_params u"; cases "url_headers u")
       (simp_all add: url_encoded_def url_pieces_def authority_text_def user_text_def host_text_def rest_text_def)
qed

lemma url_d0_canonical:
  assumes "sip_canonical shl u"
  shows "url_d0 shl (url_encoded u) = Some u"
proof -
  obtain sch h where c: "url_scheme u = Some sch" "url_get_type sch = url_type u"
    "url_type u = url_sip \<or> url_type u = url_sips" "url_host u = Some h" "host_form h" "avoids h ''/;?#''" "no_at u h"
    "\<not> url_root u" "url_path u = None" "url_fragment u = None"
    using assms by (rule canonicalD)
  have o: "opt_all (\<lambda>t. avoids t '':@'') (url_user u)" "opt_all (\<lambda>t. avoids t ''@'' \<and> url_user u \<noteq> None) (url_password u)"
    "opt_all port_ok (url_port u)" "opt_all (\<lambda>t. avoids t ''?#'' \<and> no_at u t) (url_params u)"
    "opt_all (\<lambda>t. avoids t ''#'' \<and> no_at u t) (url_headers u)"
    using assms unfolding sip_canonical_def opt_all_def by (auto split: option.splits)
  let ?r = "authority_text u @ rest_text u"
  have "avoids (delimited (CHR '':'') (url_port u)) ''@/;?#''"
    using o(3) port_chars by (cases "url_port u") (auto simp: avoids_mem)
  then have hp: "avoids (host_text u) ''/;?#''" "url_user u = None \<Longrightarrow> CHR ''@'' \<notin> set (host_text u)"
    using c(4,6,7) by (auto simp: host_text_def no_at_def avoids_mem)
  have rt: "rest_text u = [] \<or> hd (rest_text u) \<in> set ''/;?#''"
    by (cases "url_params u"; cases "url_headers u"; simp add: rest_text_def)
  have rat: "url_user u = None \<Longrightarrow> CHR ''@'' \<notin> set (rest_text u)"
    using o(4,5) by (cases "url_params u"; cases "url_headers u"; auto simp: rest_text_def no_at_def)
  have ut: "user_text u = Some t \<Longrightarrow> CHR ''@'' \<notin> set t" for t
    using o(1,2) by (cases "url_user u"; cases "url_password u"; auto simp: user_text_def avoids_mem)
  have sa: "sip_authority ?r = (user_text u, Some (host_text u), length (authority_text u))"
  proof (cases "user_text u")
    case None
    then have "url_user u = None" by (simp add: user_text_def)
    then show ?thesis using sip_authority_canonical(1) [OF hp(1) rt] hp(2) rat None by (simp add: authority_text_def)
  next
    case (Some t)
    then show ?thesis using sip_authority_canonical(2) [OF hp(1) rt ut [OF Some]] by (simp add: authority_text_def)
  qed
  have tk: "ty \<noteq> url_unknown" if "ty = url_sip \<or> ty = url_sips" for ty using that by auto
  let ?v = "zero_url\<lparr>url_scheme := Some sch, url_type := url_type u, url_root := False\<rparr>"
  have su: "split_user (url_type u) (user_text u) ?v = ?v\<lparr>url_user := url_user u, url_password := url_password u\<rparr>"
    using o(1,2) tk [OF c(3)] by (intro split_user_canonical) (auto simp: zero_url_def opt_all_def split: option.splits)
  have sh: "split_host shl (url_type u) (Some (host_text u)) w = Some (w\<lparr>url_host := Some h, url_port := url_port u\<rparr>)"
    if "url_port w = None" for w
    using split_host_canonical [OF c(5) o(3) c(3), of shl w] that c(4)
    by (cases "url_port u") (simp_all add: host_text_def)
  have sr: "split_rest (rest_text u) w = Some (w\<lparr>url_params := url_params u, url_headers := url_headers u\<rparr>)"
    if "url_params w = None" "url_headers w = None" for w
    unfolding rest_text_def using o(4,5) that
    by (intro split_rest_canonical) (auto simp: opt_all_def split: option.splits)
  have star: "url_encoded u \<noteq> ''*''"
    using url_encoded_canonical [OF assms c(1)] sip_scheme(2) [OF c(2,3)] by (cases sch) simp_all
  have ss: "split_scheme shl (url_encoded u) = Some (zero_url\<lparr>url_scheme := Some sch, url_type := url_type u\<rparr>, ?r)"
    unfolding url_encoded_canonical [OF assms c(1)] by (rule split_scheme_canonical [OF c(2,3)])
  have au: "split_authority (url_type u) ?r = (False, user_text u, Some (host_text u), ?r, length (authority_text u))"
    using c(3) by (simp add: split_authority_def sa)
  show ?thesis using star ss au su sh sr c
    by (simp add: url_d0_def Let_def zero_url_def)
qed

lemma url_d_canonical: "sip_canonical shl u \<Longrightarrow> url_d shl (url_encoded u) = Some u"
proof -
  assume s: "sip_canonical shl u"
  then have "canon (canonize_user shl (url_type u)) (url_user u) = Some (url_user u)"
    "canon (canonize_password shl (url_type u)) (url_password u) = Some (url_password u)"
    "canon (\<lambda>t. url_canonize2 shl True t 0 RESERVED_MASK) (url_host u) = Some (url_host u)"
    "canon (\<lambda>t. url_canonize shl True t (syn_mask '';=@,'') ''/:&+$'') (url_params u) = Some (url_params u)"
    "canon (\<lambda>t. url_canonize3 True t RESERVED_MASK) (url_headers u) = Some (url_headers u)"
    "canon f (url_path u) = Some (url_path u)" "canon g (url_fragment u) = Some (url_fragment u)" for f g
    by (auto simp: sip_canonical_def canon_def opt_all_def split: option.splits)
  then show ?thesis by (simp add: url_d_def url_d0_canonical [OF s] Let_def)
qed

lemma strcspn_free: "avoids (take (strcspn t cs) t) cs"
  unfolding strcspn_take by (auto simp: avoids_def list_all_iff dest: set_takeWhileD)

lemma strcspn_at: "strcspn t cs < length t \<Longrightarrow> t ! strcspn t cs \<in> set cs"
  unfolding strcspn_def using nth_length_takeWhile by fastforce

lemma strcspn_all: "length t \<le> strcspn t cs \<Longrightarrow> avoids t cs"
  using strcspn_free [of t cs] by simp

lemma sip_authority_parts:
  assumes "sip_authority r = (user, host, n)"
  shows "\<exists>hs. host = Some hs \<and> avoids hs ''/;?#'' \<and> set hs \<subseteq> set r
     \<and> (case user of None \<Rightarrow> CHR ''@'' \<notin> set r | Some us \<Rightarrow> CHR ''@'' \<notin> set us)"
proof -
  note av = strcspn_free
  show ?thesis
  proof (cases "CHR ''@'' \<in> set r")
    case True
    then obtain us t where "r = us @ CHR ''@'' # t" "CHR ''@'' \<notin> set us" using split_list_first by fast
    then show ?thesis using assms av sip_authority_at [of us t] by (auto dest: in_set_takeD)
  next
    case False
    then show ?thesis using assms av sip_authority_none [of r] by (auto dest: in_set_takeD)
  qed
qed

lemma split_user_parts:
  assumes "v = split_user ty user w" "url_user w = None" "url_password w = None" "ty \<noteq> url_unknown"
    and "opt_all (\<lambda>t. CHR ''@'' \<notin> set t) user"
  shows "opt_all (\<lambda>t. avoids t '':@'') (url_user v)" "opt_all (\<lambda>t. avoids t ''@'' \<and> url_user v \<noteq> None) (url_password v)"
    "url_user v = None \<longleftrightarrow> user = None"
    "url_type v = url_type w" "url_scheme v = url_scheme w" "url_root v = url_root w" "url_host v = url_host w"
    "url_port v = url_port w" "url_path v = url_path w" "url_params v = url_params w" "url_headers v = url_headers w"
    "url_fragment v = url_fragment w"
proof -
  have t: "set (take (strcspn t '':'') t) \<subseteq> set t - {CHR '':''}" for t
    unfolding strcspn_take by (auto dest: set_takeWhileD)
  have n: "\<not> strcspn t '':'' < length t \<Longrightarrow> CHR '':'' \<notin> set t" for t
    using strcspn_all [of t "'':''"] by (simp add: not_less avoids_mem)
  show "opt_all (\<lambda>t. avoids t '':@'') (url_user v)" "opt_all (\<lambda>t. avoids t ''@'' \<and> url_user v \<noteq> None) (url_password v)"
    "url_user v = None \<longleftrightarrow> user = None"
    using assms t n by (auto simp: split_user_def Let_def avoids_mem opt_all_def dest!: in_set_dropD split: option.splits)
qed (simp_all add: assms(1) split_user_def Let_def split: option.splits)

lemma split_host_parts:
  assumes "split_host shl ty (Some hs) w = Some v" "ty = url_sip \<or> ty = url_sips" "CHR 0x00 \<notin> set hs" "url_port w = None"
  shows "\<exists>h. v = w\<lparr>url_host := Some h, url_port := url_port v\<rparr> \<and> host_form h \<and> set h \<subseteq> set hs \<and> opt_all port_ok (url_port v)"
proof -
  let ?n = "if char_at hs 0 = CHR ''['' then
              (let k = strcspn hs '']'' in
               if k < length hs \<and> (char_at hs (k + 1) = CHR 0x00 \<or> char_at hs (k + 1) = CHR '':'') then k + 1 else 0)
            else strcspn hs '':''"
  have n: "?n \<noteq> 0" using assms(1,2) unfolding split_host_def by (auto simp: Let_def split: if_splits)
  then have hs: "hs \<noteq> []" by auto
  have hd: "char_at hs 0 = hd hs" using hs by (cases hs) simp_all
  have nul: "char_at hs k = CHR 0x00 \<longleftrightarrow> length hs \<le> k" for k using assms(3) by (auto simp: char_at_def dest: nth_mem)
  have form: "host_form (take ?n hs)" "char_at hs ?n \<noteq> CHR '':'' \<Longrightarrow> take ?n hs = hs"
  proof -
    show "host_form (take ?n hs)"
    proof (cases "hd hs = CHR ''[''")
      case True
      let ?k = "strcspn hs '']''"
      have a: "char_at hs 0 = CHR ''[''" using True hd by simp
      have k: "?k < length hs" "?n = Suc ?k" using n unfolding if_P [OF a] Let_def by (simp_all split: if_splits)
      have c: "hs ! ?k = CHR '']''" using strcspn_at [OF k(1)] by simp
      have "take (Suc ?k) hs = take ?k hs @ [CHR '']'']" using k(1) c by (simp add: take_Suc_conv_app_nth)
      moreover have "CHR '']'' \<notin> set (take ?k hs)" using strcspn_free [of hs "'']''"] by (simp add: avoids_mem)
      moreover have "hd (take (Suc ?k) hs) = CHR ''[''" using True hs by (cases hs) simp_all
      ultimately show ?thesis unfolding k(2) host_form_def by simp
    next
      case False
      have a: "char_at hs 0 \<noteq> CHR ''[''" using False hd by simp
      have "CHR '':'' \<notin> set (take (strcspn hs '':'') hs)" using strcspn_free [of hs "'':''"] by (simp add: avoids_mem)
      then show ?thesis using n False hs unfolding if_not_P [OF a] by (cases hs) (auto simp: host_form_def)
    qed
    assume nc: "char_at hs ?n \<noteq> CHR '':''"
    show "take ?n hs = hs"
    proof (cases "hd hs = CHR ''[''")
      case True
      then have a: "char_at hs 0 = CHR ''[''" using hd by simp
      show ?thesis using n nc nul unfolding if_P [OF a] Let_def by (auto split: if_splits)
    next
      case False
      then have a: "char_at hs 0 \<noteq> CHR ''[''" using hd by simp
      have "\<not> strcspn hs '':'' < length hs"
        using nc strcspn_at [of hs "'':''"] unfolding if_not_P [OF a] by (auto simp: char_at_def)
      then show ?thesis unfolding if_not_P [OF a] by simp
    qed
  qed
  obtain k where k: "?n = k" by simp
  have "v = w\<lparr>url_host := Some (take k hs), url_port := url_port v\<rparr> \<and> opt_all port_ok (url_port v)"
  proof (cases "char_at hs k = CHR '':''")
    case True
    have "checks_port ty" using assms(2) by (auto simp: checks_port_def)
    then show ?thesis using assms(1,4) n True unfolding split_host_def option.case k unfolding Let_def
      by (auto split: if_splits option.splits)
  next
    case False
    then have "v = w\<lparr>url_host := Some (take k hs)\<rparr>"
      using assms(1) n form(2) unfolding split_host_def option.case k unfolding Let_def by (auto split: if_splits)
    then show ?thesis using assms(4) by simp
  qed
  then show ?thesis using form(1) set_take_subset [of k hs] unfolding k by blast
qed

lemma split_at_parts: "split_at cs t = (a, b) \<Longrightarrow> avoids a cs \<and> set a \<subseteq> set t \<and> set b \<subseteq> set t"
  using strcspn_free by (auto simp: split_at_def Let_def dest: in_set_takeD in_set_dropD)

lemma tl_subset: "set (tl r) \<subseteq> set r"
  by (cases r) auto

lemma split_rest_parts:
  assumes "split_rest r w = Some v" "url_path v = None" "url_path w = None" "url_params w = None" "url_headers w = None"
  shows "opt_all (\<lambda>t. avoids t ''?#'' \<and> set t \<subseteq> set r) (url_params v)
    \<and> opt_all (\<lambda>t. avoids t ''#'' \<and> set t \<subseteq> set r) (url_headers v)
    \<and> v = w\<lparr>url_params := url_params v, url_headers := url_headers v, url_fragment := url_fragment v\<rparr>"
proof -
  have p: "char_at r 0 \<noteq> CHR ''/''"
    using assms(1,2) by (auto simp: split_rest_def Let_def split: if_splits prod.splits)
  obtain a b where ab: "split_at ''?#'' (tl r) = (a, b)" by (cases "split_at ''?#'' (tl r)")
  obtain c d where cd: "split_at ''#'' (tl b) = (c, d)" by (cases "split_at ''#'' (tl b)")
  obtain e f where ef: "split_at ''#'' (tl r) = (e, f)" by (cases "split_at ''#'' (tl r)")
  have s: "avoids a ''?#''" "avoids c ''#''" "avoids e ''#''" "set a \<subseteq> set r" "set b \<subseteq> set r" "set c \<subseteq> set r" "set e \<subseteq> set r"
    using split_at_parts [OF ab] split_at_parts [OF cd] split_at_parts [OF ef] tl_subset [of r] tl_subset [of b] by blast+
  show ?thesis
    using assms(1,4,5) p s
    by (cases "char_at r 0 = CHR '';''"; cases "char_at b 0 = CHR ''?''"; cases "char_at r 0 = CHR ''?''")
       (auto simp: split_rest_def Let_def ab cd ef split: if_splits)
qed


lemma last_dropWhile: "dropWhile p s \<noteq> [] \<Longrightarrow> last (dropWhile p s) = last s"
  by (induction s) (auto split: if_splits)

lemma canonize_bracket:
  "canonize_loop syn m s = Some d \<Longrightarrow> s \<noteq> [] \<Longrightarrow> is_excluded m (last s) \<Longrightarrow> \<not> IS_HEX (last s) \<Longrightarrow> \<not> syn (last s) \<Longrightarrow>
     False"
proof (induction "length s" arbitrary: s d rule: less_induct)
  case less
  from less.prems(1) show ?case
  proof (cases rule: canonize_cases)
    case (2 c t e)
    show ?thesis using less.hyps [of t e] less.prems 2 by (cases "t = []") simp_all
  next
    case (3 h1 h2 t e)
    show ?thesis using less.hyps [of t e] less.prems 3 by (cases "t = []") simp_all
  next
    case (4 h1 h2 t e)
    show ?thesis using less.hyps [of t e] less.prems 4 by (cases "t = []") simp_all
  qed (use less.prems in simp)
qed

lemma syn33_none [simp]: "\<not> is_syn33 shl 0 c"
  by (simp add: is_syn33_def)

lemma canonize_host_form:
  assumes "url_canonize2 shl True h 0 RESERVED_MASK = Some d" "host_form h"
  shows "host_form d"
proof -
  have ip: "in_place (is_syn33 shl 0) RESERVED_MASK h = Some d" using assms(1) by (simp add: in_place_eqs)
  note hd = in_place_hd [OF ip] and sub = in_place_chars [OF ip unreserved_allowed(2)]
  have h: "h \<noteq> []" using assms(2) by (simp add: host_form_def)
  have br: "is_excluded RESERVED_MASK (CHR '']'')" "\<not> IS_HEX (CHR '']'')" "is_excluded RESERVED_MASK (CHR ''['')"
    "is_excluded RESERVED_MASK (CHR '':'')"
    by (simp_all add: excluded_reserved IS_UNRESERVED_def IS_HEX_def)
  show ?thesis
  proof (cases "hd h = CHR ''[''")
    case True
    then have l: "last h = CHR '']''" using assms(2) by (simp add: host_form_def)
    let ?r = "dropWhile (\<lambda>c. c \<noteq> CHR ''%'') h"
    obtain e where e: "canonize_loop (is_syn33 shl 0) RESERVED_MASK ?r = Some e" using ip unfolding in_place_def by blast
    have "?r = []"
    proof (rule ccontr)
      assume n: "?r \<noteq> []"
      have "last ?r = CHR '']''" using l last_dropWhile [OF n] by simp
      then show False using canonize_bracket [OF e n] br(1,2) syn33_none by metis
    qed
    then have "CHR ''%'' \<notin> set h" by (auto simp: dropWhile_eq_Nil_conv)
    then have "d = h" using ip in_place_unchecked [of h] by simp
    then show ?thesis using assms(2) by simp
  next
    case False
    then have "CHR '':'' \<notin> set d" using assms(2) sub br(4) by (auto simp: host_form_def)
    moreover have "hd d \<noteq> CHR ''[''" using hd(2) [OF h] False br(3) by auto
    ultimately show ?thesis using hd(1) h by (simp add: host_form_def)
  qed
qed

lemma avoids_in_place:
  assumes "in_place syn m s = Some d" "\<And>h. IS_UNRESERVED h \<Longrightarrow> \<not> is_excluded m h" "avoids s cs" "list_all (is_excluded m) cs"
  shows "avoids d cs"
  using in_place_chars [OF assms(1,2)] assms(3,4) by (auto simp: avoids_mem list_all_iff)

lemma canon_Some: "canon f x = Some y \<longleftrightarrow> (case x of None \<Rightarrow> y = None | Some t \<Rightarrow> \<exists>d. f t = Some d \<and> y = Some d)"
  by (auto simp: canon_def split: option.splits)

lemma excluded_lists:
  "list_all (is_excluded (masks_with_allowed SIP_USER_UNRESERVED)) '':@''"
  "list_all (is_excluded (masks_with_allowed SIP_PASS_UNRESERVED)) ''@''"
  "list_all (is_excluded (masks_with_allowed ''/:&+$'')) ''?#@''"
  "list_all (is_excluded RESERVED_MASK) ''/;?#@''"
  by (simp_all add: excluded_masks_allowed excluded_reserved IS_UNRESERVED_def SIP_USER_UNRESERVED_def SIP_PASS_UNRESERVED_def)

text \<open>The raw parts of a parsed SIP URL, before they are canonized.\<close>

definition raw_sip :: "url_t \<Rightarrow> bool" where
  "raw_sip u \<longleftrightarrow> \<not> url_root u
     \<and> (\<exists>sch. url_scheme u = Some sch \<and> url_get_type sch = url_type u)
     \<and> opt_all (\<lambda>t. avoids t '':@'') (url_user u)
     \<and> opt_all (\<lambda>t. avoids t ''@'' \<and> url_user u \<noteq> None) (url_password u)
     \<and> (\<exists>h. url_host u = Some h \<and> host_form h \<and> avoids h ''/;?#'' \<and> no_at u h)
     \<and> opt_all port_ok (url_port u)
     \<and> opt_all (\<lambda>t. avoids t ''?#'' \<and> no_at u t) (url_params u)
     \<and> opt_all (\<lambda>t. avoids t ''#'' \<and> no_at u t) (url_headers u)"

lemma split_scheme_parts:
  assumes "split_scheme shl s = Some (w, r)" "url_type w = url_sip \<or> url_type w = url_sips"
  obtains sch where "w = zero_url\<lparr>url_scheme := Some sch, url_type := url_get_type sch\<rparr>" "set r \<subseteq> set s"
  using assms by (auto simp: split_scheme_def Let_def zero_url_def dest: in_set_dropD split: if_splits)

lemma split_user_type: "url_type (split_user ty user u) = url_type u"
  by (simp add: split_user_def Let_def split: option.split)

lemma split_host_type: "split_host shl ty host u = Some v \<Longrightarrow> url_type v = url_type u"
  by (auto simp: split_host_def Let_def split: option.splits if_splits)

lemma split_rest_type: "split_rest r u = Some v \<Longrightarrow> url_type v = url_type u"
  by (auto simp: split_rest_def Let_def split: if_splits prod.splits)

lemma url_d0_raw:
  assumes "url_d0 shl s = Some u" "url_type u = url_sip \<or> url_type u = url_sips" "url_path u = None" "CHR 0x00 \<notin> set s"
  shows "raw_sip u"
proof -
  have star: "s \<noteq> ''*''" using assms(1,2) by (auto simp: url_d0_def)
  then obtain w r where p1: "split_scheme shl s = Some (w, r)" using assms(1) by (auto simp: url_d0_def bind_eq_Some_conv)
  obtain root user host s' n where p2: "split_authority (url_type w) r = (root, user, host, s', n)"
    by (cases "split_authority (url_type w) r")
  obtain v where p: "split_scheme shl s = Some (w, r)" "split_authority (url_type w) r = (root, user, host, s', n)"
      "split_host shl (url_type w) host (split_user (url_type w) user (w\<lparr>url_root := root\<rparr>)) = Some v"
      "split_rest (drop n s') v = Some u"
    using assms(1) star p1 p2 by (auto simp: url_d0_def Let_def bind_eq_Some_conv)
  have ty: "url_type w = url_sip \<or> url_type w = url_sips"
    using assms(2) split_rest_type [OF p(4)] split_host_type [OF p(3)] by (simp add: split_user_type)
  obtain sch where w: "w = zero_url\<lparr>url_scheme := Some sch, url_type := url_get_type sch\<rparr>" and r: "set r \<subseteq> set s"
    using split_scheme_parts [OF p(1) ty] .
  have au: "sip_authority r = (user, host, n)" "root = False" "s' = r"
    using p(2) ty by (auto simp: split_authority_def split: prod.splits)
  obtain hs where hs: "host = Some hs" "avoids hs ''/;?#''" "set hs \<subseteq> set r"
      "case user of None \<Rightarrow> CHR ''@'' \<notin> set r | Some us \<Rightarrow> CHR ''@'' \<notin> set us"
    using sip_authority_parts [OF au(1)] by blast
  let ?w = "w\<lparr>url_root := False\<rparr>"
  let ?u = "split_user (url_type w) user ?w"
  have us: "opt_all (\<lambda>t. CHR ''@'' \<notin> set t) user" using hs(4) by (simp add: opt_all_def split: option.splits)
  have w0: "url_user ?w = None" "url_password ?w = None" "url_port ?w = None" "url_path ?w = None" "url_params ?w = None"
      "url_headers ?w = None" by (simp_all add: w zero_url_def)
  have known: "url_type w \<noteq> url_unknown" using ty by auto
  note su = split_user_parts [OF refl w0(1,2) known us]
  have n0: "CHR 0x00 \<notin> set hs" using hs(3) r assms(4) by auto
  obtain h where h: "v = ?u\<lparr>url_host := Some h, url_port := url_port v\<rparr>" "host_form h" "set h \<subseteq> set hs" "opt_all port_ok (url_port v)"
    using split_host_parts [OF p(3) [unfolded hs(1) au(2)] ty n0] su(8) w0(3) by auto
  have v0: "url_path v = None" "url_params v = None" "url_headers v = None"
    using su(9-11) w0(4-6) by (subst h(1), simp)+
  have dr: "set (drop n r) \<subseteq> set r" by (rule set_drop_subset)
  have re: "opt_all (\<lambda>t. avoids t ''?#'' \<and> set t \<subseteq> set r) (url_params u)" "opt_all (\<lambda>t. avoids t ''#'' \<and> set t \<subseteq> set r) (url_headers u)"
    and u: "u = v\<lparr>url_params := url_params u, url_headers := url_headers u, url_fragment := url_fragment u\<rparr>"
    using split_rest_parts [OF p(4) [unfolded au(3)] assms(3) v0] dr by (auto simp: opt_all_def split: option.splits)
  have f: "url_user u = url_user ?u" "url_password u = url_password ?u" "url_type u = url_type ?w" "url_scheme u = url_scheme ?w"
      "url_root u = False" "url_host u = Some h" "url_port u = url_port v"
    by (subst u, subst h(1), simp add: su(4-6))+
  have at: "url_user u = None \<Longrightarrow> CHR ''@'' \<notin> set r" using hs(4) su(3) f(1) by (auto split: option.splits)
  show ?thesis unfolding raw_sip_def f(1,2,6,7)
  proof (intro conjI)
    show "\<not> url_root u" using f(5) by simp
    show "\<exists>sch. url_scheme u = Some sch \<and> url_get_type sch = url_type u" using f(3,4) by (simp add: w)
    show "opt_all (\<lambda>t. avoids t '':@'') (url_user ?u)" "opt_all (\<lambda>t. avoids t ''@'' \<and> url_user ?u \<noteq> None) (url_password ?u)"
      by (rule su(1), rule su(2))
    show "\<exists>h'. Some h = Some h' \<and> host_form h' \<and> avoids h' ''/;?#'' \<and> no_at u h'"
      using h(2,3) hs(2,3) at by (auto simp: avoids_mem no_at_def)
    show "opt_all port_ok (url_port v)" by (rule h(4))
    show "opt_all (\<lambda>t. avoids t ''?#'' \<and> no_at u t) (url_params u)" "opt_all (\<lambda>t. avoids t ''#'' \<and> no_at u t) (url_headers u)"
      using re at by (auto simp: opt_all_def no_at_def split: option.splits)
  qed
qed

lemma canonize_part:
  assumes "canon (in_place syn m) x = Some y" "is_excluded m (CHR ''%'')" "\<And>h. IS_UNRESERVED h \<Longrightarrow> \<not> is_excluded m h"
    and "opt_all (\<lambda>t. avoids t cs \<and> (b \<longrightarrow> CHR ''@'' \<notin> set t)) x" "list_all (is_excluded m) cs" "is_excluded m (CHR ''@'')"
  shows "opt_all (\<lambda>t. avoids t cs \<and> (b \<longrightarrow> CHR ''@'' \<notin> set t) \<and> in_place syn m t = Some t) y"
proof (cases x)
  case (Some t)
  then obtain d where d: "in_place syn m t = Some d" "y = Some d" using assms(1) by (auto simp: canon_Some)
  moreover have "avoids d cs" using avoids_in_place [OF d(1) assms(3) _ assms(5)] assms(4) Some by simp
  moreover have "b \<Longrightarrow> avoids d ''@''"
    using avoids_in_place [OF d(1) assms(3), of "''@''"] assms(4,6) Some by (simp add: avoids_mem)
  ultimately show ?thesis using in_place_idem [OF d(1) assms(2)] by (auto simp: avoids_mem)
qed (use assms(1) in \<open>simp add: canon_Some\<close>)

lemma url_d_sip_canonical:
  assumes "url_d shl s = Some u" "url_type u = url_sip \<or> url_type u = url_sips" "url_path u = None" "url_fragment u = None"
    and "CHR 0x00 \<notin> set s"
  shows "sip_canonical shl u"
proof -
  obtain v where v: "url_d0 shl s = Some v" using assms(1) by (auto simp: url_d_def bind_eq_Some_conv)
  obtain user password host path params headers fragment where c:
    "canon (canonize_user shl (url_type v)) (url_user v) = Some user"
    "canon (canonize_password shl (url_type v)) (url_password v) = Some password"
    "canon (\<lambda>t. url_canonize2 shl True t 0 RESERVED_MASK) (url_host v) = Some host"
    "canon (\<lambda>t. url_canonize shl True t (syn_mask ''/;=@,'') '':&+$'') (url_path v) = Some path"
    "canon (\<lambda>t. url_canonize shl True t (syn_mask '';=@,'') ''/:&+$'') (url_params v) = Some params"
    "canon (\<lambda>t. url_canonize3 True t RESERVED_MASK) (url_headers v) = Some headers"
    "canon (\<lambda>t. url_canonize2 shl True t 0 URIC_MASK) (url_fragment v) = Some fragment"
    and u: "u = v\<lparr>url_user := user, url_password := password, url_host := host, url_path := path,
               url_params := params, url_headers := headers, url_fragment := fragment\<rparr>"
    using assms(1) v by (auto simp: url_d_def bind_eq_Some_conv Let_def)
  have ty: "url_type v = url_sip \<or> url_type v = url_sips" using assms(2) u by simp
  have "url_path v = None" using c(4) assms(3) u by (auto simp: canon_Some split: option.splits)
  then have raw: "raw_sip v" by (rule url_d0_raw [OF v ty _ assms(5)])
  have sd: "canonize_user shl (url_type v) = in_place (is_syn33 shl 0) (masks_with_allowed SIP_USER_UNRESERVED)"
     "canonize_password shl (url_type v) = in_place (is_syn33 shl 0) (masks_with_allowed SIP_PASS_UNRESERVED)"
    using ty by (auto simp: canonize_user_def canonize_password_def in_place_eqs)
  have pe: "is_excluded (masks_with_allowed SIP_USER_UNRESERVED) (CHR ''%'')" "is_excluded (masks_with_allowed SIP_PASS_UNRESERVED) (CHR ''%'')"
    "is_excluded (masks_with_allowed ''/:&+$'') (CHR ''%'')"
    by (simp_all add: percent_excluded SIP_USER_UNRESERVED_def SIP_PASS_UNRESERVED_def)
  have un: "url_user u = None \<longleftrightarrow> url_user v = None" using c(1) u by (auto simp: canon_Some split: option.splits)
  have no: "no_at u t \<longleftrightarrow> no_at v t" for t by (simp add: no_at_def un)
  let ?n = "url_user v = None"
  have user: "opt_all (\<lambda>t. avoids t '':@'' \<and> (False \<longrightarrow> CHR ''@'' \<notin> set t)
      \<and> in_place (is_syn33 shl 0) (masks_with_allowed SIP_USER_UNRESERVED) t = Some t) user"
    by (rule canonize_part [OF c(1) [unfolded sd] pe(1) unreserved_allowed(1)]) (use raw excluded_lists(1) in \<open>auto simp: raw_sip_def\<close>)
  have password: "opt_all (\<lambda>t. avoids t ''@'' \<and> (False \<longrightarrow> CHR ''@'' \<notin> set t)
      \<and> in_place (is_syn33 shl 0) (masks_with_allowed SIP_PASS_UNRESERVED) t = Some t) password"
    by (rule canonize_part [OF c(2) [unfolded sd] pe(2) unreserved_allowed(1)])
       (use raw excluded_lists(2) in \<open>auto simp: raw_sip_def opt_all_def split: option.splits\<close>)
  have params: "opt_all (\<lambda>t. avoids t ''?#'' \<and> (?n \<longrightarrow> CHR ''@'' \<notin> set t)
      \<and> in_place (is_syn33 shl (syn_mask '';=@,'')) (masks_with_allowed ''/:&+$'') t = Some t) params"
    by (rule canonize_part [OF c(5) [unfolded in_place_eqs] pe(3) unreserved_allowed(1)])
       (use raw excluded_lists(3) in \<open>auto simp: raw_sip_def opt_all_def no_at_def split: option.splits\<close>)
  have headers: "opt_all (\<lambda>t. avoids t ''#'' \<and> (?n \<longrightarrow> CHR ''@'' \<notin> set t)
      \<and> in_place (\<lambda>_. True) RESERVED_MASK t = Some t) headers"
    by (rule canonize_part [OF c(6) [unfolded in_place_eqs] percent_excluded(2) unreserved_allowed(2)])
       (use raw excluded_lists(4) in \<open>auto simp: raw_sip_def opt_all_def no_at_def split: option.splits\<close>)
  have pw: "password \<noteq> None \<Longrightarrow> url_user v \<noteq> None"
    using raw c(2) by (auto simp: raw_sip_def canon_Some opt_all_def split: option.splits)
  obtain h where h: "url_host v = Some h" "host_form h" "avoids h ''/;?#''" "no_at v h" using raw by (auto simp: raw_sip_def)
  obtain h' where h': "url_canonize2 shl True h 0 RESERVED_MASK = Some h'" "host = Some h'"
    using c(3) h(1) by (auto simp: canon_Some)
  have hav: "avoids h' ''/;?#''" "no_at v h'"
    using avoids_in_place [OF h'(1) [unfolded in_place_eqs] unreserved_allowed(2), of "''/;?#''"]
      avoids_in_place [OF h'(1) [unfolded in_place_eqs] unreserved_allowed(2), of "''@''"] h(3,4) excluded_lists(4)
    by (simp_all add: no_at_def avoids_mem)
  have hc: "url_canonize2 shl True h' 0 RESERVED_MASK = Some h'" by (rule url_canonize_idem(2) [OF h'(1)])
  have uf: "url_type u = url_type v" "url_root u = url_root v" "url_scheme u = url_scheme v" "url_port u = url_port v"
    "url_user u = user" "url_password u = password" "url_host u = host" "url_params u = params" "url_headers u = headers"
    by (simp_all add: u)
  show ?thesis unfolding sip_canonical_def uf no
  proof (intro conjI)
    show "url_type v = url_sip \<or> url_type v = url_sips" by (rule ty)
    show "\<not> url_root v" "\<exists>sch. url_scheme v = Some sch \<and> url_get_type sch = url_type v" "opt_all port_ok (url_port v)"
      using raw by (simp_all add: raw_sip_def)
    show "opt_all (\<lambda>t. avoids t '':@'' \<and> canonize_user shl (url_type v) t = Some t) user"
      using user by (simp add: sd)
    show "opt_all (\<lambda>t. avoids t ''@'' \<and> canonize_password shl (url_type v) t = Some t \<and> user \<noteq> None) password"
      using password pw un uf(5) by (auto simp: sd opt_all_def split: option.splits)
    show "\<exists>h. host = Some h \<and> host_form h \<and> avoids h ''/;?#'' \<and> no_at v h \<and> url_canonize2 shl True h 0 RESERVED_MASK = Some h"
      using h'(2) canonize_host_form [OF h'(1) h(2)] hav hc by blast
    show "url_path u = None" "url_fragment u = None" by (rule assms(3), rule assms(4))
    show "opt_all (\<lambda>t. avoids t ''?#'' \<and> no_at v t \<and> url_canonize shl True t (syn_mask '';=@,'') ''/:&+$'' = Some t) params"
      "opt_all (\<lambda>t. avoids t ''#'' \<and> no_at v t \<and> url_canonize3 True t RESERVED_MASK = Some t) headers"
      using params headers by (simp_all add: in_place_eqs no_at_def)
  qed
qed

section \<open>Printing a URL\<close>

lemma memcpy_parts:
  "b + length t \<le> length buf \<Longrightarrow> length (memcpy buf b t) = length buf"
  "b \<le> length buf \<Longrightarrow> take (b + length t) (memcpy buf b t) = take b buf @ t"
  by (simp_all add: memcpy_def)

lemma put_pieces:
  assumes "fold put_piece ps (buf, b, n, c) = (buf', b', n', c')" "int b + n = int (length buf) \<or> \<not> c" "b \<le> length buf \<or> \<not> c"
  shows "b' = b + length (concat (map snd ps)) \<and> n' = n - int (length (concat (map snd ps)))
     \<and> length buf' = length buf \<and> (c' \<longrightarrow> int b' + n' = int (length buf) \<and> c)
     \<and> (c \<and> int (length (concat (map snd ps))) < n \<longrightarrow> c' \<and> take b' buf' = take b buf @ concat (map snd ps)
          \<and> drop b' buf' = drop b' buf)"
  using assms
proof (induction ps arbitrary: buf b n c)
  case Nil
  then show ?case by auto
next
  case (Cons p ps)
  obtain strict t where p: "p = (strict, t)" by (cases p)
  let ?c = "c \<and> (if strict then int (length t) < n else int (length t) \<le> n)"
  let ?buf = "if ?c then memcpy buf b t else buf"
  have f: "fold put_piece ps (?buf, b + length t, n - int (length t), ?c) = (buf', b', n', c')"
    using Cons.prems(1) by (simp add: p put_piece_def Let_def)
  have fit: "?c \<Longrightarrow> b + length t \<le> length buf" using Cons.prems(2) by (auto split: if_splits)
  then have l: "length ?buf = length buf" by (simp add: memcpy_parts)
  have i: "int (b + length t) + (n - int (length t)) = int (length ?buf) \<or> \<not> ?c" "b + length t \<le> length ?buf \<or> \<not> ?c"
    using Cons.prems(2) fit l by auto
  note IH = Cons.IH [OF f i]
  have "c \<and> int (length (concat (map snd (p # ps)))) < n \<Longrightarrow>
      c' \<and> take b' buf' = take b buf @ concat (map snd (p # ps)) \<and> drop b' buf' = drop b' buf"
  proof -
    assume a: "c \<and> int (length (concat (map snd (p # ps)))) < n"
    then have c: ?c by (simp add: p)
    have tk: "take (b + length t) (memcpy buf b t) = take b buf @ t"
      using Cons.prems(3) a by (intro memcpy_parts) simp
    have "b' = b + length t + length (concat (map snd ps))" using IH by simp
    then have dr: "drop b' (memcpy buf b t) = drop b' buf"
      using fit [OF c] by (simp add: memcpy_def ac_simps)
    show ?thesis using IH [unfolded eqTrueI [OF c] if_True] a tk dr by - (elim conjE, simp add: p)
  qed
  moreover have "b' = b + length (concat (map snd (p # ps)))" "n' = n - int (length (concat (map snd (p # ps))))"
      "length buf' = length buf" "c' \<longrightarrow> int b' + n' = int (length buf) \<and> c"
    using conjunct1 [OF IH] conjunct1 [OF conjunct2 [OF IH]] conjunct1 [OF conjunct2 [OF conjunct2 [OF IH]]]
      conjunct1 [OF conjunct2 [OF conjunct2 [OF conjunct2 [OF IH]]]] l
    by (simp_all only: p) simp_all
  ultimately show ?case by blast
qed

definition url_text_of :: "url_t \<Rightarrow> string" where
  "url_text_of u = (if url_type u = url_any then ''*'' else url_encoded u)"

lemma url_e_struct:
  obtains buf' where "url_e (Some buf) (Some (Us_url u)) = Inr (Some buf', int (length (url_text_of u)))"
    "length buf' = length buf" "buf \<noteq> [] \<Longrightarrow> CHR 0x00 \<in> set buf'"
    "length (url_text_of u) < length buf \<Longrightarrow> take (Suc (length (url_text_of u))) buf' = url_text_of u @ [CHR 0x00]"
proof (cases "url_type u = url_any")
  case True
  define buf' where "buf' = (if length buf > 1 then memcpy buf 0 [CHR ''*'', CHR 0x00]
      else if length buf > 0 then buf[0 := CHR 0x00] else buf)"
  show ?thesis
  proof (rule that [of buf'])
    show "url_e (Some buf) (Some (Us_url u)) = Inr (Some buf', int (length (url_text_of u)))"
      using True by (simp add: url_e_def url_text_of_def buf'_def Let_def)
    show "length buf' = length buf" by (auto simp: buf'_def memcpy_def)
    show "buf \<noteq> [] \<Longrightarrow> CHR 0x00 \<in> set buf'" by (auto simp: buf'_def memcpy_def set_update_memI)
    show "length (url_text_of u) < length buf \<Longrightarrow> take (Suc (length (url_text_of u))) buf' = url_text_of u @ [CHR 0x00]"
      using True by (simp add: url_text_of_def buf'_def memcpy_def)
  qed
next
  case False
  obtain b1 b n c where f: "fold put_piece (url_pieces u) (buf, 0, int (length buf), length buf > 0) = (b1, b, n, c)"
    by (metis prod_cases4)
  define buf' where "buf' = (if c \<and> 1 \<le> n then b1[b := CHR 0x00] else if length buf > 0 then b1[length buf - 1 := CHR 0x00] else b1)"
  have t: "url_text_of u = concat (map snd (url_pieces u))" using False by (simp add: url_text_of_def url_encoded_def)
  note p = put_pieces [OF f, folded t]
  have bn: "b = length (url_text_of u)" "length b1 = length buf" "c \<Longrightarrow> int b + n = int (length buf)" "n = int (length buf) - int b"
    using p by simp_all
  show ?thesis
  proof (rule that [of buf'])
    show "url_e (Some buf) (Some (Us_url u)) = Inr (Some buf', int (length (url_text_of u)))"
      using False f bn(1) by (simp add: url_e_def Let_def buf'_def)
    show "length buf' = length buf" by (simp add: buf'_def bn(2))
    show "buf \<noteq> [] \<Longrightarrow> CHR 0x00 \<in> set buf'"
      using bn by (auto simp: buf'_def intro!: set_update_memI)
    assume fit: "length (url_text_of u) < length buf"
    then have "c" "take b b1 = url_text_of u" using p by auto
    then show "take (Suc (length (url_text_of u))) buf' = url_text_of u @ [CHR 0x00]"
      using fit bn by (simp add: buf'_def take_Suc_conv_app_nth)
  qed
qed

lemma URL_PRINT_encoded: "url_type u \<noteq> url_any \<Longrightarrow> URL_PRINT u = url_encoded u"
proof -
  assume ty: "url_type u \<noteq> url_any"
  define chars where "chars f = concat (map snd f)" for f :: "(bool \<times> string) list"
  define str where "str x = (case x of None \<Rightarrow> [] | Some t \<Rightarrow> t)" for x :: "string option"
  have parts: "chars (f @ g) = chars f @ chars g" for f g by (simp add: chars_def)
  have last: "chars (opt_piece x (\<lambda>p. [(b, c # p)])) = (if x \<noteq> None then c # str x else [])" for x b c
    by (cases x) (simp_all add: chars_def str_def)
  have sch: "chars (opt_piece (url_scheme u) (\<lambda>sch. if sch = [] then [] else [(False, sch @ '':'')]))
      = str (url_scheme u) @ (if url_type u \<noteq> url_any \<and> str (url_scheme u) \<noteq> [] then '':'' else [])"
    using ty by (cases "url_scheme u") (simp_all add: chars_def str_def)
  have root: "chars (if c then [(False, ''//'')] else []) = (if c then ''//'' else [])" for c by (simp add: chars_def)
  have user: "chars (opt_piece x (\<lambda>user. (False, user) # opt_piece y (\<lambda>p. [(False, '':''), (False, p)])
        @ (if h then [(False, ''@'')] else [])))
      = str x @ (if x \<noteq> None \<and> y \<noteq> None then CHR '':'' # str y else []) @ (if x \<noteq> None \<and> h then ''@'' else [])" for x y h
    by (cases x; cases y) (simp_all add: chars_def str_def)
  have host: "chars (opt_piece x (\<lambda>h. (False, h) # opt_piece y (\<lambda>p. [(False, CHR '':'' # p)])))
      = str x @ (if x \<noteq> None \<and> y \<noteq> None then CHR '':'' # str y else [])" for x y
    by (cases x; cases y) (simp_all add: chars_def str_def)
  have path: "chars (opt_piece x (\<lambda>p. (if c then [(False, ''/'')] else []) @ [(True, p)]))
      = (if c \<and> x \<noteq> None then ''/'' else []) @ str x" for x c
    by (cases x) (simp_all add: chars_def str_def)
  have "url_encoded u = chars (url_pieces u)" by (simp add: url_encoded_def chars_def)
  then show ?thesis
    unfolding URL_PRINT_def url_pieces_def fmt_def Let_def str_def [symmetric] append_Cons append_Nil parts sch root user host path last
    by (simp only: concat.simps append_Nil2 append_assoc append_Nil append_Cons)
qed

lemma takeWhile_nul: "CHR 0x00 \<notin> set t \<Longrightarrow> takeWhile (\<lambda>c. c \<noteq> CHR 0x00) (t @ CHR 0x00 # r) = t"
  by (induction t) auto

lemma url_as_string_text: "CHR 0x00 \<notin> set (url_text_of u) \<Longrightarrow> url_as_string (Us_url u) = Inr (url_text_of u)"
proof -
  assume n: "CHR 0x00 \<notin> set (url_text_of u)"
  let ?l = "length (url_text_of u)"
  have "url_e None (Some (Us_url u)) = Inr (None, int ?l)"
    by (simp add: url_e_def url_text_of_def url_encoded_def)
  moreover obtain buf' where e: "url_e (Some (replicate (?l + 1) (CHR 0x00))) (Some (Us_url u)) = Inr (Some buf', int ?l)"
      "length buf' = ?l + 1" "take (Suc ?l) buf' = url_text_of u @ [CHR 0x00]"
    by (rule url_e_struct [of "replicate (?l + 1) (CHR 0x00)" u]) (simp del: replicate_Suc)
  moreover have "buf' = url_text_of u @ [CHR 0x00]" using e(2,3) by simp
  ultimately show ?thesis by (simp add: url_as_string_def takeWhile_nul [OF n] del: replicate_Suc)
qed

lemma url_len_exact:
  assumes "\<not> url_root u" "url_path u = None" "url_scheme u \<noteq> Some []" "url_host u \<noteq> None"
  shows "url_len u = length (url_encoded u)"
  using assms
  by (cases "url_scheme u"; cases "url_user u"; cases "url_password u"; cases "url_port u"; cases "url_params u";
      cases "url_headers u"; cases "url_fragment u") (auto simp: url_len_def url_encoded_def url_pieces_def Let_def)

section \<open>The guarantees\<close>

abbreviation (input) demo_shl :: "int \<Rightarrow> 32 word" where
  "demo_shl \<equiv> \<lambda>_. 0"

text \<open>A URL with every part a SIP URL can have.\<close>

definition demo_url :: url_t where
  "demo_url = \<lparr>url_type = url_sip, url_root = False, url_scheme = Some ''sip'', url_user = Some ''bob;x'',
     url_password = Some ''pw'', url_host = Some ''[::1]'', url_port = Some ''5060'', url_path = None,
     url_params = Some ''transport=udp'', url_headers = Some ''subject=hi'', url_fragment = None\<rparr>"

lemma demo_canonical: "sip_canonical demo_shl demo_url"
proof -
  have "url_get_type ''sip'' = url_sip"
    by (simp add: url_get_type_def test_schemes_def strncasecmp_eq_def strcasecmp_eq_def c_tolower_def)
  moreover have "port_ok ''5060''" by (simp add: port_ok_def is_digit_char_def)
  ultimately show ?thesis
    by (simp add: sip_canonical_def demo_url_def canonize_user_def canonize_password_def in_place_eqs in_place_unchecked
        no_at_def host_form_def)
qed

lemma demo_text: "url_encoded demo_url = ''sip:bob;x:pw@[::1]:5060;transport=udp?subject=hi''"
  by (simp add: url_encoded_def demo_url_def url_pieces_def)

text \<open>
  A SIP URL is read back from its text (C19). For every SIP or SIPS URL in canonical form, \<open>url_as_string\<close> and
  the \<open>printf\<close> format of the client give the same text, and \<open>url_d\<close> parses that text to the very same URL.
\<close>

theorem sip_url_round_trip:
  assumes "sip_canonical shl u" "CHR 0x00 \<notin> set (URL_PRINT u)"
  shows "url_as_string (Us_url u) = Inr (URL_PRINT u) \<and> url_d shl (URL_PRINT u) = Some u"
proof -
  have t: "url_type u \<noteq> url_any" using assms(1) by (auto simp: sip_canonical_def)
  then have "URL_PRINT u = url_encoded u" "url_text_of u = url_encoded u"
    by (simp_all add: URL_PRINT_encoded url_text_of_def)
  then show ?thesis using assms by (simp add: url_as_string_text url_d_canonical)
qed

theorem sip_url_round_trip_witness:
  "url_d demo_shl ''sip:bob;x:pw@[::1]:5060;transport=udp?subject=hi'' = Some demo_url"
proof -
  have p: "URL_PRINT demo_url = ''sip:bob;x:pw@[::1]:5060;transport=udp?subject=hi''"
    using URL_PRINT_encoded [of demo_url] demo_text by (simp add: demo_url_def)
  show ?thesis using sip_url_round_trip [OF demo_canonical] unfolding p by simp
qed

text \<open>
  Parsing establishes the form (C20). Whatever text \<open>url_d\<close> accepts as a SIP or SIPS URL without path and
  fragment, the result is in canonical form: the host is not empty and closes its brackets, the port is a number,
  empty or \<open>*\<close>, no part holds a delimiter of its own, and canonizing any part again leaves it as it is.
\<close>

theorem parsed_sip_url_canonical:
  assumes "url_d shl s = Some u" "CHR 0x00 \<notin> set s"
    and "url_type u = url_sip \<or> url_type u = url_sips" "url_path u = None" "url_fragment u = None"
  shows "sip_canonical shl u"
  by (rule url_d_sip_canonical [OF assms(1,3-5,2)])

theorem parsed_sip_url_canonical_witness:
  "\<exists>u. url_d demo_shl ''sip:bob;x:pw@[::1]:5060;transport=udp?subject=hi'' = Some u \<and> sip_canonical demo_shl u"
proof -
  have d: "url_d demo_shl ''sip:bob;x:pw@[::1]:5060;transport=udp?subject=hi'' = Some demo_url"
    using url_d_canonical [OF demo_canonical] unfolding demo_text .
  show ?thesis using parsed_sip_url_canonical [OF d] d by (simp add: demo_url_def)
qed

text \<open>The text of a \<open>url_string_t\<close>, and the buffers \<open>url_e\<close> can be given: for a URL that is a text itself, one
  that it fits in or that has two bytes.\<close>

definition url_string_text :: "url_string_t \<Rightarrow> string" where
  "url_string_text url = (case url of Us_str s \<Rightarrow> s | Us_url u \<Rightarrow> url_text_of u)"

definition buffer_ok :: "string \<Rightarrow> url_string_t \<Rightarrow> bool" where
  "buffer_ok buf url \<longleftrightarrow> (case url of Us_str s \<Rightarrow> length s < length buf \<or> 2 \<le> length buf | Us_url u \<Rightarrow> True)"

lemma url_e_str:
  assumes "buffer_ok buf (Us_str s)"
  shows "\<exists>buf'. url_e (Some buf) (Some (Us_str s)) = Inr (Some buf', int (length s))
     \<and> length buf' = length buf \<and> (buf \<noteq> [] \<longrightarrow> CHR 0x00 \<in> set buf')
     \<and> (length s < length buf \<longrightarrow> take (Suc (length s)) buf' = s @ [CHR 0x00])"
proof (cases "length s < length buf")
  case True
  then show ?thesis by (simp add: url_e_def memcpy_def Let_def)
next
  case False
  then have n: "2 \<le> length buf" using assms by (simp add: buffer_ok_def)
  let ?b = "(memcpy buf 0 (take (length buf - 2) s))[length buf - 1 := CHR 0x00]"
  have len: "length ?b = length buf" using n False by (simp add: memcpy_def)
  have "length buf - 1 < length (memcpy buf 0 (take (length buf - 2) s))" using len n by simp
  then have "CHR 0x00 \<in> set ?b" by (rule set_update_memI)
  with len n False show ?thesis by (simp add: url_e_def Let_def)
qed

text \<open>
  Printing into a buffer (C21). Given a URL structure and any buffer, or a URL that is a text itself and a
  buffer that has two bytes or room for the whole of it, \<open>url_e\<close> does not write outside the buffer, returns
  the length of the whole text, leaves a terminated string in a buffer that is not empty, and leaves the whole
  text there if it fits.
\<close>

theorem url_e_stays_in_buffer:
  assumes "buffer_ok buf url"
  shows "\<exists>buf'. url_e (Some buf) (Some url) = Inr (Some buf', int (length (url_string_text url)))
     \<and> length buf' = length buf \<and> (buf \<noteq> [] \<longrightarrow> CHR 0x00 \<in> set buf')
     \<and> (length (url_string_text url) < length buf \<longrightarrow>
          take (Suc (length (url_string_text url))) buf' = url_string_text url @ [CHR 0x00])"
proof (cases url)
  case (Us_str s)
  then show ?thesis using url_e_str assms by (simp add: url_string_text_def)
next
  case (Us_url u)
  then show ?thesis unfolding Us_url url_string_text_def url_string_t.case by - (rule url_e_struct [of buf u], blast)
qed

theorem url_e_stays_in_buffer_witness:
  "\<exists>buf'. url_e (Some (replicate 80 (CHR ''#''))) (Some (Us_url demo_url)) = Inr (Some buf', 48)
     \<and> take 49 buf' = ''sip:bob;x:pw@[::1]:5060;transport=udp?subject=hi'' @ [CHR 0x00]"
proof -
  have t: "url_text_of demo_url = ''sip:bob;x:pw@[::1]:5060;transport=udp?subject=hi''"
    using demo_text by (simp add: url_text_of_def demo_url_def)
  show ?thesis using url_e_stays_in_buffer [of "replicate 80 (CHR ''#'')" "Us_url demo_url"]
    unfolding buffer_ok_def url_string_text_def url_string_t.case t
    by (auto simp del: replicate.simps simp: numeral_eq_Suc)
qed

text \<open>
  With the root, \<open>url_len\<close> is two short of the length of the printed text: it does not count the two slashes.
\<close>

lemma url_len_misses_root:
  assumes "url_root u" "url_path u = None" "url_scheme u \<noteq> Some []" "url_host u \<noteq> None"
  shows "url_len u + 2 = length (url_encoded u)"
  using assms
  by (cases "url_scheme u"; cases "url_user u"; cases "url_password u"; cases "url_port u"; cases "url_params u";
      cases "url_headers u"; cases "url_fragment u") (auto simp: url_len_def url_encoded_def url_pieces_def Let_def)

end
