(* ===== verification/Sip_Params.thy ===== *)
theory Sip_Params
  imports Sip_Url_Edit Sip_Url_Laws Sip_Host_Laws
begin

text \<open>
  What the operations on URL parameters do to the list of parameters: a text is read as the list of its pieces
  between semicolons (\<open>semis\<close>), and each operation is related to a search or a filter of that list. Last, a
  copied URL is the URL.
\<close>

section \<open>The list of parameters\<close>

text \<open>The pieces in the order in which a loop over the text visits them; a trailing semicolon adds none.\<close>

function semis :: "string \<Rightarrow> string list" where
  "semis s = (if s = [] then [] else take (strcspn s '';'') s # semis (drop (strcspn s '';'' + 1) s))"
  by pat_completeness auto
termination by (relation "measure length") auto

declare semis.simps [simp del]

lemma semis_Nil [simp]: "semis [] = []"
  by (simp add: semis.simps)

lemma strcspn_semi: "CHR '';'' \<notin> set q \<Longrightarrow> strcspn q '';'' = length q"
  using strcspn_append [of q "'';''" "[]"] by auto

lemma char_at_length [simp]: "char_at q (length q) = CHR 0x00"
  by (simp add: char_at_def)

lemma semis_end: "q \<noteq> [] \<Longrightarrow> CHR '';'' \<notin> set q \<Longrightarrow> semis q = [q]"
  by (subst semis.simps) (simp add: strcspn_semi)

lemma semis_step: "CHR '';'' \<notin> set q \<Longrightarrow> semis (q @ CHR '';'' # s) = q # semis s"
  by (subst semis.simps) (simp add: strcspn_to)

lemma semis_cases:
  obtains (empty) "s = []" | (last) "s \<noteq> []" "CHR '';'' \<notin> set s"
  | (step) q t where "s = q @ CHR '';'' # t" "CHR '';'' \<notin> set q"
  by (metis split_list_first)

lemma semis_no_semi: "q \<in> set (semis s) \<Longrightarrow> CHR '';'' \<notin> set q"
proof (induction s rule: length_induct)
  case (1 s)
  show ?case
  proof (cases s rule: semis_cases)
    case (step q' t)
    then show ?thesis using 1 by (auto simp: semis_step)
  qed (use 1 in \<open>auto simp: semis_end\<close>)
qed

section \<open>Finding\<close>

text \<open>A piece has the name, alone or before an equals sign; or it only starts with the letters of the name.\<close>

definition named :: "string \<Rightarrow> string \<Rightarrow> bool" where
  "named tag q \<longleftrightarrow> strncasecmp_eq q tag (length tag) \<and> (length q = length tag \<or> char_at q (length tag) = CHR ''='')"

definition near_miss :: "string \<Rightarrow> string \<Rightarrow> bool" where
  "near_miss tag q \<longleftrightarrow> strncasecmp_eq q tag (length tag) \<and> \<not> named tag q"

definition param_result :: "nat \<Rightarrow> nat \<Rightarrow> string \<Rightarrow> nat \<times> string option" where
  "param_result tlen vlen q =
     (if length q = tlen then (1, if vlen > 0 then Some [] else None)
      else (let v = drop (tlen + 1) q in (length v + 1, if length v \<ge> vlen then None else Some v)))"

lemma strncasecmp_length: "strncasecmp_eq q tag (length tag) \<Longrightarrow> length tag \<le> length q"
  by (auto simp: strncasecmp_eq_def strcasecmp_eq_def dest!: map_eq_imp_length_eq)

lemma strncasecmp_prefix:
  "length tag \<le> length q \<Longrightarrow> strncasecmp_eq (q @ s) tag (length tag) \<longleftrightarrow> strncasecmp_eq q tag (length tag)"
  by (simp add: strncasecmp_eq_def)

text \<open>One step of the loop, by what the first piece is.\<close>

lemma url_param_step:
  assumes s: "s = q @ r" "s \<noteq> []" "CHR '';'' \<notin> set q" "r = [] \<or> hd r = CHR '';''" and c: "c_string q"
  shows "url_param_loop tag (length tag) vlen s =
     (if named tag q then Inr (param_result (length tag) vlen q)
      else if r \<noteq> [] then url_param_loop tag (length tag) vlen (tl r)
      else if near_miss tag q then Inl Out_of_bounds
      else Inr (0, None))"
proof -
  have n: "strcspn s '';'' = length q"
    using s by (cases r) (auto simp: strcspn_semi strcspn_to)
  have at: "char_at s (length q) = CHR 0x00 \<longleftrightarrow> r = []" using s by (cases r) auto
  have tl: "drop (length q + 1) s = tl r" using s by (cases r) auto
  have len: "length q + 1 > length s \<longleftrightarrow> r = []" using s by (cases r) auto
  show ?thesis
  proof (cases "length q < length tag")
    case True
    then have "\<not> strncasecmp_eq q tag (length tag)" using strncasecmp_length by force
    then show ?thesis using True s(2) n at tl
      by (subst url_param_loop.simps) (auto simp: named_def near_miss_def Let_def)
  next
    case False
    then have pre: "strncasecmp_eq s tag (length tag) \<longleftrightarrow> strncasecmp_eq q tag (length tag)"
      using s strncasecmp_prefix by simp
    have eq: "char_at s (length tag) = char_at q (length tag)" if "length q \<noteq> length tag"
      using False that s by (simp add: char_at_def nth_append)
    have v: "take (length q - length tag - 1) (drop (length tag + 1) s) = drop (length tag + 1) q"
      using False s by simp
    show ?thesis
      using False s(2) n at tl len pre eq v
      by (subst url_param_loop.simps) (simp add: named_def near_miss_def param_result_def Let_def)
  qed
qed

lemma url_param_loop_find:
  "c_string s \<Longrightarrow>
   url_param_loop tag (length tag) vlen s =
     (case List.find (named tag) (semis s) of
        Some q \<Rightarrow> Inr (param_result (length tag) vlen q)
      | None \<Rightarrow> if s \<noteq> [] \<and> last s \<noteq> CHR '';'' \<and> near_miss tag (last (semis s)) then Inl Out_of_bounds else Inr (0, None))"
proof (induction s rule: length_induct)
  case (1 s)
  show ?case
  proof (cases s rule: semis_cases)
    case empty
    then show ?thesis by (simp add: url_param_loop.simps)
  next
    case last
    then have "last s \<noteq> CHR '';''" by (metis last_in_set)
    then show ?thesis
      using last 1(2) url_param_step [of s s "[]" tag vlen] by (simp add: semis_end)
  next
    case (step q t)
    then have IH: "url_param_loop tag (length tag) vlen t =
        (case List.find (named tag) (semis t) of
           Some q \<Rightarrow> Inr (param_result (length tag) vlen q)
         | None \<Rightarrow> if t \<noteq> [] \<and> last t \<noteq> CHR '';'' \<and> near_miss tag (last (semis t)) then Inl Out_of_bounds else Inr (0, None))"
      using 1 by auto
    have ne: "t \<noteq> [] \<Longrightarrow> semis t \<noteq> []" by (subst semis.simps) simp
    have "url_param_loop tag (length tag) vlen s =
        (if named tag q then Inr (param_result (length tag) vlen q) else url_param_loop tag (length tag) vlen t)"
      using url_param_step [of s q "CHR '';'' # t" tag vlen] step 1(2) by simp
    then show ?thesis using IH ne step by (auto simp: semis_step)
  qed
qed

text \<open>(C28) For a name without an equals sign at its end, \<open>url_param\<close> finds the first parameter of that name,
  whatever the case. It stores the value and a NUL if they fit the buffer; if they do not, it stores nothing;
  either way it returns the length of the value with its NUL. If no parameter has the name, it returns zero, unless
  the text ends in a parameter that starts with the name and goes on with other letters: then the loop steps
  over the end of the text.\<close>

theorem url_param_finds:
  assumes "c_string s" "tag = [] \<or> last tag \<noteq> CHR ''=''"
  shows "url_param (Some s) tag vlen =
     (case List.find (named tag) (semis s) of
        Some q \<Rightarrow> Inr (param_result (length tag) vlen q)
      | None \<Rightarrow> if s \<noteq> [] \<and> last s \<noteq> CHR '';'' \<and> near_miss tag (last (semis s)) then Inl Out_of_bounds else Inr (0, None))"
  using url_param_loop_find [OF assms(1), of tag vlen] assms(2) by (auto simp: url_param_def)

lemma demo_semis: "semis ''lr;transport=tcp'' = [''lr'', ''transport=tcp'']" "semis ''lrx'' = [''lrx'']"
  "semis ''user=phone'' = [''user=phone'']"
  using semis_step [of "''lr''" "''transport=tcp''"] by (simp_all add: semis_end)

lemma demo_named:
  "named ''Transport'' ''transport=tcp''" "\<not> named ''Transport'' ''lr''" "\<not> named ''lr'' ''lrx''" "near_miss ''lr'' ''lrx''"
  "\<not> named ''user'' ''lr''" "\<not> named ''user'' ''transport=tcp''"
  by code_simp+

theorem url_param_finds_witness:
  "url_param (Some ''lr;transport=tcp'') ''Transport'' 10 = Inr (4, Some ''tcp'')
   \<and> url_param (Some ''lrx'') ''lr'' 10 = Inl Out_of_bounds"
  using url_param_finds [of "''lr;transport=tcp''" "''Transport''" 10] url_param_finds [of "''lrx''" "''lr''" 10]
  by (simp add: demo_semis demo_named param_result_def)

section \<open>Adding\<close>

lemma find_append_param:
  assumes "\<not> P []"
  shows "List.find P (semis (s @ CHR '';'' # q)) = (case List.find P (semis s) of Some x \<Rightarrow> Some x | None \<Rightarrow> List.find P (semis q))"
proof (induction s rule: length_induct)
  case (1 s)
  show ?case
  proof (cases s rule: semis_cases)
    case empty
    then show ?thesis using assms semis_step [of "[]" q] by simp
  next
    case last
    then show ?thesis by (simp add: semis_end semis_step)
  next
    case (step q' t)
    then have "List.find P (semis (t @ CHR '';'' # q))
        = (case List.find P (semis t) of Some x \<Rightarrow> Some x | None \<Rightarrow> List.find P (semis q))"
      using 1 by auto
    then show ?thesis using step semis_step [of q' "t @ CHR '';'' # q"] by (simp add: semis_step)
  qed
qed

text \<open>(C29) A parameter that has been added is found with its value, if the URL had none of that name before.\<close>

theorem added_param_is_found:
  assumes "url_param_add True url (tag @ CHR ''='' # v) = (0, url')"
    "c_string (tag @ CHR ''='' # v)" "opt_all c_string (url_params url)"
    "tag \<noteq> []" "last tag \<noteq> CHR ''=''" "CHR '';'' \<notin> set (tag @ v)"
    "opt_all (\<lambda>s. List.find (named tag) (semis s) = None) (url_params url)" "length v < vlen"
  shows "url_param (url_params url') tag vlen = Inr (length v + 1, Some v)"
proof -
  let ?q = "tag @ CHR ''='' # v"
  have q: "semis ?q = [?q]" using assms(4,6) by (intro semis_end) auto
  have named: "named tag ?q" by (simp add: named_def strncasecmp_eq_def strcasecmp_eq_def)
  have res: "param_result (length tag) vlen ?q = (length v + 1, Some v)"
    using assms(8) by (simp add: param_result_def Let_def)
  define s where "s = (case url_params url of None \<Rightarrow> [] | Some p \<Rightarrow> p @ '';'') @ ?q"
  have s: "url_params url' = Some s" using assms(1) by (auto simp: url_param_add_def s_def)
  have "List.find (named tag) (semis s) = Some ?q"
  proof (cases "url_params url")
    case None
    then show ?thesis using q named by (simp add: s_def)
  next
    case (Some p)
    have "\<not> named tag []" using assms(4) by (auto simp: named_def strncasecmp_eq_def strcasecmp_eq_def)
    then show ?thesis using find_append_param [of "named tag" p ?q] Some q named assms(7) by (simp add: s_def)
  qed
  moreover have "c_string s" using assms(2,3) by (cases "url_params url") (auto simp: s_def)
  ultimately show ?thesis
    using url_param_loop_find [of s tag vlen] assms(5) res s by (simp add: url_param_def)
qed

theorem added_param_is_found_witness:
  "url_param (url_params (snd (url_param_add True (zero_url\<lparr>url_params := Some ''lr;transport=tcp''\<rparr>) ''user=phone''))) ''user'' 10
     = Inr (6, Some ''phone'')"
  using added_param_is_found [of "zero_url\<lparr>url_params := Some ''lr;transport=tcp''\<rparr>" "''user''" "''phone''"
      "snd (url_param_add True (zero_url\<lparr>url_params := Some ''lr;transport=tcp''\<rparr>) ''user=phone'')" 10]
  by (simp add: url_param_add_def demo_semis demo_named)

section \<open>Removing\<close>

text \<open>The parameters that are not empty.\<close>

definition params_of :: "string \<Rightarrow> string list" where
  "params_of s = filter (\<lambda>q. q \<noteq> []) (semis s)"

lemma params_of_Nil [simp]: "params_of [] = []"
  by (simp add: params_of_def)

lemma params_of_join: "params_of (x @ CHR '';'' # y) = params_of x @ params_of y"
proof (induction x rule: length_induct)
  case (1 x)
  show ?case
  proof (cases x rule: semis_cases)
    case empty
    then show ?thesis using semis_step [of "[]" y] by (simp add: params_of_def)
  next
    case last
    then show ?thesis by (simp add: semis_end semis_step params_of_def)
  next
    case (step q t)
    then have "params_of (t @ CHR '';'' # y) = params_of t @ params_of y" using 1 by auto
    then show ?thesis using step semis_step [of q "t @ CHR '';'' # y"] by (simp add: semis_step params_of_def)
  qed
qed

lemma params_of_single: "CHR '';'' \<notin> set q \<Longrightarrow> params_of q = (if q = [] then [] else [q])"
  by (simp add: params_of_def semis_end)

text \<open>A text that is empty or ends in a semicolon.\<close>

definition closed :: "string \<Rightarrow> bool" where
  "closed a \<longleftrightarrow> a = [] \<or> last a = CHR '';''"

lemma params_of_closed:
  assumes "closed a"
  shows "params_of (a @ b) = params_of a @ params_of b" "a \<noteq> [] \<Longrightarrow> params_of (butlast a) = params_of a"
proof -
  have both: "params_of (a @ b) = params_of a @ params_of b \<and> (a \<noteq> [] \<longrightarrow> params_of (butlast a) = params_of a)"
  proof (cases a rule: rev_cases)
    case (snoc a' c)
    then have "a = a' @ '';''" using assms by (simp add: closed_def)
    then show ?thesis using params_of_join [of a' b] params_of_join [of a' "[]"] by simp
  qed simp
  then show "params_of (a @ b) = params_of a @ params_of b" "a \<noteq> [] \<Longrightarrow> params_of (butlast a) = params_of a"
    by simp_all
qed

lemma named_prefix:
  assumes "CHR '';'' \<notin> set name" "c_string q" "r = [] \<or> hd r = CHR '';''"
  shows "strncasecmp_eq (q @ r) name (length name) \<and>
      \<not> (char_at (q @ r) (length name) \<noteq> CHR ''='' \<and> char_at (q @ r) (length name) \<noteq> CHR '';''
         \<and> char_at (q @ r) (length name) \<noteq> CHR 0x00)
    \<longleftrightarrow> named name q \<or> (\<exists>k. k = char_at q (length name) \<and> strncasecmp_eq q name (length name) \<and> length q > length name
         \<and> k = CHR '';'')"
proof (cases "length name \<le> length q")
  case True
  then have pre: "strncasecmp_eq (q @ r) name (length name) \<longleftrightarrow> strncasecmp_eq q name (length name)"
    by (rule strncasecmp_prefix)
  show ?thesis
  proof (cases "length q = length name")
    case eq: True
    have "char_at (q @ r) (length name) = char_at r 0" using eq char_at_append(1) [of q r] by simp
    moreover have "char_at r 0 = CHR 0x00 \<or> char_at r 0 = CHR '';''" using assms(3) by (cases r) auto
    ultimately show ?thesis unfolding pre named_def using eq by auto
  next
    case False
    then have at: "char_at (q @ r) (length name) = q ! length name" "char_at q (length name) = q ! length name"
      using True by (simp_all add: char_at_def nth_append)
    have "q ! length name \<noteq> CHR 0x00" using assms(2) True False by (metis le_neq_implies_less nth_mem)
    then show ?thesis unfolding pre named_def at using True False by auto
  qed
next
  case False
  have "\<not> strncasecmp_eq (q @ r) name (length name)"
  proof
    assume eq: "strncasecmp_eq (q @ r) name (length name)"
    then have len: "length name \<le> length (q @ r)" by (rule strncasecmp_length)
    then obtain r' where r: "r = CHR '';'' # r'" using False assms(3) by (cases r) auto
    have "map c_tolower (take (length name) (q @ r)) ! length q = map c_tolower (take (length name) name) ! length q"
      using eq by (simp add: strncasecmp_eq_def strcasecmp_eq_def)
    then have "c_tolower (CHR '';'') = c_tolower (name ! length q)"
      using False r len by (simp add: nth_append)
    moreover have "c_tolower c = CHR '';'' \<Longrightarrow> c = CHR '';''" for c
    proof (rule ccontr)
      assume c: "c_tolower c = CHR '';''" "c \<noteq> CHR '';''"
      then have up: "65 \<le> (of_char c :: nat)" "(of_char c :: nat) \<le> 90" "char_of (of_char c + 32 :: nat) = CHR '';''"
        by (auto simp: c_tolower_def Let_def split: if_splits)
      have "of_char (char_of (of_char c + 32 :: nat)) = (59 :: nat)" unfolding up(3) by simp
      then show False using up(1,2) by simp
    qed
    ultimately have "name ! length q = CHR '';''" by (simp add: c_tolower_def)
    then show False using assms(1) False by (metis not_le nth_mem)
  qed
  moreover have "\<not> named name q" using False by (auto simp: named_def dest: strncasecmp_length)
  ultimately show ?thesis using False by auto
qed

lemma strip_param_loop_filter:
  assumes name: "name \<noteq> []" "CHR '';'' \<notin> set name"
  shows "closed a \<Longrightarrow> c_string (a @ b) \<Longrightarrow>
     \<exists>t. strip_param_loop name (length name) (a @ b) (length a) = Some t
       \<and> params_of t = params_of a @ filter (\<lambda>q. \<not> named name q) (params_of b)"
proof (induction "length b" arbitrary: a b rule: less_induct)
  case less
  let ?loop = "strip_param_loop name (length name)"
  show ?case
  proof (cases "b = []")
    case True
    then show ?thesis by (subst strip_param_loop.simps) simp
  next
    case False
    obtain q r where b: "b = q @ r" and q: "CHR '';'' \<notin> set q" and r: "r = [] \<or> hd r = CHR '';''"
      by (cases b rule: semis_cases) auto
    have n: "strcspn b '';'' = length q" using b q r by (cases r) (auto simp: strcspn_semi strcspn_to)
    have cq: "c_string q" using less.prems(2) b by simp
    have here: "char_at (a @ b) (length a) \<noteq> CHR 0x00" using False less.prems(2) by (cases b) auto
    have nosemi: "char_at q k \<noteq> CHR '';''" for k using q by (auto simp: char_at_def dest: nth_mem)
    have test: "\<not> strncasecmp_eq (drop (length a) (a @ b)) name (length name)
         \<or> (char_at (a @ b) (length a + length name) \<noteq> CHR ''='' \<and> char_at (a @ b) (length a + length name) \<noteq> CHR '';''
            \<and> char_at (a @ b) (length a + length name) \<noteq> CHR 0x00)
       \<longleftrightarrow> \<not> named name q"
      using named_prefix [OF name(2) cq r] nosemi b by auto
    have par_b: "params_of b = params_of q @ params_of (tl r)"
      using b r params_of_join [of q "tl r"] by (cases r) auto
    show ?thesis
    proof (cases "named name q")
      case no: False
      have end_q: "char_at (a @ b) (length a + length q) = CHR 0x00 \<longleftrightarrow> r = []"
        unfolding b using r by (cases r) auto
      show ?thesis
      proof (cases "r = []")
        case True
        have "?loop (a @ b) (length a) = Some (a @ b)"
          using here test no n end_q True by (subst strip_param_loop.simps) (simp add: Let_def)
        moreover have "params_of (a @ b) = params_of a @ filter (\<lambda>q. \<not> named name q) (params_of b)"
          using params_of_closed(1) [OF less.prems(1)] True b q no by (simp add: params_of_single)
        ultimately show ?thesis by blast
      next
        case False
        then obtain t where t: "r = CHR '';'' # t" using r by (cases r) auto
        let ?a = "a @ q @ '';''"
        have "?loop (a @ b) (length a) = ?loop (?a @ t) (length ?a)"
          using here test no n end_q False b t by (subst strip_param_loop.simps) (simp add: Let_def)
        moreover have "\<exists>t'. ?loop (?a @ t) (length ?a) = Some t'
            \<and> params_of t' = params_of ?a @ filter (\<lambda>q. \<not> named name q) (params_of t)"
          using less.prems b t by (intro less.hyps) (auto simp: closed_def)
        moreover have "params_of ?a = params_of a @ params_of q"
          using params_of_closed(1) [OF less.prems(1), of "q @ '';''"] params_of_join [of q "[]"] by simp
        moreover have "filter (\<lambda>q. \<not> named name q) (params_of q) = params_of q"
          using no q by (simp add: params_of_single)
        ultimately show ?thesis using par_b t by auto
      qed
    next
      case yes: True
      then have long: "length name \<le> length q" by (auto simp: named_def dest: strncasecmp_length)
      define k where "k = length q + (if r = [] then 0 else 1)"
      have span: "length name + strcspn (drop (length a + length name) (a @ b)) '';'' = length q"
      proof -
        have "CHR '';'' \<notin> set (drop (length name) q)" using q by (auto dest: in_set_dropD)
        then have "strcspn (drop (length name) q @ r) '';'' = length q - length name"
          using r by (cases r) (auto simp: strcspn_semi strcspn_to)
        then show ?thesis using long b by simp
      qed
      have end_q: "char_at (a @ b) (length a + length q) = CHR '';'' \<longleftrightarrow> r \<noteq> []"
        unfolding b using r by (cases r) auto
      have rest: "drop k b = tl r" "drop (length a + k) (a @ b) = tl r" unfolding k_def b using r by (cases r; simp)+
      have removed: "filter (\<lambda>q. \<not> named name q) (params_of b) = filter (\<lambda>q. \<not> named name q) (params_of (tl r))"
        unfolding par_b using yes q by (simp add: params_of_single)
      have step: "?loop (a @ b) (length a) =
          (if a = [] then ?loop (tl r) 0
           else if tl r = [] then Some (butlast a) else ?loop (a @ tl r) (length a))"
      proof -
        have len: "length (a @ b) - (length a + k) = 0 \<longleftrightarrow> tl r = []"
          using rest(2) by (metis drop_eq_Nil diff_is_0_eq)
        have "take (length a - 1) (a @ b) = butlast a" if "a \<noteq> []" by (simp add: butlast_conv_take)
        then show ?thesis
          using here test yes span end_q rest len
          by (subst strip_param_loop.simps) (auto simp: Let_def k_def split: if_splits)
      qed
      have shorter: "length (tl r) < length b" using long name(1) b by (cases q) auto
      show ?thesis
      proof (cases "a \<noteq> [] \<and> tl r = []")
        case True
        then show ?thesis using step removed params_of_closed(2) [OF less.prems(1)] by auto
      next
        case False
        have "set (tl r) \<subseteq> set b" using b by (cases r) auto
        then have "\<exists>t. ?loop (a @ tl r) (length a) = Some t
            \<and> params_of t = params_of a @ filter (\<lambda>q. \<not> named name q) (params_of (tl r))"
          using less.prems by (intro less.hyps [OF shorter]) auto
        then show ?thesis using step removed False by auto
      qed
    qed
  qed
qed

text \<open>(C30) Removing a parameter returns for every text, and leaves exactly the parameters of other names, in their
  order; a null pointer stands for no parameters left.\<close>

theorem strip_param_returns:
  assumes "c_string s" "name \<noteq> []" "CHR '';'' \<notin> set name"
  shows "\<exists>r. url_strip_param_string (Some s) (Some name) = Some r
     \<and> params_of (or_empty r) = filter (\<lambda>q. \<not> named name q) (params_of s)"
proof -
  obtain t where t: "strip_param_loop name (length name) s 0 = Some t" "params_of t = filter (\<lambda>q. \<not> named name q) (params_of s)"
    using strip_param_loop_filter [OF assms(2,3), of "[]" s] assms(1) by (auto simp: closed_def)
  then show ?thesis by (auto simp: url_strip_param_string_def or_empty_def)
qed

theorem strip_param_returns_witness:
  "\<exists>r. url_strip_param_string (Some ''lr;transport=tcp'') (Some ''LR'') = Some r
     \<and> params_of (or_empty r) = [''transport=tcp'']"
proof -
  have "named ''LR'' ''lr''" "\<not> named ''LR'' ''transport=tcp''" by code_simp+
  then show ?thesis
    using strip_param_returns [of "''lr;transport=tcp''" "''LR''"] by (simp add: params_of_def demo_semis)
qed

section \<open>Removing what concerns the transport\<close>

definition transport_param :: "string \<Rightarrow> bool" where
  "transport_param q \<longleftrightarrow> list_ex (\<lambda>tag. named tag q) transport_tags"

lemma memmove_down:
  assumes "dst \<le> src" "src + k \<le> length buf"
  shows "memmove buf dst src k = take dst buf @ take k (drop src buf) @ drop (dst + k) buf"
proof (rule nth_equalityI)
  show "length (memmove buf dst src k) = length (take dst buf @ take k (drop src buf) @ drop (dst + k) buf)"
    using assms by simp
  fix i assume "i < length (memmove buf dst src k)"
  then show "memmove buf dst src k ! i = (take dst buf @ take k (drop src buf) @ drop (dst + k) buf) ! i"
    using assms by (auto simp: memmove_def nth_append)
qed

lemma c_str_text: "c_string s \<Longrightarrow> c_str (s @ CHR 0x00 # t) = s"
  by (induction s) (auto simp: c_str_def)

lemma match_transport:
  assumes "c_string q" "CHR '';'' \<notin> set q" "r = [] \<or> hd r = CHR '';''"
  shows "list_ex (URL_PARAM_MATCH (q @ r)) transport_tags \<longleftrightarrow> transport_param q"
proof -
  have "char_at q k \<noteq> CHR '';''" for k using assms(2) by (auto simp: char_at_def dest: nth_mem)
  then have "URL_PARAM_MATCH (q @ r) tag \<longleftrightarrow> named tag q" if "CHR '';'' \<notin> set tag" for tag
    using named_prefix [OF that assms(1,3)] by (auto simp: URL_PARAM_MATCH_def)
  then show ?thesis by (simp add: transport_param_def transport_tags_def)
qed

lemma transport_param_length: "transport_param q \<Longrightarrow> 3 \<le> length q"
proof -
  assume "transport_param q"
  then obtain tag where tag: "tag \<in> set transport_tags" "named tag q" by (auto simp: transport_param_def list_ex_iff)
  have "length tag \<le> length q" using tag(2) by (auto simp: named_def dest: strncasecmp_length)
  moreover have "3 \<le> length tag" using tag(1) by (auto simp: transport_tags_def)
  ultimately show ?thesis by simp
qed

text \<open>
  The state of the loop: the text \<open>s\<close> is still to be read; the text kept is in front of \<open>d\<close>, followed by a
  semicolon if anything was kept.
\<close>

definition stripping :: "string \<Rightarrow> string \<Rightarrow> nat \<Rightarrow> nat \<Rightarrow> string \<Rightarrow> bool" where
  "stripping kept buf p d s \<longleftrightarrow>
     drop p buf = s @ [CHR 0x00] \<and> c_string s \<and> d \<le> p \<and> take d buf = kept \<and> c_string kept
     \<and> (d \<noteq> 0 \<and> d < p \<longrightarrow> buf ! d = CHR '';'' \<or> s = [] \<and> buf ! d = CHR 0x00) \<and> (d \<noteq> 0 \<and> s \<noteq> [] \<longrightarrow> d < p)
     \<and> (d = 0 \<and> p = 1 \<longrightarrow> buf ! 0 = CHR '';'')"

lemma drop_replaced: "length pre \<le> k \<Longrightarrow> drop k (pre @ drop (length pre) buf) = drop k buf"
  by simp

lemma stripping_keep:
  assumes I: "stripping kept buf p d s" and s: "s = q @ r" "q \<noteq> []" "CHR '';'' \<notin> set q" "r = [] \<or> hd r = CHR '';''"
    and d': "d' = (if p \<noteq> d \<and> d \<noteq> 0 then d + 1 else d)"
    and buf': "buf' = (if p \<noteq> d' then memmove buf d' p (length q + 1) else buf)"
  shows "stripping (if d = 0 then q else kept @ CHR '';'' # q) buf' (p + length q + (if r = [] then 0 else 1)) (d' + length q) (tl r)"
proof -
  have buf: "drop p buf = q @ r @ [CHR 0x00]" and d: "d \<le> p" "take d buf = kept" "d \<noteq> 0 \<longrightarrow> d < p \<and> buf ! d = CHR '';''"
    using I s by (auto simp: stripping_def)
  have len: "length buf = p + length q + length r + 1"
  proof -
    have "length (drop p buf) = length q + length r + 1" unfolding buf by simp
    then show ?thesis by simp
  qed
  have d'p: "d' \<le> p" and zero: "d = 0 \<Longrightarrow> d' = 0" using d d' by auto
  have front: "take d' buf = (if d = 0 then [] else kept @ '';'')"
    using d d' len by (auto simp: take_Suc_conv_app_nth)
  define x where "x = hd (r @ [CHR 0x00])"
  have piece: "take (length q + 1) (drop p buf) = q @ [x]" unfolding buf x_def by (cases r) auto
  have b: "buf' = take d' buf @ (q @ [x]) @ drop (d' + length q + 1) buf"
  proof (cases "p = d'")
    case True
    have "buf = take p buf @ take (length q + 1) (drop p buf) @ drop (length q + 1) (drop p buf)"
      by (simp only: append_take_drop_id)
    then show ?thesis using True buf' piece by (simp add: add.commute add.left_commute)
  next
    case False
    then show ?thesis using buf' memmove_down [of d' p "length q + 1" buf] d'p len piece by (simp add: add.assoc)
  qed
  have lend: "length (take d' buf) = d'" using d'p len by simp
  have "take (d' + length q) buf' = take d' buf @ q" unfolding b using lend by simp
  moreover have "buf' ! (d' + length q) = x" unfolding b using lend by (simp add: nth_append)
  moreover have "drop (p + length q + (if r = [] then 0 else 1)) buf' = tl r @ [CHR 0x00]"
  proof (cases "p = d'")
    case True
    then have "buf' = buf" using buf' by simp
    then have "drop (p + length q) buf' = r @ [CHR 0x00]" using buf by (metis append_eq_conv_conj drop_drop add.commute)
    then show ?thesis by (cases r) (auto simp: drop_Suc simp flip: tl_drop)
  next
    case False
    have pre: "length (take d' buf @ q @ [x]) = d' + length q + 1" using lend by simp
    have "buf' = (take d' buf @ q @ [x]) @ drop (length (take d' buf @ q @ [x])) buf" unfolding pre using b by simp
    moreover have "length (take d' buf @ q @ [x]) \<le> p + length q" unfolding pre using d'p False by simp
    ultimately have "drop (p + length q) buf' = drop (p + length q) buf" using drop_replaced by metis
    also have "\<dots> = r @ [CHR 0x00]" using buf by (metis append_eq_conv_conj drop_drop add.commute)
    finally show ?thesis by (cases r) (auto simp: drop_Suc simp flip: tl_drop)
  qed
  moreover have "x = (if r = [] then CHR 0x00 else CHR '';'')" using s(4) by (auto simp: x_def)
  moreover have "c_string (tl r)" using I s by (cases r) (auto simp: stripping_def)
  moreover have "c_string q" "c_string kept" using I s by (auto simp: stripping_def)
  ultimately show ?thesis
    using s(2) d'p front zero by (cases "d = 0"; cases "r = []") (auto simp: stripping_def)
qed

lemma stripping_skip:
  assumes I: "stripping kept buf p d s" and s: "s = q @ r" "s \<noteq> []" "r = [] \<or> hd r = CHR '';''"
    and q: "q = [] \<or> 3 \<le> length q"
  shows "stripping kept buf (p + length q + (if r = [] then 0 else 1)) d (tl r)"
proof -
  have buf: "drop p buf = q @ r @ [CHR 0x00]" using I s by (auto simp: stripping_def)
  then have "drop (p + length q) buf = r @ [CHR 0x00]" by (metis append_eq_conv_conj drop_drop add.commute)
  then have "drop (p + length q + (if r = [] then 0 else 1)) buf = tl r @ [CHR 0x00]"
    by (cases r) (auto simp: drop_Suc simp flip: tl_drop)
  moreover have "c_string (tl r)" using I s by (cases r) (auto simp: stripping_def)
  moreover have "buf ! 0 = CHR '';''" if "p + length q + (if r = [] then 0 else 1) = 1"
  proof -
    have "q = []" "p = 0" "r \<noteq> []" using that q s by (auto split: if_splits)
    then show ?thesis using buf s(3) by (cases r) auto
  qed
  ultimately show ?thesis using I s by (auto simp: stripping_def)
qed

lemma strip_transport_filter:
  "stripping kept buf p d s \<Longrightarrow> closed kept \<or> kept \<noteq> [] \<Longrightarrow>
   \<exists>buf' p' d' kept'. strip_transport_loop True buf p d = Some (buf', p', d') \<and> stripping kept' buf' p' d' []
     \<and> params_of kept' = params_of kept @ filter (\<lambda>q. \<not> transport_param q) (params_of s)"
proof (induction "length s" arbitrary: kept buf p d s rule: less_induct)
  case less
  have here: "c_str (drop p buf) = s"
    using less.prems(1) c_str_text [of s "[]"] by (simp add: stripping_def)
  show ?case
  proof (cases "s = []")
    case True
    then have "strip_transport_loop True buf p d = Some (buf, p, d)"
      using here by (subst strip_transport_loop.simps) simp
    then show ?thesis using less.prems True by auto
  next
    case False
    obtain q r where s: "s = q @ r" and q: "CHR '';'' \<notin> set q" and r: "r = [] \<or> hd r = CHR '';''"
      by (cases s rule: semis_cases) auto
    have n: "strcspn s '';'' = length q" using s q r by (cases r) (auto simp: strcspn_semi strcspn_to)
    have semi: "(if char_at s (length q) \<noteq> CHR 0x00 then 1 else 0) = (if r = [] then 0 else 1 :: nat)"
      using s r by (cases r) auto
    have cq: "c_string q" using less.prems(1) s by (simp add: stripping_def)
    have match: "list_ex (URL_PARAM_MATCH s) transport_tags \<longleftrightarrow> transport_param q"
      unfolding s by (rule match_transport [OF cq q r])
    have par: "params_of s = params_of q @ params_of (tl r)"
      using s r params_of_join [of q "tl r"] by (cases r) auto
    have shorter: "length (tl r) < length s" using False s by (cases r) auto
    show ?thesis
    proof (cases "q = [] \<or> transport_param q")
      case True
      then have "strip_transport_loop True buf p d
          = strip_transport_loop True buf (p + length q + (if r = [] then 0 else 1)) d"
        using False here n semi match by (subst strip_transport_loop.simps) (auto simp: Let_def)
      moreover have "stripping kept buf (p + length q + (if r = [] then 0 else 1)) d (tl r)"
        using True transport_param_length by (intro stripping_skip [OF less.prems(1) s False r]) auto
      moreover have "filter (\<lambda>q. \<not> transport_param q) (params_of q) = []"
        using True q by (auto simp: params_of_single)
      ultimately show ?thesis using less.hyps [OF shorter, of kept buf _ d] less.prems(2) par by auto
    next
      case keep: False
      define d1 where "d1 = (if p \<noteq> d \<and> d \<noteq> 0 then d + 1 else d)"
      define buf1 where "buf1 = (if p \<noteq> d1 then memmove buf d1 p (length q + 1) else buf)"
      define kept1 where "kept1 = (if d = 0 then q else kept @ CHR '';'' # q)"
      have "strip_transport_loop True buf p d
          = strip_transport_loop True buf1 (p + length q + (if r = [] then 0 else 1)) (d1 + length q)"
        using False here n semi match keep
        by (subst strip_transport_loop.simps) (simp add: Let_def d1_def buf1_def)
      moreover have "stripping kept1 buf1 (p + length q + (if r = [] then 0 else 1)) (d1 + length q) (tl r)"
        unfolding kept1_def using keep by (intro stripping_keep [OF less.prems(1) s _ q r d1_def buf1_def]) auto
      moreover have "params_of kept1 = params_of kept @ filter (\<lambda>q. \<not> transport_param q) (params_of q)"
      proof -
        have "d = 0 \<longrightarrow> kept = []" using less.prems(1) by (auto simp: stripping_def)
        then show ?thesis using keep q params_of_join [of kept q] by (simp add: kept1_def params_of_single)
      qed
      moreover have "kept1 \<noteq> []" using keep by (simp add: kept1_def)
      ultimately show ?thesis using less.hyps [OF shorter, of kept1 buf1 _ "d1 + length q"] par by auto
    qed
  qed
qed

lemma strip_transport_eq:
  "url_type u = url_sip \<or> url_type u = url_sips \<Longrightarrow>
   url_strip_transport u =
     (case url_params u of
        None \<Rightarrow> (False, u\<lparr>url_port := None\<rparr>)
      | Some params \<Rightarrow>
          (case strip_transport_loop True (params @ [CHR 0x00]) 0 0 of
             None \<Rightarrow> (True, u\<lparr>url_port := None\<rparr>)
           | Some (buf, p, d) \<Rightarrow>
               if d = p \<or> d + 1 = p then (False, u\<lparr>url_port := None, url_params := Some (c_str buf)\<rparr>)
               else if d \<noteq> 0 then (True, u\<lparr>url_port := None, url_params := Some (c_str (buf[d := CHR 0x00]))\<rparr>)
               else (True, u\<lparr>url_port := None, url_params := None\<rparr>)))"
proof -
  assume "url_type u = url_sip \<or> url_type u = url_sips"
  moreover have "(if url_port u \<noteq> None then u\<lparr>url_port := None\<rparr> else u) = u\<lparr>url_port := None\<rparr>" by (cases u) auto
  ultimately show ?thesis
    unfolding url_strip_transport_def url_strip_transport2_def by (auto split: option.split)
qed

text \<open>(C31) \<open>url_strip_transport\<close> takes the port and the transport parameters from a SIP URL and leaves the other
  parameters and every other part of the URL as they were; the compaction in place loses and adds nothing.\<close>

theorem strip_transport_strips:
  assumes "url_type u = url_sip \<or> url_type u = url_sips" "opt_all c_string (url_params u)"
    "url_strip_transport u = (changed, u')"
  shows "u' = u\<lparr>url_port := None, url_params := url_params u'\<rparr>
     \<and> params_of (or_empty (url_params u')) = filter (\<lambda>q. \<not> transport_param q) (params_of (or_empty (url_params u)))"
proof (cases "url_params u")
  case None
  then show ?thesis using assms strip_transport_eq [OF assms(1)] by (auto simp: or_empty_def)
next
  case (Some s)
  have init: "stripping [] (s @ [CHR 0x00]) 0 0 s" using assms(2) Some by (simp add: stripping_def)
  obtain buf p d kept where loop: "strip_transport_loop True (s @ [CHR 0x00]) 0 0 = Some (buf, p, d)"
    and I: "stripping kept buf p d []" and par: "params_of kept = filter (\<lambda>q. \<not> transport_param q) (params_of s)"
    using strip_transport_filter [OF init] by (auto simp: closed_def)
  have end_p: "drop p buf = [CHR 0x00]" and d: "d \<le> p" "take d buf = kept" "c_string kept" using I by (auto simp: stripping_def)
  have split: "buf = kept @ drop d buf" using d(2) by (metis append_take_drop_id)
  have rest: "drop d buf \<noteq> []" using end_p d(1) by (metis drop_eq_Nil list.distinct(1) order_trans drop_eq_Nil2)
  have whole: "params_of (c_str buf) = params_of kept" if "d = p \<or> d + 1 = p"
  proof (cases "d = p")
    case True
    then have "buf = kept @ CHR 0x00 # []" using split end_p by simp
    then show ?thesis using c_str_text [OF d(3), of "[]"] by metis
  next
    case False
    then have p: "p = d + 1" using that by simp
    have "buf ! d = CHR '';'' \<or> buf ! d = CHR 0x00" using I p by (cases "d = 0") (auto simp: stripping_def)
    moreover have "drop d buf = [buf ! d, CHR 0x00]"
      using end_p rest p by (metis Cons_nth_drop_Suc Suc_eq_plus1 drop_eq_Nil not_le)
    ultimately consider "buf = (kept @ '';'') @ CHR 0x00 # []" | "buf = kept @ CHR 0x00 # [CHR 0x00]" using split by force
    then show ?thesis
    proof cases
      case 1
      then have "c_str buf = kept @ '';''" using c_str_text [of "kept @ '';''" "[]"] d(3) by simp
      then show ?thesis using params_of_join [of kept "[]"] by simp
    next
      case 2
      then show ?thesis using c_str_text [OF d(3), of "[CHR 0x00]"] by metis
    qed
  qed
  have cut: "c_str (buf[d := CHR 0x00]) = kept" if "d \<noteq> 0"
  proof -
    obtain x t where "drop d buf = x # t" using rest by (cases "drop d buf") auto
    moreover have "d = length kept" using d(2) rest by (metis length_take min.absorb2 drop_eq_Nil nle_le)
    ultimately have "buf[d := CHR 0x00] = kept @ CHR 0x00 # t"
      using split by (metis list_update_length)
    then show ?thesis using c_str_text [OF d(3), of t] by simp
  qed
  have "d = 0 \<Longrightarrow> kept = []" using d(2) by simp
  then show ?thesis
    using assms(3) strip_transport_eq [OF assms(1)] Some loop par whole cut
    by (auto simp: or_empty_def split: if_splits)
qed

definition demo_transport :: url_t where
  "demo_transport = zero_url\<lparr>url_type := url_sip, url_scheme := Some ''sip'', url_host := Some ''host'',
     url_port := Some ''5060'', url_params := Some ''lr;transport=tcp;x''\<rparr>"

lemma demo_stripped:
  "url_strip_transport demo_transport = (True, demo_transport\<lparr>url_port := None, url_params := Some ''lr;x''\<rparr>)"
  by code_simp

theorem strip_transport_strips_witness:
  "params_of ''lr;x'' = filter (\<lambda>q. \<not> transport_param q) (params_of ''lr;transport=tcp;x'')"
  using strip_transport_strips [of demo_transport] demo_stripped
  by (simp add: demo_transport_def or_empty_def)

text \<open>
  The result is not whether the URL has been modified: it is false if only the port was taken, and if only an
  empty parameter was.
\<close>

theorem strip_transport_result:
  assumes "url_type u = url_sip" "url_params u = None"
  shows "url_strip_transport u = (False, u\<lparr>url_port := None\<rparr>)"
  using assms strip_transport_eq [of u] by simp

theorem strip_transport_result_witness:
  "url_strip_transport (demo_transport\<lparr>url_params := None\<rparr>) = (False, demo_transport\<lparr>url_params := None, url_port := None\<rparr>)"
  using strip_transport_result [of "demo_transport\<lparr>url_params := None\<rparr>"] by (simp add: demo_transport_def)

theorem strip_transport_empty_param:
  "url_strip_transport (demo_transport\<lparr>url_port := None, url_params := Some '';lr''\<rparr>)
     = (False, demo_transport\<lparr>url_port := None, url_params := Some ''lr''\<rparr>)"
  by code_simp

section \<open>Copies\<close>

lemma copy_fields_all:
  "b + sum_list (map text_size fs) \<le> bufsize \<Longrightarrow> copy_fields b bufsize fs = fs"
  by (induction b bufsize fs rule: copy_fields.induct) (auto simp: text_size_def)

lemma set_fields_own: "set_fields (url_fields u) (zero_url\<lparr>url_type := url_type u, url_root := url_root u\<rparr>) = u"
  by (simp add: set_fields_def url_fields_def zero_url_def)

lemma copy_exact:
  "(if sum_list (map text_size fs) \<noteq> 0 then copy_fields 0 (sum_list (map text_size fs)) fs else map (\<lambda>_. None) fs) = fs"
proof (cases "sum_list (map text_size fs) = 0")
  case True
  then have "\<forall>x\<in>set fs. x = None" by (auto simp: text_size_def split: option.splits)
  then have "map (\<lambda>_. None) fs = fs" by (intro map_idI) auto
  then show ?thesis using True by simp
qed (simp add: copy_fields_all)

lemma url_hdup_eq:
  assumes "url_xtra (Us_url u) = sum_list (map text_size fs)"
    "fs = (if constant \<noteq> None then tl (url_fields u) else url_fields u)"
    "constant = (if url_type_code (url_type u) > url_type_code url_unknown then url_scheme_of (url_type u) else None)"
  shows "url_hdup shl True (Some (Us_url u)) = Inr (Some (set_fields (if constant \<noteq> None then constant # fs else fs)
            (zero_url\<lparr>url_type := url_type u, url_root := url_root u\<rparr>)))"
proof -
  have "url_dup shl (Some (url_xtra (Us_url u))) True (Some (Us_url u)) =
      (int (sum_list (map text_size fs)), Some (set_fields (if constant \<noteq> None then constant # fs else fs)
            (zero_url\<lparr>url_type := url_type u, url_root := url_root u\<rparr>)))"
    unfolding url_dup_def Let_def option.case url_string_t.case assms(1) assms(3) [symmetric] assms(2) [symmetric]
    by (simp only: simp_thms if_True copy_exact)
  then show ?thesis by (simp add: url_hdup_def assms(1))
qed

text \<open>(C32) The block that \<open>url_hdup\<close> allocates has exactly the size the copy needs, so that its assertion never
  fails, and the copy is the URL itself, with the constant text of its scheme.\<close>

theorem url_hdup_copies:
  "url_hdup shl True (Some (Us_url u)) =
     Inr (Some (if url_type_code (url_type u) > url_type_code url_unknown then u\<lparr>url_scheme := url_scheme_of (url_type u)\<rparr> else u))"
proof (cases "url_type_code (url_type u) > url_type_code url_unknown")
  case True
  then obtain sch where sch: "url_scheme_of (url_type u) = Some sch"
    by (cases "url_type u") (auto simp: url_type_code_def url_scheme_of_def)
  let ?fs = "tl (url_fields u)"
  have size: "url_xtra (Us_url u) = sum_list (map text_size ?fs)"
    using True by (simp only: url_xtra_def url_string_t.case not_le [symmetric] if_False add_0)
  have con: "Some sch = (if url_type_code (url_type u) > url_type_code url_unknown then url_scheme_of (url_type u) else None)"
    using True sch by simp
  have copy: "set_fields (Some sch # ?fs) (zero_url\<lparr>url_type := url_type u, url_root := url_root u\<rparr>) = u\<lparr>url_scheme := Some sch\<rparr>"
    by (simp add: set_fields_def url_fields_def zero_url_def)
  have "?fs = (if Some sch \<noteq> None then ?fs else url_fields u)" by simp
  from url_hdup_eq [OF size this con, of shl] show ?thesis
    using True sch copy by simp
next
  case False
  have size: "url_xtra (Us_url u) = sum_list (map text_size (url_fields u))"
    using False by (simp add: url_xtra_def url_fields_def)
  have "None = (if url_type_code (url_type u) > url_type_code url_unknown then url_scheme_of (url_type u) else None)"
    using False by simp
  from url_hdup_eq [OF size _ this, of shl] show ?thesis using False set_fields_own [of u] by simp
qed

text \<open>\<open>url_make\<close> is the parser.\<close>

lemma url_make_parses:
  "s \<noteq> [] \<Longrightarrow> url_make shl True (Some s) = Inr (url_d shl s)"
  by (auto simp: url_make_def url_hdup_def url_dup_def url_xtra_def Let_def split: option.split)

end
