(* ===== verification/Sip_Compare.thy ===== *)
theory Sip_Compare
  imports Sip_Url_Cmp Sip_Params
begin

text \<open>
  What the comparison of URLs, the digest of a URL and the conversion of a query promise, with the inputs at
  which they do not keep it.
\<close>

section \<open>Telephone numbers\<close>

text \<open>The digits of a number without escapes.\<close>

definition tel_digits :: "string \<Rightarrow> int list" where
  "tel_digits s = map tel_lower (filter (\<lambda>a. a \<notin> set visual_separators) (map schar s))"

definition tel_plain :: "string \<Rightarrow> bool" where
  "tel_plain s \<longleftrightarrow> c_string s \<and> CHR ''%'' \<notin> set s \<and> (s = [] \<or> schar (last s) \<notin> set visual_separators)"

lemma tel_next_plain:
  assumes "tel_plain s" "s \<noteq> []"
  shows "\<exists>a t. tel_next s = (a, Some t) \<and> tel_plain t \<and> length t < length s \<and> tel_digits s = tel_lower a # tel_digits t"
  using assms
proof (induction s)
  case (Cons c s)
  have c: "c \<noteq> CHR ''%''" using Cons.prems by (auto simp: tel_plain_def)
  show ?case
  proof (cases "schar c \<in> set visual_separators")
    case True
    then have "s \<noteq> []" "tel_plain s" using Cons.prems by (auto simp: tel_plain_def split: if_splits)
    then obtain a t where "tel_next s = (a, Some t)" "tel_plain t" "length t < length s" "tel_digits s = tel_lower a # tel_digits t"
      using Cons.IH by auto
    then show ?thesis using True c by (auto simp: tel_digits_def)
  next
    case False
    then show ?thesis using c Cons.prems by (auto simp: tel_digits_def tel_plain_def)
  qed
qed simp

lemma tel_digits_Cons: "tel_plain s \<Longrightarrow> tel_digits s = [] \<longleftrightarrow> s = []"
proof (cases "s = []")
  case True
  then show ?thesis by (simp add: tel_digits_def)
next
  case False
  assume "tel_plain s"
  then obtain a t where "tel_digits s = tel_lower a # tel_digits t" using tel_next_plain False by blast
  then show ?thesis using False by simp
qed

lemma schar_0: "schar c = 0 \<longleftrightarrow> c = CHR 0x00"
  using schar_cases [of c] by (auto simp: schar_def)

text \<open>(C35) Two telephone numbers without escapes and NULs whose last character is not a separator (or that are empty)
  compare equal exactly if they have the same characters without the separators, cases ignored, and the
  comparison stays within both texts. A separator at the end breaks this, see \<open>tel_trailing_separator\<close>.\<close>

theorem tel_numbers_by_digits:
  assumes "tel_plain A" "tel_plain B"
  shows "\<exists>r. url_tel_cmp_numbers A B = Inr r \<and> (r = 0 \<longleftrightarrow> tel_digits A = tel_digits B)"
  using assms
proof (induction "length A" arbitrary: A B rule: less_induct)
  case less
  show ?case
  proof (cases "A \<noteq> [] \<and> B \<noteq> []")
    case True
    obtain a s where a: "tel_next A = (a, Some s)" "tel_plain s" "length s < length A" "tel_digits A = tel_lower a # tel_digits s"
      using tel_next_plain [OF less.prems(1)] True by blast
    obtain b t where b: "tel_next B = (b, Some t)" "tel_plain t" "tel_digits B = tel_lower b # tel_digits t"
      using tel_next_plain [OF less.prems(2)] True by blast
    obtain r where "url_tel_cmp_numbers s t = Inr r" "r = 0 \<longleftrightarrow> tel_digits s = tel_digits t"
      using less.hyps [OF a(3,2) b(2)] by blast
    then show ?thesis using a b True by (subst url_tel_cmp_numbers.simps) (auto simp: Let_def)
  next
    case False
    have "schar (char_at A 0) - schar (char_at B 0) = 0 \<longleftrightarrow> tel_digits A = tel_digits B"
    proof (cases "A = []")
      case True
      have "schar (char_at B 0) = 0 \<longleftrightarrow> B = []" using less.prems(2) by (cases B) (auto simp: schar_0 tel_plain_def)
      then show ?thesis using True tel_digits_Cons [OF less.prems(2)] schar_0 [of "CHR 0x00"] by (auto simp: tel_digits_def)
    next
      case no: False
      then have "B = []" using False by simp
      moreover have "schar (char_at A 0) \<noteq> 0" using less.prems(1) no by (cases A) (auto simp: schar_0 tel_plain_def)
      ultimately show ?thesis using no tel_digits_Cons [OF less.prems(1)] schar_0 [of "CHR 0x00"] by (auto simp: tel_digits_def)
    qed
    then show ?thesis using False by (subst url_tel_cmp_numbers.simps) auto
  qed
qed

theorem tel_numbers_by_digits_witness:
  "url_tel_cmp_numbers ''+1 (555) 123'' ''+1-555-123'' = Inr 0"
proof -
  have "tel_plain ''+1 (555) 123''" "tel_plain ''+1-555-123''" "tel_digits ''+1 (555) 123'' = tel_digits ''+1-555-123''"
    by code_simp+
  then show ?thesis using tel_numbers_by_digits [of "''+1 (555) 123''" "''+1-555-123''"] by auto
qed

text \<open>
  A separator at the end makes the same number different; if both numbers end in one, the comparison reads past the
  end of both.
\<close>

theorem tel_trailing_separator:
  "url_tel_cmp_numbers ''555-'' ''555'' = Inr 45" "url_tel_cmp_numbers ''555-'' ''555.'' = Inl Out_of_bounds"
  by code_simp+

section \<open>The comparisons\<close>

lemma and_then_0: "and_then m k = Inr 0 \<longleftrightarrow> m = Inr 0 \<and> k = Inr 0"
  by (cases m) (auto simp: and_then_def)

lemma strcmp_0: "strcmp a b = 0 \<longleftrightarrow> a = b"
  by (induction a b rule: strcmp.induct) auto

lemma cmp_text_0: "cmp_text x y = Inr 0 \<longleftrightarrow> x = y"
  by (auto simp: cmp_text_def cmp_field_def strcmp_0 split: option.splits)

text \<open>(C36) URLs that the conservative comparison finds equal are equal for the lazy one too, and agree in their type
  and in every part it compares by the letter.\<close>

theorem url_cmp_all_finer:
  assumes "url_cmp_all pton4 pton6 (Some u) (Some v) = Inr 0"
  shows "url_cmp pton4 pton6 (Some u) (Some v) = Inr 0
    \<and> url_type u = url_type v \<and> url_root u = url_root v \<and> host_cmp pton4 pton6 (url_host u) (url_host v) = Inr 0
    \<and> url_path u = url_path v \<and> url_params u = url_params v \<and> url_headers u = url_headers v
    \<and> url_fragment u = url_fragment v \<and> (\<not> is_tel (url_type u) \<longrightarrow> url_user u = url_user v)"
proof -
  have code: "url_type_code s = url_type_code t \<Longrightarrow> s = t" for s t
    by (cases s; cases t) (simp_all add: url_type_code_def)
  have all: "url_type u = url_type v" "cmp_scheme u v = 0" "url_root u = url_root v"
    "host_cmp pton4 pton6 (url_host u) (url_host v) = Inr 0" "cmp_port u v = 0" "cmp_user u v = Inr 0"
    "url_path u = url_path v" "url_params u = url_params v" "url_headers u = url_headers v" "url_fragment u = url_fragment v"
    using assms code by (auto simp: url_cmp_all_def Let_def and_then_0 cmp_text_0 of_bool_eq_iff split: if_splits)
  moreover have "\<not> is_tel (url_type u) \<Longrightarrow> url_user u = url_user v"
    using all(6) cmp_text_0 [of "url_user u" "url_user v"] by (simp add: cmp_user_def cmp_text_def)
  ultimately show ?thesis by (simp add: url_cmp_def Let_def and_then_0)
qed

definition demo_tel :: url_t where
  "demo_tel = zero_url\<lparr>url_type := url_sip, url_scheme := Some ''sip'', url_user := Some ''bob'', url_host := Some ''Example.com'',
     url_params := Some ''lr''\<rparr>"

theorem url_cmp_all_finer_witness:
  "url_cmp (\<lambda>_. None) (\<lambda>_. None) (Some demo_tel) (Some (demo_tel\<lparr>url_host := Some ''example.COM''\<rparr>)) = Inr 0"
proof -
  have "url_cmp_all (\<lambda>_. None) (\<lambda>_. None) (Some demo_tel) (Some (demo_tel\<lparr>url_host := Some ''example.COM''\<rparr>)) = Inr 0"
    by code_simp
  from url_cmp_all_finer [OF this] show ?thesis by simp
qed

text \<open>The comparisons are not a total order: the any-URL is equal to all URLs.\<close>

theorem url_cmp_any: "url_cmp pton4 pton6 (Some u) (Some (zero_url)) = Inr 0"
  by (simp add: url_cmp_def zero_url_def)

section \<open>The digest\<close>

text \<open>No escape of the text stands for a character that may be written plainly.\<close>

definition decodable :: "string \<Rightarrow> char \<Rightarrow> bool" where
  "decodable allowed c \<longleftrightarrow> c \<noteq> CHR ''%'' \<and> byte c > 32 \<and> byte c < 127 \<and> (c \<notin> set EXCLUDED \<or> c \<in> set allowed)"

definition escapes_kept :: "string \<Rightarrow> string \<Rightarrow> bool" where
  "escapes_kept allowed s \<longleftrightarrow> (\<forall>i. i + 2 < length s \<longrightarrow> s ! i = CHR ''%'' \<longrightarrow> \<not> decodable allowed (unhex2 (s ! (i + 1)) (s ! (i + 2))))"

lemma canon_update_loop_plain:
  "n \<le> length s \<Longrightarrow> c_string (take n s) \<Longrightarrow> escapes_kept allowed (take n s) \<Longrightarrow> j \<le> i \<Longrightarrow> i \<le> n \<Longrightarrow>
   canon_update_loop s n allowed i j = lowercase (take (n - j) (drop j s))"
proof (induction s n allowed i j rule: canon_update_loop.induct)
  case (1 s n allowed i j)
  show ?case
  proof (cases "i < n")
    case True
    then have i: "char_at s i = take n s ! i" "i < length (take n s)" using 1(4) by (simp_all add: char_at_def)
    then have nz: "char_at s i \<noteq> CHR 0x00" using 1(5) by (metis nth_mem)
    show ?thesis
    proof (cases "char_at s i = CHR ''%'' \<and> i + 2 < n \<and> IS_HEX (char_at s (i + 1)) \<and> IS_HEX (char_at s (i + 2))")
      case esc: True
      have "char_at s (i + 1) = take n s ! (i + 1)" "char_at s (i + 2) = take n s ! (i + 2)"
        using esc 1(4) by (auto simp: char_at_def)
      then have "\<not> decodable allowed (unhex2 (char_at s (i + 1)) (char_at s (i + 2)))"
        using 1(6) esc i 1(4) by (auto simp: escapes_kept_def)
      then show ?thesis
        using 1(2) [OF _ esc refl] 1(4-7) True nz esc
        by (subst canon_update_loop.simps) (auto simp: Let_def decodable_def)
    next
      case False
      then show ?thesis
        using 1(3) [OF _ False] 1(4-7) True nz by (subst canon_update_loop.simps) (auto simp: Let_def)
    qed
  next
    case False
    then show ?thesis using 1(7,8) by (subst canon_update_loop.simps) (auto simp: lowercase_def)
  qed
qed

lemma canon_update_plain:
  "c_string t \<Longrightarrow> escapes_kept allowed t \<Longrightarrow> canon_update (t @ r) (length t) allowed = lowercase t"
  using canon_update_loop_plain [of "length t" "t @ r" allowed 0 0] by (simp add: canon_update_def)

lemma escapes_kept_no_percent: "CHR ''%'' \<notin> set t \<Longrightarrow> escapes_kept allowed t"
  unfolding escapes_kept_def by (metis add_lessD1 nth_mem)

text \<open>A canonical text has no such escape.\<close>

lemma canonize_length: "canonize_loop syn m s = Some d \<Longrightarrow> length d \<le> length s"
proof (induction "length s" arbitrary: s d rule: less_induct)
  case less
  from less.prems show ?case
  proof (cases rule: canonize_cases)
    case (2 c t e)
    then show ?thesis using less.hyps [of t e] by simp
  next
    case (3 h1 h2 t e)
    then show ?thesis using less.hyps [of t e] by simp
  next
    case (4 h1 h2 t e)
    then show ?thesis using less.hyps [of t e] by simp
  qed simp
qed

lemma canonize_fixed:
  "canonize_loop syn m s = Some s \<Longrightarrow> i + 2 < length s \<Longrightarrow> s ! i = CHR ''%'' \<Longrightarrow> is_excluded m (unhex2 (s ! (i + 1)) (s ! (i + 2)))"
proof (induction "length s" arbitrary: s i rule: less_induct)
  case less
  from less.prems(1) show ?case
  proof (cases rule: canonize_cases)
    case (2 c t e)
    then obtain k where "i = Suc k" using less.prems(3) by (cases i) auto
    then show ?thesis using less.hyps [of t k] 2 less.prems by simp
  next
    case (3 h1 h2 t e)
    then show ?thesis using canonize_length [OF 3(5)] by simp
  next
    case (4 h1 h2 t e)
    have hex: "h \<noteq> CHR ''%''" if "IS_HEX h" for h using that by (auto simp: IS_HEX_def)
    consider "i = 0" | "i = 1" | "i = 2" | k where "i = Suc (Suc (Suc k))"
      by (metis One_nat_def Suc_1 not0_implies_Suc)
    then show ?thesis
    proof cases
      case 1
      then show ?thesis using 4 by simp
    next
      case 2
      then show ?thesis using 4 hex [of h1] less.prems(3) by simp
    next
      case 3
      then show ?thesis using 4 hex [of h2] less.prems(3) by simp
    next
      case (4 k)
      then show ?thesis using less.hyps [of t k] \<open>s = CHR ''%'' # h1 # h2 # t\<close> \<open>canonize_loop syn m t = Some e\<close>
          \<open>s = CHR ''%'' # hex_upper h1 # hex_upper h2 # e\<close> less.prems by simp
    qed
  qed (use less.prems in simp)
qed

lemma not_decodable: "is_excluded (masks_with_allowed a) c \<Longrightarrow> \<not> decodable a c" "is_excluded RESERVED_MASK c \<Longrightarrow> \<not> decodable [] c"
proof -
  have ex: "c \<in> set EXCLUDED" if "\<not> IS_UNRESERVED c" "c \<noteq> CHR ''%''" "32 < byte c" "byte c < 127" for c
  proof -
    have "\<forall>n\<in>set [33..<127]. char_of n \<in> set EXCLUDED \<or> IS_UNRESERVED (char_of n) \<or> n = 37"
      by code_simp
    moreover have "byte c \<in> set [33..<127]" using that(3,4) unfolding set_upt atLeastLessThan_iff by simp
    ultimately have "char_of (byte c) \<in> set EXCLUDED \<or> IS_UNRESERVED (char_of (byte c)) \<or> byte c = 37" by blast
    then have "c \<in> set EXCLUDED \<or> IS_UNRESERVED c \<or> byte c = 37" by (simp add: byte_def)
    moreover have "byte c \<noteq> 37" using that(2) by (auto simp: char_eq_code byte_def)
    ultimately show ?thesis using that(1) by simp
  qed
  show "is_excluded (masks_with_allowed a) c \<Longrightarrow> \<not> decodable a c"
    using ex [of c] by (auto simp: decodable_def excluded_masks_allowed excluded_reserved byte_def)
  show "is_excluded RESERVED_MASK c \<Longrightarrow> \<not> decodable [] c"
    using ex [of c] by (auto simp: decodable_def excluded_reserved)
qed

lemma in_place_fixed:
  assumes "in_place syn m s = Some s" "\<And>c. is_excluded m c \<Longrightarrow> \<not> decodable a c"
  shows "escapes_kept a s"
proof -
  let ?q = "takeWhile (\<lambda>c. c \<noteq> CHR ''%'') s" and ?r = "dropWhile (\<lambda>c. c \<noteq> CHR ''%'') s"
  obtain e where e: "canonize_loop syn m ?r = Some e" "s = ?q @ e" using assms(1) by (auto simp: in_place_def)
  then have "e = ?r" by (metis append_eq_append_conv takeWhile_dropWhile_id same_append_eq)
  then have r: "canonize_loop syn m ?r = Some ?r" using e(1) by simp
  show ?thesis
    unfolding escapes_kept_def
  proof (intro allI impI)
    fix i
    assume i: "i + 2 < length s" "s ! i = CHR ''%''"
    have "\<not> i < length ?q" using i(2) takeWhile_nth [of i "\<lambda>c. c \<noteq> CHR ''%''" s] nth_mem [of i ?q] set_takeWhileD by metis
    then obtain k where k: "i = length ?q + k" by (metis le_Suc_ex not_less)
    have at: "s ! (length ?q + j) = ?r ! j" for j by (metis nth_append_length_plus takeWhile_dropWhile_id)
    have "length s = length ?q + length ?r" by (metis length_append takeWhile_dropWhile_id)
    then have "is_excluded m (unhex2 (?r ! (k + 1)) (?r ! (k + 2)))"
      using canonize_fixed [OF r, of k] i k at [of k] by simp
    then show "\<not> decodable a (unhex2 (s ! (i + 1)) (s ! (i + 2)))"
      using assms(2) at [of "k + 1"] at [of "k + 2"] k by (simp add: add.assoc)
  qed
qed

lemma canonical_escapes:
  "canonize_user shl ty s = Some s \<Longrightarrow> ty = url_sip \<or> ty = url_sips \<Longrightarrow> escapes_kept SIP_USER_UNRESERVED s"
  "url_canonize2 shl True s 0 RESERVED_MASK = Some s \<Longrightarrow> escapes_kept [] s"
  using in_place_fixed [of _ "masks_with_allowed SIP_USER_UNRESERVED" s SIP_USER_UNRESERVED] in_place_fixed [of _ RESERVED_MASK s "[]"]
    not_decodable by (auto simp: canonize_user_def in_place_eqs)

lemma memchr_at: "c \<notin> set a \<Longrightarrow> length a < n \<Longrightarrow> memchr (a @ c # s) c n = Some (length a)"
proof -
  assume a: "c \<notin> set a" "length a < n"
  then obtain k where k: "n - length a = Suc k" by (metis Suc_diff_Suc)
  then have "take n (a @ c # s) = a @ c # take k s" using a(2) by simp
  then show ?thesis using strcspn_to [OF a(1), of "take k s"] by (simp add: memchr_def del: take_append)
qed

lemma memchr_none: "c \<notin> set a \<Longrightarrow> memchr (a @ s) c (length a) = None"
proof -
  assume "c \<notin> set a"
  then have "strcspn a [c] = length a" by (induction a) auto
  then show ?thesis by (simp add: memchr_def)
qed

lemma c_string_append: "c_string (a @ b) \<longleftrightarrow> c_string a \<and> c_string b" by auto

lemma url_port_plain: "port_ok p \<Longrightarrow> c_string p \<Longrightarrow> canon_update (p @ r) (length p) [] = lowercase p"
  using port_chars [of p] by (intro canon_update_plain escapes_kept_no_percent) (auto simp: avoids_mem)

lemma host_update_canonical:
  assumes "host_form h" "opt_all port_ok p" "c_string (h @ delimited (CHR '':'') p)" "escapes_kept [] h"
  shows "host_update ty ((h @ delimited (CHR '':'') p) @ r) (length (h @ delimited (CHR '':'') p))
    = lowercase h @ lowercase (case p of None \<Rightarrow> url_port_default ty | Some t \<Rightarrow> t)"
proof -
  have h: "h \<noteq> []" using assms(1) by (simp add: host_form_def)
  have low: "lowercase (url_port_default ty) = url_port_default ty"
    by (cases ty) (simp_all add: url_port_default_def lowercase_def c_tolower_def)
  let ?s = "(h @ delimited (CHR '':'') p) @ r" and ?n = "length (h @ delimited (CHR '':'') p)"
  let ?colon = "if p = None then None else Some (length h)"
  have colon: "(if ?n > 0 \<and> char_at ?s 0 = CHR ''['' then
       (case memchr ?s (CHR '']'') ?n of None \<Rightarrow> None
        | Some k \<Rightarrow> if k + 1 = ?n \<or> char_at ?s (k + 1) \<noteq> CHR '':'' then None else Some (k + 1))
     else memchr ?s (CHR '':'') ?n) = ?colon"
  proof (cases "hd h = CHR ''[''")
    case True
    then obtain x where x: "h = x @ '']''" "CHR '']'' \<notin> set x"
      using assms(1) h by (auto simp: host_form_def) (metis append_butlast_last_id)
    have m: "memchr ?s (CHR '']'') ?n = Some (length x)"
      using memchr_at [OF x(2), of ?n "delimited (CHR '':'') p @ r"] x(1) by simp
    have "char_at ?s (length x + 1) = char_at (delimited (CHR '':'') p @ r) 0"
      using char_at_append(1) [of h "delimited (CHR '':'') p @ r"] x(1) by simp
    then have "length x + 1 = ?n \<or> char_at ?s (length x + 1) \<noteq> CHR '':'' \<longleftrightarrow> p = None" using x(1) by (cases p) auto
    moreover have "char_at ?s 0 = CHR ''[''" "?n > 0" using True h by (cases h; simp)+
    ultimately show ?thesis using m x(1) by simp
  next
    case False
    then have n: "CHR '':'' \<notin> set h" using assms(1) by (auto simp: host_form_def)
    have "char_at ?s 0 \<noteq> CHR ''[''" using False h by (cases h) simp_all
    then show ?thesis using memchr_none [OF n, of r] memchr_at [OF n, of ?n] by (cases p) simp_all
  qed
  have canon: "canon_update (h @ q) (length h) [] = lowercase h" for q
    using assms(3,4) by (intro canon_update_plain) auto
  show ?thesis unfolding host_update_def colon
    using canon [of r] canon [of "delimited (CHR '':'') p @ r"] url_port_plain [of "the p" r] assms(2,3) low
    by (cases p) auto
qed

lemma user_host_update_canonical:
  assumes "ty \<noteq> url_unknown" "avoids us '':@''" "c_string us" "escapes_kept SIP_USER_UNRESERVED us"
    and "strcspn rest ''/;?#'' = m"
  shows "user_host_update ty (us @ delimited (CHR '':'') pw @ CHR ''@'' # rest) (length (us @ delimited (CHR '':'') pw))
    = lowercase us @ host_update ty rest m"
proof -
  let ?s = "us @ delimited (CHR '':'') pw @ CHR ''@'' # rest" and ?n = "length (us @ delimited (CHR '':'') pw)"
  have u: "CHR '':'' \<notin> set us" using assms(2) by (simp add: avoids_mem)
  have "memchr ?s (CHR '':'') ?n = (if pw = None then None else Some (length us))"
    using memchr_none [OF u] memchr_at [OF u, of ?n] by (cases pw) simp_all
  moreover have "drop (?n + 1) ?s = rest" by simp
  moreover have "canon_update ?s (length us) SIP_USER_UNRESERVED = lowercase us"
    using assms(3,4) by (intro canon_update_plain) auto
  ultimately show ?thesis using assms(1,5) by (cases pw) (simp_all add: user_host_update_def Let_def)
qed

lemma authority_update_user:
  assumes "is_sip ty" "CHR ''@'' \<notin> set t"
  shows "authority_update ty (t @ CHR ''@'' # r) = user_host_update ty (t @ CHR ''@'' # r) (length t)"
proof -
  let ?s = "t @ CHR ''@'' # r"
  have n: "strcspn ?s ''@/;?#'' + strcspn (drop (strcspn ?s ''@/;?#'') ?s) ''@'' = length t"
    by (rule first_at [OF assms(2)]) simp
  show ?thesis unfolding authority_update_def Let_def n using assms(1) by simp
qed

lemma authority_update_host:
  assumes "is_sip ty" "CHR ''@'' \<notin> set s"
  shows "authority_update ty s = CHR 0x00 # host_update ty s (strcspn s ''/;?#'')"
proof -
  let ?n = "strcspn s ''@/;?#''"
  have n: "?n + strcspn (drop ?n s) ''/;?#'' = strcspn s ''/;?#''"
    using sip_authority_none [OF assms(2)] unfolding sip_authority_def Let_def by (auto split: if_splits)
  have "char_at s k \<noteq> CHR ''@''" for k using assms(2) by (auto simp: char_at_def dest: nth_mem)
  then show ?thesis unfolding authority_update_def Let_def n using assms(1) by simp
qed

lemma sip_scheme_canonized:
  assumes "url_get_type sch = ty" "ty = url_sip \<or> ty = url_sips"
  shows "url_canonize shl False sch 0 a = Some sch"
proof -
  have plain: "canonize_loop (is_syn33 shl 0) (masks_with_allowed a) s = Some s"
    if "list_all (\<lambda>c. c_tolower c \<in> set ''sip'') s" for s
    using that
  proof (induction s)
    case (Cons c s)
    then have c: "c \<in> set ''sipSIP''"
      by (auto simp: c_tolower_def Let_def char_eq_code split: if_splits)
    then have "IS_UNRESERVED c" "c \<noteq> CHR ''%''" by (auto simp: IS_UNRESERVED_def)
    then show ?case using Cons unreserved_allowed(1) [of c a] by simp
  qed simp
  show ?thesis using plain [OF sip_scheme(4) [OF assms]] by (simp add: url_canonize_def url_canonize2_def)
qed

lemma url_update_encoded:
  assumes "sip_canonical shl u" "c_string (url_encoded u)"
  shows "url_update shl (Us_str (url_encoded u)) = url_update shl (Us_url u)"
proof -
  obtain sch h where c: "url_scheme u = Some sch" "url_get_type sch = url_type u" "url_type u = url_sip \<or> url_type u = url_sips"
      "url_host u = Some h" "host_form h" "avoids h ''/;?#''" "no_at u h" "url_canonize2 shl True h 0 RESERVED_MASK = Some h"
    using assms(1) by (auto elim!: canonicalD)
  have sip: "is_sip (url_type u)" "url_type u \<noteq> url_unknown" using c(3) by (auto simp: is_sip_def)
  note f = assms(1) [unfolded sip_canonical_def]
  let ?h = "host_text u" and ?r = "rest_text u"
  have enc: "url_encoded u = sch @ CHR '':'' # authority_text u @ ?r" by (rule url_encoded_canonical [OF assms(1) c(1)])
  have port: "opt_all port_ok (url_port u)" using f by blast
  have hc: "?h = h @ delimited (CHR '':'') (url_port u)" using c(4) by (simp add: host_text_def)
  have ends: "avoids ?h ''/;?#''" "?r = [] \<or> hd ?r \<in> set ''/;?#''"
    using c(6) port port_chars unfolding hc
    by (cases "url_port u"; auto simp: avoids_mem rest_text_def)
       (cases "url_params u"; cases "url_headers u"; simp add: rest_text_def)+
  have m: "strcspn (?h @ ?r) ''/;?#'' = length ?h" by (rule strcspn_end [OF ends])
  have host: "host_update (url_type u) (?h @ ?r) (length ?h) = lowercase h @ lowercase (URL_PORT u)"
  proof -
    have "c_string (h @ delimited (CHR '':'') (url_port u))"
      using assms(2) unfolding enc authority_text_def hc by (auto split: option.splits)
    then show ?thesis
      using host_update_canonical [OF c(5) port, of "url_type u" ?r] canonical_escapes(2) [OF c(8)]
      unfolding hc by (cases "url_port u") (simp_all add: URL_PORT_def)
  qed
  have auth: "authority_update (url_type u) (authority_text u @ ?r) = STRI0UPDATE (url_user u) @ lowercase h @ lowercase (URL_PORT u)"
  proof (cases "url_user u")
    case None
    then have "CHR ''@'' \<notin> set (?h @ ?r)"
      using f c(4,7) port port_chars unfolding hc
      by (cases "url_port u"; cases "url_params u"; cases "url_headers u"; auto simp: avoids_mem no_at_def rest_text_def)
    then have "authority_update (url_type u) (?h @ ?r) = CHR 0x00 # lowercase h @ lowercase (URL_PORT u)"
      using authority_update_host [OF sip(1)] m host by simp
    then show ?thesis using None by (simp add: authority_text_def user_text_def STRI0UPDATE_def)
  next
    case (Some us)
    let ?t = "us @ delimited (CHR '':'') (url_password u)"
    have us: "avoids us '':@''" "canonize_user shl (url_type u) us = Some us"
      and pw: "opt_all (\<lambda>t. avoids t ''@'') (url_password u)" using f Some by (auto simp: opt_all_def split: option.splits)
    have "c_string us" using assms(2) Some unfolding enc authority_text_def user_text_def by auto
    then have "user_host_update (url_type u) (us @ delimited (CHR '':'') (url_password u) @ CHR ''@'' # ?h @ ?r) (length ?t)
        = lowercase us @ lowercase h @ lowercase (URL_PORT u)"
      using user_host_update_canonical [OF sip(2) us(1) _ canonical_escapes(1) [OF us(2) c(3)] m] host by simp
    moreover have "CHR ''@'' \<notin> set ?t" using us(1) pw by (cases "url_password u") (auto simp: avoids_mem)
    ultimately show ?thesis
      using authority_update_user [OF sip(1), of ?t "?h @ ?r"] Some by (simp add: authority_text_def user_text_def STRI0UPDATE_def)
  qed
  have s: "avoids sch '':/?#''" "sch \<noteq> []" "length sch \<le> 4"
    using sip_scheme(1,2,5) [OF c(2,3)] by (auto simp: avoids_mem)
  have n: "strcspn (url_encoded u) '':/?#'' = length sch" unfolding enc by (rule strcspn_end [OF s(1)]) simp
  have "\<not> url_type_is_opaque (url_type u)" using c(3) by (auto simp: url_type_is_opaque_def)
  moreover have "url_encoded u \<noteq> ''*''" "url_encoded u \<noteq> []" using s(2) unfolding enc by (cases sch; simp)+
  moreover have "char_at (url_encoded u) (length sch) = CHR '':''" "take (length sch) (url_encoded u) = sch"
    "drop (length sch + 1) (url_encoded u) = authority_text u @ ?r" unfolding enc by simp_all
  moreover have "url_canonize shl False sch 0 ''+'' = Some sch" by (rule sip_scheme_canonized [OF c(2,3)])
  ultimately have "url_string_update shl (Some (url_encoded u)) = Inr (lowercase sch @ authority_update (url_type u) (authority_text u @ ?r))"
    using s(2,3) unfolding url_string_update_def Let_def option.case n by (simp add: c(2))
  then show ?thesis using auth c(1,4) by (simp add: url_update_def STRI0UPDATE_def)
qed

text \<open>
  A text of a URL and its structure have the same digest (C33): what \<open>url_update\<close> feeds to the MD5 sum for a SIP
  or SIPS URL in canonical form is what it feeds for the text the URL is written as.
\<close>

theorem digest_of_text:
  assumes "sip_canonical shl u" "c_string (URL_PRINT u)"
  shows "url_update shl (Us_str (URL_PRINT u)) = url_update shl (Us_url u)"
proof -
  have "url_type u \<noteq> url_any" using assms(1) by (auto simp: sip_canonical_def)
  then show ?thesis using assms url_update_encoded by (simp add: URL_PRINT_encoded)
qed

theorem digest_of_text_witness:
  "url_update demo_shl (Us_str ''sip:bob;x:pw@[::1]:5060;transport=udp?subject=hi'') = Inr ''sipbob;x[::1]5060''"
proof -
  have p: "URL_PRINT demo_url = ''sip:bob;x:pw@[::1]:5060;transport=udp?subject=hi''"
    using URL_PRINT_encoded [of demo_url] demo_text by (simp add: demo_url_def)
  have "url_update demo_shl (Us_url demo_url) = Inr ''sipbob;x[::1]5060''" by code_simp
  then show ?thesis using digest_of_text [OF demo_canonical] unfolding p by simp
qed

text \<open>
  The fields are fed one after the other, although the macro's name and comment promise a NUL after each: URLs that
  differ have the same digest.
\<close>

theorem digest_collision:
  fixes u v :: url_t
  defines "u \<equiv> zero_url\<lparr>url_type := url_sip, url_scheme := Some ''sip'', url_user := Some ''ab'', url_host := Some ''c''\<rparr>"
    and "v \<equiv> zero_url\<lparr>url_type := url_sip, url_scheme := Some ''sip'', url_user := Some ''a'', url_host := Some ''bc''\<rparr>"
  shows "url_update shl (Us_url u) = url_update shl (Us_url v) \<and> URL_PRINT u = ''sip:ab@c'' \<and> URL_PRINT v = ''sip:a@bc''"
  unfolding u_def v_def by (simp add: url_update_def STRI0UPDATE_def lowercase_def URL_PORT_def zero_url_def) code_simp

section \<open>The query as header lines\<close>

definition query_field :: "string \<times> string \<Rightarrow> string" where
  "query_field f = fst f @ CHR ''='' # url_escape (Some (snd f)) None"

definition header_line :: "string \<times> string \<Rightarrow> string" where
  "header_line f = fst f @ CHR '':'' # snd f"

text \<open>Texts with a character between each two.\<close>

fun glued :: "char \<Rightarrow> string list \<Rightarrow> string" where
  "glued x [] = []"
| "glued x [s] = s"
| "glued x (s # t # ts) = s @ x # glued x (t # ts)"

definition header_ok :: "string \<times> string \<Rightarrow> bool" where
  "header_ok f \<longleftrightarrow> c_string (fst f) \<and> c_string (snd f) \<and> CHR ''='' \<notin> set (fst f) \<and> folded (fst f) \<noteq> folded ''body''"

lemma escaped_chars: "set (url_escape (Some s) None) \<inter> {CHR ''&'', CHR ''='', CHR 0x00} = {}"
proof -
  have "c = CHR ''%'' \<or> IS_UNRESERVED c" if "c \<in> set (url_escape (Some s) None)" for c
    using that escape_is_safe(2) [of "Some s"] by (auto simp: list_all_iff)
  moreover have "\<not> (c = CHR ''%'' \<or> IS_UNRESERVED c)" if "c \<in> {CHR ''&'', CHR ''='', CHR 0x00}" for c
    using that by (auto simp: IS_UNRESERVED_def)
  ultimately show ?thesis by blast
qed

lemma unescape_shorter: "length (unescape_loop s) \<le> length s"
proof (induction s rule: unescape_loop.induct)
  case (2 c s)
  show ?case
  proof (cases s rule: remdups_adj.cases)
    case (3 h1 h2 t)
    have "length (unescape_loop t) \<le> length t" if "c = CHR ''%''" "IS_HEX h1" "IS_HEX h2"
      using 2 3 that by simp
    moreover have "length (unescape_loop s) \<le> length s" if "\<not> (c = CHR ''%'' \<and> IS_HEX h1 \<and> IS_HEX h2)"
      using 2 3 that by simp
    ultimately show ?thesis using 3 by (auto simp del: unescape_loop.simps(2) simp add: unescape_loop.simps(2) [of c "h1 # h2 # t"])
  qed (use 2 in simp_all)
qed simp

lemma query_loop_field:
  assumes "CHR ''='' \<notin> set n" "c_string q" "folded n \<noteq> folded ''body''" "CHR ''&'' \<notin> set e" "r = [] \<or> hd r = CHR ''&''"
    and "q = pre @ n @ CHR ''='' # e @ r" "i = length pre + length n + 1 + length e"
  shows "query_loop q (length pre) out bs bl =
    (if r = [] then Inr (i, out @ n @ CHR '':'' # unescape_loop e, bs, bl)
     else query_loop q (i + 1) (out @ n @ CHR '':'' # unescape_loop e @ [CHR 0x0A]) bs bl)"
proof -
  let ?rest = "n @ CHR ''='' # e @ r"
  have d: "drop (length pre) q = ?rest" "drop (length pre + length n + 1) q = e @ r" using assms(6) by simp_all
  have k: "strcspn ?rest ''='' = length n" by (rule strcspn_to [OF assms(1)])
  have m: "strcspn (e @ r) ''&'' = length e" using assms(4,5) by (intro strcspn_end) (auto simp: avoids_mem)
  have body: "\<exists>c. (if length n = 4 then su_strncasecmp False (Some ?rest) (Some ''body'') 4 else Inr 1) = Inr c \<and> c \<noteq> 0"
  proof (cases "length n = 4")
    case True
    have "c_string ?rest" using assms(2,6) by auto
    then obtain c where "su_strncasecmp False (Some ?rest) (Some ''body'') 4 = Inr c"
        "c = 0 \<longleftrightarrow> take 4 (folded ?rest) = take 4 (folded ''body'')"
      using strncasecmp_order [of ?rest "''body''" False 4] True by auto
    moreover have "take 4 (folded ?rest) = folded n" "take 4 (folded ''body'') = folded ''body''"
      using True by (simp_all add: folded_def)
    ultimately show ?thesis using True assms(3) by auto
  qed simp
  have at: "char_at q i = (if r = [] then CHR 0x00 else hd r)"
    using assms(6,7) by (cases r) (auto simp: char_at_def nth_append)
  have u: "url_unescape_to (Some (e @ r)) (length e) = unescape_loop e"
    by (simp add: url_unescape_to_def Let_def unescape_prefix)
  have nz: "r \<noteq> [] \<Longrightarrow> hd r \<noteq> CHR 0x00" using assms(5) by auto
  obtain c where c: "(if length n = 4 then su_strncasecmp False (Some ?rest) (Some ''body'') 4 else Inr 1) = Inr c" "c \<noteq> 0"
    using body by blast
  have i: "length pre + length n + 1 + length e = i" using assms(7) by simp
  show ?thesis
    by (subst query_loop.simps) (simp only: Let_def d k m c(1) u i at andthen_simps, use c(2) nz i at in simp)
qed

lemma query_loop_fields:
  assumes "fs \<noteq> []" "list_all header_ok fs" "q = pre @ glued (CHR ''&'') (map query_field fs)" "c_string q"
  shows "query_loop q (length pre) out bs bl = Inr (length q, out @ glued (CHR 0x0A) (map header_line fs), bs, bl)"
  using assms
proof (induction fs arbitrary: pre out)
  case (Cons f fs)
  obtain n v where f: "f = (n, v)" by fastforce
  let ?e = "url_escape (Some v) None" and ?i = "length pre + length n + 1 + length (url_escape (Some v) None)"
  let ?r = "if fs = [] then [] else CHR ''&'' # glued (CHR ''&'') (map query_field fs)"
  have q: "q = pre @ n @ CHR ''='' # ?e @ ?r"
    using Cons.prems(3) f by (cases fs) (simp_all add: query_field_def [of "(n, v)"])
  have e: "CHR ''&'' \<notin> set ?e" using escaped_chars [of v] by auto
  have v: "unescape_loop ?e = v" using unescape_of_escape [of v None] by (simp add: url_unescape_loop)
  have ok: "CHR ''='' \<notin> set n" "folded n \<noteq> folded ''body''" using Cons.prems(2) f by (simp_all add: header_ok_def)
  have step: "query_loop q (length pre) out bs bl =
      (if ?r = [] then Inr (?i, out @ n @ CHR '':'' # v, bs, bl)
       else query_loop q (?i + 1) (out @ n @ CHR '':'' # v @ [CHR 0x0A]) bs bl)"
    using query_loop_field [OF ok(1) Cons.prems(4) ok(2) e _ q refl, of out bs bl] unfolding v by simp
  show ?case
  proof (cases "fs = []")
    case True
    then show ?thesis using step q f by (simp add: header_line_def)
  next
    case False
    define P where "P = pre @ n @ CHR ''='' # ?e @ ''&''"
    have P: "q = P @ glued (CHR ''&'') (map query_field fs)" "length P = ?i + 1" using q False by (simp_all add: P_def)
    have "query_loop q (length P) (out @ n @ CHR '':'' # v @ [CHR 0x0A]) bs bl
        = Inr (length q, (out @ n @ CHR '':'' # v @ [CHR 0x0A]) @ glued (CHR 0x0A) (map header_line fs), bs, bl)"
      using Cons.prems(2) by (intro Cons.IH [OF False _ P(1) Cons.prems(4)]) simp
    moreover obtain g gs where "fs = g # gs" using False by (cases fs) auto
    ultimately show ?thesis using step False f unfolding P(2) by (simp add: header_line_def [of "(n, v)"])
  qed
qed simp

lemma glued_length: "length (glued x (map header_line fs)) \<le> length (glued y (map query_field fs))"
proof -
  have "length (header_line f) \<le> length (query_field f)" for f
    using unescape_shorter [of "url_escape (Some (snd f)) None"] unescape_of_escape [of "snd f" None]
    by (simp add: header_line_def query_field_def url_unescape_loop)
  then show ?thesis
  proof (induction fs rule: remdups_adj.induct)
    case (3 f g fs)
    then have "length (glued x (map header_line (g # fs))) \<le> length (glued y (map query_field (g # fs)))"
      by (cases "f = g") simp_all
    then show ?case using 3(3) [of f] by (simp add: add_mono)
  qed simp_all
qed

lemma glued_c_string: "list_all header_ok fs \<Longrightarrow> x \<noteq> CHR 0x00 \<Longrightarrow>
    c_string (glued x (map query_field fs)) \<and> c_string (glued x (map header_line fs))"
proof (induction fs rule: remdups_adj.induct)
  case (2 f)
  then show ?case using escaped_chars [of "snd f"] by (auto simp: header_ok_def query_field_def header_line_def)
next
  case (3 f g fs)
  have "c_string (query_field f)" "c_string (header_line f)"
    using 3(3) escaped_chars [of "snd f"] by (auto simp: header_ok_def query_field_def header_line_def)
  moreover have "c_string (glued x (map query_field (g # fs))) \<and> c_string (glued x (map header_line (g # fs)))"
    using 3 by (cases "f = g") auto
  ultimately show ?case using 3(4) by simp
qed simp

lemma query_lines:
  assumes "list_all header_ok fs"
  shows "url_query_as_header_string True (glued (CHR ''&'') (map query_field fs))
    = Inr (Some (glued (CHR 0x0A) (map header_line fs)))"
proof -
  let ?q = "glued (CHR ''&'') (map query_field fs)" and ?h = "glued (CHR 0x0A) (map header_line fs)"
  have c: "c_string ?q" "c_string ?h"
    using glued_c_string [OF assms, of "CHR ''&''"] glued_c_string [OF assms, of "CHR 0x0A"] by simp_all
  have "query_loop ?q 0 [] 0 0 = Inr (length ?q, ?h, 0, 0)"
  proof (cases "fs = []")
    case True
    then show ?thesis by (subst query_loop.simps) simp
  next
    case False
    then show ?thesis using query_loop_fields [OF _ assms, of ?q "[]" "[]" 0 0] c(1) by simp
  qed
  moreover have "length ?h \<le> length ?q" by (rule glued_length)
  moreover have "c_str ?h = ?h" using c(2) by (auto simp: c_str_def takeWhile_eq_all_conv)
  ultimately show ?thesis by (simp add: url_query_as_header_string_def)
qed

text \<open>
  The headers of a URL come back from its query (C34). If the query lists fields whose values were escaped by
  \<open>url_escape\<close> and none is called \<open>body\<close> (and the names are as \<open>header_ok\<close> says), the result is, for each field
  in order, its name, a colon and its value as it was before escaping, with a line end between two fields, and
  the assertion that it fits the copy of the query holds. A line end inside a value is kept and starts a line
  of its own, see \<open>query_injects_header\<close>.
\<close>

theorem query_gives_headers:
  assumes "list_all header_ok fs"
  shows "url_query_as_header_string True (glued (CHR ''&'') (map query_field fs))
    = Inr (Some (glued (CHR 0x0A) (map header_line fs)))"
  by (rule query_lines [OF assms])

theorem query_gives_headers_witness:
  "url_query_as_header_string True ''subject=a%26b&priority=urgent'' = Inr (Some (''subject:a&b'' @ CHR 0x0A # ''priority:urgent''))"
proof -
  let ?fs = "[(''subject'', ''a&b''), (''priority'', ''urgent'')]"
  have "list_all header_ok ?fs" by code_simp
  moreover have "glued (CHR ''&'') (map query_field ?fs) = ''subject=a%26b&priority=urgent''" by code_simp
  moreover have "glued (CHR 0x0A) (map header_line ?fs) = ''subject:a&b'' @ CHR 0x0A # ''priority:urgent''" by code_simp
  ultimately show ?thesis using query_gives_headers [of ?fs] by metis
qed

text \<open>
  An escaped line end in a value starts a header line of its own; a second body makes the whole query fail.
\<close>

theorem query_injects_header:
  "url_query_as_header_string True ''subject=hi%0APriority%3Aurgent'' = Inr (Some (''subject:hi'' @ CHR 0x0A # ''Priority:urgent''))"
proof -
  let ?fs = "[(''subject'', ''hi'' @ CHR 0x0A # ''Priority:urgent'')]"
  have "list_all header_ok ?fs" by code_simp
  moreover have "glued (CHR ''&'') (map query_field ?fs) = ''subject=hi%0APriority%3Aurgent''" by code_simp
  moreover have "glued (CHR 0x0A) (map header_line ?fs) = ''subject:hi'' @ CHR 0x0A # ''Priority:urgent''" by code_simp
  ultimately show ?thesis using query_lines [of ?fs] by metis
qed

theorem query_second_body: "url_query_as_header_string True ''body=a&Body=b'' = Inr None"
proof -
  have b: "su_strncasecmp False (Some ''body=a&Body=b'') (Some ''body'') 4 = Inr 0"
    "su_strncasecmp False (Some ''Body=b'') (Some ''body'') 4 = Inr 0" by code_simp+
  have "query_loop ''body=a&Body=b'' 0 [] 0 0 = query_loop ''body=a&Body=b'' 7 [] 5 1"
    by (subst query_loop.simps) (simp add: Let_def b char_at_def, simp add: eval_nat_numeral)
  moreover have "query_loop ''body=a&Body=b'' 7 [] 5 1 = Inr (7, [], 5, 1)"
    by (subst query_loop.simps) (simp add: Let_def b)
  ultimately show ?thesis by (simp add: url_query_as_header_string_def char_at_def)
qed

end
